(* ===== verification/Prelude.thy ===== *)
theory Prelude
  imports Complex_Main "HOL-Library.Multiset"
begin

text \<open>
  Shared vocabulary of the development: the machine integers of the Rust code, written out over
  \<open>int\<close> and \<open>nat\<close> with their wrap-around and saturation, the lemma collections, and the
  facts on lists and options that several components use.

  An \<open>i64\<close> is an \<open>int\<close>; arithmetic the code writes with \<open>+\<close> goes through
  \<open>wrap_i64\<close> (the release profile does not check overflow), \<open>saturating_add\<close> through
  \<open>sat_i64\<close>. A \<open>u64\<close>, \<open>u32\<close>, \<open>u16\<close> or \<open>usize\<close> is a \<open>nat\<close>;
  a cast \<open>as i64\<close> of a \<open>u64\<close> is \<open>u64_as_i64\<close>, which is negative from
  \<open>2 ^ 63\<close> on, as in Rust. A \<open>Duration\<close> is a number of nanoseconds.
\<close>

named_theorems i64_simps \<open>machine arithmetic inside its range\<close>
named_theorems frame \<open>what an operation leaves alone\<close>

subsection \<open>Machine integers\<close>

definition i64_min :: int where
  "i64_min = - (2 ^ 63)"

definition i64_max :: int where
  "i64_max = 2 ^ 63 - 1"

definition u64_max :: nat where
  "u64_max = 2 ^ 64 - 1"

definition in_i64 :: "int \<Rightarrow> bool" where
  "in_i64 x \<longleftrightarrow> i64_min \<le> x \<and> x \<le> i64_max"

definition wrap_i64 :: "int \<Rightarrow> int" where
  "wrap_i64 x = (x + 2 ^ 63) mod 2 ^ 64 - 2 ^ 63"

definition sat_i64 :: "int \<Rightarrow> int" where
  "sat_i64 x = max i64_min (min i64_max x)"

definition u64_as_i64 :: "nat \<Rightarrow> int" where
  "u64_as_i64 n = wrap_i64 (int n)"

definition inc_u32 :: "nat \<Rightarrow> nat" where
  "inc_u32 n = Suc n mod 2 ^ 32"

lemma wrap_i64_in_range [i64_simps]: "in_i64 x \<Longrightarrow> wrap_i64 x = x"
  by (simp add: in_i64_def i64_min_def i64_max_def wrap_i64_def)

lemma in_i64_wrap [simp]: "in_i64 (wrap_i64 x)"
  by (simp add: in_i64_def i64_min_def i64_max_def wrap_i64_def)

lemma in_i64_sat [simp]: "in_i64 (sat_i64 x)"
  by (simp add: in_i64_def sat_i64_def i64_min_def i64_max_def)

lemma sat_i64_in_range [i64_simps]: "in_i64 x \<Longrightarrow> sat_i64 x = x"
  by (simp add: in_i64_def sat_i64_def)

lemma u64_as_i64_small [i64_simps]: "n < 2 ^ 63 \<Longrightarrow> u64_as_i64 n = int n"
  by (simp add: u64_as_i64_def wrap_i64_def)

lemma u64_max_as_i64: "u64_as_i64 u64_max = - 1"
  by (simp add: u64_as_i64_def wrap_i64_def u64_max_def)

subsection \<open>Durations, in nanoseconds\<close>

definition from_secs :: "nat \<Rightarrow> nat" where
  "from_secs s = s * 1000000000"

definition from_millis :: "nat \<Rightarrow> nat" where
  "from_millis ms = ms * 1000000"

definition as_millis :: "nat \<Rightarrow> nat" where
  "as_millis d = d div 1000000"

lemma as_millis_from_millis [simp]: "as_millis (from_millis ms) = ms"
  by (simp add: as_millis_def from_millis_def)

subsection \<open>Lists and options\<close>

text \<open>The stable partition both the planner and the text loop use: first the elements that
  satisfy \<open>P\<close>, then the others, each in its old order.\<close>

definition stable_partition :: "('a \<Rightarrow> bool) \<Rightarrow> 'a list \<Rightarrow> 'a list" where
  "stable_partition P xs = filter P xs @ filter (\<lambda>x. \<not> P x) xs"

lemma mset_stable_partition [simp]: "mset (stable_partition P xs) = mset xs"
  by (induction xs) (simp_all add: stable_partition_def)

lemma set_stable_partition [simp]: "set (stable_partition P xs) = set xs"
  by (metis mset_stable_partition set_mset_mset)

lemma length_stable_partition [simp]: "length (stable_partition P xs) = length xs"
  by (metis mset_stable_partition size_mset)

lemma filter_stable_partition [simp]:
  "filter P (stable_partition P xs) = filter P xs"
  "filter (\<lambda>x. \<not> P x) (stable_partition P xs) = filter (\<lambda>x. \<not> P x) xs"
  by (simp_all add: stable_partition_def)

lemma stable_partition_all: "\<forall>x \<in> set xs. \<not> P x \<Longrightarrow> stable_partition P xs = xs"
  by (simp add: stable_partition_def)

lemma mset_rotate [simp]: "mset (rotate n xs) = mset xs"
  by (metis append_take_drop_id mset_append rotate_drop_take union_commute)

lemma find_SomeD: "List.find P xs = Some x \<Longrightarrow> x \<in> set xs \<and> P x"
  by (auto simp: find_Some_iff)

lemma filter_all_or_none:
  "filter P xs = [] \<longleftrightarrow> (\<forall>x \<in> set xs. \<not> P x)"
  by (simp add: filter_empty_conv)

lemma set_map_filter: "set (List.map_filter f xs) = {y. \<exists>x \<in> set xs. f x = Some y}"
  by (induction xs) (auto simp: map_filter_simps split: option.splits)

lemma map_filter_Nil: "List.map_filter f xs = [] \<longleftrightarrow> (\<forall>x \<in> set xs. f x = None)"
  by (induction xs) (auto simp: map_filter_simps split: option.splits)

text \<open>A loop that rewrites every element of a list and threads a state through.\<close>

fun map_state :: "('a \<Rightarrow> 's \<Rightarrow> 'b \<times> 's) \<Rightarrow> 'a list \<Rightarrow> 's \<Rightarrow> 'b list \<times> 's" where
  "map_state f [] s = ([], s)"
| "map_state f (x # xs) s =
     (case f x s of (y, s1) \<Rightarrow> (case map_state f xs s1 of (ys, s2) \<Rightarrow> (y # ys, s2)))"

text \<open>A loop over a list that stops at the first error (\<open>?\<close>): one result per element, or a state
  threaded through.\<close>

fun map_result :: "('a \<Rightarrow> 'e + 'b) \<Rightarrow> 'a list \<Rightarrow> 'e + 'b list" where
  "map_result f [] = Inr []"
| "map_result f (x # xs) =
     (case f x of
        Inl e \<Rightarrow> Inl e
      | Inr y \<Rightarrow> (case map_result f xs of Inl e \<Rightarrow> Inl e | Inr ys \<Rightarrow> Inr (y # ys)))"

fun fold_result :: "('a \<Rightarrow> 's \<Rightarrow> 'e + 's) \<Rightarrow> 'a list \<Rightarrow> 's \<Rightarrow> 'e + 's" where
  "fold_result f [] s = Inr s"
| "fold_result f (x # xs) s = (case f x s of Inl e \<Rightarrow> Inl e | Inr s1 \<Rightarrow> fold_result f xs s1)"

lemma map_result_Inr:
  "map_result f xs = Inr ys \<longleftrightarrow> list_all2 (\<lambda>x y. f x = Inr y) xs ys"
proof (induction xs arbitrary: ys)
  case (Cons x xs)
  show ?case
  proof (cases "f x")
    case (Inr y)
    show ?thesis
    proof (cases "map_result f xs")
      case (Inl e)
      with Cons.IH have "\<not> list_all2 (\<lambda>x y. f x = Inr y) xs zs" for zs by (metis sum.distinct(1))
      with Inl Inr show ?thesis by (auto simp: list_all2_Cons1)
    next
      case (Inr zs)
      with Cons.IH have "list_all2 (\<lambda>x y. f x = Inr y) xs ws \<longleftrightarrow> zs = ws" for ws
        by (metis sum.inject(2))
      with Inr \<open>f x = Inr y\<close> show ?thesis by (auto simp: list_all2_Cons1)
    qed
  qed (simp add: list_all2_Cons1)
qed auto

lemma map_result_total: "map_result (\<lambda>x. Inr (f x)) xs = Inr (map f xs)"
  by (induction xs) simp_all

lemma fold_result_append:
  "fold_result f (xs @ ys) s =
     (case fold_result f xs s of Inl e \<Rightarrow> Inl e | Inr s1 \<Rightarrow> fold_result f ys s1)"
  by (induction xs arbitrary: s) (auto split: sum.splits)

text \<open>The filter by \<open>HashSet::insert\<close>: the first occurrence of each element stays.\<close>

fun dedup_seen :: "'a list \<Rightarrow> 'a list \<Rightarrow> 'a list" where
  "dedup_seen seen [] = []"
| "dedup_seen seen (x # xs) =
     (if x \<in> set seen then dedup_seen seen xs else x # dedup_seen (x # seen) xs)"

lemma set_dedup_seen [simp]: "set (dedup_seen seen xs) = set xs - set seen"
  by (induction seen xs rule: dedup_seen.induct) auto

lemma distinct_dedup_seen [simp]: "distinct (dedup_seen seen xs)"
  by (induction seen xs rule: dedup_seen.induct) auto

text \<open>The minimum of the present values: the fold both wait computations perform.\<close>

definition opt_min :: "('a::linorder) option \<Rightarrow> 'a \<Rightarrow> 'a" where
  "opt_min acc x = (case acc of None \<Rightarrow> x | Some y \<Rightarrow> min y x)"

lemma opt_min_simps [simp]: "opt_min None x = x" "opt_min (Some y) x = min y x"
  by (simp_all add: opt_min_def)

lemma fold_opt_min:
  "fold (\<lambda>x acc. Some (opt_min acc x)) xs acc =
     (case acc of
        None \<Rightarrow> (if xs = [] then None else Some (Min (set xs)))
      | Some a \<Rightarrow> Some (Min (insert a (set xs))))"
proof (induction xs arbitrary: acc)
  case Nil
  then show ?case by (auto split: option.splits)
next
  case (Cons x xs)
  then show ?case
    by (cases acc; cases "xs = []") (auto simp: min.assoc)
qed

end
