(* ===== verification/Rust_Str.thy ===== *)
theory Rust_Str
  imports Prelude "HOL-Library.Char_ord" "HOL-Library.List_Lexorder"
begin

text \<open>
  Rust's \<open>str\<close> as the code uses it. A \<open>string\<close> here is the UTF-8 byte sequence of the
  Rust value (one \<open>char\<close> per byte), so \<open>length\<close>, slicing and \<open>find\<close> count bytes
  as they do in Rust, and \<open>chars\<close> groups the bytes into scalar values. The order on strings
  (\<open>List_Lexorder\<close> over \<open>Char_ord\<close>) is Rust's byte order, the order a \<open>BTreeMap\<close>
  keeps its keys in.
\<close>

subsection \<open>Scalar values\<close>

definition is_cont :: "char \<Rightarrow> bool" where
  "is_cont c \<longleftrightarrow> 128 \<le> (of_char c :: nat) \<and> (of_char c :: nat) < 192"

text \<open>The scalar values of a string, each as its own UTF-8 bytes (\<open>str::chars\<close>).\<close>

function chars :: "string \<Rightarrow> string list" where
  "chars [] = []"
| "chars (c # cs) = (c # takeWhile is_cont cs) # chars (dropWhile is_cont cs)"
  by pat_completeness auto
termination
  by (relation "measure length") (auto simp: less_Suc_eq_le length_dropWhile_le)

lemma concat_chars [simp]: "concat (chars s) = s"
  by (induction s rule: chars.induct) auto

lemma chars_eq_Nil [simp]: "chars s = [] \<longleftrightarrow> s = []"
  by (cases s) auto

text \<open>\<open>s.chars().take(n).collect()\<close>\<close>

definition take_chars :: "nat \<Rightarrow> string \<Rightarrow> string" where
  "take_chars n s = concat (take n (chars s))"

lemma span_append:
  assumes "\<forall>x \<in> set t. P x" and "r = [] \<or> \<not> P (hd r)"
  shows "takeWhile P (t @ r) = t" and "dropWhile P (t @ r) = r"
  using assms by (induction t) (cases r; auto)+

lemma chars_concat_take: "chars (concat (take n (chars s))) = take n (chars s)"
proof (induction s arbitrary: n rule: chars.induct)
  case 1
  then show ?case by simp
next
  case (2 c cs)
  show ?case
  proof (cases n)
    case 0
    then show ?thesis by simp
  next
    case (Suc m)
    let ?t = "takeWhile is_cont cs" and ?d = "dropWhile is_cont cs"
    have hd: "concat (take m (chars ?d)) = [] \<or> \<not> is_cont (hd (concat (take m (chars ?d))))"
    proof (cases ?d)
      case Nil
      show ?thesis unfolding Nil by simp
    next
      case (Cons a l)
      then have "\<not> is_cont a" by (simp add: dropWhile_eq_Cons_conv)
      then show ?thesis unfolding Cons by (cases m) simp_all
    qed
    have "\<forall>x \<in> set ?t. is_cont x" by (auto dest: set_takeWhileD)
    note split = span_append [OF this hd]
    with Suc 2 show ?thesis by simp
  qed
qed

lemma length_chars_take_chars [simp]:
  "length (chars (take_chars n s)) = min n (length (chars s))"
  by (simp add: take_chars_def chars_concat_take)

subsection \<open>Substring search\<close>

text \<open>\<open>hay.contains(needle)\<close>\<close>

fun contains :: "string \<Rightarrow> string \<Rightarrow> bool" where
  "contains [] n = (n = [])"
| "contains (c # cs) n = (take (length n) (c # cs) = n \<or> contains cs n)"

lemma contains_iff: "contains h n \<longleftrightarrow> (\<exists>p s. h = p @ n @ s)"
proof (induction h)
  case Nil
  then show ?case by simp
next
  case (Cons c cs)
  show ?case
  proof
    assume "contains (c # cs) n"
    then consider "take (length n) (c # cs) = n" | "contains cs n" by auto
    then show "\<exists>p s. c # cs = p @ n @ s"
    proof cases
      case 1
      then have "c # cs = [] @ n @ drop (length n) (c # cs)"
        by (metis append_Nil append_take_drop_id)
      then show ?thesis by blast
    next
      case 2
      with Cons.IH obtain p s where "cs = p @ n @ s" by blast
      then have "c # cs = (c # p) @ n @ s" by simp
      then show ?thesis by blast
    qed
  next
    assume "\<exists>p s. c # cs = p @ n @ s"
    then obtain p s where e: "c # cs = p @ n @ s" by blast
    show "contains (c # cs) n"
    proof (cases p)
      case Nil
      with e have "c # cs = n @ s" by simp
      then have "take (length n) (c # cs) = n" by (metis append_eq_conv_conj)
      then show ?thesis by simp
    next
      case (Cons d ps)
      with e have "cs = ps @ n @ s" by simp
      with Cons.IH show ?thesis by auto
    qed
  qed
qed

text \<open>\<open>s.find(c)\<close> for an ASCII character: the byte index of its first occurrence.\<close>

fun str_find :: "char \<Rightarrow> string \<Rightarrow> nat option" where
  "str_find c [] = None"
| "str_find c (x # xs) = (if x = c then Some 0 else map_option Suc (str_find c xs))"

lemma str_find_Some:
  "str_find c s = Some i \<longleftrightarrow> i < length s \<and> s ! i = c \<and> c \<notin> set (take i s)"
proof (induction s arbitrary: i)
  case Nil
  then show ?case by simp
next
  case (Cons x xs)
  then show ?case by (cases i) auto
qed

lemma str_find_None: "str_find c s = None \<longleftrightarrow> c \<notin> set s"
  by (induction s) auto

lemma str_find_append:
  "c \<notin> set p \<Longrightarrow> str_find c (p @ c # s) = Some (length p)"
  by (induction p) auto

text \<open>\<open>s.strip_prefix(p)\<close> and \<open>s.strip_suffix(p)\<close>\<close>

definition strip_prefix :: "string \<Rightarrow> string \<Rightarrow> string option" where
  "strip_prefix p s = (if take (length p) s = p then Some (drop (length p) s) else None)"

definition strip_suffix :: "string \<Rightarrow> string \<Rightarrow> string option" where
  "strip_suffix p s =
     (if length p \<le> length s \<and> drop (length s - length p) s = p
      then Some (take (length s - length p) s) else None)"

lemma strip_prefix_Some: "strip_prefix p s = Some r \<longleftrightarrow> s = p @ r"
  unfolding strip_prefix_def by (auto, metis append_take_drop_id)

lemma strip_suffix_Some: "strip_suffix p s = Some r \<longleftrightarrow> s = r @ p"
  unfolding strip_suffix_def by (auto, metis append_take_drop_id)

subsection \<open>Lower-casing\<close>

text \<open>
  \<open>str::to_lowercase\<close>, as far as a search for an ASCII marker can see it. Exactly two scalar
  values outside ASCII lower-case to a sequence that contains ASCII: U+212A (the Kelvin sign,
  bytes E2 84 AA) to \<open>k\<close> and U+0130 (bytes C4 B0) to \<open>i\<close> followed by U+0307. All other
  scalar values outside ASCII lower-case to sequences outside ASCII, which no marker contains, so
  leaving them alone gives \<open>contains\<close> the same answer.
\<close>

definition lower_scalar :: "string \<Rightarrow> string" where
  "lower_scalar u =
     (if u = [char_of (0xE2 :: nat), char_of (0x84 :: nat), char_of (0xAA :: nat)] then ''k''
      else if u = [char_of (0xC4 :: nat), char_of (0xB0 :: nat)]
        then [CHR ''i'', char_of (0xCC :: nat), char_of (0x87 :: nat)]
      else case u of
        [c] \<Rightarrow> (if 65 \<le> (of_char c :: nat) \<and> (of_char c :: nat) \<le> 90
                then [char_of ((of_char c :: nat) + 32)] else [c])
      | _ \<Rightarrow> u)"

definition to_lowercase :: "string \<Rightarrow> string" where
  "to_lowercase s = concat (map lower_scalar (chars s))"

subsection \<open>Decimal rendering\<close>

text \<open>\<open>format!("{}", n)\<close> of an unsigned integer\<close>

fun show_nat :: "nat \<Rightarrow> string" where
  "show_nat n =
     (if n < 10 then [char_of (48 + n)] else show_nat (n div 10) @ [char_of (48 + n mod 10)])"

declare show_nat.simps [simp del]

text \<open>\<open>parts.join(sep)\<close>\<close>

fun join :: "string \<Rightarrow> string list \<Rightarrow> string" where
  "join sep [] = []"
| "join sep [x] = x"
| "join sep (x # y # r) = x @ sep @ join sep (y # r)"

subsection \<open>Digits\<close>

definition is_digit :: "char \<Rightarrow> bool" where
  "is_digit c \<longleftrightarrow> 48 \<le> (of_char c :: nat) \<and> (of_char c :: nat) \<le> 57"

definition digits_value :: "string \<Rightarrow> nat" where
  "digits_value s = fold (\<lambda>c n. 10 * n + (of_char c - 48)) s 0"

lemma digits_value_snoc: "digits_value (s @ [c]) = 10 * digits_value s + (of_char c - 48)"
  by (simp add: digits_value_def)

lemma of_char_digit: "d < 10 \<Longrightarrow> (of_char (char_of (48 + d) :: char) :: nat) = 48 + d"
  by (simp add: of_char_of)

lemma is_digit_char_of: "d < 10 \<Longrightarrow> is_digit (char_of (48 + d :: nat))"
  by (simp add: is_digit_def of_char_of)

lemma show_nat_digits:
  "show_nat n \<noteq> [] \<and> list_all is_digit (show_nat n) \<and> digits_value (show_nat n) = n"
proof (induction n rule: less_induct)
  case (less n)
  show ?case
  proof (cases "n < 10")
    case True
    then have "show_nat n = [char_of (48 + n)]" by (simp add: show_nat.simps [of n])
    with True show ?thesis
      by (simp add: is_digit_char_of digits_value_def of_char_of)
  next
    case False
    let ?d = "char_of (48 + n mod 10) :: char"
    have s: "show_nat n = show_nat (n div 10) @ [?d]"
      using False by (simp add: show_nat.simps [of n])
    have ih: "list_all is_digit (show_nat (n div 10))" "digits_value (show_nat (n div 10)) = n div 10"
      using less.IH [of "n div 10"] False by auto
    have "of_char ?d - 48 = n mod 10"
      using of_char_digit [of "n mod 10"] by simp
    then have "digits_value (show_nat n) = n"
      by (simp add: s digits_value_snoc ih)
    moreover have "is_digit ?d" by (rule is_digit_char_of) simp
    ultimately show ?thesis using s ih by simp
  qed
qed

subsection \<open>Trimming\<close>

definition trim_start_matches :: "(string \<Rightarrow> bool) \<Rightarrow> string \<Rightarrow> string" where
  "trim_start_matches P s = concat (dropWhile P (chars s))"

definition trim_end_matches :: "(string \<Rightarrow> bool) \<Rightarrow> string \<Rightarrow> string" where
  "trim_end_matches P s = concat (rev (dropWhile P (rev (chars s))))"

text \<open>\<open>char::is_whitespace\<close> (the Unicode property \<open>White_Space\<close>) and \<open>str::trim\<close>\<close>

definition is_rust_whitespace :: "string \<Rightarrow> bool" where
  "is_rust_whitespace u \<longleftrightarrow> u \<in> set
     ([[CHR 0x09], [CHR 0x0A], [CHR 0x0B], [CHR 0x0C], [CHR 0x0D], [CHR 0x20], [CHR 0xC2, CHR 0x85],
       [CHR 0xC2, CHR 0xA0], [CHR 0xE1, CHR 0x9A, CHR 0x80], [CHR 0xE2, CHR 0x80, CHR 0xA8],
       [CHR 0xE2, CHR 0x80, CHR 0xA9], [CHR 0xE2, CHR 0x80, CHR 0xAF], [CHR 0xE2, CHR 0x81, CHR 0x9F],
       [CHR 0xE3, CHR 0x80, CHR 0x80]]
      @ map (\<lambda>b. [CHR 0xE2, CHR 0x80, b])
          [CHR 0x80, CHR 0x81, CHR 0x82, CHR 0x83, CHR 0x84, CHR 0x85, CHR 0x86, CHR 0x87, CHR 0x88,
           CHR 0x89, CHR 0x8A])"

definition str_trim :: "string \<Rightarrow> string" where
  "str_trim s = trim_end_matches is_rust_whitespace (trim_start_matches is_rust_whitespace s)"

text \<open>\<open>eq_ignore_ascii_case\<close> compares bytes after this.\<close>

definition ascii_lower :: "char \<Rightarrow> char" where
  "ascii_lower c =
     (if 65 \<le> (of_char c :: nat) \<and> (of_char c :: nat) \<le> 90 then char_of (of_char c + 32 :: nat) else c)"

text \<open>\<open>s.starts_with(p)\<close>\<close>

definition starts_with :: "string \<Rightarrow> string \<Rightarrow> bool" where
  "starts_with s p \<longleftrightarrow> take (length p) s = p"

subsection \<open>Replacing, splitting, UTF-16\<close>

text \<open>\<open>s.trim_matches(P)\<close>\<close>

definition trim_matches :: "(string \<Rightarrow> bool) \<Rightarrow> string \<Rightarrow> string" where
  "trim_matches P s = trim_end_matches P (trim_start_matches P s)"

text \<open>\<open>s.replace(p, new)\<close> for a pattern that is not empty, \<open>s.split(c)\<close>, and the number of UTF-16
  code units of a scalar value, which is two exactly if its UTF-8 form has four bytes\<close>

function str_replace :: "string \<Rightarrow> string \<Rightarrow> string \<Rightarrow> string" where
  "str_replace p new [] = []"
| "str_replace p new (c # cs) =
     (if p \<noteq> [] \<and> take (length p) (c # cs) = p
      then new @ str_replace p new (drop (length p) (c # cs))
      else c # str_replace p new cs)"
  by pat_completeness auto
termination
  by (relation "measure (\<lambda>(_, _, s). length s)") (auto simp: length_greater_0_conv)

fun split_on :: "char \<Rightarrow> string \<Rightarrow> string list" where
  "split_on c [] = [[]]"
| "split_on c (x # xs) =
     (if x = c then [] # split_on c xs
      else (case split_on c xs of [] \<Rightarrow> [[x]] | y # ys \<Rightarrow> (x # y) # ys))"

definition len_utf16 :: "string \<Rightarrow> nat" where
  "len_utf16 u = (if length u = 4 then 2 else 1)"

lemma split_on_not_Nil [simp]: "split_on c s \<noteq> []"
  by (induction s) (auto split: list.splits)

lemma join_split_on: "join [c] (split_on c s) = s"
proof (induction s)
  case (Cons x xs)
  obtain y ys where "split_on c xs = y # ys" by (cases "split_on c xs") auto
  with Cons show ?case by (cases ys) auto
qed simp

subsection \<open>Searching for a substring\<close>

text \<open>\<open>s.find(p)\<close> and \<open>s.rfind(p)\<close>: the byte index of the first and of the last occurrence\<close>

fun find_sub :: "string \<Rightarrow> string \<Rightarrow> nat option" where
  "find_sub p [] = (if p = [] then Some 0 else None)"
| "find_sub p (c # cs) =
     (if take (length p) (c # cs) = p then Some 0 else map_option Suc (find_sub p cs))"

fun rfind_sub :: "string \<Rightarrow> string \<Rightarrow> nat option" where
  "rfind_sub p [] = (if p = [] then Some 0 else None)"
| "rfind_sub p (c # cs) =
     (case rfind_sub p cs of
        Some i \<Rightarrow> Some (Suc i)
      | None \<Rightarrow> if take (length p) (c # cs) = p then Some 0 else None)"

lemma rfind_sub_append: "rfind_sub p s = Some i \<Longrightarrow> rfind_sub p (t @ s) = Some (length t + i)"
  by (induction t) simp_all

definition trim_start :: "string \<Rightarrow> string" where
  "trim_start s = trim_start_matches is_rust_whitespace s"

definition trim_end :: "string \<Rightarrow> string" where
  "trim_end s = trim_end_matches is_rust_whitespace s"

definition ends_with :: "string \<Rightarrow> string \<Rightarrow> bool" where
  "ends_with s p \<longleftrightarrow> strip_suffix p s \<noteq> None"

subsection \<open>Scalar values from numbers\<close>

text \<open>\<open>char::from_u32\<close> and the UTF-8 form of the scalar value; surrogates are none.\<close>

definition cont_byte :: "nat \<Rightarrow> char" where
  "cont_byte n = char_of (128 + n mod 64)"

definition char_from_u32 :: "nat \<Rightarrow> string option" where
  "char_from_u32 n =
     (if 0xD800 \<le> n \<and> n \<le> 0xDFFF \<or> 0x10FFFF < n then None
      else if n < 0x80 then Some [char_of n]
      else if n < 0x800 then Some [char_of (0xC0 + n div 64), cont_byte n]
      else if n < 0x10000
        then Some [char_of (0xE0 + n div 4096), cont_byte (n div 64), cont_byte n]
      else Some [char_of (0xF0 + n div 262144), cont_byte (n div 4096), cont_byte (n div 64),
                 cont_byte n])"

text \<open>\<open>u32::from_str_radix(s, 16)\<close>: an optional plus and hexadecimal digits\<close>

definition hex_value :: "char \<Rightarrow> nat option" where
  "hex_value c =
     (let n = (of_char c :: nat)
      in if 48 \<le> n \<and> n \<le> 57 then Some (n - 48)
         else if 65 \<le> n \<and> n \<le> 70 then Some (n - 55)
         else if 97 \<le> n \<and> n \<le> 102 then Some (n - 87) else None)"

definition u32_from_hex :: "string \<Rightarrow> nat option" where
  "u32_from_hex s =
     (let digits = (case strip_prefix ''+'' s of Some d \<Rightarrow> d | None \<Rightarrow> s)
      in if digits = [] \<or> list_ex (\<lambda>c. hex_value c = None) digits then None
         else (let n = fold (\<lambda>c n. 16 * n + (case hex_value c of Some d \<Rightarrow> d | None \<Rightarrow> 0)) digits 0
               in if n < 2 ^ 32 then Some n else None))"

end
