(* ===== verification/Client_Gate.thy ===== *)
theory Client_Gate
  imports Rust_Str
begin

text \<open>
  The body detectors of \<open>client_gate.rs\<close>: what a refusal body says that its status does not.
  Each detector is gated by a range of statuses; the gates are disjoint, so the order in which the
  engine asks them is not observable (\<open>detectors_disjoint\<close>).
\<close>

definition GATE_STATUSES :: "nat list" where
  "GATE_STATUSES = [401, 403]"

definition CLIENT_GATE_MARKERS :: "string list" where
  "CLIENT_GATE_MARKERS = [''unauthorized_client_error'', ''unauthorized client'']"

definition MODEL_NOT_FOUND_MARKERS :: "string list" where
  "MODEL_NOT_FOUND_MARKERS =
     [''model not found'', ''model does not exist'', ''does not exist'', ''model not exist'',
      ''the model does not exist'', ''invalid model'', ''unknown model'',
      ''does not support model'']"

definition INVALID_REQUEST_MARKERS :: "string list" where
  "INVALID_REQUEST_MARKERS = [''invalid_request_error'', ''rejected the request as invalid'']"

text \<open>\<open>body?\<close>, lower-case it, find the first marker it contains.\<close>

definition find_marker :: "string list \<Rightarrow> string option \<Rightarrow> string option" where
  "find_marker ms body =
     Option.bind body (\<lambda>b. List.find (\<lambda>m. contains (to_lowercase b) m) ms)"

definition detect_client_gate :: "nat \<Rightarrow> string option \<Rightarrow> string option" where
  "detect_client_gate status body =
     (if status \<notin> set GATE_STATUSES then None else find_marker CLIENT_GATE_MARKERS body)"

definition detect_not_found :: "nat \<Rightarrow> string option \<Rightarrow> string option" where
  "detect_not_found status body =
     (if status \<noteq> 400 then None else find_marker MODEL_NOT_FOUND_MARKERS body)"

definition detect_invalid_request :: "nat \<Rightarrow> string option \<Rightarrow> string option" where
  "detect_invalid_request status body =
     (if status < 500 then None else find_marker INVALID_REQUEST_MARKERS body)"

lemmas detect_defs = detect_client_gate_def detect_not_found_def detect_invalid_request_def

lemma find_marker_Some:
  "find_marker ms body = Some m \<Longrightarrow>
     m \<in> set ms \<and> (\<exists>b. body = Some b \<and> contains (to_lowercase b) m)"
  by (auto simp: find_marker_def bind_eq_Some_conv dest: find_SomeD)

lemma find_marker_None [simp]: "find_marker ms None = None"
  by (simp add: find_marker_def)

lemma detectors_need_body [simp]:
  "detect_client_gate s None = None"
  "detect_not_found s None = None"
  "detect_invalid_request s None = None"
  by (simp_all add: detect_defs)

lemma detect_client_gate_status: "detect_client_gate s b = Some m \<Longrightarrow> s = 401 \<or> s = 403"
  by (auto simp: detect_client_gate_def GATE_STATUSES_def split: if_splits)

lemma detect_not_found_status: "detect_not_found s b = Some m \<Longrightarrow> s = 400"
  by (auto simp: detect_not_found_def split: if_splits)

lemma detect_invalid_request_status: "detect_invalid_request s b = Some m \<Longrightarrow> 500 \<le> s"
  by (auto simp: detect_invalid_request_def not_less split: if_splits)

lemma detectors_disjoint:
  "detect_client_gate s b \<noteq> None \<Longrightarrow>
     detect_not_found s b = None \<and> detect_invalid_request s b = None"
  "detect_not_found s b \<noteq> None \<Longrightarrow> detect_invalid_request s b = None"
  by (auto simp: detect_defs GATE_STATUSES_def split: if_splits)

end
