(* ===== verification/Json.thy ===== *)
theory Json
  imports Rust_Str
begin

text \<open>
  \<open>serde_json::Value\<close>. A number is one of the three representations of \<open>serde_json::Number\<close>
  (a finite \<open>f64\<close> is the rational it denotes). An object is a \<open>BTreeMap\<close> (the crate does
  not enable \<open>preserve_order\<close>): an association list that \<open>map_insert\<close> keeps sorted by key
  with no key twice, so that its iteration order is the order of the list. The parser itself is
  a library; where the code calls it, it is a parameter.
\<close>

datatype jnum = PosInt nat | NegInt int | FloatNum rat

datatype json =
    JNull
  | JBool bool
  | JNumber jnum
  | JString string
  | JArray "json list"
  | JObject "(string \<times> json) list"

type_synonym json_map = "(string \<times> json) list"

subsection \<open>Maps with sorted keys\<close>

fun map_get :: "('k \<times> 'v) list \<Rightarrow> 'k \<Rightarrow> 'v option" where
  "map_get [] k = None"
| "map_get ((k', v) # m) k = (if k' = k then Some v else map_get m k)"

fun map_insert :: "'k::linorder \<Rightarrow> 'v \<Rightarrow> ('k \<times> 'v) list \<Rightarrow> ('k \<times> 'v) list" where
  "map_insert k v [] = [(k, v)]"
| "map_insert k v ((k', v') # m) =
     (if k < k' then (k, v) # (k', v') # m
      else if k = k' then (k, v) # m
      else (k', v') # map_insert k v m)"

definition map_ok :: "('k::linorder \<times> 'v) list \<Rightarrow> bool" where
  "map_ok m \<longleftrightarrow> sorted_wrt (<) (map fst m)"

lemma map_get_map_of: "map_get m k = map_of m k"
  by (induction m k rule: map_get.induct) auto

lemma set_keys_insert [simp]: "set (map fst (map_insert k v m)) = insert k (set (map fst m))"
  by (induction k v m rule: map_insert.induct) auto

lemma map_ok_Nil [simp]: "map_ok []"
  by (simp add: map_ok_def)

lemma map_ok_insert [simp]: "map_ok m \<Longrightarrow> map_ok (map_insert k v m)"
proof (induction k v m rule: map_insert.induct)
  case (2 k v k' v' m)
  have keys: "set (map fst (map_insert k v m)) = insert k (set (map fst m))"
    by (rule set_keys_insert)
  from 2 show ?case
    using keys by (auto simp: map_ok_def simp del: set_map)
qed (simp add: map_ok_def)

lemma map_get_insert [simp]:
  "map_get (map_insert k v m) j = (if j = k then Some v else map_get m j)"
  by (induction k v m rule: map_insert.induct) auto

lemma map_get_in_set: "map_get m k = Some v \<Longrightarrow> (k, v) \<in> set m"
  by (simp add: map_get_map_of map_of_SomeD)

lemma map_get_None: "map_get m k = None \<longleftrightarrow> k \<notin> set (map fst m)"
  by (simp add: map_get_map_of map_of_eq_None_iff)

lemma map_ok_get_iff: "map_ok m \<Longrightarrow> map_get m k = Some v \<longleftrightarrow> (k, v) \<in> set m"
  by (simp add: map_get_map_of map_ok_def strict_sorted_iff)

lemma map_ok_ext:
  assumes "map_ok m" and "map_ok m'" and "\<And>k. map_get m k = map_get m' k"
  shows "m = m'"
proof -
  have "(k, v) \<in> set m \<longleftrightarrow> (k, v) \<in> set m'" for k v
    using assms map_ok_get_iff by metis
  then have same: "set m = set m'" by auto
  moreover have "inj_on fst (set m)"
    using assms(1) by (simp add: map_ok_def strict_sorted_iff distinct_map)
  ultimately show ?thesis
    using assms(1,2) unfolding map_ok_def strict_sorted_iff
    by (intro map_sorted_distinct_set_unique [of fst]) simp_all
qed

text \<open>\<open>get_mut\<close> and an assignment through it, \<open>remove\<close>, \<open>contains_key\<close>\<close>

fun map_modify :: "'k \<Rightarrow> ('v \<Rightarrow> 'v) \<Rightarrow> ('k \<times> 'v) list \<Rightarrow> ('k \<times> 'v) list" where
  "map_modify k f [] = []"
| "map_modify k f ((k', v) # m) = (if k' = k then (k', f v) # m else (k', v) # map_modify k f m)"

definition map_remove :: "'k \<Rightarrow> ('k \<times> 'v) list \<Rightarrow> ('k \<times> 'v) list" where
  "map_remove k m = filter (\<lambda>(k', _). k' \<noteq> k) m"

definition contains_key :: "('k \<times> 'v) list \<Rightarrow> 'k \<Rightarrow> bool" where
  "contains_key m k \<longleftrightarrow> map_get m k \<noteq> None"

lemma map_get_modify [simp]:
  "map_get (map_modify k f m) j = (if j = k then map_option f (map_get m j) else map_get m j)"
  by (induction k f m rule: map_modify.induct) auto

lemma map_modify_same: "(\<And>v. map_get m k = Some v \<Longrightarrow> f v = v) \<Longrightarrow> map_modify k f m = m"
  by (induction k f m rule: map_modify.induct) auto

lemma map_get_remove [simp]: "map_get (map_remove k m) j = (if j = k then None else map_get m j)"
  by (induction m) (auto simp: map_remove_def)

lemma keys_modify [simp]: "map fst (map_modify k f m) = map fst m"
  by (induction k f m rule: map_modify.induct) auto

lemma map_ok_modify [simp]: "map_ok (map_modify k f m) = map_ok m"
  by (simp add: map_ok_def)

lemma map_ok_remove: "map_ok m \<Longrightarrow> map_ok (map_remove k m)"
  unfolding map_ok_def map_remove_def
  by (induction m) auto

lemma map_insert_last: "\<forall>k' \<in> set (map fst m). k' < k \<Longrightarrow> map_insert k v m = m @ [(k, v)]"
  by (induction k v m rule: map_insert.induct) auto

lemma map_insert_same: "map_ok m \<Longrightarrow> map_get m k = Some v \<Longrightarrow> map_insert k v m = m"
  by (induction k v m rule: map_insert.induct)
    (fastforce simp: map_ok_def dest: map_get_in_set split: if_splits)+

lemma set_map_insert: "set (map_insert k v m) \<subseteq> insert (k, v) (set m)"
  by (induction k v m rule: map_insert.induct) auto

lemma map_insertE:
  assumes "(k', v') \<in> set (map_insert k v m)"
  obtains "k' = k" "v' = v" | "(k', v') \<in> set m"
  using assms set_map_insert [of k v m] by auto

text \<open>The map as an interface: what a client relies on is only that a look-up finds the last
  insertion under its key and nothing else, and that insertion keeps the representation.\<close>

locale assoc_map =
  fixes lookup :: "'m \<Rightarrow> 'k \<Rightarrow> 'v option"
    and update :: "'k \<Rightarrow> 'v \<Rightarrow> 'm \<Rightarrow> 'm"
    and empty :: "'m"
    and invar :: "'m \<Rightarrow> bool"
  assumes lookup_empty: "lookup empty k = None"
    and lookup_update: "invar m \<Longrightarrow> lookup (update k v m) j = (if j = k then Some v else lookup m j)"
    and invar_empty: "invar empty"
    and invar_update: "invar m \<Longrightarrow> invar (update k v m)"
begin

text \<open>Building a map from a list of bindings: the last binding of a key wins.\<close>

lemma invar_fold: "invar m \<Longrightarrow> invar (fold (\<lambda>(k, v). update k v) xs m)"
  by (induction xs arbitrary: m) (auto simp: invar_update)

lemma lookup_fold:
  "invar m \<Longrightarrow>
     lookup (fold (\<lambda>(k, v). update k v) xs m) j =
       (case map_of (rev xs) j of None \<Rightarrow> lookup m j | Some v \<Rightarrow> Some v)"
proof (induction xs arbitrary: m)
  case Nil
  then show ?case by simp
next
  case (Cons x xs)
  then show ?case
    by (cases x) (auto simp: invar_update lookup_update map_add_def split: option.splits)
qed

end

interpretation btree_map: assoc_map map_get map_insert "[]" map_ok
  by unfold_locales auto

subsection \<open>Accessors\<close>

text \<open>\<open>Value::get\<close> with a string, \<open>as_str\<close>, \<open>as_i64\<close>\<close>

fun json_get :: "json \<Rightarrow> string \<Rightarrow> json option" where
  "json_get (JObject m) k = map_get m k"
| "json_get _ k = None"

fun as_str :: "json \<Rightarrow> string option" where
  "as_str (JString s) = Some s"
| "as_str _ = None"

fun as_i64 :: "json \<Rightarrow> int option" where
  "as_i64 (JNumber (PosInt n)) = (if int n \<le> i64_max then Some (int n) else None)"
| "as_i64 (JNumber (NegInt i)) = Some i"
| "as_i64 _ = None"

fun as_array :: "json \<Rightarrow> json list option" where
  "as_array (JArray xs) = Some xs"
| "as_array _ = None"

fun as_object :: "json \<Rightarrow> json_map option" where
  "as_object (JObject m) = Some m"
| "as_object _ = None"

fun as_boolean :: "json \<Rightarrow> bool option" where
  "as_boolean (JBool b) = Some b"
| "as_boolean _ = None"

fun as_number :: "json \<Rightarrow> jnum option" where
  "as_number (JNumber n) = Some n"
| "as_number _ = None"

fun is_object :: "json \<Rightarrow> bool" where
  "is_object (JObject _) = True"
| "is_object _ = False"

fun is_jarray :: "json \<Rightarrow> bool" where
  "is_jarray (JArray _) = True"
| "is_jarray _ = False"

fun is_jstring :: "json \<Rightarrow> bool" where
  "is_jstring (JString _) = True"
| "is_jstring _ = False"

text \<open>\<open>v.get(k).and_then(Value::as_str)\<close> and \<open>v.get(k).and_then(Value::as_array)\<close>\<close>

definition get_str :: "json \<Rightarrow> string \<Rightarrow> string option" where
  "get_str j k = Option.bind (json_get j k) as_str"

definition get_array :: "json \<Rightarrow> string \<Rightarrow> json list option" where
  "get_array j k = Option.bind (json_get j k) as_array"

text \<open>An object literal of the \<open>json!\<close> macro.\<close>

definition jobj :: "(string \<times> json) list \<Rightarrow> json" where
  "jobj kvs = JObject (fold (\<lambda>(k, v). map_insert k v) kvs [])"

text \<open>Assignment through \<open>as_object_mut\<close> and \<open>get_mut(k)\<close>, which leave other values alone.\<close>

fun on_object :: "(json_map \<Rightarrow> json_map) \<Rightarrow> json \<Rightarrow> json" where
  "on_object f (JObject m) = JObject (f m)"
| "on_object f j = j"

fun on_array :: "(json list \<Rightarrow> json list) \<Rightarrow> json \<Rightarrow> json" where
  "on_array f (JArray xs) = JArray (f xs)"
| "on_array f j = j"

definition on_key :: "string \<Rightarrow> (json \<Rightarrow> json) \<Rightarrow> json \<Rightarrow> json" where
  "on_key k f = on_object (map_modify k f)"

definition set_key :: "string \<Rightarrow> json \<Rightarrow> json \<Rightarrow> json" where
  "set_key k v = on_object (map_insert k v)"

lemma json_get_on_key [simp]:
  "json_get (on_key k f j) k' = (if k' = k then map_option f (json_get j k') else json_get j k')"
  by (cases j) (auto simp: on_key_def)

lemma json_get_set_key [simp]:
  "json_get (set_key k v j) k' =
     (if k' = k \<and> as_object j \<noteq> None then Some v else json_get j k')"
  by (cases j) (auto simp: set_key_def)

lemma on_key_same: "(\<And>v. json_get j k = Some v \<Longrightarrow> f v = v) \<Longrightarrow> on_key k f j = j"
  by (cases j) (auto simp: on_key_def map_modify_same)

lemma json_get_object: "json_get j k \<noteq> None \<Longrightarrow> as_object j \<noteq> None"
  by (cases j) auto

end
