(* ===== verification/Taxonomy.thy ===== *)
theory Taxonomy
  imports Client_Gate Json
begin

text \<open>
  The error taxonomy (\<open>engine/taxonomy.rs\<close>): the class of a failure, the body hint that
  refines a status, drift and retryability, and the words of a refusal that reach the ledger.
\<close>

definition COOLDOWN_FLOOR_MS :: nat where
  "COOLDOWN_FLOOR_MS = 1000"

datatype error_class =
    AuthFailed | RateLimited | NotFound | BadRequestSchema | ParseError | NoOutput
  | ServerError | Timeout | Network | ClientGate | Billing | EgressDenied | Ok

datatype body_hint = HintSchema | HintNotFound | HintClientGate

definition ALL_CLASSES :: "error_class list" where
  "ALL_CLASSES =
     [AuthFailed, RateLimited, NotFound, BadRequestSchema, ParseError, NoOutput, ServerError,
      Timeout, Network, ClientGate, Billing, EgressDenied, Ok]"

fun is_drift :: "error_class \<Rightarrow> bool" where
  "is_drift NotFound = True"
| "is_drift BadRequestSchema = True"
| "is_drift ParseError = True"
| "is_drift AuthFailed = True"
| "is_drift _ = False"

fun class_str :: "error_class \<Rightarrow> string" where
  "class_str AuthFailed = ''AUTH_FAILED''"
| "class_str RateLimited = ''RATE_LIMITED''"
| "class_str NotFound = ''NOT_FOUND''"
| "class_str BadRequestSchema = ''BAD_REQUEST_SCHEMA''"
| "class_str ParseError = ''PARSE_ERROR''"
| "class_str NoOutput = ''NO_OUTPUT''"
| "class_str ServerError = ''SERVER_ERROR''"
| "class_str Timeout = ''TIMEOUT''"
| "class_str Network = ''NETWORK''"
| "class_str ClientGate = ''CLIENT_GATE''"
| "class_str Billing = ''BILLING''"
| "class_str EgressDenied = ''EGRESS_DENIED''"
| "class_str Ok = ''OK''"

definition classify :: "nat \<Rightarrow> body_hint option \<Rightarrow> error_class" where
  "classify status hint =
     (if 200 \<le> status \<and> status < 300 then Ok
      else if status = 401 \<or> status = 403 then
        (if hint = Some HintClientGate then ClientGate else AuthFailed)
      else if status = 429 then RateLimited
      else if status = 404 then NotFound
      else if status = 400 then
        (case hint of Some HintNotFound \<Rightarrow> NotFound | _ \<Rightarrow> BadRequestSchema)
      else if status = 408 then Timeout
      else if status = 402 then Billing
      else if 500 \<le> status then
        (if hint = Some HintSchema then BadRequestSchema else ServerError)
      else Network)"

fun is_retryable_with_next_key :: "error_class \<Rightarrow> bool" where
  "is_retryable_with_next_key AuthFailed = True"
| "is_retryable_with_next_key RateLimited = True"
| "is_retryable_with_next_key ServerError = True"
| "is_retryable_with_next_key Network = True"
| "is_retryable_with_next_key _ = False"

subsection \<open>The words of a refusal\<close>

definition MAX_REASON_CHARS :: nat where
  "MAX_REASON_CHARS = 400"

text \<open>U+2026, the ellipsis, in UTF-8\<close>

definition ellipsis :: string where
  "ellipsis = [char_of (0xE2 :: nat), char_of (0x80 :: nat), char_of (0xA6 :: nat)]"

text \<open>\<open>parse\<close> stands for \<open>serde_json::from_str\<close>: \<open>None\<close> when the body is not JSON.\<close>

definition error_words :: "json \<Rightarrow> string option" where
  "error_words v =
     Option.bind (json_get v ''error'') (\<lambda>e.
       case (Option.bind (json_get e ''code'') as_str,
             Option.bind (json_get e ''message'') as_str) of
         (Some c, Some m) \<Rightarrow> Some (c @ '': '' @ m)
       | (Some c, None) \<Rightarrow> Some c
       | (None, Some m) \<Rightarrow> Some m
       | (None, None) \<Rightarrow> None)"

definition reason_from_body :: "(string \<Rightarrow> json option) \<Rightarrow> string option \<Rightarrow> string option" where
  "reason_from_body parse body =
     (case body of
        None \<Rightarrow> None
      | Some b \<Rightarrow>
          let reason = (case Option.bind (parse b) error_words of Some r \<Rightarrow> r | None \<Rightarrow> b)
          in Some (if MAX_REASON_CHARS < length (chars reason)
                   then take_chars MAX_REASON_CHARS reason @ ellipsis
                   else reason))"

subsection \<open>Facts\<close>

lemma set_ALL_CLASSES [simp]: "set ALL_CLASSES = UNIV" and distinct_ALL_CLASSES: "distinct ALL_CLASSES"
proof -
  have "c \<in> set ALL_CLASSES" for c
    by (cases c) (simp_all add: ALL_CLASSES_def)
  then show "set ALL_CLASSES = UNIV" by auto
  show "distinct ALL_CLASSES" by (simp add: ALL_CLASSES_def)
qed

lemma class_str_inj: "class_str a = class_str b \<Longrightarrow> a = b"
  by (cases a; cases b) simp_all

lemma classify_Ok_iff: "classify s h = Ok \<longleftrightarrow> 200 \<le> s \<and> s < 300"
  by (auto simp: classify_def split: option.splits body_hint.splits)

lemma classify_never:
  "classify s h \<noteq> ParseError" "classify s h \<noteq> NoOutput" "classify s h \<noteq> EgressDenied"
  by (auto simp: classify_def split: option.splits body_hint.splits)

lemma chars_append:
  assumes "b = [] \<or> \<not> is_cont (hd b)"
  shows "chars (a @ b) = chars a @ chars b"
proof (induction a rule: chars.induct)
  case 1
  then show ?case by simp
next
  case (2 c cs)
  have "takeWhile is_cont (cs @ b) = takeWhile is_cont cs"
    and "dropWhile is_cont (cs @ b) = dropWhile is_cont cs @ b"
    using assms by (induction cs) (cases b; auto)+
  with 2 show ?case by simp
qed

lemma reason_from_body_length:
  assumes "reason_from_body parse body = Some r"
  shows "length (chars r) \<le> MAX_REASON_CHARS + 1"
proof -
  have e: "chars ellipsis = [ellipsis]" "\<not> is_cont (hd ellipsis)"
    by (simp_all add: ellipsis_def is_cont_def)
  then show ?thesis
    using assms
    by (auto simp: reason_from_body_def Let_def chars_append split: option.splits if_splits)
qed

end
