(* ===== verification/Rows.thy ===== *)
theory Rows
  imports Rust_Str
begin

text \<open>
  The store rows the routing core reads (\<open>persist.rs\<close>), field by field. The planner and the
  engine only read them; how they reach memory (SQLite) is not modelled.
\<close>

record provider_row =
  pr_id :: string
  pr_slug :: string
  pr_name :: string
  pr_type :: "string option"
  pr_base_url :: string
  pr_status :: string
  pr_rotation_strategy :: string
  pr_created_at :: int
  pr_updated_at :: int

record api_key_row =
  ak_id :: string
  ak_provider_id :: string
  ak_label :: string
  ak_secret_ref :: string
  ak_secret_hint :: "string option"
  ak_status :: string
  ak_priority :: int
  ak_cooldown_until :: "int option"
  ak_added_at :: int
  ak_last_used_at :: "int option"
  ak_last_tested_at :: "int option"

record model_row =
  mr_provider_id :: string
  mr_native_id :: string
  mr_modality :: string
  mr_context_window :: "int option"
  mr_fetched_at :: int
  mr_pricing_json :: "string option"
  mr_capabilities_json :: "string option"
  mr_origin :: string

record alias_row =
  al_alias :: string
  al_provider_id :: string
  al_native_model_id :: string
  al_priority :: int

text \<open>One planned attempt (\<open>planner.rs\<close>, \<open>Candidate\<close>).\<close>

record candidate =
  c_provider :: provider_row
  c_key :: api_key_row
  c_model :: model_row

text \<open>Small rows for concrete runs: a provider, a key and a model, everything else default.\<close>

definition mk_provider :: "string \<Rightarrow> string \<Rightarrow> string \<Rightarrow> provider_row" where
  "mk_provider i status strategy =
     \<lparr>pr_id = i, pr_slug = i, pr_name = i, pr_type = None, pr_base_url = [], pr_status = status,
      pr_rotation_strategy = strategy, pr_created_at = 0, pr_updated_at = 0\<rparr>"

definition mk_key :: "string \<Rightarrow> string \<Rightarrow> int \<Rightarrow> api_key_row" where
  "mk_key i p prio =
     \<lparr>ak_id = i, ak_provider_id = p, ak_label = i, ak_secret_ref = i, ak_secret_hint = None,
      ak_status = ''active'', ak_priority = prio, ak_cooldown_until = None, ak_added_at = 0,
      ak_last_used_at = None, ak_last_tested_at = None\<rparr>"

definition mk_model :: "string \<Rightarrow> string \<Rightarrow> model_row" where
  "mk_model p n =
     \<lparr>mr_provider_id = p, mr_native_id = n, mr_modality = ''text'', mr_context_window = None,
      mr_fetched_at = 0, mr_pricing_json = None, mr_capabilities_json = None,
      mr_origin = ''discovered''\<rparr>"

definition mk_candidate :: "string \<Rightarrow> string \<Rightarrow> candidate" where
  "mk_candidate p k =
     \<lparr>c_provider = mk_provider p ''enabled'' ''priority'', c_key = mk_key k p 0,
      c_model = mk_model p ''m''\<rparr>"

lemmas mk_rows = mk_provider_def mk_key_def mk_model_def mk_candidate_def

end
