(* ===== verification/Health.thy ===== *)
theory Health
  imports Taxonomy Rows
begin

text \<open>
  The per-key circuit state (\<open>engine/health.rs\<close>): cooldowns, the auth breaker with its half-open
  window, and what one attempt's result does to them. The tracker is the map behind the
  \<open>Mutex\<close>; every method takes the lock once, so each is one function on the map. Log lines
  are left out, since they change nothing.
\<close>

definition AUTH_BREAKER_THRESHOLD :: nat where
  "AUTH_BREAKER_THRESHOLD = 3"

definition BREAKER_HALF_OPEN_MS :: nat where
  "BREAKER_HALF_OPEN_MS = 60000"

definition KEY_STATUS_DENIED :: "string list" where
  "KEY_STATUS_DENIED = [''disabled'', ''invalid'']"

definition PROVIDER_STATUS_ENABLED :: string where
  "PROVIDER_STATUS_ENABLED = ''enabled''"

record key_health =
  cooldown_until_ms :: int
  consecutive_auth_failures :: nat
  breaker_open_at :: "int option"

definition default_health :: key_health where
  "default_health = \<lparr>cooldown_until_ms = 0, consecutive_auth_failures = 0, breaker_open_at = None\<rparr>"

type_synonym tracker = "string \<Rightarrow> key_health option"

datatype key_block = Denied | Breaker | Cooling int

subsection \<open>Reading\<close>

definition health_of :: "tracker \<Rightarrow> string \<Rightarrow> key_health" where
  "health_of tr k = (case tr k of Some h \<Rightarrow> h | None \<Rightarrow> default_health)"

definition block_of :: "tracker \<Rightarrow> api_key_row \<Rightarrow> int \<Rightarrow> key_block option" where
  "block_of tr key now =
     (if ak_status key \<in> set KEY_STATUS_DENIED then Some Denied
      else
        let h = health_of tr (ak_id key) in
        if (case breaker_open_at h of
              Some opened_at \<Rightarrow> now < sat_i64 (opened_at + int BREAKER_HALF_OPEN_MS)
            | None \<Rightarrow> False)
        then Some Breaker
        else
          let until = max (cooldown_until_ms h)
                          (case ak_cooldown_until key of Some c \<Rightarrow> c | None \<Rightarrow> 0)
          in if now < until then Some (Cooling until) else None)"

definition is_key_usable :: "tracker \<Rightarrow> api_key_row \<Rightarrow> int \<Rightarrow> bool" where
  "is_key_usable tr key now = (block_of tr key now = None)"

definition key_retry_at :: "tracker \<Rightarrow> api_key_row \<Rightarrow> int \<Rightarrow> int option" where
  "key_retry_at tr key now =
     (case block_of tr key now of Some (Cooling until) \<Rightarrow> Some until | _ \<Rightarrow> None)"

definition is_provider_usable :: "provider_row \<Rightarrow> bool" where
  "is_provider_usable p = (pr_status p = PROVIDER_STATUS_ENABLED)"

definition key_health_of :: "tracker \<Rightarrow> string \<Rightarrow> key_health option" where
  "key_health_of tr k = tr k"

subsection \<open>Recording\<close>

text \<open>The arm of \<open>record_result\<close> for one class, on one entry.\<close>

fun health_after :: "error_class \<Rightarrow> nat option \<Rightarrow> int \<Rightarrow> key_health \<Rightarrow> key_health" where
  "health_after Ok retry now h =
     h\<lparr>breaker_open_at := None, consecutive_auth_failures := 0, cooldown_until_ms := 0\<rparr>"
| "health_after RateLimited retry now h =
     (let wait = max (case retry of Some ms \<Rightarrow> ms | None \<Rightarrow> 0) COOLDOWN_FLOOR_MS
      in h\<lparr>cooldown_until_ms := wrap_i64 (now + u64_as_i64 wait)\<rparr>)"
| "health_after AuthFailed retry now h =
     (let h' = h\<lparr>consecutive_auth_failures := inc_u32 (consecutive_auth_failures h)\<rparr>
      in if AUTH_BREAKER_THRESHOLD \<le> consecutive_auth_failures h'
         then h'\<lparr>breaker_open_at := Some now\<rparr> else h')"
| "health_after _ retry now h = h"

definition record_result ::
  "tracker \<Rightarrow> string \<Rightarrow> error_class \<Rightarrow> nat option \<Rightarrow> int \<Rightarrow> tracker" where
  "record_result tr key_id cls retry now =
     tr(key_id \<mapsto> health_after cls retry now (health_of tr key_id))"

definition reset_key :: "tracker \<Rightarrow> string \<Rightarrow> tracker" where
  "reset_key tr key_id = tr(key_id := None)"

lemma health_of_record [simp]:
  "health_of (record_result tr k cls retry now) j =
     (if j = k then health_after cls retry now (health_of tr k) else health_of tr j)"
  by (simp add: health_of_def record_result_def)

lemma health_of_reset [simp]:
  "health_of (reset_key tr k) j = (if j = k then default_health else health_of tr j)"
  by (simp add: health_of_def reset_key_def)

lemma health_of_empty [simp]: "health_of Map.empty k = default_health"
  by (simp add: health_of_def)

text \<open>What one key's block depends on.\<close>

lemma block_of_cong: "health_of tr (ak_id k) = health_of tr' (ak_id k) \<Longrightarrow> block_of tr k = block_of tr' k"
  by (simp add: block_of_def fun_eq_iff)

lemma record_result_frame [frame]:
  "ak_id key \<noteq> k \<Longrightarrow> block_of (record_result tr k cls retry now) key = block_of tr key"
  by (rule block_of_cong) simp

subsection \<open>When a key is free\<close>

text \<open>The first moment at which a key that is not denied may be tried.\<close>

definition free_at :: "tracker \<Rightarrow> api_key_row \<Rightarrow> int" where
  "free_at tr key =
     (let h = health_of tr (ak_id key);
          until = max (cooldown_until_ms h) (case ak_cooldown_until key of Some c \<Rightarrow> c | None \<Rightarrow> 0)
      in case breaker_open_at h of
           Some opened_at \<Rightarrow> max (sat_i64 (opened_at + int BREAKER_HALF_OPEN_MS)) until
         | None \<Rightarrow> until)"

lemma is_key_usable_iff:
  "is_key_usable tr key now \<longleftrightarrow> ak_status key \<notin> set KEY_STATUS_DENIED \<and> free_at tr key \<le> now"
  by (auto simp: is_key_usable_def block_of_def free_at_def Let_def split: option.splits)

lemma key_retry_at_Some:
  assumes "key_retry_at tr key now = Some t"
  shows "now < t" and "free_at tr key = t" and "ak_status key \<notin> set KEY_STATUS_DENIED"
  using assms
  by (auto simp: key_retry_at_def block_of_def free_at_def Let_def split: option.splits if_splits)

subsection \<open>The gate as an interface\<close>

text \<open>
  What the planner and the waiting router rely on: a retry time is in the future, and the key is
  usable from then on. \<open>earliest_of\<close> is the fold over all keys of all carriers.
\<close>

definition earliest_of :: "('k \<Rightarrow> int \<Rightarrow> int option) \<Rightarrow> 'k list \<Rightarrow> int \<Rightarrow> int option" where
  "earliest_of retry_at ks now =
     fold (\<lambda>k soonest. case retry_at k now of
             Some w \<Rightarrow> Some (opt_min soonest w) | None \<Rightarrow> soonest) ks None"

lemma earliest_of_eq:
  "earliest_of retry_at ks now =
     (let ts = List.map_filter (\<lambda>k. retry_at k now) ks
      in if ts = [] then None else Some (Min (set ts)))"
proof -
  have "fold (\<lambda>k soonest. case retry_at k now of
             Some w \<Rightarrow> Some (opt_min soonest w) | None \<Rightarrow> soonest) ks acc =
        fold (\<lambda>x acc. Some (opt_min acc x)) (List.map_filter (\<lambda>k. retry_at k now) ks) acc" for acc
    by (induction ks arbitrary: acc) (auto simp: map_filter_simps split: option.splits)
  then show ?thesis
    by (simp add: earliest_of_def fold_opt_min Let_def)
qed

locale key_gate =
  fixes usable :: "'k \<Rightarrow> int \<Rightarrow> bool"
    and retry_at :: "'k \<Rightarrow> int \<Rightarrow> int option"
  assumes retry_later: "retry_at k now = Some t \<Longrightarrow> now < t"
    and retry_usable: "retry_at k now = Some t \<Longrightarrow> t \<le> later \<Longrightarrow> usable k later"
    and retry_blocked: "retry_at k now = Some t \<Longrightarrow> now \<le> mid \<Longrightarrow> mid < t \<Longrightarrow> \<not> usable k mid"
begin

lemma earliest_Some:
  assumes "earliest_of retry_at ks now = Some t"
  shows "\<exists>k \<in> set ks. retry_at k now = Some t"
    and "k \<in> set ks \<Longrightarrow> retry_at k now = Some u \<Longrightarrow> t \<le> u"
proof -
  let ?ts = "List.map_filter (\<lambda>k. retry_at k now) ks"
  have ts: "set ?ts = {t. \<exists>k \<in> set ks. retry_at k now = Some t}"
    by (rule set_map_filter)
  from assms have "?ts \<noteq> []" and t: "t = Min (set ?ts)"
    by (auto simp: earliest_of_eq Let_def split: if_splits)
  then have "t \<in> set ?ts" using Min_in [of "set ?ts"] by simp
  then show "\<exists>k \<in> set ks. retry_at k now = Some t" by (simp add: ts)
  assume "k \<in> set ks" and "retry_at k now = Some u"
  then have "u \<in> set ?ts" by (auto simp: ts)
  then show "t \<le> u" using t by simp
qed

lemma earliest_later: "earliest_of retry_at ks now = Some t \<Longrightarrow> now < t"
  using earliest_Some(1) retry_later by blast

lemma earliest_usable:
  "earliest_of retry_at ks now = Some t \<Longrightarrow> t \<le> later \<Longrightarrow> \<exists>k \<in> set ks. usable k later"
  using earliest_Some(1) retry_usable by blast

lemma earliest_None: "earliest_of retry_at ks now = None \<longleftrightarrow> (\<forall>k \<in> set ks. retry_at k now = None)"
  by (simp add: earliest_of_eq Let_def map_filter_Nil)

end

interpretation tracker_gate: key_gate "is_key_usable tr" "key_retry_at tr" for tr
proof unfold_locales
  fix k now t later mid
  assume r: "key_retry_at tr k now = Some t"
  then show "now < t" by (rule key_retry_at_Some)
  from r show "t \<le> later \<Longrightarrow> is_key_usable tr k later"
    by (auto simp: is_key_usable_iff dest: key_retry_at_Some)
  from r show "now \<le> mid \<Longrightarrow> mid < t \<Longrightarrow> \<not> is_key_usable tr k mid"
    by (auto simp: is_key_usable_iff dest: key_retry_at_Some)
qed

subsection \<open>Histories\<close>

text \<open>A history of recorded results, on any keys, oldest first; and the classes one key saw.\<close>

type_synonym result_event = "string \<times> error_class \<times> nat option \<times> int"

definition record_all :: "tracker \<Rightarrow> result_event list \<Rightarrow> tracker" where
  "record_all tr evs = fold (\<lambda>(k, c, r, n) t. record_result t k c r n) evs tr"

definition events_of :: "string \<Rightarrow> result_event list \<Rightarrow> result_event list" where
  "events_of k evs = filter (\<lambda>e. fst e = k) evs"

definition classes_of :: "string \<Rightarrow> result_event list \<Rightarrow> error_class list" where
  "classes_of k evs = map (\<lambda>(_, c, _, _). c) (events_of k evs)"

text \<open>The contract of the breaker: the auth failures since the last success.\<close>

definition auth_streak :: "error_class list \<Rightarrow> nat" where
  "auth_streak cs = length (filter (\<lambda>c. c = AuthFailed) (takeWhile (\<lambda>c. c \<noteq> Ok) (rev cs)))"

definition last_auth_at :: "string \<Rightarrow> result_event list \<Rightarrow> int" where
  "last_auth_at k evs = (case List.find (\<lambda>(_, c, _, _). c = AuthFailed) (rev (events_of k evs)) of
     Some (_, _, _, n) \<Rightarrow> n | None \<Rightarrow> 0)"

lemma record_all_simps [simp]:
  "record_all tr [] = tr"
  "record_all tr (evs @ [(k, c, r, n)]) = record_result (record_all tr evs) k c r n"
  by (simp_all add: record_all_def)

lemma events_of_simps [simp]:
  "events_of k [] = []"
  "events_of k (evs @ [(k', c, r, n)]) = events_of k evs @ (if k' = k then [(k', c, r, n)] else [])"
  by (simp_all add: events_of_def)

lemma classes_of_simps [simp]:
  "classes_of k [] = []"
  "classes_of k (evs @ [(k', c, r, n)]) = classes_of k evs @ (if k' = k then [c] else [])"
  by (simp_all add: classes_of_def)

lemma last_auth_at_snoc [simp]:
  "last_auth_at k (evs @ [(k', c, r, n)]) =
     (if k' = k \<and> c = AuthFailed then n else last_auth_at k evs)"
  by (simp add: last_auth_at_def)

lemma auth_streak_Nil [simp]: "auth_streak [] = 0"
  by (simp add: auth_streak_def)

lemma auth_streak_snoc [simp]:
  "auth_streak (cs @ [c]) =
     (if c = Ok then 0 else if c = AuthFailed then Suc (auth_streak cs) else auth_streak cs)"
  by (simp add: auth_streak_def)

lemma auth_streak_le: "auth_streak (classes_of k evs) \<le> length evs"
proof -
  have "auth_streak cs \<le> length cs" for cs
    by (induction cs rule: rev_induct) auto
  moreover have "length (classes_of k evs) \<le> length evs"
    by (simp add: classes_of_def events_of_def)
  ultimately show ?thesis by (rule order_trans)
qed

lemma health_after_breaker:
  "consecutive_auth_failures (health_after c r n h) =
     (if c = Ok then 0 else if c = AuthFailed then inc_u32 (consecutive_auth_failures h)
      else consecutive_auth_failures h)"
  "breaker_open_at (health_after c r n h) =
     (if c = Ok then None
      else if c = AuthFailed \<and> AUTH_BREAKER_THRESHOLD \<le> inc_u32 (consecutive_auth_failures h)
        then Some n
      else breaker_open_at h)"
  by (cases c; simp add: Let_def)+

subsection \<open>Properties\<close>

text \<open>(C4) The breaker refines its contract: after any history of fewer than \<open>2 ^ 32\<close> results, on
  any keys in any order, a key's counter is exactly its number of auth failures since its last
  success, and its breaker is open exactly when that number has reached the threshold, stamped
  with the time of the latest auth failure. Results of other keys, and results of every other
  class, do not move it.\<close>

theorem breaker_refines_streak:
  assumes "length evs < 2 ^ 32"
  shows "consecutive_auth_failures (health_of (record_all Map.empty evs) k) =
           auth_streak (classes_of k evs)
       \<and> breaker_open_at (health_of (record_all Map.empty evs) k) =
           (if AUTH_BREAKER_THRESHOLD \<le> auth_streak (classes_of k evs)
            then Some (last_auth_at k evs) else None)"
  using assms
proof (induction evs rule: rev_induct)
  case Nil
  then show ?case by (simp add: default_health_def AUTH_BREAKER_THRESHOLD_def)
next
  case (snoc e evs)
  obtain k' c r n where e: "e = (k', c, r, n)" by (cases e)
  have "inc_u32 (auth_streak (classes_of k evs)) = Suc (auth_streak (classes_of k evs))"
    using auth_streak_le [of k evs] snoc.prems by (simp add: inc_u32_def)
  with snoc e show ?case
    by (auto simp: health_after_breaker AUTH_BREAKER_THRESHOLD_def)
qed

theorem breaker_refines_streak_witness:
  "breaker_open_at (health_of (record_all Map.empty
     [(''k'', AuthFailed, None, 10), (''k'', AuthFailed, None, 20), (''j'', Ok, None, 25),
      (''k'', Network, None, 27), (''k'', AuthFailed, None, 30)]) ''k'') = Some 30"
  using breaker_refines_streak [of "[(''k'', AuthFailed, None, 10), (''k'', AuthFailed, None, 20),
      (''j'', Ok, None, 25), (''k'', Network, None, 27), (''k'', AuthFailed, None, 30)]" "''k''"]
  by (simp add: classes_of_def events_of_def auth_streak_def last_auth_at_def
      AUTH_BREAKER_THRESHOLD_def)

text \<open>(C14) An open breaker is half-open, not a latch: whatever was recorded, a key whose status is
  not denied is usable exactly from one moment on (\<open>free_at\<close>: the end of the breaker's window or
  of the later cooldown), and while it is cooling the retry time the tracker reports is that
  moment, so a caller that sleeps until it finds the key usable.\<close>

theorem usable_from_one_moment_on:
  assumes "ak_status key \<notin> set KEY_STATUS_DENIED"
  shows "(is_key_usable (record_all tr evs) key now \<longleftrightarrow> free_at (record_all tr evs) key \<le> now)
    \<and> (\<forall>t. key_retry_at (record_all tr evs) key now = Some t \<longrightarrow>
           now < t \<and> t = free_at (record_all tr evs) key
           \<and> is_key_usable (record_all tr evs) key t)"
  using assms by (auto simp: is_key_usable_iff dest: key_retry_at_Some)

theorem usable_from_one_moment_on_witness:
  "\<not> is_key_usable (record_all Map.empty [(''k'', RateLimited, Some 5000, 100)]) (mk_key ''k'' ''p'' 0) 200
   \<and> is_key_usable (record_all Map.empty [(''k'', RateLimited, Some 5000, 100)]) (mk_key ''k'' ''p'' 0) 5100"
proof -
  let ?tr = "record_all Map.empty [(''k'', RateLimited, Some 5000, 100)]"
  have s: "ak_status (mk_key ''k'' ''p'' 0) \<notin> set KEY_STATUS_DENIED"
    by (simp add: mk_key_def KEY_STATUS_DENIED_def)
  have f: "free_at ?tr (mk_key ''k'' ''p'' 0) = 5100"
    by (simp add: record_all_def free_at_def mk_key_def default_health_def COOLDOWN_FLOOR_MS_def
        u64_as_i64_def wrap_i64_def Let_def)
  show ?thesis
    using usable_from_one_moment_on [OF s] by (simp add: f)
qed

text \<open>A rate limit cools its key for the wait the provider named, floored at
  \<open>COOLDOWN_FLOOR_MS\<close>, and for no shorter time: the key is refused at every moment of that window,
  and every other key's block is untouched. The hypothesis on the sum is that the epoch time plus
  the wait is an \<open>i64\<close>.\<close>

theorem rate_limit_cools_for_the_named_wait:
  assumes "ms < 2 ^ 63" and "0 \<le> now" and "now + int (max ms COOLDOWN_FLOOR_MS) \<le> i64_max"
    and "now \<le> later" and "later < now + int (max ms COOLDOWN_FLOOR_MS)"
  shows "\<not> is_key_usable (record_result tr (ak_id key) RateLimited (Some ms) now) key later
    \<and> (ak_id other \<noteq> ak_id key \<longrightarrow>
           is_key_usable (record_result tr (ak_id key) RateLimited (Some ms) now) other =
           is_key_usable tr other)"
proof -
  have u: "u64_as_i64 (max ms COOLDOWN_FLOOR_MS) = int (max ms COOLDOWN_FLOOR_MS)"
    using assms(1) by (intro u64_as_i64_small) (simp add: COOLDOWN_FLOOR_MS_def)
  have "in_i64 (now + int (max ms COOLDOWN_FLOOR_MS))"
    using assms(2,3) by (simp add: in_i64_def i64_min_def)
  note w = wrap_i64_in_range [OF this]
  have "\<not> is_key_usable (record_result tr (ak_id key) RateLimited (Some ms) now) key later"
    using assms(5) by (auto simp: is_key_usable_iff free_at_def Let_def u w split: option.splits)
  moreover have "ak_id other \<noteq> ak_id key \<longrightarrow>
      is_key_usable (record_result tr (ak_id key) RateLimited (Some ms) now) other =
      is_key_usable tr other"
    by (simp add: is_key_usable_def fun_eq_iff record_result_frame)
  ultimately show ?thesis by blast
qed

theorem rate_limit_cools_for_the_named_wait_witness:
  "\<not> is_key_usable (record_result Map.empty ''k'' RateLimited (Some 400) 1000) (mk_key ''k'' ''p'' 0) 1999"
  using rate_limit_cools_for_the_named_wait [of 400 1000 1999 Map.empty "mk_key ''k'' ''p'' 0"]
  by (simp add: mk_key_def COOLDOWN_FLOOR_MS_def i64_max_def)

text \<open>The cast \<open>wait as i64\<close> turns the largest wait a provider can name into no wait at all:
  \<open>parse_retry_after\<close> saturates an absurd \<open>Retry-After\<close> at \<open>u64::MAX\<close>, and a rate limit that
  carries it sets the cooldown one millisecond into the past, so a key that was free stays usable
  at the very moment it was rate-limited.\<close>

theorem saturated_retry_after_does_not_cool:
  assumes "free_at tr key \<le> now - 1" and "ak_status key \<notin> set KEY_STATUS_DENIED"
    and "0 < now" and "now \<le> i64_max"
  shows "is_key_usable (record_result tr (ak_id key) RateLimited (Some u64_max) now) key now"
proof -
  have "max u64_max COOLDOWN_FLOOR_MS = u64_max"
    by (simp add: u64_max_def COOLDOWN_FLOOR_MS_def)
  moreover have "in_i64 (now - 1)"
    using assms(3,4) by (simp add: in_i64_def i64_min_def)
  ultimately have "health_after RateLimited (Some u64_max) now h = h\<lparr>cooldown_until_ms := now - 1\<rparr>" for h
    by (simp add: Let_def u64_max_as_i64 wrap_i64_in_range)
  with assms show ?thesis
    by (auto simp: is_key_usable_iff free_at_def Let_def split: option.splits)
qed

theorem saturated_retry_after_does_not_cool_witness:
  "is_key_usable (record_result Map.empty ''k'' RateLimited (Some u64_max) 1000) (mk_key ''k'' ''p'' 0) 1000"
  using saturated_retry_after_does_not_cool [of Map.empty "mk_key ''k'' ''p'' 0" 1000]
  by (simp add: mk_key_def free_at_def default_health_def KEY_STATUS_DENIED_def i64_max_def Let_def)

end
