(* ===== verification/Attempt.thy ===== *)
theory Attempt
  imports Health
begin

text \<open>
  The attempt vocabulary and the per-attempt policy (\<open>engine/attempt.rs\<close>): outcomes and their
  labels, the wait a client is told, the plan's budgets, how a caught error is classified, what the
  loop does after a failure, and what the outcome of an attempt carries. Durations are nanoseconds.
\<close>

subsection \<open>Outcomes\<close>

record attempt_label =
  provider_slug :: string
  key_label :: string

definition label_of :: "candidate \<Rightarrow> attempt_label" where
  "label_of c = \<lparr>provider_slug = pr_slug (c_provider c), key_label = ak_label (c_key c)\<rparr>"

record outcome =
  o_cls :: error_class
  o_status :: nat
  o_retry_after_ms :: "nat option"
  o_reason :: "string option"
  o_label :: "attempt_label option"

definition labelled :: "outcome \<Rightarrow> candidate \<Rightarrow> outcome" where
  "labelled out c = out\<lparr>o_label := Some (label_of c)\<rparr>"

text \<open>\<open>Some(0)\<close> is an unnamed wait.\<close>

definition named_wait :: "nat option \<Rightarrow> nat option" where
  "named_wait r = (case r of Some ms \<Rightarrow> if 0 < ms then Some ms else None | None \<Rightarrow> None)"

definition min_retry_after_ms :: "outcome list \<Rightarrow> nat" where
  "min_retry_after_ms as =
     (case fold (\<lambda>a shortest.
             case named_wait (o_retry_after_ms a) of
               None \<Rightarrow> shortest
             | Some ms \<Rightarrow> Some (opt_min shortest (max ms COOLDOWN_FLOOR_MS))) as None of
        Some ms \<Rightarrow> ms | None \<Rightarrow> 0)"

subsection \<open>Budgets\<close>

definition MAX_ATTEMPTS_DEFAULT :: nat where
  "MAX_ATTEMPTS_DEFAULT = 6"

definition PLAN_BUDGET :: nat where
  "PLAN_BUDGET = from_secs 44"

definition UPSTREAM_HEADER_TIMEOUT :: nat where
  "UPSTREAM_HEADER_TIMEOUT = from_secs 20"

definition candidate_is_affordable :: "nat \<Rightarrow> bool \<Rightarrow> bool" where
  "candidate_is_affordable elapsed is_first \<longleftrightarrow>
     is_first \<or> elapsed + UPSTREAM_HEADER_TIMEOUT \<le> PLAN_BUDGET"

definition SERVER_ERROR_RETRY_BACKOFF :: nat where
  "SERVER_ERROR_RETRY_BACKOFF = from_secs 2"

definition SERVER_ERROR_REPROBES_MAX :: nat where
  "SERVER_ERROR_REPROBES_MAX = 3"

definition NETWORK_REPROBES_MAX :: nat where
  "NETWORK_REPROBES_MAX = 2"

definition NETWORK_RETRY_BACKOFF :: nat where
  "NETWORK_RETRY_BACKOFF = from_secs 2"

record retry_notice =
  n_provider :: string
  n_key :: string
  n_attempt :: nat
  n_max :: nat
  n_delay_ms :: nat
  n_reason :: string

definition attempt_budget :: "nat \<Rightarrow> nat option \<Rightarrow> nat" where
  "attempt_budget plan_len max_attempts =
     min plan_len (case max_attempts of Some n \<Rightarrow> n | None \<Rightarrow> MAX_ATTEMPTS_DEFAULT)"

lemmas budget_consts =
  PLAN_BUDGET_def UPSTREAM_HEADER_TIMEOUT_def SERVER_ERROR_RETRY_BACKOFF_def
  NETWORK_RETRY_BACKOFF_def from_secs_def

subsection \<open>Errors\<close>

datatype failure_kind = Response | MidStream

datatype attempt_error =
    Http nat failure_kind "nat option" "string option"
    \<comment> \<open>status, kind, \<open>retry_after_ms\<close>, body\<close>
  | Transport "string option"
  | Blocked string

fun status_or_zero :: "attempt_error \<Rightarrow> nat" where
  "status_or_zero (Http status _ _ _) = status"
| "status_or_zero (Transport _) = 0"
| "status_or_zero (Blocked _) = 0"

fun err_retry_after_ms :: "attempt_error \<Rightarrow> nat option" where
  "err_retry_after_ms (Http _ _ r _) = r"
| "err_retry_after_ms (Transport _) = None"
| "err_retry_after_ms (Blocked _) = None"

fun err_message :: "attempt_error \<Rightarrow> string option" where
  "err_message (Http _ _ _ body) = body"
| "err_message (Transport message) = message"
| "err_message (Blocked reason) = Some reason"

definition hint_of :: "nat \<Rightarrow> string option \<Rightarrow> body_hint option" where
  "hint_of status body =
     (case detect_client_gate status body of
        Some _ \<Rightarrow> Some HintClientGate
      | None \<Rightarrow> case detect_not_found status body of
          Some _ \<Rightarrow> Some HintNotFound
        | None \<Rightarrow> case detect_invalid_request status body of
            Some _ \<Rightarrow> Some HintSchema
          | None \<Rightarrow> None)"

fun classify_attempt_error :: "attempt_error \<Rightarrow> error_class" where
  "classify_attempt_error (Transport _) = Network"
| "classify_attempt_error (Blocked _) = EgressDenied"
| "classify_attempt_error (Http status kind _ body) =
     (if kind = MidStream then ParseError
      else case classify status (hint_of status body) of Ok \<Rightarrow> ParseError | other \<Rightarrow> other)"

subsection \<open>Decisions\<close>

datatype disposition = Rethrow | Stop | Next

definition attempt_disposition :: "bool \<Rightarrow> bool \<Rightarrow> disposition" where
  "attempt_disposition emitted aborted =
     (if emitted then Rethrow else if aborted then Stop else Next)"

definition attempt_outcome ::
  "(string \<Rightarrow> json option) \<Rightarrow> attempt_error \<Rightarrow> disposition \<Rightarrow> outcome" where
  "attempt_outcome parse e d =
     \<lparr>o_cls = classify_attempt_error e,
      o_status = status_or_zero e,
      o_retry_after_ms = (case d of Rethrow \<Rightarrow> None | _ \<Rightarrow> err_retry_after_ms e),
      o_reason = (case e of
          Http _ _ _ body \<Rightarrow> reason_from_body parse body
        | Transport message \<Rightarrow> message
        | Blocked _ \<Rightarrow> None),
      o_label = None\<rparr>"

definition records_key_health :: "disposition \<Rightarrow> bool" where
  "records_key_health d \<longleftrightarrow> d \<noteq> Rethrow"

definition saturated_outcome :: outcome where
  "saturated_outcome =
     \<lparr>o_cls = RateLimited, o_status = 429, o_retry_after_ms = None, o_reason = None, o_label = None\<rparr>"

datatype candidate_gate_result = GateTry | GateSkipSaturated | GateStop

definition candidate_gate :: "bool \<Rightarrow> bool \<Rightarrow> candidate_gate_result" where
  "candidate_gate aborted saturated =
     (if aborted then GateStop else if saturated then GateSkipSaturated else GateTry)"

definition transport_outcome :: outcome where
  "transport_outcome =
     \<lparr>o_cls = Network, o_status = 0, o_retry_after_ms = None, o_reason = None, o_label = None\<rparr>"

lemmas outcome_defs =
  labelled_def attempt_outcome_def saturated_outcome_def transport_outcome_def

lemma labelled_simps [simp]:
  "o_label (labelled out c) = Some (label_of c)"
  "o_cls (labelled out c) = o_cls out"
  "o_status (labelled out c) = o_status out"
  "o_retry_after_ms (labelled out c) = o_retry_after_ms out"
  "o_reason (labelled out c) = o_reason out"
  by (simp_all add: labelled_def)

lemma attempt_budget_le: "attempt_budget n m \<le> n"
  by (simp add: attempt_budget_def)

lemma attempt_disposition_simps [simp]:
  "attempt_disposition e a = Rethrow \<longleftrightarrow> e"
  "attempt_disposition e a = Stop \<longleftrightarrow> \<not> e \<and> a"
  "attempt_disposition e a = Next \<longleftrightarrow> \<not> e \<and> \<not> a"
  by (simp_all add: attempt_disposition_def)

subsection \<open>Properties\<close>

text \<open>The floored waits a chain names.\<close>

definition named_waits :: "outcome list \<Rightarrow> nat list" where
  "named_waits as =
     map (\<lambda>ms. max ms COOLDOWN_FLOOR_MS)
       (List.map_filter (\<lambda>a. named_wait (o_retry_after_ms a)) as)"

lemma min_retry_after_ms_eq:
  "min_retry_after_ms as = (if named_waits as = [] then 0 else Min (set (named_waits as)))"
proof -
  have "fold (\<lambda>a shortest.
             case named_wait (o_retry_after_ms a) of
               None \<Rightarrow> shortest
             | Some ms \<Rightarrow> Some (opt_min shortest (max ms COOLDOWN_FLOOR_MS))) as acc =
        fold (\<lambda>x acc. Some (opt_min acc x)) (named_waits as) acc" for acc
    by (induction as arbitrary: acc)
       (auto simp: named_waits_def map_filter_simps split: option.splits)
  then show ?thesis
    by (auto simp: min_retry_after_ms_def fold_opt_min split: option.splits)
qed

lemma named_wait_Some: "named_wait r = Some ms \<longleftrightarrow> r = Some ms \<and> 0 < ms"
  by (auto simp: named_wait_def split: option.splits)

lemma in_named_waits:
  "w \<in> set (named_waits as) \<longleftrightarrow>
     (\<exists>a \<in> set as. \<exists>ms. o_retry_after_ms a = Some ms \<and> 0 < ms \<and> w = max ms COOLDOWN_FLOOR_MS)"
  by (auto simp: named_waits_def set_map_filter named_wait_Some)

text \<open>The wait the client is told is the shortest wait any attempt of the chain named,
  floored at \<open>COOLDOWN_FLOOR_MS\<close>, whatever the classes; it is \<open>0\<close> exactly when no attempt named
  one (a named \<open>0\<close> counts as unnamed), and attempts that named nothing move it neither way.\<close>

theorem told_wait_is_the_shortest_named:
  "(\<forall>a \<in> set as. \<forall>ms. o_retry_after_ms a = Some ms \<longrightarrow> 0 < ms \<longrightarrow>
      min_retry_after_ms as \<le> max ms COOLDOWN_FLOOR_MS)
   \<and> (min_retry_after_ms as = 0 \<longleftrightarrow> (\<forall>a \<in> set as. named_wait (o_retry_after_ms a) = None))
   \<and> (min_retry_after_ms as \<noteq> 0 \<longrightarrow>
        COOLDOWN_FLOOR_MS \<le> min_retry_after_ms as
        \<and> (\<exists>a \<in> set as. \<exists>ms. o_retry_after_ms a = Some ms \<and> 0 < ms
             \<and> min_retry_after_ms as = max ms COOLDOWN_FLOOR_MS))"
proof (cases "named_waits as = []")
  case True
  then have "List.map_filter (\<lambda>a. named_wait (o_retry_after_ms a)) as = []"
    by (simp add: named_waits_def)
  then have none: "\<forall>a \<in> set as. named_wait (o_retry_after_ms a) = None"
    by (simp add: map_filter_Nil)
  have "\<not> 0 < ms" if "a \<in> set as" "o_retry_after_ms a = Some ms" for a ms
    using bspec [OF none that(1)] that(2) by (simp add: named_wait_def split: if_splits)
  moreover have "min_retry_after_ms as = 0" using True by (simp add: min_retry_after_ms_eq)
  ultimately show ?thesis using none by blast
next
  case False
  let ?m = "Min (set (named_waits as))"
  from False have eq: "min_retry_after_ms as = ?m" by (simp add: min_retry_after_ms_eq)
  have mem: "?m \<in> set (named_waits as)" using False by (intro Min_in) auto
  then obtain a ms where a: "a \<in> set as" "o_retry_after_ms a = Some ms" "0 < ms"
    and m: "?m = max ms COOLDOWN_FLOOR_MS" by (auto simp: in_named_waits)
  have nz: "?m \<noteq> 0" using m a(3) by linarith
  have le: "?m \<le> max ms' COOLDOWN_FLOOR_MS"
    if "a' \<in> set as" "o_retry_after_ms a' = Some ms'" "0 < ms'" for a' ms'
    using that by (intro Min_le) (auto simp: in_named_waits)
  have "\<exists>a \<in> set as. named_wait (o_retry_after_ms a) \<noteq> None"
    using a by (intro bexI [of _ a]) (simp_all add: named_wait_def)
  with nz have iff: "(?m = 0) = (\<forall>a \<in> set as. named_wait (o_retry_after_ms a) = None)" by simp
  have floor: "COOLDOWN_FLOOR_MS \<le> ?m" using m by linarith
  show ?thesis unfolding eq
  proof (intro conjI impI ballI allI)
    fix a' ms' assume "a' \<in> set as" "o_retry_after_ms a' = Some ms'" "0 < ms'"
    then show "?m \<le> max ms' COOLDOWN_FLOOR_MS" by (rule le)
  next
    show "\<exists>a \<in> set as. \<exists>ms. o_retry_after_ms a = Some ms \<and> 0 < ms
        \<and> ?m = max ms COOLDOWN_FLOOR_MS"
      using a m by blast
  qed (use iff floor in auto)
qed

text \<open>A concrete chain: keys cooling for 58, 42 and 71 seconds give 42.\<close>

theorem told_wait_is_the_shortest_named_witness:
  "min_retry_after_ms [transport_outcome\<lparr>o_retry_after_ms := Some 58000\<rparr>,
     transport_outcome\<lparr>o_retry_after_ms := Some 42000\<rparr>,
     transport_outcome\<lparr>o_retry_after_ms := Some 71000\<rparr>, transport_outcome] \<le> 42000"
  using told_wait_is_the_shortest_named [of "[transport_outcome\<lparr>o_retry_after_ms := Some 58000\<rparr>,
     transport_outcome\<lparr>o_retry_after_ms := Some 42000\<rparr>,
     transport_outcome\<lparr>o_retry_after_ms := Some 71000\<rparr>, transport_outcome]"]
  by (simp add: COOLDOWN_FLOOR_MS_def)

text \<open>The wait the tracker enforces after a rate limit and the wait the client is told for
  the same attempt are one number.\<close>

theorem enforced_wait_is_the_told_wait:
  assumes "o_cls a = RateLimited" and "o_retry_after_ms a = Some ms" and "0 < ms" and "ms < 2 ^ 63"
    and "0 \<le> now" and "now + int (min_retry_after_ms [a]) \<le> i64_max"
  shows "cooldown_until_ms (health_of
           (record_result tr k (o_cls a) (o_retry_after_ms a) now) k) =
         now + int (min_retry_after_ms [a])"
proof -
  have m: "min_retry_after_ms [a] = max ms COOLDOWN_FLOOR_MS"
    using assms by (simp add: min_retry_after_ms_def named_wait_def)
  have u: "u64_as_i64 (max ms COOLDOWN_FLOOR_MS) = int (max ms COOLDOWN_FLOOR_MS)"
    using assms(4) by (intro u64_as_i64_small) (simp add: COOLDOWN_FLOOR_MS_def)
  have "in_i64 (now + int (max ms COOLDOWN_FLOOR_MS))"
    using assms(5,6) m by (simp add: in_i64_def i64_min_def)
  with assms m u show ?thesis by (simp add: Let_def wrap_i64_in_range)
qed

theorem enforced_wait_is_the_told_wait_witness:
  "cooldown_until_ms (health_of (record_result Map.empty ''k''
     RateLimited (Some 30000) 1000) ''k'') = 31000"
  using enforced_wait_is_the_told_wait
    [of "saturated_outcome\<lparr>o_retry_after_ms := Some 30000\<rparr>" 30000 1000 Map.empty "''k''"]
  by (simp add: saturated_outcome_def min_retry_after_ms_def named_wait_def
      COOLDOWN_FLOOR_MS_def i64_max_def)

text \<open>A caught error is never classified as a success: a stream that broke is a parse error
  whatever its status, a refusal by the own egress and a transport failure have their own classes,
  a \<open>2xx\<close> that failed is a parse error, and every other status decides by itself and its body.\<close>

theorem caught_error_class:
  "classify_attempt_error e \<noteq> Ok
   \<and> (case e of
        Http status kind r body \<Rightarrow>
          (if kind = MidStream \<or> (200 \<le> status \<and> status < 300)
           then classify_attempt_error e = ParseError
           else classify_attempt_error e = classify status (hint_of status body))
      | Transport m \<Rightarrow> classify_attempt_error e = Network
      | Blocked reason \<Rightarrow> classify_attempt_error e = EgressDenied)"
proof (cases e)
  case (Http status kind r body)
  then show ?thesis
    using classify_Ok_iff [of status "hint_of status body"]
    by (auto split: error_class.splits)
qed simp_all

text \<open>Leaving key health alone on the rethrow path loses nothing: an error that is not an
  answered refusal (a stream break, a transport failure, an egress denial) would not change what
  any key is blocked by, had it been recorded.\<close>

theorem rethrow_skips_no_cooldown:
  assumes "\<forall>s r b. e \<noteq> Http s Response r b"
  shows "block_of (record_result tr k (classify_attempt_error e) r now) key = block_of tr key"
proof -
  have "health_after (classify_attempt_error e) r now h = h" for h
  proof (cases e)
    case (Http s kind r' b)
    with assms have "kind = MidStream" by (cases kind) auto
    with Http show ?thesis by simp
  qed simp_all
  then show ?thesis by (intro block_of_cong) simp
qed

theorem rethrow_skips_no_cooldown_witness:
  "block_of (record_result Map.empty ''k''
     (classify_attempt_error (Http 429 MidStream (Some 9000) None)) (Some 9000) 5) (mk_key ''k'' ''p'' 0) =
   block_of Map.empty (mk_key ''k'' ''p'' 0)"
  by (rule rethrow_skips_no_cooldown) simp

end
