(* ===== verification/Limiter.thy ===== *)
theory Limiter
  imports Prelude
begin

text \<open>
  The per-provider in-flight cap (\<open>limiter.rs\<close>): its operations as functions on the limiter's
  state, and the same operations under concurrency as labelled steps of a system of threads, where
  \<open>acquire\<close> is two atomic actions (the load of the cap, then the critical section), a release is two
  (the swap of its flag, then the critical section of the decrement) and permits are released in any
  order, more than once, or by \<open>Drop\<close>.
\<close>

definition PER_PROVIDER_DEFAULT :: nat where
  "PER_PROVIDER_DEFAULT = 4"

record limiter =
  lim_max :: nat
  lim_in_flight :: "string \<Rightarrow> nat option"

record permit =
  pm_provider :: string
  pm_released :: bool

definition new_limiter :: "nat \<Rightarrow> limiter" where
  "new_limiter cap = \<lparr>lim_max = cap, lim_in_flight = Map.empty\<rparr>"

definition default_limiter :: limiter where
  "default_limiter = new_limiter PER_PROVIDER_DEFAULT"

definition max_per_provider :: "limiter \<Rightarrow> nat" where
  "max_per_provider l = lim_max l"

definition set_max_per_provider :: "nat \<Rightarrow> limiter \<Rightarrow> limiter" where
  "set_max_per_provider cap l = l\<lparr>lim_max := cap\<rparr>"

definition in_flight_count :: "limiter \<Rightarrow> string \<Rightarrow> nat" where
  "in_flight_count l p = (case lim_in_flight l p of Some n \<Rightarrow> n | None \<Rightarrow> 0)"

definition has_capacity :: "limiter \<Rightarrow> string \<Rightarrow> bool" where
  "has_capacity l p = (let cap = max_per_provider l in cap = 0 \<or> in_flight_count l p < cap)"

text \<open>The critical section of \<open>acquire\<close>, for a cap loaded before it.\<close>

definition acquire_locked :: "nat \<Rightarrow> string \<Rightarrow> limiter \<Rightarrow> limiter option" where
  "acquire_locked cap p l =
     (if cap \<noteq> 0 \<and> cap \<le> in_flight_count l p then None
      else Some (l\<lparr>lim_in_flight := (lim_in_flight l)(p \<mapsto> in_flight_count l p + 1)\<rparr>))"

definition acquire :: "string \<Rightarrow> limiter \<Rightarrow> limiter option" where
  "acquire p l = acquire_locked (max_per_provider l) p l"

definition snapshot :: "limiter \<Rightarrow> string \<Rightarrow> nat option" where
  "snapshot l = lim_in_flight l"

text \<open>The decrement of \<open>Permit::release\<close>; before it, the swap of the \<open>released\<close> flag, which tells
  whether there is a slot to give back; and the call.\<close>

definition release_slot :: "string \<Rightarrow> limiter \<Rightarrow> limiter" where
  "release_slot p l =
     (let n = in_flight_count l p - 1 in
      if n = 0 then l\<lparr>lim_in_flight := (lim_in_flight l)(p := None)\<rparr>
      else l\<lparr>lim_in_flight := (lim_in_flight l)(p \<mapsto> n)\<rparr>)"

definition release_flag :: "permit \<Rightarrow> permit \<times> string list" where
  "release_flag pm =
     (pm\<lparr>pm_released := True\<rparr>, if pm_released pm then [] else [pm_provider pm])"

definition release :: "permit \<Rightarrow> limiter \<Rightarrow> permit \<times> limiter" where
  "release pm l = (case release_flag pm of (pm', slots) \<Rightarrow> (pm', fold release_slot slots l))"

text \<open>No entry holds a zero.\<close>

definition lim_ok :: "limiter \<Rightarrow> bool" where
  "lim_ok l \<longleftrightarrow> (\<forall>p. lim_in_flight l p \<noteq> Some 0)"

lemma lim_ok_new [simp]: "lim_ok (new_limiter cap)"
  by (simp add: lim_ok_def new_limiter_def)

lemma lim_ok_set_max [simp]: "lim_ok (set_max_per_provider cap l) = lim_ok l"
  by (simp add: lim_ok_def set_max_per_provider_def)

lemma lim_ok_acquire_locked: "lim_ok l \<Longrightarrow> acquire_locked cap p l = Some l' \<Longrightarrow> lim_ok l'"
  by (auto simp: lim_ok_def acquire_locked_def split: if_splits)

lemma lim_ok_release_slot [simp]: "lim_ok l \<Longrightarrow> lim_ok (release_slot p l)"
  by (auto simp: lim_ok_def release_slot_def Let_def)

lemma in_flight_new [simp]: "in_flight_count (new_limiter cap) p = 0"
  by (simp add: in_flight_count_def new_limiter_def)

lemma in_flight_set_max [simp]: "in_flight_count (set_max_per_provider cap l) = in_flight_count l"
  by (simp add: in_flight_count_def set_max_per_provider_def fun_eq_iff)

lemma in_flight_acquire_locked:
  "acquire_locked cap p l = Some l' \<Longrightarrow>
     in_flight_count l' q = in_flight_count l q + (if q = p then 1 else 0)"
  by (auto simp: acquire_locked_def in_flight_count_def split: if_splits)

lemma in_flight_release_slot [simp]:
  "in_flight_count (release_slot p l) q =
     (if q = p then in_flight_count l p - 1 else in_flight_count l q)"
  by (auto simp: release_slot_def in_flight_count_def Let_def)

lemma lim_max_release_slot [simp]: "lim_max (release_slot p l) = lim_max l"
  by (simp add: release_slot_def Let_def)

lemma lim_max_acquire_locked: "acquire_locked cap p l = Some l' \<Longrightarrow> lim_max l' = lim_max l"
  by (auto simp: acquire_locked_def split: if_splits)

lemma release_slot_acquire:
  assumes "lim_ok l" and "acquire p l = Some l'"
  shows "release_slot p l' = l"
proof -
  let ?n = "in_flight_count l p" and ?f = "lim_in_flight l"
  have l': "l' = l\<lparr>lim_in_flight := ?f(p \<mapsto> ?n + 1)\<rparr>"
    using assms(2) by (simp add: acquire_def acquire_locked_def split: if_splits)
  have c: "in_flight_count l' p = ?n + 1"
    by (simp add: l' in_flight_count_def)
  show ?thesis
  proof (cases "?f p")
    case None
    then have "?n = 0" and "?f(p := None) = ?f"
      by (simp_all add: in_flight_count_def fun_upd_idem)
    then show ?thesis by (simp add: release_slot_def c Let_def) (simp add: l')
  next
    case (Some n)
    with assms(1) have "n \<noteq> 0" by (metis lim_ok_def)
    moreover from Some have "?n = n" and "?f(p \<mapsto> n) = ?f"
      by (simp_all add: in_flight_count_def fun_upd_idem)
    ultimately show ?thesis by (simp add: release_slot_def c Let_def) (simp add: l')
  qed
qed

subsection \<open>Slots as an interface\<close>

text \<open>
  What the engine's loops rely on: a slot that was taken and given back leaves the pool as it was.
  A loop body is a bracket; a sequence of brackets, refused ones skipped, restores the pool.
\<close>

fun brackets :: "('p \<Rightarrow> 'l \<Rightarrow> 'l option) \<Rightarrow> ('p \<Rightarrow> 'l \<Rightarrow> 'l) \<Rightarrow> 'p list \<Rightarrow> 'l \<Rightarrow> 'l" where
  "brackets acq rel [] l = l"
| "brackets acq rel (p # ps) l =
     brackets acq rel ps (case acq p l of Some l' \<Rightarrow> rel p l' | None \<Rightarrow> l)"

locale slot_pool =
  fixes acq :: "'p \<Rightarrow> 'l \<Rightarrow> 'l option"
    and rel :: "'p \<Rightarrow> 'l \<Rightarrow> 'l"
    and invar :: "'l \<Rightarrow> bool"
  assumes rel_acq: "invar l \<Longrightarrow> acq p l = Some l' \<Longrightarrow> rel p l' = l"
begin

lemma bracket_restores: "invar l \<Longrightarrow> (case acq p l of Some l' \<Rightarrow> rel p l' | None \<Rightarrow> l) = l"
  by (auto simp: rel_acq split: option.split)

lemma brackets_restore: "invar l \<Longrightarrow> brackets acq rel ps l = l"
  by (induction ps) (simp_all add: bracket_restores)

end

interpretation limiter_slots: slot_pool acquire release_slot lim_ok
  by unfold_locales (rule release_slot_acquire)

subsection \<open>The limiter shared by threads\<close>

record lim_sys =
  sys_lim :: limiter
  sys_permits :: "permit list"
  sys_loaded :: "(string \<times> nat) list"
  sys_giving :: "string list"

datatype lim_event =
    LoadCap string
  | Enter string nat
  | SwapFlag nat
  | GiveBack string
  | SetMax nat

definition init_sys :: "nat \<Rightarrow> lim_sys" where
  "init_sys cap = \<lparr>sys_lim = new_limiter cap, sys_permits = [], sys_loaded = [], sys_giving = []\<rparr>"

inductive lim_step :: "lim_sys \<Rightarrow> lim_event \<Rightarrow> lim_sys \<Rightarrow> bool" where
  load_cap: "lim_step s (LoadCap p)
     (s\<lparr>sys_loaded := (p, max_per_provider (sys_lim s)) # sys_loaded s\<rparr>)"
| enter_ok: "(p, cap) \<in> set (sys_loaded s) \<Longrightarrow> acquire_locked cap p (sys_lim s) = Some l' \<Longrightarrow>
     lim_step s (Enter p cap)
       (s\<lparr>sys_lim := l',
          sys_permits := sys_permits s @ [\<lparr>pm_provider = p, pm_released = False\<rparr>],
          sys_loaded := remove1 (p, cap) (sys_loaded s)\<rparr>)"
| enter_refused: "(p, cap) \<in> set (sys_loaded s) \<Longrightarrow> acquire_locked cap p (sys_lim s) = None \<Longrightarrow>
     lim_step s (Enter p cap) (s\<lparr>sys_loaded := remove1 (p, cap) (sys_loaded s)\<rparr>)"
| swap_flag: "i < length (sys_permits s) \<Longrightarrow> release_flag (sys_permits s ! i) = (pm', slots) \<Longrightarrow>
     lim_step s (SwapFlag i)
       (s\<lparr>sys_permits := (sys_permits s)[i := pm'], sys_giving := slots @ sys_giving s\<rparr>)"
| give_back: "p \<in> set (sys_giving s) \<Longrightarrow>
     lim_step s (GiveBack p)
       (s\<lparr>sys_lim := release_slot p (sys_lim s), sys_giving := remove1 p (sys_giving s)\<rparr>)"
| set_max: "lim_step s (SetMax cap) (s\<lparr>sys_lim := set_max_per_provider cap (sys_lim s)\<rparr>)"

inductive_cases lim_stepE: "lim_step s e s'"

inductive lim_run :: "lim_sys \<Rightarrow> lim_event list \<Rightarrow> lim_sys \<Rightarrow> bool" where
  run_nil: "lim_run s [] s"
| run_snoc: "lim_run s es s' \<Longrightarrow> lim_step s' e s'' \<Longrightarrow> lim_run s (es @ [e]) s''"

text \<open>The permits of a provider that have not been released, and the slots held: those of these permits and
  of the releases that are between their swap and their decrement.\<close>

definition outstanding :: "permit list \<Rightarrow> string \<Rightarrow> nat" where
  "outstanding pms p = length (filter (\<lambda>pm. pm_provider pm = p \<and> \<not> pm_released pm) pms)"

definition slots_held :: "lim_sys \<Rightarrow> string \<Rightarrow> nat" where
  "slots_held s p = outstanding (sys_permits s) p + count_list (sys_giving s) p"

definition lim_inv :: "lim_sys \<Rightarrow> bool" where
  "lim_inv s \<longleftrightarrow> lim_ok (sys_lim s) \<and> (\<forall>p. in_flight_count (sys_lim s) p = slots_held s p)"

text \<open>A call without interruption is the two steps.\<close>

lemma release_is_two_steps:
  assumes "i < length (sys_permits s)" and "release (sys_permits s ! i) (sys_lim s) = (pm', l')"
  shows "\<exists>es. lim_run s es (s\<lparr>sys_lim := l', sys_permits := (sys_permits s)[i := pm']\<rparr>)"
proof (cases "pm_released (sys_permits s ! i)")
  case True
  with assms have "release_flag (sys_permits s ! i) = (pm', [])" "l' = sys_lim s"
    by (auto simp: release_def release_flag_def)
  with run_snoc [OF run_nil swap_flag [OF assms(1)]] show ?thesis by fastforce
next
  case False
  let ?p = "pm_provider (sys_permits s ! i)"
  let ?s1 = "s\<lparr>sys_permits := (sys_permits s)[i := pm'], sys_giving := ?p # sys_giving s\<rparr>"
  from False assms have 1: "release_flag (sys_permits s ! i) = (pm', [?p])"
    and 2: "l' = release_slot ?p (sys_lim s)"
    by (auto simp: release_def release_flag_def)
  have "lim_run s [SwapFlag i] ?s1"
    using run_snoc [OF run_nil swap_flag [OF assms(1) 1]] by simp
  then have "lim_run s ([SwapFlag i] @ [GiveBack ?p])
      (?s1\<lparr>sys_lim := release_slot ?p (sys_lim ?s1), sys_giving := remove1 ?p (sys_giving ?s1)\<rparr>)"
    by (rule run_snoc) (rule give_back, simp)
  moreover have "?s1\<lparr>sys_lim := release_slot ?p (sys_lim ?s1), sys_giving := remove1 ?p (sys_giving ?s1)\<rparr>
      = s\<lparr>sys_lim := l', sys_permits := (sys_permits s)[i := pm']\<rparr>"
    by (cases s) (simp add: 2)
  ultimately show ?thesis by auto
qed

lemma count_list_given:
  "p \<in> set xs \<Longrightarrow> count_list (remove1 p xs) q = count_list xs q - (if q = p then 1 else 0)
    \<and> (q = p \<longrightarrow> 0 < count_list xs q)"
  by (induction xs) auto

lemma outstanding_update:
  assumes "i < length pms" and "\<not> pm_released (pms ! i)"
  shows "outstanding pms q =
     outstanding (pms[i := (pms ! i)\<lparr>pm_released := True\<rparr>]) q
       + (if q = pm_provider (pms ! i) then 1 else 0)"
proof -
  have e: "pms = take i pms @ pms ! i # drop (Suc i) pms"
    using assms(1) by (rule id_take_nth_drop)
  have u: "pms[i := x] = take i pms @ x # drop (Suc i) pms" for x
    using assms(1) by (rule upd_conv_take_nth_drop)
  show ?thesis
    unfolding u by (subst e) (use assms(2) in \<open>simp add: outstanding_def\<close>)
qed

lemma lim_inv_init: "lim_inv (init_sys cap)"
  by (simp add: lim_inv_def init_sys_def outstanding_def slots_held_def)

lemma lim_step_inv: "lim_step s e s' \<Longrightarrow> lim_inv s \<Longrightarrow> lim_inv s'"
proof (induction rule: lim_step.induct)
  case (enter_ok p cap s l')
  then show ?case
    by (auto simp: lim_inv_def slots_held_def in_flight_acquire_locked outstanding_def
        intro: lim_ok_acquire_locked)
next
  case (swap_flag i s pm' slots)
  show ?case
  proof (cases "pm_released (sys_permits s ! i)")
    case True
    then have "release_flag (sys_permits s ! i) = (sys_permits s ! i, [])"
      by (cases "sys_permits s ! i") (simp add: release_flag_def)
    with swap_flag show ?thesis by (auto simp: lim_inv_def slots_held_def)
  next
    case False
    then have "pm' = (sys_permits s ! i)\<lparr>pm_released := True\<rparr>" "slots = [pm_provider (sys_permits s ! i)]"
      using swap_flag.hyps(2) by (auto simp: release_flag_def)
    with swap_flag.prems outstanding_update [OF swap_flag.hyps(1) False]
    show ?thesis by (simp add: lim_inv_def slots_held_def)
  qed
next
  case (give_back p s)
  have "in_flight_count (release_slot p (sys_lim s)) q
      = outstanding (sys_permits s) q + count_list (remove1 p (sys_giving s)) q" for q
    using give_back.prems count_list_given [OF give_back.hyps, of q]
    by (auto simp: lim_inv_def slots_held_def simp del: count_list_remove1)
  with give_back.prems show ?case by (simp add: lim_inv_def slots_held_def)
qed (auto simp: lim_inv_def slots_held_def)

subsection \<open>Properties\<close>

text \<open>(C9) The count of a provider is exactly the number of permits that were handed out for it and
  whose slot was not yet given back: those not released, and those in the middle of their release. It
  holds in every state any interleaving of loads, acquires, releases (explicit, by \<open>Drop\<close>, repeated)
  and cap changes reaches; and a provider with nothing in flight has no entry in the snapshot.\<close>

theorem in_flight_counts_outstanding_permits:
  assumes "lim_run (init_sys cap) es s"
  shows "in_flight_count (sys_lim s) p = outstanding (sys_permits s) p + count_list (sys_giving s) p
    \<and> (snapshot (sys_lim s) p = None \<longleftrightarrow>
         outstanding (sys_permits s) p = 0 \<and> count_list (sys_giving s) p = 0)"
proof -
  have "lim_inv s"
    using assms by (induction "init_sys cap" es s rule: lim_run.induct)
      (auto simp: lim_inv_init intro: lim_step_inv)
  then have "in_flight_count (sys_lim s) p = outstanding (sys_permits s) p + count_list (sys_giving s) p"
    and "lim_in_flight (sys_lim s) p \<noteq> Some 0"
    by (simp_all add: lim_inv_def lim_ok_def slots_held_def)
  then show ?thesis
    by (cases "lim_in_flight (sys_lim s) p") (auto simp: snapshot_def in_flight_count_def)
qed

definition demo_sys :: lim_sys where
  "demo_sys =
     \<lparr>sys_lim = \<lparr>lim_max = 1, lim_in_flight = Map.empty(''p'' \<mapsto> 1)\<rparr>,
      sys_permits = [\<lparr>pm_provider = ''p'', pm_released = False\<rparr>], sys_loaded = [], sys_giving = []\<rparr>"

lemma demo_run: "lim_run (init_sys 1) ([] @ [LoadCap ''p''] @ [Enter ''p'' 1]) demo_sys"
proof -
  let ?s1 = "(init_sys 1)\<lparr>sys_loaded := [(''p'', 1)]\<rparr>"
  have "lim_step (init_sys 1) (LoadCap ''p'') ?s1"
    using load_cap [of "init_sys 1" "''p''"]
    by (simp add: init_sys_def new_limiter_def max_per_provider_def)
  then have r1: "lim_run (init_sys 1) ([] @ [LoadCap ''p'']) ?s1"
    by (rule run_snoc [OF run_nil])
  have a: "acquire_locked 1 ''p'' (sys_lim ?s1) = Some (sys_lim demo_sys)"
    by (simp add: acquire_locked_def init_sys_def new_limiter_def in_flight_count_def demo_sys_def)
  have "lim_step ?s1 (Enter ''p'' 1) demo_sys"
    using enter_ok [of "''p''" 1 ?s1, OF _ a]
    by (simp add: demo_sys_def init_sys_def)
  from run_snoc [OF r1 this] show ?thesis by simp
qed

theorem in_flight_counts_outstanding_permits_witness:
  "in_flight_count (sys_lim demo_sys) ''p'' = 1"
  using in_flight_counts_outstanding_permits [OF demo_run, of "''p''"]
  by (simp add: demo_sys_def outstanding_def)

text \<open>The caps a run ever set.\<close>

definition caps_set :: "lim_event list \<Rightarrow> nat set" where
  "caps_set es = {c. SetMax c \<in> set es}"

lemma caps_set_snoc [simp]:
  "caps_set [] = {}"
  "caps_set (es @ [e]) = caps_set es \<union> (case e of SetMax c \<Rightarrow> {c} | _ \<Rightarrow> {})"
  by (auto simp: caps_set_def split: lim_event.splits)

definition cap_inv :: "nat \<Rightarrow> lim_sys \<Rightarrow> bool" where
  "cap_inv bound s \<longleftrightarrow>
     (\<forall>q. in_flight_count (sys_lim s) q \<le> bound)
     \<and> 0 < lim_max (sys_lim s) \<and> lim_max (sys_lim s) \<le> bound
     \<and> (\<forall>qc \<in> set (sys_loaded s). 0 < snd qc \<and> snd qc \<le> bound)"

lemma lim_step_cap_inv:
  assumes "lim_step s e s'" and "cap_inv bound s"
    and "\<And>c. e = SetMax c \<Longrightarrow> 0 < c \<and> c \<le> bound"
  shows "cap_inv bound s'"
  using assms
proof (induction rule: lim_step.induct)
  case (load_cap s p)
  then show ?case by (simp add: cap_inv_def max_per_provider_def)
next
  case (enter_ok p cap s l')
  then have "0 < cap" "cap \<le> bound" by (auto simp: cap_inv_def)
  moreover from this enter_ok have "in_flight_count (sys_lim s) p < cap"
    by (auto simp: acquire_locked_def split: if_splits)
  ultimately have "in_flight_count l' q \<le> bound" for q
    using enter_ok by (auto simp: in_flight_acquire_locked cap_inv_def)
  with enter_ok show ?case by (auto simp: cap_inv_def lim_max_acquire_locked dest: notin_set_remove1)
next
  case (enter_refused p cap s)
  then show ?case by (auto simp: cap_inv_def dest: notin_set_remove1)
next
  case (swap_flag i s pm' slots)
  then show ?case by (simp add: cap_inv_def)
next
  case (give_back p s)
  have "in_flight_count (release_slot p (sys_lim s)) q \<le> bound" for q
  proof (rule order_trans)
    show "in_flight_count (release_slot p (sys_lim s)) q \<le> in_flight_count (sys_lim s) q" by simp
    show "in_flight_count (sys_lim s) q \<le> bound" using give_back.prems by (simp add: cap_inv_def)
  qed
  with give_back.prems show ?case by (simp add: cap_inv_def)
next
  case (set_max s cap)
  then show ?case by (simp add: cap_inv_def set_max_per_provider_def in_flight_count_def)
qed

text \<open>(C5) The cap holds under every interleaving: as long as no \<open>0\<close> (unlimited) was ever set,
  no provider has more in flight than the largest cap that was in force, and with no cap change
  at all never more than the cap. The check and the increment being one critical section is what
  this rests on: between a thread's load of the cap and its entry any other thread may enter.\<close>

theorem cap_holds_under_interleaving:
  assumes "lim_run (init_sys cap) es s" and "0 < cap" and "0 \<notin> caps_set es"
    and "\<And>c. c \<in> caps_set es \<Longrightarrow> c \<le> bound" and "cap \<le> bound"
  shows "in_flight_count (sys_lim s) p \<le> bound"
proof -
  have "cap_inv bound s"
    using assms
  proof (induction "init_sys cap" es s rule: lim_run.induct)
    case run_nil
    then show ?case
      by (simp add: cap_inv_def init_sys_def new_limiter_def in_flight_count_def)
  next
    case (run_snoc es s' e s'')
    have "0 < c \<and> c \<le> bound" if "e = SetMax c" for c
      using run_snoc.prems(2,3) that by (cases c) auto
    with run_snoc show ?case by (intro lim_step_cap_inv [OF run_snoc.hyps(3)]) auto
  qed
  then show ?thesis by (simp add: cap_inv_def)
qed

theorem cap_holds_under_interleaving_witness:
  "in_flight_count (sys_lim demo_sys) ''p'' \<le> 1"
  by (rule cap_holds_under_interleaving [OF demo_run]) (simp_all add: caps_set_def)

end
