(* ===== verification/Engine.thy ===== *)
theory Engine
  imports Attempt Limiter
begin

text \<open>
  What the two execution loops share (\<open>engine.rs\<close>, \<open>usage.rs\<close>): the report of a failed plan, the
  token counts of an attempt, and the slot a candidate takes from an optional limiter, which
  \<open>Permit\<close>'s \<open>Drop\<close> gives back at the end of the loop body on every path.
\<close>

subsection \<open>The failed plan\<close>

record all_attempts_failed =
  af_model :: string
  af_chain :: "outcome list"

definition af_min_retry_after_ms :: "all_attempts_failed \<Rightarrow> nat" where
  "af_min_retry_after_ms f = min_retry_after_ms (af_chain f)"

definition describe_attempt :: "outcome \<Rightarrow> string" where
  "describe_attempt a =
     (case (o_label a, o_reason a) of
        (Some l, Some r) \<Rightarrow>
          provider_slug l @ ''/'' @ key_label l @ '':'' @ class_str (o_cls a) @ '' ('' @ r @ '')''
      | (Some l, None) \<Rightarrow> provider_slug l @ ''/'' @ key_label l @ '':'' @ class_str (o_cls a)
      | (None, _) \<Rightarrow> class_str (o_cls a) @ '':'' @ show_nat (o_status a))"

definition describe_failed :: "all_attempts_failed \<Rightarrow> string" where
  "describe_failed f =
     (let detail = join '' -> '' (map describe_attempt (af_chain f));
          detail = (if detail = [] then ''empty plan'' else detail)
      in ''all attempts failed for '' @ af_model f @ '' ['' @ detail @ '']'')"

subsection \<open>Token counts\<close>

record usage_tokens =
  prompt_tokens :: nat
  completion_tokens :: nat
  cached_tokens :: "nat option"

definition usage_counts :: "usage_tokens \<Rightarrow> nat \<times> nat" where
  "usage_counts u = (prompt_tokens u, completion_tokens u)"

definition cached_for_ledger :: "usage_tokens \<Rightarrow> int option" where
  "cached_for_ledger u = map_option u64_as_i64 (cached_tokens u)"

subsection \<open>Slots of an optional limiter\<close>

text \<open>\<open>limiter.and_then(|l| l.acquire(p))\<close> together with the test \<open>limiter.is_some() \<and>
  release.is_none()\<close>: no limiter always admits, a saturated one does not.\<close>

definition take_slot :: "string \<Rightarrow> limiter option \<Rightarrow> limiter option option" where
  "take_slot p ol = (case ol of None \<Rightarrow> Some None | Some l \<Rightarrow> map_option Some (acquire p l))"

definition give_slot :: "string \<Rightarrow> limiter option \<Rightarrow> limiter option" where
  "give_slot p ol = map_option (release_slot p) ol"

definition opt_lim_ok :: "limiter option \<Rightarrow> bool" where
  "opt_lim_ok ol = (case ol of None \<Rightarrow> True | Some l \<Rightarrow> lim_ok l)"

interpretation engine_slots: slot_pool take_slot give_slot opt_lim_ok
  by unfold_locales
    (auto simp: take_slot_def give_slot_def opt_lim_ok_def limiter_slots.rel_acq split: option.splits)

end
