(* ===== verification/Adapter.thy ===== *)
theory Adapter
  imports Engine Json
begin

text \<open>
  The seam between the engine and one provider's adapter (\<open>adapter.rs\<close>): what a request asks
  for, what an image attempt answers, the reasoning effort, and \<open>StreamObservation\<close>, the count of
  what a stream carried. The \<open>dyn FnMut\<close> callbacks of \<open>TextArgs\<close> are effects of the loop
  that hands them out and are modelled there. \<open>serde_json::from_str\<close> is the parameter \<open>parse\<close>;
  an \<open>f64\<close> is the rational it denotes.
\<close>

subsection \<open>Requests and replies\<close>

record image_args =
  ia_model :: string
  ia_prompt :: string
  ia_size :: "string option"

record image_reply =
  ir_ok :: bool
  ir_status :: nat
  ir_base64 :: "string option"
  ir_url :: "string option"
  ir_error_body :: "string option"

record tool_call =
  tc_id :: "string option"
  tc_name :: "string option"
  tc_arguments :: "string option"
  tc_raw :: "json option"

datatype reasoning_effort = EffOff | EffLow | EffMedium | EffHigh

fun effort_str :: "reasoning_effort \<Rightarrow> string" where
  "effort_str EffOff = ''off''"
| "effort_str EffLow = ''low''"
| "effort_str EffMedium = ''medium''"
| "effort_str EffHigh = ''high''"

definition effort_parse :: "string \<Rightarrow> reasoning_effort option" where
  "effort_parse s =
     (if s \<in> set [''off'', ''none'', ''disabled''] then Some EffOff
      else if s \<in> set [''minimal'', ''low''] then Some EffLow
      else if s = ''medium'' then Some EffMedium
      else if s = ''high'' then Some EffHigh
      else None)"

fun budget_tokens :: "reasoning_effort \<Rightarrow> nat option" where
  "budget_tokens EffOff = None"
| "budget_tokens EffLow = Some 1024"
| "budget_tokens EffMedium = Some 4096"
| "budget_tokens EffHigh = Some 8192"

lemma effort_roundtrip: "effort_parse (effort_str e) = Some e"
  by (cases e) (simp_all add: effort_parse_def)

record text_args =
  ta_model :: string
  ta_messages :: "json list"
  ta_stream :: bool
  ta_max_tokens :: "nat option"
  ta_temperature :: "rat option"
  ta_reasoning :: "reasoning_effort option"
  ta_tools :: "json option"
  ta_tool_choice :: "json option"
  ta_response_format :: "json option"
  ta_prompt_cache_enabled :: bool

subsection \<open>What a stream carried\<close>

record stream_observation =
  so_events :: nat
  so_first :: "string option"
  so_text :: nat
  so_reasoning :: nat
  so_reasoning_carried :: nat
  so_tool :: nat
  so_lifecycle :: nat
  so_other :: nat
  so_first_delta :: "string option"
  so_reasoning_field :: "string option"
  so_finish :: "string option"

definition default_observation :: stream_observation where
  "default_observation =
     \<lparr>so_events = 0, so_first = None, so_text = 0, so_reasoning = 0, so_reasoning_carried = 0,
      so_tool = 0, so_lifecycle = 0, so_other = 0, so_first_delta = None,
      so_reasoning_field = None, so_finish = None\<rparr>"

definition LIFECYCLE_TYPES :: "string list" where
  "LIFECYCLE_TYPES =
     [''message_start'', ''message_delta'', ''message_stop'', ''ping'', ''content_block_start'',
      ''content_block_stop'']"

definition is_char_boundary :: "string \<Rightarrow> nat \<Rightarrow> bool" where
  "is_char_boundary s i \<longleftrightarrow> i = 0 \<or> i = length s \<or> (i < length s \<and> \<not> is_cont (s ! i))"

text \<open>The loop that walks the cut back to a boundary; \<open>0\<close> is one.\<close>

fun walk_back :: "string \<Rightarrow> nat \<Rightarrow> nat" where
  "walk_back s 0 = 0"
| "walk_back s (Suc n) = (if is_char_boundary s (Suc n) then Suc n else walk_back s n)"

definition sample :: "string \<Rightarrow> nat \<Rightarrow> string" where
  "sample payload cap =
     (if length payload \<le> cap then payload else take (walk_back payload cap) payload @ ellipsis)"

definition SAMPLE_CHARS :: nat where
  "SAMPLE_CHARS = 240"

text \<open>\<open>Value::pointer\<close> by its reference tokens: a key of an object or an index of an array.\<close>

definition index_token :: "string \<Rightarrow> nat option" where
  "index_token t =
     (if t \<noteq> [] \<and> list_all (\<lambda>c. CHR ''0'' \<le> c \<and> c \<le> CHR ''9'') t \<and> (hd t = CHR ''0'' \<longrightarrow> length t = 1)
      then Some (foldl (\<lambda>n c. 10 * n + (of_char c - 48)) 0 t) else None)"

fun json_pointer :: "json \<Rightarrow> string list \<Rightarrow> json option" where
  "json_pointer j [] = Some j"
| "json_pointer (JObject m) (t # ts) =
     (case map_get m t of Some v \<Rightarrow> json_pointer v ts | None \<Rightarrow> None)"
| "json_pointer (JArray vs) (t # ts) =
     (case index_token t of
        Some i \<Rightarrow> if i < length vs then json_pointer (vs ! i) ts else None
      | None \<Rightarrow> None)"
| "json_pointer _ (t # ts) = None"

definition or_else :: "'a option \<Rightarrow> 'a option \<Rightarrow> 'a option" where
  "or_else a b = (case a of Some x \<Rightarrow> Some x | None \<Rightarrow> b)"

definition finish_of :: "json \<Rightarrow> string option" where
  "finish_of j =
     Option.bind
       (or_else (or_else (json_pointer j [''delta'', ''stop_reason''])
                         (json_pointer j [''choices'', ''0'', ''finish_reason'']))
                (json_get j ''stop_reason''))
       as_str"

text \<open>The delta object and the prefix its path is reported with.\<close>

definition delta_of :: "json \<Rightarrow> (json \<times> string) option" where
  "delta_of j =
     (case json_get j ''delta'' of
        Some d \<Rightarrow> if is_object d then Some (d, []) else
          (case json_pointer j [''choices'', ''0'', ''delta''] of
             Some d' \<Rightarrow> if is_object d' then Some (d', ''choices[0].'') else None | None \<Rightarrow> None)
      | None \<Rightarrow>
          (case json_pointer j [''choices'', ''0'', ''delta''] of
             Some d' \<Rightarrow> if is_object d' then Some (d', ''choices[0].'') else None | None \<Rightarrow> None))"

definition has_str :: "json \<Rightarrow> string \<Rightarrow> bool" where
  "has_str d k = (case json_get d k of Some v \<Rightarrow> is_jstring v | None \<Rightarrow> False)"

definition carried :: "string \<Rightarrow> stream_observation \<Rightarrow> stream_observation" where
  "carried payload s =
     (if so_first_delta s = None then s\<lparr>so_first_delta := Some (sample payload SAMPLE_CHARS)\<rparr> else s)"

definition note_reasoning :: "string \<Rightarrow> string \<Rightarrow> stream_observation \<Rightarrow> stream_observation" where
  "note_reasoning field payload s =
     carried payload
       (s\<lparr>so_reasoning := inc_u32 (so_reasoning s),
          so_reasoning_carried := inc_u32 (so_reasoning_carried s),
          so_reasoning_field := or_else (so_reasoning_field s) (Some field)\<rparr>)"

text \<open>The part of \<open>note\<close> that sees a parsed payload: the finish reason, then the kind.\<close>

definition with_finish :: "json \<Rightarrow> stream_observation \<Rightarrow> stream_observation" where
  "with_finish j s = (if so_finish s = None then s\<lparr>so_finish := finish_of j\<rparr> else s)"

definition note_kind :: "string \<Rightarrow> json \<Rightarrow> stream_observation \<Rightarrow> stream_observation" where
  "note_kind payload j s =
     (case delta_of j of
        None \<Rightarrow>
          (if Option.bind (json_pointer j [''content_block'', ''type'']) as_str = Some ''thinking''
           then s\<lparr>so_reasoning := inc_u32 (so_reasoning s)\<rparr>
           else case Option.bind (json_get j ''type'') as_str of
             Some t \<Rightarrow>
               (if t \<in> set LIFECYCLE_TYPES then s\<lparr>so_lifecycle := inc_u32 (so_lifecycle s)\<rparr>
                else s\<lparr>so_other := inc_u32 (so_other s)\<rparr>)
           | None \<Rightarrow> s\<lparr>so_other := inc_u32 (so_other s)\<rparr>)
      | Some (delta, path) \<Rightarrow>
          (let dtype = (case Option.bind (json_get delta ''type'') as_str of Some t \<Rightarrow> t | None \<Rightarrow> [])
           in if dtype = ''text_delta'' \<or> has_str delta ''text'' \<or> has_str delta ''content''
              then carried payload (s\<lparr>so_text := inc_u32 (so_text s)\<rparr>)
              else if dtype = ''thinking_delta'' \<or> has_str delta ''thinking''
              then note_reasoning (path @ ''delta.thinking'') payload s
              else if has_str delta ''reasoning_content'' \<or> dtype = ''reasoning''
              then note_reasoning (path @ ''delta.reasoning_content'') payload s
              else if dtype = ''input_json_delta'' \<or> has_str delta ''partial_json''
                  \<or> (case json_get delta ''tool_calls'' of Some v \<Rightarrow> is_jarray v | None \<Rightarrow> False)
              then carried payload (s\<lparr>so_tool := inc_u32 (so_tool s)\<rparr>)
              else s\<lparr>so_other := inc_u32 (so_other s)\<rparr>))"

definition note_payload ::
  "(string \<Rightarrow> json option) \<Rightarrow> string \<Rightarrow> stream_observation \<Rightarrow> stream_observation" where
  "note_payload parse payload s0 =
     (let s1 = s0\<lparr>so_events := inc_u32 (so_events s0)\<rparr>;
          s = (if so_first s1 = None then s1\<lparr>so_first := Some (sample payload SAMPLE_CHARS)\<rparr> else s1)
      in case parse payload of
           None \<Rightarrow> s\<lparr>so_other := inc_u32 (so_other s)\<rparr>
         | Some j \<Rightarrow> note_kind payload j (with_finish j s))"

definition observe :: "(string \<Rightarrow> json option) \<Rightarrow> string list \<Rightarrow> stream_observation" where
  "observe parse payloads = fold (note_payload parse) payloads default_observation"

text \<open>U+2014, the em dash, in UTF-8\<close>

definition em_dash :: string where
  "em_dash = [char_of (0xE2 :: nat), char_of (0x80 :: nat), char_of (0x94 :: nat)]"

definition length_advice :: string where
  "length_advice =
     ''; the model spent its entire output budget reasoning and stopped at the limit '' @
     ''before answering a word '' @ em_dash @ '' raise this provider's max output tokens, or turn '' @
     ''thinking off for it''"

definition describe :: "stream_observation \<Rightarrow> string option" where
  "describe s =
     (if so_events s = 0 then Some ''stream carried no SSE events at all''
      else case or_else (so_first_delta s) (so_first s) of
        None \<Rightarrow> Some (''stream carried '' @ show_nat (so_events s)
                  @ '' SSE event(s) with no readable payload'')
      | Some quoted \<Rightarrow>
          (let head = ''stream carried '' @ show_nat (so_events s)
                 @ '' SSE event(s), none matched the manifest's delta selector''
           in if so_text s = 0 \<and> so_tool s = 0 \<and> 0 < so_reasoning s
              then Some (head @ ''; every delta was model reasoning (''
                @ (case so_reasoning_field s of Some f \<Rightarrow> f | None \<Rightarrow> ''reasoning'')
                @ '') and no text was sent, so the selector is not at fault''
                @ (if so_finish s \<in> {Some ''max_tokens'', Some ''length''} then length_advice
                   else ''; the model stopped before answering'')
                @ ''; first delta: '' @ quoted)
              else Some (head @ ''; first: '' @ quoted)))"

subsection \<open>Facts\<close>

lemma walk_back_le: "walk_back s n \<le> n"
  by (induction n) auto

lemma walk_back_boundary: "is_char_boundary s (walk_back s n)"
  by (induction n) (auto simp: is_char_boundary_def)

lemma walk_back_greatest: "i \<le> n \<Longrightarrow> is_char_boundary s i \<Longrightarrow> i \<le> walk_back s n"
  by (induction n) (auto simp: le_Suc_eq)

lemma sample_cuts:
  "if length p \<le> cap then sample p cap = p
   else \<exists>i \<le> cap. is_char_boundary p i \<and> sample p cap = take i p @ ellipsis
     \<and> (\<forall>j \<le> cap. is_char_boundary p j \<longrightarrow> j \<le> i)"
  using walk_back_le [of p cap] walk_back_boundary [of p cap] walk_back_greatest [of _ cap p]
  by (auto simp: sample_def)

lemma sample_length: "length (sample p cap) \<le> cap + 3"
  using walk_back_le [of p cap] by (auto simp: sample_def ellipsis_def)

definition note_counts :: "stream_observation \<Rightarrow> nat" where
  "note_counts s = so_text s + so_reasoning s + so_tool s + so_lifecycle s + so_other s"

lemma inc_u32_small: "n < 2 ^ 32 - 1 \<Longrightarrow> inc_u32 n = Suc n"
  by (simp add: inc_u32_def)

lemma carried_simps [simp]:
  "so_events (carried p s) = so_events s" "so_text (carried p s) = so_text s"
  "so_reasoning (carried p s) = so_reasoning s" "so_tool (carried p s) = so_tool s"
  "so_lifecycle (carried p s) = so_lifecycle s" "so_other (carried p s) = so_other s"
  "so_reasoning_carried (carried p s) = so_reasoning_carried s"
  "so_first (carried p s) = so_first s"
  by (simp_all add: carried_def)

lemma with_finish_simps [simp]:
  "note_counts (with_finish j s) = note_counts s" "so_events (with_finish j s) = so_events s"
  "so_first (with_finish j s) = so_first s"
  by (simp_all add: with_finish_def note_counts_def)

lemma note_counts_carried [simp]: "note_counts (carried p s) = note_counts s"
  by (simp add: note_counts_def)

lemma note_kind_frame [simp]:
  "so_events (note_kind p j s) = so_events s" "so_first (note_kind p j s) = so_first s"
  by (simp_all add: note_kind_def note_reasoning_def Let_def split: option.split)

lemma note_kind_counts:
  assumes "note_counts s < 2 ^ 32 - 1"
  shows "note_counts (note_kind p j s) = Suc (note_counts s)"
proof -
  have b: "so_text s < 2 ^ 32 - 1" "so_reasoning s < 2 ^ 32 - 1" "so_tool s < 2 ^ 32 - 1"
    "so_lifecycle s < 2 ^ 32 - 1" "so_other s < 2 ^ 32 - 1"
    using assms by (simp_all add: note_counts_def)
  have t: "note_counts (s\<lparr>so_text := inc_u32 (so_text s)\<rparr>) = Suc (note_counts s)"
    and r: "note_counts (s\<lparr>so_reasoning := inc_u32 (so_reasoning s)\<rparr>) = Suc (note_counts s)"
    and l: "note_counts (s\<lparr>so_lifecycle := inc_u32 (so_lifecycle s)\<rparr>) = Suc (note_counts s)"
    and u: "note_counts (s\<lparr>so_tool := inc_u32 (so_tool s)\<rparr>) = Suc (note_counts s)"
    and e: "note_counts (s\<lparr>so_other := inc_u32 (so_other s)\<rparr>) = Suc (note_counts s)"
    and n: "note_counts (note_reasoning f p s) = Suc (note_counts s)" for f
    unfolding note_counts_def note_reasoning_def
    by (simp_all add: inc_u32_small [OF b(1)] inc_u32_small [OF b(2)] inc_u32_small [OF b(3)]
        inc_u32_small [OF b(4)] inc_u32_small [OF b(5)])
  show ?thesis
    unfolding note_kind_def Let_def by (simp add: t r l u e n split: option.split)
qed

text \<open>One payload moves the event count and exactly one of the five kinds.\<close>

lemma note_step:
  assumes "note_counts s < 2 ^ 32 - 1" and "so_events s < 2 ^ 32 - 1"
  shows "note_counts (note_payload parse p s) = Suc (note_counts s)"
    and "so_events (note_payload parse p s) = Suc (so_events s)"
proof -
  define s' where "s' = (let s1 = s\<lparr>so_events := inc_u32 (so_events s)\<rparr> in
     if so_first s1 = None then s1\<lparr>so_first := Some (sample p SAMPLE_CHARS)\<rparr> else s1)"
  have n: "note_payload parse p s = (case parse p of None \<Rightarrow> s'\<lparr>so_other := inc_u32 (so_other s')\<rparr>
      | Some j \<Rightarrow> note_kind p j (with_finish j s'))"
    unfolding note_payload_def s'_def Let_def by (rule refl)
  have c: "note_counts s' = note_counts s" and e: "so_events s' = Suc (so_events s)"
    using inc_u32_small [OF assms(2)] by (simp_all add: s'_def Let_def note_counts_def)
  have o: "inc_u32 (so_other s') = Suc (so_other s')"
    by (rule inc_u32_small) (use assms(1) c in \<open>simp add: note_counts_def\<close>)
  show "note_counts (note_payload parse p s) = Suc (note_counts s)"
  proof (cases "parse p")
    case None
    then show ?thesis using c by (simp add: n o) (simp add: note_counts_def)
  next
    case (Some j)
    then show ?thesis using c assms(1) by (simp add: n note_kind_counts)
  qed
  show "so_events (note_payload parse p s) = Suc (so_events s)"
    by (simp add: n e split: option.split)
qed

lemma observe_snoc: "observe parse (ps @ [p]) = note_payload parse p (observe parse ps)"
  by (simp add: observe_def)

lemma observe_counts:
  "length ps < 2 ^ 32 \<Longrightarrow>
     so_events (observe parse ps) = length ps \<and> note_counts (observe parse ps) = length ps"
proof (induction ps rule: rev_induct)
  case Nil
  then show ?case by (simp add: observe_def default_observation_def note_counts_def)
next
  case (snoc p ps)
  then show ?case by (simp add: observe_snoc note_step)
qed

lemma note_first: "so_first (note_payload parse p s) = or_else (so_first s) (Some (sample p SAMPLE_CHARS))"
  by (auto simp: note_payload_def Let_def or_else_def split: option.splits)

subsection \<open>Properties\<close>

text \<open>Every payload of a stream is counted once, as exactly one of answer text, reasoning,
  tool call, lifecycle and other; the sample is the first payload's, whole if it fits
  in 240 bytes and otherwise cut at the last character boundary in them, with an ellipsis; and a stream of no payload is the only one described as
  having carried no events.\<close>

theorem every_payload_is_counted_once:
  assumes "length ps < 2 ^ 32"
  shows "so_events (observe parse ps) = length ps
    \<and> so_text (observe parse ps) + so_reasoning (observe parse ps) + so_tool (observe parse ps)
        + so_lifecycle (observe parse ps) + so_other (observe parse ps) = length ps
    \<and> so_first (observe parse ps) = (case ps of [] \<Rightarrow> None | p # _ \<Rightarrow> Some (sample p SAMPLE_CHARS))
    \<and> (\<forall>p. length (sample p SAMPLE_CHARS) \<le> 243
         \<and> (if length p \<le> 240 then sample p SAMPLE_CHARS = p
            else \<exists>i \<le> 240. is_char_boundary p i \<and> sample p SAMPLE_CHARS = take i p @ ellipsis
                   \<and> (\<forall>j \<le> 240. is_char_boundary p j \<longrightarrow> j \<le> i)))
    \<and> (describe (observe parse ps) = Some ''stream carried no SSE events at all'' \<longleftrightarrow> ps = [])"
proof -
  have c: "so_events (observe parse ps) = length ps" "note_counts (observe parse ps) = length ps"
    using observe_counts [OF assms] by auto
  have f: "so_first (observe parse ps) = (case ps of [] \<Rightarrow> None | p # _ \<Rightarrow> Some (sample p SAMPLE_CHARS))"
    by (induction ps rule: rev_induct)
      (simp_all add: observe_def default_observation_def note_first or_else_def split: list.splits)
  have n: "so_first (observe parse ps) \<noteq> None" if "ps \<noteq> []"
    using that f by (cases ps) auto
  have d: "(describe (observe parse ps) = Some ''stream carried no SSE events at all'') = (ps = [])"
    using c(1) n by (auto simp: describe_def Let_def split: option.splits)
  have l: "\<forall>p. length (sample p SAMPLE_CHARS) \<le> 243
         \<and> (if length p \<le> 240 then sample p SAMPLE_CHARS = p
            else \<exists>i \<le> 240. is_char_boundary p i \<and> sample p SAMPLE_CHARS = take i p @ ellipsis
                   \<and> (\<forall>j \<le> 240. is_char_boundary p j \<longrightarrow> j \<le> i))"
    using sample_length [of _ 240] sample_cuts [where cap = 240]
    unfolding SAMPLE_CHARS_def by simp
  show ?thesis using c f d l by (simp add: note_counts_def)
qed

theorem every_payload_is_counted_once_witness:
  "so_events (observe (\<lambda>_. None) [''a'', ''b'']) = 2"
  using every_payload_is_counted_once [of "[''a'', ''b'']" "\<lambda>_. None"] by simp

end
