(* ===== verification/Dial.thy ===== *)
theory Dial
  imports Adapter
begin

text \<open>
  One adapter's answer to one text request, as its consumer sees it: the callbacks it makes while the
  response is awaited, a refusal or not, and then the ticks of the stream, in order. A \<open>Deadline\<close>
  tick is the moment the consumer's timer fires before the next item.
\<close>

datatype adapter_callback =
    CbTool tool_call
  | CbUsage usage_tokens
  | CbFinish "string option"
  | CbReason string
  | CbNote string
    \<comment> \<open>\<open>StreamObservation::note\<close> on the borrowed observation\<close>

datatype tick = Cb adapter_callback | Chunk string | Break attempt_error | Deadline

record dial =
  d_callbacks :: "adapter_callback list"
  d_refused :: "attempt_error option"
  d_ticks :: "tick list"

end
