(* ===== verification/Pricing.thy ===== *)
theory Pricing
  imports Json "HOL-Library.Product_Lexorder"
begin

text \<open>
  Normalized prices (\<open>pricing.rs\<close>): the integer part of the module. A price is micro-USD per
  million tokens; unknown is \<open>None\<close> and never a zero. Reading a provider's raw catalog
  (\<open>parse_pricing\<close>) works on \<open>f64\<close> and is not modelled; the reader of the stored form, the cost of
  a request and the price order are. The cost is computed in \<open>i128\<close>, whose wrap-around is
  \<open>wrap_i128\<close>; \<open>/\<close> truncates toward zero.
\<close>

definition TOKENS_PER_MILLION :: int where
  "TOKENS_PER_MILLION = 1000000"

record pricing_micros =
  prompt :: int
  completion :: int

definition wrap_i128 :: "int \<Rightarrow> int" where
  "wrap_i128 x = (x + 2 ^ 127) mod 2 ^ 128 - 2 ^ 127"

definition trunc_div :: "int \<Rightarrow> int \<Rightarrow> int" where
  "trunc_div a b = sgn a * sgn b * (\<bar>a\<bar> div \<bar>b\<bar>)"

definition try_i64 :: "int \<Rightarrow> int option" where
  "try_i64 x = (if in_i64 x then Some x else None)"

text \<open>\<open>parse\<close> is \<open>serde_json::from_str\<close>.\<close>

definition pricing_from_cache_json :: "(string \<Rightarrow> json option) \<Rightarrow> string \<Rightarrow> pricing_micros option" where
  "pricing_from_cache_json parse raw =
     Option.bind (parse raw) (\<lambda>v.
     Option.bind (Option.bind (json_get v ''prompt'') as_i64) (\<lambda>p.
     Option.bind (Option.bind (json_get v ''completion'') as_i64) (\<lambda>c.
       Some \<lparr>prompt = p, completion = c\<rparr>)))"

definition estimate_cost_micros :: "pricing_micros option \<Rightarrow> nat \<Rightarrow> nat \<Rightarrow> int option" where
  "estimate_cost_micros pricing tokens_in tokens_out =
     Option.bind pricing (\<lambda>p.
       let total = wrap_i128 (wrap_i128 (int tokens_in * prompt p)
                              + wrap_i128 (int tokens_out * completion p));
           half = trunc_div TOKENS_PER_MILLION 2;
           rounded =
             (if 0 \<le> total
              then trunc_div (wrap_i128 (total + half)) TOKENS_PER_MILLION
              else wrap_i128 (- trunc_div (wrap_i128 (wrap_i128 (- total) + half)) TOKENS_PER_MILLION))
       in try_i64 rounded)"

definition price_rank :: "pricing_micros option \<Rightarrow> int option" where
  "price_rank pricing = map_option (\<lambda>p. sat_i64 (prompt p + completion p)) pricing"

text \<open>The comparator of \<open>sort_by_price_rank\<close> is the order of this key: known prices by their
  rank, unknown ones after all of them and equal to each other. \<open>sort_key\<close> is a stable sort, as
  \<open>sort_by\<close> is.\<close>

definition rank_key :: "int option \<Rightarrow> nat \<times> int" where
  "rank_key r = (case r of Some x \<Rightarrow> (0, x) | None \<Rightarrow> (1, 0))"

definition sort_by_price_rank :: "('a \<Rightarrow> int option) \<Rightarrow> 'a list \<Rightarrow> 'a list" where
  "sort_by_price_rank rank_of xs = sort_key (\<lambda>x. rank_key (rank_of x)) xs"

subsection \<open>Facts\<close>

lemma wrap_i128_in_range [i64_simps]:
  "- (2 ^ 127) \<le> x \<Longrightarrow> x < 2 ^ 127 \<Longrightarrow> wrap_i128 x = x"
  by (simp add: wrap_i128_def)

lemma trunc_div_nonneg: "0 \<le> a \<Longrightarrow> 0 < b \<Longrightarrow> trunc_div a b = a div b"
  by (cases "a = 0") (simp_all add: trunc_div_def)

lemma rank_key_mono:
  "rank_key None < rank_key (Some x) \<longleftrightarrow> False"
  "rank_key (Some x) < rank_key None"
  "rank_key (Some x) \<le> rank_key (Some y) \<longleftrightarrow> x \<le> y"
  by (simp_all add: rank_key_def)

lemma mset_sort_by_price_rank [simp]: "mset (sort_by_price_rank f xs) = mset xs"
  by (simp add: sort_by_price_rank_def)

lemma set_sort_by_price_rank [simp]: "set (sort_by_price_rank f xs) = set xs"
  by (simp add: sort_by_price_rank_def)

lemma sorted_sort_by_price_rank:
  "sorted (map (\<lambda>x. rank_key (f x)) (sort_by_price_rank f xs))"
  by (simp add: sort_by_price_rank_def)

lemma stable_sort_by_price_rank:
  "filter (\<lambda>x. f x = r) (sort_by_price_rank f xs) = filter (\<lambda>x. f x = r) xs"
proof -
  have inj: "rank_key a = rank_key b \<longleftrightarrow> a = b" for a b
    by (auto simp: rank_key_def split: option.splits)
  show ?thesis
    using sort_key_stable [of "\<lambda>x. rank_key (f x)" "rank_key r" xs]
    by (simp add: inj sort_by_price_rank_def)
qed

lemma rounding_error:
  fixes q r x :: int
  assumes "q * 1000000 + r = x + 500000" and "0 \<le> r" and "r < 1000000"
  shows "\<bar>2 * (q * 1000000 - x)\<bar> \<le> 1000000"
  using assms by arith

subsection \<open>Properties\<close>

text \<open>The cost of a request is the exact sum of its two terms rounded once to the nearest
  micro-USD, ties away from zero: for prices that are not negative and token counts below
  \<open>2 ^ 62\<close> nothing wraps, the error is at most half a unit, and a cost that does not fit an
  \<open>i64\<close> is unknown rather than saturated. An unknown price has no cost.\<close>

theorem cost_is_the_rounded_sum:
  assumes "0 \<le> prompt p" and "prompt p \<le> i64_max" and "0 \<le> completion p"
    and "completion p \<le> i64_max" and "ti < 2 ^ 62" and "to < 2 ^ 62"
  shows "(let exact = int ti * prompt p + int to * completion p;
              cost = (exact + 500000) div 1000000
          in estimate_cost_micros (Some p) ti to = (if cost \<le> i64_max then Some cost else None)
             \<and> \<bar>2 * (cost * 1000000 - exact)\<bar> \<le> 1000000)
         \<and> estimate_cost_micros None ti to = None"
proof -
  let ?a = "int ti * prompt p" and ?b = "int to * completion p"
  have m: "i64_max = 9223372036854775807" by (simp add: i64_max_def)
  have bound: "int n * q \<le> 2 ^ 62 * 2 ^ 63" if "n < 2 ^ 62" "0 \<le> q" "q \<le> i64_max" for n q
    using that by (intro mult_mono) (auto simp: m)
  have a: "0 \<le> ?a" "?a \<le> 2 ^ 125" and b: "0 \<le> ?b" "?b \<le> 2 ^ 125"
    using assms bound [of ti "prompt p"] bound [of to "completion p"] by simp_all
  have w: "wrap_i128 ?a = ?a" "wrap_i128 ?b = ?b" "wrap_i128 (?a + ?b) = ?a + ?b"
      "wrap_i128 (?a + ?b + 500000) = ?a + ?b + 500000"
    using a b by (intro wrap_i128_in_range; simp)+
  have h: "trunc_div TOKENS_PER_MILLION 2 = 500000"
    by (simp add: trunc_div_def TOKENS_PER_MILLION_def)
  have d: "trunc_div (?a + ?b + 500000) TOKENS_PER_MILLION = (?a + ?b + 500000) div 1000000"
    using a b by (simp add: trunc_div_nonneg TOKENS_PER_MILLION_def)
  have e: "estimate_cost_micros (Some p) ti to = try_i64 ((?a + ?b + 500000) div 1000000)"
    using a b by (simp add: estimate_cost_micros_def Let_def w h d)
  have "0 \<le> (?a + ?b + 500000) div 1000000"
    using a b by (intro pos_imp_zdiv_nonneg_iff [THEN iffD2]) simp_all
  then have t: "try_i64 ((?a + ?b + 500000) div 1000000) =
      (if (?a + ?b + 500000) div 1000000 \<le> i64_max then Some ((?a + ?b + 500000) div 1000000) else None)"
    by (simp add: try_i64_def in_i64_def i64_min_def)
  have err: "\<bar>2 * ((x + 500000) div 1000000 * 1000000 - x)\<bar> \<le> 1000000" for x :: int
  proof -
    have "(x + 500000) div 1000000 * 1000000 + (x + 500000) mod 1000000 = x + 500000"
      by (rule div_mult_mod_eq)
    moreover have "0 \<le> (x + 500000) mod 1000000" "(x + 500000) mod 1000000 < 1000000"
      by simp_all
    ultimately show ?thesis by (rule rounding_error)
  qed
  show ?thesis
    unfolding Let_def e t by (simp add: estimate_cost_micros_def err)
qed

theorem cost_is_the_rounded_sum_witness:
  "estimate_cost_micros (Some \<lparr>prompt = 1, completion = 1\<rparr>) 500000 500000 = Some 1"
  using cost_is_the_rounded_sum [of "\<lparr>prompt = 1, completion = 1\<rparr>" 500000 500000]
  by (simp add: i64_max_def Let_def)

end
