(* ===== verification/Planner.thy ===== *)
theory Planner
  imports Health Pricing
begin

text \<open>
  The route planner (\<open>planner.rs\<close>): a request is expanded into an ordered list of
  (provider, key, model) candidates. \<open>plan_context\<close> is the trait \<open>PlanContext\<close>, one field per
  method; everything here is a function of the request, the context and the clock.
\<close>

definition COST_SPREAD :: string where
  "COST_SPREAD = ''cost_spread''"

record plan_input =
  i_model :: string
  i_modality :: string
  i_exclude_provider_ids :: "string list"

definition PROVIDER_HEALTH_WINDOW_MS :: int where
  "PROVIDER_HEALTH_WINDOW_MS = 10 * 60 * 1000"

definition PROVIDER_HEALTH_MIN_SAMPLES :: int where
  "PROVIDER_HEALTH_MIN_SAMPLES = 4"

record plan_context =
  x_providers :: "provider_row list"
  x_aliases :: "alias_row list"
  x_health :: tracker
  x_keys_for :: "string \<Rightarrow> api_key_row list"
  x_catalog :: "model_row list"
  x_next_key_cursor :: "string \<Rightarrow> int"
  x_pricing_for :: "string \<Rightarrow> string \<Rightarrow> pricing_micros option"
  x_provider_recent_health :: "string \<Rightarrow> (int \<times> int) option"

text \<open>\<open>Wanted\<close>: provider id and native model id.\<close>

type_synonym wanted = "string \<times> string"

subsection \<open>Resolving the requested id\<close>

definition strip_client_namespace :: "string \<Rightarrow> plan_context \<Rightarrow> string" where
  "strip_client_namespace model ctx =
     (case str_find (CHR '':'') model of
        None \<Rightarrow> model
      | Some i \<Rightarrow>
          let prefix = take i model in
          if str_find (CHR ''/'') prefix \<noteq> None then model
          else if \<exists>p \<in> set (x_providers ctx). pr_slug p = prefix then model
          else drop (i + 1) model)"

definition qualified_ref :: "string \<Rightarrow> plan_context \<Rightarrow> wanted option" where
  "qualified_ref model ctx =
     (case str_find (CHR ''/'') model of
        None \<Rightarrow> None
      | Some slash \<Rightarrow>
          map_option (\<lambda>p. (pr_id p, drop (slash + 1) model))
            (List.find (\<lambda>p. pr_slug p = take slash model) (x_providers ctx)))"

definition alias_refs :: "string \<Rightarrow> plan_context \<Rightarrow> wanted list" where
  "alias_refs model ctx =
     map (\<lambda>a. (al_provider_id a, al_native_model_id a))
       (sort_key al_priority (filter (\<lambda>a. al_alias a = model) (x_aliases ctx)))"

definition bare_refs :: "string \<Rightarrow> plan_context \<Rightarrow> wanted list" where
  "bare_refs model ctx =
     map (\<lambda>c. (mr_provider_id c, mr_native_id c))
       (filter (\<lambda>c. mr_native_id c = model) (x_catalog ctx))"

definition resolve_wanted :: "string \<Rightarrow> plan_context \<Rightarrow> wanted list" where
  "resolve_wanted requested ctx =
     (let model = strip_client_namespace requested ctx;
          qualified = (case qualified_ref model ctx of Some w \<Rightarrow> [w] | None \<Rightarrow> []);
          aliased = alias_refs model ctx;
          bare = (if qualified = [] \<and> aliased = [] then bare_refs model ctx else [])
      in dedup_seen [] (qualified @ aliased @ bare))"

subsection \<open>Carriers\<close>

definition order_carriers :: "wanted list \<Rightarrow> plan_context \<Rightarrow> wanted list" where
  "order_carriers wanted ctx =
     (let asked = (\<exists>w \<in> set wanted.
            case List.find (\<lambda>p. pr_id p = fst w) (x_providers ctx) of
              Some p \<Rightarrow> pr_rotation_strategy p = COST_SPREAD | None \<Rightarrow> False)
      in if \<not> asked then wanted
         else sort_by_price_rank (\<lambda>w. price_rank (x_pricing_for ctx (fst w) (snd w))) wanted)"

definition currently_failing :: "string \<Rightarrow> plan_context \<Rightarrow> bool" where
  "currently_failing provider_id ctx =
     (case x_provider_recent_health ctx provider_id of
        Some (failures, samples) \<Rightarrow> PROVIDER_HEALTH_MIN_SAMPLES \<le> samples \<and> samples \<le> failures
      | None \<Rightarrow> False)"

definition carrier_of :: "plan_input \<Rightarrow> plan_context \<Rightarrow> wanted \<Rightarrow> (provider_row \<times> model_row) option" where
  "carrier_of input ctx w =
     Option.bind
       (List.find (\<lambda>p. pr_id p = fst w \<and> is_provider_usable p
                      \<and> pr_id p \<notin> set (i_exclude_provider_ids input)) (x_providers ctx))
       (\<lambda>p. map_option (\<lambda>m. (p, m))
         (List.find (\<lambda>m. mr_provider_id m = pr_id p \<and> mr_native_id m = snd w
                        \<and> mr_modality m = i_modality input) (x_catalog ctx)))"

definition servable_carriers ::
  "plan_input \<Rightarrow> plan_context \<Rightarrow> (provider_row \<times> model_row) list" where
  "servable_carriers input ctx =
     stable_partition (\<lambda>(p, _). \<not> currently_failing (pr_id p) ctx)
       (List.map_filter (carrier_of input ctx)
         (order_carriers (resolve_wanted (i_model input) ctx) ctx))"

subsection \<open>Keys and the plan\<close>

definition order_keys ::
  "api_key_row list \<Rightarrow> string \<Rightarrow> plan_context \<Rightarrow> string \<Rightarrow> tracker \<Rightarrow> int \<Rightarrow> api_key_row list" where
  "order_keys keys strategy ctx provider_id health now =
     (let usable = filter (\<lambda>k. is_key_usable health k now) keys in
      if strategy = ''lru''
        then sort_key (\<lambda>k. case ak_last_used_at k of Some t \<Rightarrow> t | None \<Rightarrow> 0) usable
      else if strategy = ''round_robin''
        then rotate (nat (x_next_key_cursor ctx provider_id mod int (max (length usable) 1))) usable
      else sort_key (\<lambda>k. (ak_priority k, ak_added_at k)) usable)"

definition build_plan :: "plan_input \<Rightarrow> plan_context \<Rightarrow> int \<Rightarrow> candidate list" where
  "build_plan input ctx now =
     concat (map (\<lambda>(p, m).
       map (\<lambda>k. \<lparr>c_provider = p, c_key = k, c_model = m\<rparr>)
         (order_keys (x_keys_for ctx (pr_id p)) (pr_rotation_strategy p) ctx (pr_id p)
            (x_health ctx) now))
       (servable_carriers input ctx))"

definition earliest_key_retry_at :: "plan_input \<Rightarrow> plan_context \<Rightarrow> int \<Rightarrow> int option" where
  "earliest_key_retry_at input ctx now =
     fold (\<lambda>(p, _) soonest.
       fold (\<lambda>k soonest. case key_retry_at (x_health ctx) k now of
               Some t \<Rightarrow> Some (opt_min soonest t) | None \<Rightarrow> soonest)
         (x_keys_for ctx (pr_id p)) soonest)
       (servable_carriers input ctx) None"

subsection \<open>Facts\<close>

lemma hd_dedup_seen: "x \<notin> set seen \<Longrightarrow> dedup_seen seen (x # xs) = x # dedup_seen (x # seen) xs"
  by simp

lemma set_order_carriers [simp]: "set (order_carriers ws ctx) = set ws"
  by (simp add: order_carriers_def Let_def)

lemma distinct_order_carriers [simp]: "distinct (order_carriers ws ctx) = distinct ws"
  by (simp add: order_carriers_def Let_def sort_by_price_rank_def)

lemma mset_order_keys:
  "mset (order_keys keys strategy ctx pid h now) = mset (filter (\<lambda>k. is_key_usable h k now) keys)"
  by (simp add: order_keys_def Let_def)

lemma set_order_keys [simp]:
  "set (order_keys keys strategy ctx pid h now) = {k \<in> set keys. is_key_usable h k now}"
  by (metis mset_order_keys set_filter set_mset_mset)

lemma set_build_plan:
  "c \<in> set (build_plan input ctx now) \<longleftrightarrow>
     (c_provider c, c_model c) \<in> set (servable_carriers input ctx)
     \<and> c_key c \<in> set (x_keys_for ctx (pr_id (c_provider c)))
     \<and> is_key_usable (x_health ctx) (c_key c) now"
  by (cases c) (force simp: build_plan_def)

lemma set_servable_carriers:
  "pm \<in> set (servable_carriers input ctx) \<longleftrightarrow>
     (\<exists>w \<in> set (resolve_wanted (i_model input) ctx). carrier_of input ctx w = Some pm)"
  by (simp add: servable_carriers_def set_map_filter)

lemma carrier_of_Some:
  "carrier_of input ctx w = Some (p, m) \<Longrightarrow>
     p \<in> set (x_providers ctx) \<and> pr_id p = fst w \<and> is_provider_usable p
     \<and> pr_id p \<notin> set (i_exclude_provider_ids input)
     \<and> m \<in> set (x_catalog ctx) \<and> mr_provider_id m = pr_id p \<and> mr_native_id m = snd w
     \<and> mr_modality m = i_modality input"
  by (auto simp: carrier_of_def bind_eq_Some_conv dest!: find_SomeD)

lemma fold_concat_map:
  "fold (\<lambda>x acc. fold f (g x) acc) xs acc = fold f (concat (map g xs)) acc"
  by (induction xs arbitrary: acc) simp_all

text \<open>The keys of all carriers, in the order both loops visit them.\<close>

definition carrier_keys :: "plan_input \<Rightarrow> plan_context \<Rightarrow> api_key_row list" where
  "carrier_keys input ctx =
     concat (map (\<lambda>pm. x_keys_for ctx (pr_id (fst pm))) (servable_carriers input ctx))"

lemma earliest_key_retry_at_eq:
  "earliest_key_retry_at input ctx now =
     earliest_of (key_retry_at (x_health ctx)) (carrier_keys input ctx) now"
  by (simp add: earliest_key_retry_at_def earliest_of_def carrier_keys_def case_prod_unfold
      fold_concat_map)

lemma build_plan_eq_Nil:
  "build_plan input ctx now = [] \<longleftrightarrow>
     (\<forall>k \<in> set (carrier_keys input ctx). \<not> is_key_usable (x_health ctx) k now)"
proof -
  have "(order_keys ks s ctx pid h now = []) = ({k \<in> set ks. is_key_usable h k now} = {})" for ks s pid h
    by (metis set_empty set_order_keys)
  then show ?thesis by (simp add: build_plan_def carrier_keys_def case_prod_unfold) blast
qed

subsection \<open>Properties\<close>

text \<open>A context for concrete runs: two enabled providers carrying one model, one key each; the
  first key is cooling until 1500.\<close>

definition demo_tracker :: tracker where
  "demo_tracker = record_result Map.empty ''k1'' RateLimited None 500"

definition demo_ctx :: "tracker \<Rightarrow> plan_context" where
  "demo_ctx tr =
     \<lparr>x_providers = [mk_provider ''a'' ''enabled'' ''priority'', mk_provider ''b'' ''enabled'' ''priority''],
      x_aliases = [], x_health = tr,
      x_keys_for = (\<lambda>p. if p = ''a'' then [mk_key ''k1'' ''a'' 0] else []),
      x_catalog = [mk_model ''a'' ''m'', mk_model ''b'' ''m''],
      x_next_key_cursor = (\<lambda>_. 0), x_pricing_for = (\<lambda>_ _. None),
      x_provider_recent_health = (\<lambda>_. None)\<rparr>"

definition demo_input :: plan_input where
  "demo_input = \<lparr>i_model = ''m'', i_modality = ''text'', i_exclude_provider_ids = []\<rparr>"

lemma demo_carriers:
  "servable_carriers demo_input (demo_ctx tr) =
     [(mk_provider ''a'' ''enabled'' ''priority'', mk_model ''a'' ''m''),
      (mk_provider ''b'' ''enabled'' ''priority'', mk_model ''b'' ''m'')]"
  by (simp add: servable_carriers_def resolve_wanted_def strip_client_namespace_def demo_input_def
      demo_ctx_def qualified_ref_def alias_refs_def bare_refs_def order_carriers_def carrier_of_def
      is_provider_usable_def PROVIDER_STATUS_ENABLED_def currently_failing_def
      stable_partition_def map_filter_simps COST_SPREAD_def mk_rows Let_def)

lemma demo_free_at: "free_at demo_tracker (mk_key ''k1'' ''a'' 0) = 1500"
  by (simp add: demo_tracker_def free_at_def mk_key_def default_health_def COOLDOWN_FLOOR_MS_def
      u64_as_i64_def wrap_i64_def Let_def)

lemma demo_key_not_denied: "ak_status (mk_key i p n) \<notin> set KEY_STATUS_DENIED"
  by (simp add: mk_key_def KEY_STATUS_DENIED_def)

text \<open>(C3) A plan holds exactly the attempts it should: a candidate is planned if and only if its
  provider and model resolve from the request (\<open>carrier_of\<close>: the provider exists, is enabled and
  not excluded, the catalog has the model at it with the requested modality) and its key is one of
  the provider's keys and usable now. In particular no planned attempt goes to a disabled or
  excluded provider, another modality, a denied key or a key still blocked.\<close>

theorem plan_holds_exactly_the_usable_candidates:
  "(c \<in> set (build_plan input ctx now) \<longleftrightarrow>
      (\<exists>w \<in> set (resolve_wanted (i_model input) ctx).
         carrier_of input ctx w = Some (c_provider c, c_model c))
      \<and> c_key c \<in> set (x_keys_for ctx (pr_id (c_provider c)))
      \<and> is_key_usable (x_health ctx) (c_key c) now)
   \<and> (c \<in> set (build_plan input ctx now) \<longrightarrow>
        c_provider c \<in> set (x_providers ctx) \<and> pr_status (c_provider c) = ''enabled''
        \<and> pr_id (c_provider c) \<notin> set (i_exclude_provider_ids input)
        \<and> c_model c \<in> set (x_catalog ctx) \<and> mr_modality (c_model c) = i_modality input
        \<and> mr_provider_id (c_model c) = pr_id (c_provider c)
        \<and> ak_status (c_key c) \<notin> set KEY_STATUS_DENIED
        \<and> free_at (x_health ctx) (c_key c) \<le> now)"
  by (auto simp: set_build_plan set_servable_carriers is_key_usable_iff is_provider_usable_def
      PROVIDER_STATUS_ENABLED_def dest!: carrier_of_Some)

theorem plan_holds_exactly_the_usable_candidates_witness:
  "mk_candidate ''a'' ''k1''\<lparr>c_key := mk_key ''k1'' ''a'' 0\<rparr>
     \<in> set (build_plan demo_input (demo_ctx Map.empty) 500)"
proof -
  let ?c = "mk_candidate ''a'' ''k1''\<lparr>c_key := mk_key ''k1'' ''a'' 0\<rparr>"
  have "resolve_wanted ''m'' (demo_ctx Map.empty) = [(''a'', ''m''), (''b'', ''m'')]"
    by (simp add: resolve_wanted_def strip_client_namespace_def demo_ctx_def qualified_ref_def
        alias_refs_def bare_refs_def mk_rows Let_def)
  moreover have "carrier_of demo_input (demo_ctx Map.empty) (''a'', ''m'') = Some (c_provider ?c, c_model ?c)"
    by (simp add: carrier_of_def demo_input_def demo_ctx_def is_provider_usable_def
        PROVIDER_STATUS_ENABLED_def mk_rows)
  moreover have "is_key_usable Map.empty (mk_key ''k1'' ''a'' 0) 500"
    by (simp add: is_key_usable_iff demo_key_not_denied)
      (simp add: free_at_def default_health_def mk_key_def)
  ultimately show ?thesis
    using plan_holds_exactly_the_usable_candidates [of ?c demo_input "demo_ctx Map.empty" 500]
    by (simp add: demo_input_def) (simp add: demo_ctx_def mk_rows)
qed

text \<open>The rotation strategy only reorders: the keys of one provider come out as a permutation
  of its usable keys, least recently used first under \<open>lru\<close>, by priority and then age under every
  strategy that is not \<open>lru\<close> or \<open>round_robin\<close>, and under \<open>round_robin\<close> as the rotation that starts
  at the cursor modulo the number of usable keys, for every cursor, a negative one included.\<close>

theorem order_keys_only_reorders:
  "mset (order_keys keys strategy ctx pid h now) = mset (filter (\<lambda>k. is_key_usable h k now) keys)
   \<and> (strategy = ''lru'' \<longrightarrow>
        sorted (map (\<lambda>k. case ak_last_used_at k of Some t \<Rightarrow> t | None \<Rightarrow> 0)
          (order_keys keys strategy ctx pid h now)))
   \<and> (strategy \<noteq> ''lru'' \<and> strategy \<noteq> ''round_robin'' \<longrightarrow>
        sorted (map (\<lambda>k. (ak_priority k, ak_added_at k)) (order_keys keys strategy ctx pid h now)))
   \<and> (strategy = ''round_robin'' \<longrightarrow>
        (let usable = filter (\<lambda>k. is_key_usable h k now) keys; n = length usable in
         \<forall>i < n. order_keys keys strategy ctx pid h now ! i =
           usable ! nat ((x_next_key_cursor ctx pid + int i) mod int n)))"
proof -
  let ?u = "filter (\<lambda>k. is_key_usable h k now) keys"
  let ?c = "x_next_key_cursor ctx pid"
  have "rotate (nat (?c mod int (max (length ?u) 1))) ?u ! i =
      ?u ! nat ((?c + int i) mod int (length ?u))" if "i < length ?u" for i
  proof -
    have n: "max (length ?u) 1 = length ?u" and pos: "0 < int (length ?u)" using that by auto
    have "int ((nat (?c mod int (length ?u)) + i) mod length ?u) = (?c + int i) mod int (length ?u)"
      using pos by (simp add: zmod_int mod_add_left_eq)
    then have "(nat (?c mod int (length ?u)) + i) mod length ?u = nat ((?c + int i) mod int (length ?u))"
      by linarith
    with that show ?thesis unfolding n by (simp add: nth_rotate)
  qed
  then show ?thesis
    by (simp add: mset_order_keys) (simp add: order_keys_def Let_def)
qed

theorem order_keys_only_reorders_witness:
  "order_keys [mk_key ''k0'' ''a'' 0, mk_key ''k1'' ''a'' 0, mk_key ''k2'' ''a'' 0] ''round_robin''
     (demo_ctx Map.empty\<lparr>x_next_key_cursor := (\<lambda>_. -1)\<rparr>) ''a'' Map.empty 5 ! 0 = mk_key ''k2'' ''a'' 0"
proof -
  let ?ks = "[mk_key ''k0'' ''a'' 0, mk_key ''k1'' ''a'' 0, mk_key ''k2'' ''a'' 0]"
  have u: "filter (\<lambda>k. is_key_usable Map.empty k 5) ?ks = ?ks"
    by (simp add: is_key_usable_iff demo_key_not_denied)
      (simp add: free_at_def default_health_def mk_key_def)
  show ?thesis
    using order_keys_only_reorders [of ?ks "''round_robin''"
        "demo_ctx Map.empty\<lparr>x_next_key_cursor := (\<lambda>_. -1)\<rparr>" "''a''" Map.empty 5]
    unfolding u by (simp add: Let_def nat_mod_distrib)
qed

text \<open>Demotion is behind, never out: the carriers of a request are a permutation of the
  carriers that resolve, the ones whose recent window is all failures (with enough samples) come
  after all others, and within both groups the failover order is unchanged.\<close>

theorem failing_carriers_are_demoted_not_dropped:
  "(let before = List.map_filter (carrier_of input ctx)
                   (order_carriers (resolve_wanted (i_model input) ctx) ctx);
        healthy = (\<lambda>pm. \<not> currently_failing (pr_id (fst pm)) ctx);
        carriers = servable_carriers input ctx
    in mset carriers = mset before
       \<and> carriers = filter healthy carriers @ filter (\<lambda>pm. \<not> healthy pm) carriers
       \<and> filter healthy carriers = filter healthy before
       \<and> filter (\<lambda>pm. \<not> healthy pm) carriers = filter (\<lambda>pm. \<not> healthy pm) before)"
  unfolding servable_carriers_def Let_def case_prod_unfold
  by (simp add: stable_partition_def filter_empty_conv)

text \<open>When the tracker says wait, waiting works: if \<open>earliest_key_retry_at\<close> names a time, that
  time is in the future and it is the earliest at which any cooling key of any carrier comes back;
  with nothing new recorded, the plan built at that time or any later one is not empty, so a
  caller that sleeps once has a candidate to try.\<close>

theorem waiting_until_the_retry_time_yields_a_plan:
  assumes "earliest_key_retry_at input ctx now = Some t"
  shows "now < t
    \<and> (\<forall>later \<ge> t. build_plan input ctx later \<noteq> [])
    \<and> (\<forall>k \<in> set (carrier_keys input ctx). \<forall>u.
         key_retry_at (x_health ctx) k now = Some u \<longrightarrow> t \<le> u)"
proof -
  note e = assms [unfolded earliest_key_retry_at_eq]
  have "now < t" using e by (rule tracker_gate.earliest_later)
  moreover have "build_plan input ctx later \<noteq> []" if "t \<le> later" for later
    using tracker_gate.earliest_usable [OF e that] by (auto simp: build_plan_eq_Nil)
  moreover have "t \<le> u" if "k \<in> set (carrier_keys input ctx)" "key_retry_at (x_health ctx) k now = Some u" for k u
    using tracker_gate.earliest_Some(2) [OF e that] .
  ultimately show ?thesis by blast
qed

theorem waiting_until_the_retry_time_yields_a_plan_witness:
  "build_plan demo_input (demo_ctx demo_tracker) 500 = []
   \<and> build_plan demo_input (demo_ctx demo_tracker) 1500 \<noteq> []"
proof -
  have keys: "carrier_keys demo_input (demo_ctx demo_tracker) = [mk_key ''k1'' ''a'' 0]"
    unfolding carrier_keys_def demo_carriers by (simp add: demo_ctx_def mk_provider_def)
  have h: "x_health (demo_ctx demo_tracker) = demo_tracker" by (simp add: demo_ctx_def)
  have nu: "\<not> is_key_usable demo_tracker (mk_key ''k1'' ''a'' 0) 500"
    by (simp add: is_key_usable_iff demo_free_at)
  have "block_of demo_tracker (mk_key ''k1'' ''a'' 0) 500 = Some (Cooling 1500)"
    by (simp add: block_of_def demo_tracker_def mk_key_def KEY_STATUS_DENIED_def default_health_def
        COOLDOWN_FLOOR_MS_def u64_as_i64_def wrap_i64_def Let_def)
  then have "earliest_key_retry_at demo_input (demo_ctx demo_tracker) 500 = Some 1500"
    by (simp add: earliest_key_retry_at_eq keys h earliest_of_def key_retry_at_def)
  from waiting_until_the_retry_time_yields_a_plan [OF this] nu show ?thesis
    by (simp add: build_plan_eq_Nil keys h)
qed

text \<open>A qualified id is never rerouted: when the id (after a client namespace tag is stripped)
  is \<open>slug/native\<close> with the slug of a configured provider, even a disabled one, the first reference
  is that provider's and every other one comes from a configured alias; only an id that is neither
  qualified nor aliased falls back to the providers that list it under exactly that native id. No
  reference occurs twice.\<close>

theorem qualified_ids_are_not_rerouted:
  "(let model = strip_client_namespace requested ctx; refs = resolve_wanted requested ctx in
      distinct refs
      \<and> (\<forall>w. qualified_ref model ctx = Some w \<longrightarrow>
            refs \<noteq> [] \<and> hd refs = w \<and> set refs \<subseteq> insert w (set (alias_refs model ctx)))
      \<and> (qualified_ref model ctx = None \<and> alias_refs model ctx \<noteq> [] \<longrightarrow>
            set refs = set (alias_refs model ctx))
      \<and> (qualified_ref model ctx = None \<and> alias_refs model ctx = [] \<longrightarrow>
            set refs = {(mr_provider_id c, model) | c. c \<in> set (x_catalog ctx) \<and> mr_native_id c = model}))"
  by (auto simp: resolve_wanted_def Let_def bare_refs_def split: option.splits)

theorem qualified_ids_are_not_rerouted_witness:
  "set (resolve_wanted ''b/m'' (demo_ctx Map.empty)) \<subseteq> {(''b'', ''m'')}"
proof -
  have s: "strip_client_namespace ''b/m'' (demo_ctx Map.empty) = ''b/m''"
    by (simp add: strip_client_namespace_def)
  have q: "qualified_ref ''b/m'' (demo_ctx Map.empty) = Some (''b'', ''m'')"
    by (simp add: qualified_ref_def demo_ctx_def mk_rows)
  have a: "alias_refs ''b/m'' (demo_ctx Map.empty) = []"
    by (simp add: alias_refs_def demo_ctx_def)
  show ?thesis
    using qualified_ids_are_not_rerouted [of "''b/m''" "demo_ctx Map.empty"]
    by (simp add: s q a Let_def)
qed

lemma price_sorted_if:
  "out = (if \<not> asked then ws else sort_by_price_rank rank ws) \<Longrightarrow>
     mset out = mset ws \<and> (\<not> asked \<longrightarrow> out = ws)
     \<and> (asked \<longrightarrow> sorted (map (\<lambda>w. rank_key (rank w)) out)
          \<and> (\<forall>r. filter (\<lambda>w. rank w = r) out = filter (\<lambda>w. rank w = r) ws))"
  by (simp add: sorted_sort_by_price_rank stable_sort_by_price_rank)

text \<open>Cost ordering is all or nothing: if any wanted carrier's provider asked for
  \<open>cost_spread\<close>, all carriers are sorted by price, cheapest first, unknown prices last and equal
  prices in their old order; if none did, the order is left alone.\<close>

theorem cost_spread_sorts_every_carrier:
  "(let asked = (\<exists>w \<in> set ws. \<exists>p. List.find (\<lambda>p. pr_id p = fst w) (x_providers ctx) = Some p
                   \<and> pr_rotation_strategy p = ''cost_spread'');
        rank = (\<lambda>w. price_rank (x_pricing_for ctx (fst w) (snd w)));
        out = order_carriers ws ctx
    in mset out = mset ws
       \<and> (\<not> asked \<longrightarrow> out = ws)
       \<and> (asked \<longrightarrow> sorted (map (\<lambda>w. rank_key (rank w)) out)
            \<and> (\<forall>r. filter (\<lambda>w. rank w = r) out = filter (\<lambda>w. rank w = r) ws)))"
proof -
  have "(\<exists>w \<in> set ws. case List.find (\<lambda>p. pr_id p = fst w) (x_providers ctx) of
              Some p \<Rightarrow> pr_rotation_strategy p = COST_SPREAD | None \<Rightarrow> False) \<longleftrightarrow>
      (\<exists>w \<in> set ws. \<exists>p. List.find (\<lambda>p. pr_id p = fst w) (x_providers ctx) = Some p
                   \<and> pr_rotation_strategy p = ''cost_spread'')"
    by (auto simp: COST_SPREAD_def split: option.splits)
  then have out: "order_carriers ws ctx = (if \<not> (\<exists>w \<in> set ws. \<exists>p.
        List.find (\<lambda>p. pr_id p = fst w) (x_providers ctx) = Some p
          \<and> pr_rotation_strategy p = ''cost_spread'') then ws
      else sort_by_price_rank (\<lambda>w. price_rank (x_pricing_for ctx (fst w) (snd w))) ws)"
    by (simp only: order_carriers_def Let_def)
  show ?thesis unfolding Let_def by (rule price_sorted_if [OF out])
qed

theorem cost_spread_sorts_every_carrier_witness:
  "order_carriers [(''a'', ''m''), (''b'', ''m'')] (demo_ctx Map.empty) = [(''a'', ''m''), (''b'', ''m'')]"
  using cost_spread_sorts_every_carrier [of "[(''a'', ''m''), (''b'', ''m'')]" "demo_ctx Map.empty"]
  by (simp add: demo_ctx_def mk_rows Let_def)

end
