(* ===== verification/Text_Loop.thy ===== *)
theory Text_Loop
  imports Dial Adapter Planner
begin

text \<open>
  The text loop (\<open>engine/text.rs\<close>): the plan is a queue walked to one streamed answer, with
  failover, the re-probe of an exhausted plan, and the pre-first-output deadline.

  What lies outside is \<open>text_env\<close>: the cancel flag, the monotonic and the wall clock, the sleep, the
  adapter factory, and one adapter's answer to one request, a \<open>dial\<close>. A dial is what the adapter
  does between the call and the end of its stream, in order: the callbacks it makes while the
  response is awaited, a refusal or not, and then the ticks of the stream. A \<open>Deadline\<close> tick is the
  moment the loop's timer fires before the next item. The loop decides how much of a dial happens.

  What the caller's callbacks receive is the log of deliveries, in order.
\<close>

subsection \<open>The outside\<close>

record ('a, 'w) text_env =
  te_cancelled :: "'w \<Rightarrow> bool \<times> 'w"
  te_instant :: "'w \<Rightarrow> nat \<times> 'w"
  te_now :: "'w \<Rightarrow> int \<times> 'w"
  te_sleep :: "nat \<Rightarrow> 'w \<Rightarrow> 'w"
  te_for_provider :: "string \<Rightarrow> 'w \<Rightarrow> 'a option \<times> 'w"
  te_generate :: "'a \<Rightarrow> string \<Rightarrow> text_args \<Rightarrow> 'w \<Rightarrow> dial \<times> 'w"

datatype delivery =
    DChunk string
  | DTool tool_call
  | DUsage usage_tokens
  | DFinish "string option"
  | DReason string
  | DRetry retry_notice

subsection \<open>Requests and results\<close>

text \<open>A callback of the caller is an \<open>Option\<close>; only whether it is there matters to the loop.\<close>

record execute_text_args =
  xt_plan :: "candidate list"
  xt_messages :: "json list"
  xt_model :: string
  xt_stream :: bool
  xt_max_tokens :: "nat option"
  xt_temperature :: "rat option"
  xt_reasoning :: "reasoning_effort option"
  xt_tools :: "json option"
  xt_tool_choice :: "json option"
  xt_response_format :: "json option"
  xt_on_tool_call :: bool
  xt_on_usage :: bool
  xt_on_finish :: bool
  xt_on_reasoning :: bool
  xt_on_retry :: bool
  xt_max_attempts :: "nat option"
  xt_prompt_cache_enabled :: bool

record text_success =
  sx_candidate :: candidate
  sx_attempts :: "outcome list"
  sx_usage :: "usage_tokens option"
  sx_observation :: "stream_observation option"

datatype text_failure =
    FMidStream attempt_error candidate "outcome list" "usage_tokens option"
  | FCancelled "outcome list" "usage_tokens option"
  | FAllAttemptsFailed all_attempts_failed "usage_tokens option"

datatype ended =
    EServed candidate "stream_observation option"
  | EMidStream attempt_error candidate
  | ECancelled
  | ESpent

fun heard :: "execute_text_args \<Rightarrow> delivery \<Rightarrow> bool" where
  "heard args (DChunk _) = True"
| "heard args (DTool _) = xt_on_tool_call args"
| "heard args (DUsage _) = xt_on_usage args"
| "heard args (DFinish _) = xt_on_finish args"
| "heard args (DReason _) = xt_on_reasoning args"
| "heard args (DRetry _) = xt_on_retry args"

definition deliver :: "execute_text_args \<Rightarrow> delivery \<Rightarrow> delivery list \<Rightarrow> delivery list" where
  "deliver args d ds = (if heard args d then ds @ [d] else ds)"

definition text_args_for :: "execute_text_args \<Rightarrow> candidate \<Rightarrow> text_args" where
  "text_args_for args c =
     \<lparr>ta_model = mr_native_id (c_model c), ta_messages = xt_messages args,
      ta_stream = xt_stream args, ta_max_tokens = xt_max_tokens args,
      ta_temperature = xt_temperature args, ta_reasoning = xt_reasoning args,
      ta_tools = xt_tools args, ta_tool_choice = xt_tool_choice args,
      ta_response_format = xt_response_format args,
      ta_prompt_cache_enabled = xt_prompt_cache_enabled args\<rparr>"

subsection \<open>One dial\<close>

text \<open>The locals of one attempt that its closures write, and the two they share with the request:
  \<open>io_usage\<close> and the log.\<close>

record attempt_io =
  io_emitted :: bool
  io_tool_calls :: nat
  io_output_flowed :: bool
  io_observation :: stream_observation
  io_usage :: "usage_tokens option"
  io_log :: "delivery list"

definition fresh_io :: "usage_tokens option \<Rightarrow> delivery list \<Rightarrow> attempt_io" where
  "fresh_io usage ds =
     \<lparr>io_emitted = False, io_tool_calls = 0, io_output_flowed = False,
      io_observation = default_observation, io_usage = usage, io_log = ds\<rparr>"

fun on_callback ::
  "(string \<Rightarrow> json option) \<Rightarrow> execute_text_args \<Rightarrow> adapter_callback \<Rightarrow> attempt_io \<Rightarrow> attempt_io" where
  "on_callback parse args (CbTool tc) io =
     io\<lparr>io_tool_calls := io_tool_calls io + 1, io_output_flowed := True,
        io_log := deliver args (DTool tc) (io_log io)\<rparr>"
| "on_callback parse args (CbUsage u) io =
     io\<lparr>io_usage := Some u, io_log := deliver args (DUsage u) (io_log io)\<rparr>"
| "on_callback parse args (CbFinish r) io = io\<lparr>io_log := deliver args (DFinish r) (io_log io)\<rparr>"
| "on_callback parse args (CbReason t) io =
     io\<lparr>io_output_flowed := True, io_log := deliver args (DReason t) (io_log io)\<rparr>"
| "on_callback parse args (CbNote p) io =
     io\<lparr>io_observation := note_payload parse p (io_observation io)\<rparr>"

text \<open>The stream loop; \<open>armed\<close> is whether the timer still runs.\<close>

fun run_stream ::
  "(string \<Rightarrow> json option) \<Rightarrow> execute_text_args \<Rightarrow> bool \<Rightarrow> tick list \<Rightarrow> attempt_io
     \<Rightarrow> attempt_error option \<times> attempt_io" where
  "run_stream parse args armed [] io = (None, io)"
| "run_stream parse args armed (Cb cb # ticks) io =
     run_stream parse args armed ticks (on_callback parse args cb io)"
| "run_stream parse args armed (Chunk s # ticks) io =
     run_stream parse args False ticks
       (io\<lparr>io_emitted := True, io_log := deliver args (DChunk s) (io_log io)\<rparr>)"
| "run_stream parse args armed (Break e # ticks) io = (Some e, io)"
| "run_stream parse args armed (Deadline # ticks) io =
     (if armed then
        if io_output_flowed io then run_stream parse args False ticks io else (None, io)
      else run_stream parse args armed ticks io)"

definition run_dial ::
  "(string \<Rightarrow> json option) \<Rightarrow> execute_text_args \<Rightarrow> dial \<Rightarrow> attempt_io
     \<Rightarrow> attempt_error option \<times> attempt_io" where
  "run_dial parse args d io =
     (let io1 = fold (on_callback parse args) (d_callbacks d) io in
      case d_refused d of
        Some e \<Rightarrow> (Some e, io1)
      | None \<Rightarrow> run_stream parse args True (d_ticks d) io1)"

definition served_output :: "attempt_io \<Rightarrow> bool" where
  "served_output io \<longleftrightarrow> io_emitted io \<or> 0 < io_tool_calls io"

subsection \<open>The state of a request\<close>

type_synonym queue = "(candidate \<times> nat) list"

record 'w text_state =
  ts_queue :: queue
  ts_attempts :: "outcome list"
  ts_usage :: "usage_tokens option"
  ts_attempted_any :: bool
  ts_health :: tracker
  ts_limiter :: "limiter option"
  ts_world :: 'w
  ts_log :: "delivery list"

definition push_attempt :: "outcome \<Rightarrow> 'w text_state \<Rightarrow> 'w text_state" where
  "push_attempt out st = st\<lparr>ts_attempts := ts_attempts st @ [out]\<rparr>"

definition text_record ::
  "('a, 'w) text_env \<Rightarrow> candidate \<Rightarrow> error_class \<Rightarrow> nat option \<Rightarrow> 'w text_state \<Rightarrow> 'w text_state" where
  "text_record env c cls retry st =
     (case te_now env (ts_world st) of
        (now, w) \<Rightarrow> st\<lparr>ts_health := record_result (ts_health st) (ak_id (c_key c)) cls retry now,
                       ts_world := w\<rparr>)"

definition read_cancelled :: "('a, 'w) text_env \<Rightarrow> 'w text_state \<Rightarrow> bool \<times> 'w text_state" where
  "read_cancelled env st =
     (case te_cancelled env (ts_world st) of (b, w) \<Rightarrow> (b, st\<lparr>ts_world := w\<rparr>))"

definition read_elapsed :: "('a, 'w) text_env \<Rightarrow> nat \<Rightarrow> 'w text_state \<Rightarrow> nat \<times> 'w text_state" where
  "read_elapsed env started st =
     (case te_instant env (ts_world st) of (t, w) \<Rightarrow> (t - started, st\<lparr>ts_world := w\<rparr>))"

subsection \<open>After a failure\<close>

definition prefer_different_providers :: "queue \<Rightarrow> string \<Rightarrow> queue" where
  "prefer_different_providers plan failed_provider_id =
     (if \<not> (\<exists>x \<in> set plan. pr_id (c_provider (fst x)) \<noteq> failed_provider_id) then plan
      else stable_partition (\<lambda>x. pr_id (c_provider (fst x)) \<noteq> failed_provider_id) plan)"

text \<open>The last two conjuncts of both re-probe conditions, read in their order.\<close>

definition reprobe_admitted ::
  "('a, 'w) text_env \<Rightarrow> nat \<Rightarrow> nat \<Rightarrow> 'w text_state \<Rightarrow> bool \<times> 'w text_state" where
  "reprobe_admitted env started wait st =
     (case read_cancelled env st of
        (True, st1) \<Rightarrow> (False, st1)
      | (False, st1) \<Rightarrow>
          (case read_elapsed env started st1 of
             (elapsed, st2) \<Rightarrow> (candidate_is_affordable (elapsed + wait) False, st2)))"

definition reprobe ::
  "('a, 'w) text_env \<Rightarrow> execute_text_args \<Rightarrow> candidate \<Rightarrow> nat \<Rightarrow> nat \<Rightarrow> nat \<Rightarrow> string
     \<Rightarrow> 'w text_state \<Rightarrow> 'w text_state" where
  "reprobe env args c rounds rounds_max wait reason st =
     st\<lparr>ts_log := deliver args
          (DRetry \<lparr>n_provider = pr_slug (c_provider c), n_key = ak_label (c_key c),
                   n_attempt = rounds + 2, n_max = rounds_max + 1,
                   n_delay_ms = as_millis wait, n_reason = reason\<rparr>) (ts_log st),
        ts_world := te_sleep env wait (ts_world st),
        ts_queue := (c, rounds + 1) # ts_queue st\<rparr>"

definition reprobe_wait :: "outcome \<Rightarrow> nat" where
  "reprobe_wait out =
     (case named_wait (o_retry_after_ms out) of
        Some ms \<Rightarrow> from_millis (max ms COOLDOWN_FLOOR_MS)
      | None \<Rightarrow> SERVER_ERROR_RETRY_BACKOFF)"

definition has_other_provider :: "queue \<Rightarrow> candidate \<Rightarrow> bool" where
  "has_other_provider plan c \<longleftrightarrow>
     (\<exists>x \<in> set plan. pr_id (c_provider (fst x)) \<noteq> pr_id (c_provider c))"

definition after_next ::
  "('a, 'w) text_env \<Rightarrow> execute_text_args \<Rightarrow> nat \<Rightarrow> candidate \<Rightarrow> nat \<Rightarrow> outcome
     \<Rightarrow> 'w text_state \<Rightarrow> 'w text_state" where
  "after_next env args started c rounds out st =
     (if o_cls out = ServerError then
        if ts_queue st = [] \<and> rounds < SERVER_ERROR_REPROBES_MAX then
          (case reprobe_admitted env started (reprobe_wait out) st of
             (True, st1) \<Rightarrow>
               reprobe env args c rounds SERVER_ERROR_REPROBES_MAX (reprobe_wait out)
                 (case o_reason out of Some m \<Rightarrow> m
                  | None \<Rightarrow> ''upstream server error ('' @ show_nat (o_status out) @ '')'') st1
           | (False, st1) \<Rightarrow> st1)
        else st
      else if o_cls out = Network then
        if has_other_provider (ts_queue st) c then
          st\<lparr>ts_queue := prefer_different_providers (ts_queue st) (pr_id (c_provider c))\<rparr>
        else if rounds < NETWORK_REPROBES_MAX then
          (case reprobe_admitted env started NETWORK_RETRY_BACKOFF st of
             (True, st1) \<Rightarrow>
               reprobe env args c rounds NETWORK_REPROBES_MAX NETWORK_RETRY_BACKOFF
                 (case o_reason out of Some m \<Rightarrow> m | None \<Rightarrow> ''the upstream sent no response'') st1
           | (False, st1) \<Rightarrow> st1)
        else st
      else st)"

definition after_failure ::
  "(string \<Rightarrow> json option) \<Rightarrow> ('a, 'w) text_env \<Rightarrow> execute_text_args \<Rightarrow> nat \<Rightarrow> candidate \<Rightarrow> nat
     \<Rightarrow> attempt_error \<Rightarrow> bool \<Rightarrow> 'w text_state \<Rightarrow> ended option \<times> 'w text_state" where
  "after_failure parse env args started c rounds e delivered st =
     (case read_cancelled env st of
        (cancelled, st1) \<Rightarrow>
          let d = attempt_disposition delivered cancelled;
              out = labelled (attempt_outcome parse e d) c;
              st2 = (if records_key_health d
                     then text_record env c (o_cls out) (o_retry_after_ms out) st1 else st1);
              st3 = push_attempt out st2
          in case d of
               Rethrow \<Rightarrow> (Some (EMidStream e c), st3)
             | Stop \<Rightarrow> (Some ECancelled, st3)
             | Next \<Rightarrow> (None, after_next env args started c rounds out st3))"

subsection \<open>The body\<close>

definition no_output_outcome :: outcome where
  "no_output_outcome =
     \<lparr>o_cls = NoOutput, o_status = 200, o_retry_after_ms = None, o_reason = None, o_label = None\<rparr>"

text \<open>The end of an attempt whose stream did not fail.\<close>

definition after_stream ::
  "candidate \<Rightarrow> attempt_io \<Rightarrow> 'w text_state \<Rightarrow> ended option \<times> 'w text_state" where
  "after_stream c io st =
     (if served_output io then (Some (EServed c None), st)
      else (Some (EServed c (Some (io_observation io))),
            push_attempt (labelled no_output_outcome c) st))"

definition dial_candidate ::
  "(string \<Rightarrow> json option) \<Rightarrow> ('a, 'w) text_env \<Rightarrow> execute_text_args \<Rightarrow> nat \<Rightarrow> candidate \<Rightarrow> nat
     \<Rightarrow> 'a \<Rightarrow> 'w text_state \<Rightarrow> ended option \<times> 'w text_state" where
  "dial_candidate parse env args started c rounds adapter st =
     (case te_generate env adapter (ak_secret_ref (c_key c)) (text_args_for args c) (ts_world st) of
        (d, w) \<Rightarrow>
          (case run_dial parse args d (fresh_io (ts_usage st) (ts_log st)) of
             (failure, io) \<Rightarrow>
               let st1 = st\<lparr>ts_world := w, ts_usage := io_usage io, ts_log := io_log io\<rparr> in
               (case failure of
                  Some e \<Rightarrow> after_failure parse env args started c rounds e (served_output io) st1
                | None \<Rightarrow> after_stream c io st1)))"

text \<open>The body while it holds its permit.\<close>

definition held_body ::
  "(string \<Rightarrow> json option) \<Rightarrow> ('a, 'w) text_env \<Rightarrow> execute_text_args \<Rightarrow> nat \<Rightarrow> candidate \<Rightarrow> nat
     \<Rightarrow> 'w text_state \<Rightarrow> ended option \<times> 'w text_state" where
  "held_body parse env args started c rounds st =
     (case read_elapsed env started st of
        (elapsed, st1) \<Rightarrow>
          if \<not> candidate_is_affordable elapsed (\<not> ts_attempted_any st1) then (Some ESpent, st1)
          else
            let st2 = st1\<lparr>ts_attempted_any := True\<rparr> in
            (case te_for_provider env (pr_id (c_provider c)) (ts_world st2) of
               (None, w) \<Rightarrow>
                 let out = labelled transport_outcome c;
                     st3 = push_attempt out
                       (text_record env c (o_cls out) (o_retry_after_ms out) (st2\<lparr>ts_world := w\<rparr>))
                 in (case read_cancelled env st3 of
                       (cancelled, st4) \<Rightarrow> (if cancelled then Some ECancelled else None, st4))
             | (Some adapter, w) \<Rightarrow>
                 dial_candidate parse env args started c rounds adapter (st2\<lparr>ts_world := w\<rparr>)))"

definition text_release :: "candidate \<Rightarrow> 'w text_state \<Rightarrow> 'w text_state" where
  "text_release c st = st\<lparr>ts_limiter := give_slot (pr_id (c_provider c)) (ts_limiter st)\<rparr>"

definition text_body ::
  "(string \<Rightarrow> json option) \<Rightarrow> ('a, 'w) text_env \<Rightarrow> execute_text_args \<Rightarrow> nat \<Rightarrow> candidate \<Rightarrow> nat
     \<Rightarrow> 'w text_state \<Rightarrow> ended option \<times> 'w text_state" where
  "text_body parse env args started c rounds st =
     (case read_cancelled env st of
        (True, st1) \<Rightarrow> (Some ECancelled, st1)
      | (False, st1) \<Rightarrow>
          (case take_slot (pr_id (c_provider c)) (ts_limiter st1) of
             None \<Rightarrow> (None, push_attempt (labelled saturated_outcome c) st1)
           | Some l \<Rightarrow>
               (case held_body parse env args started c rounds (st1\<lparr>ts_limiter := l\<rparr>) of
                  (res, st2) \<Rightarrow> (res, text_release c st2))))"

subsection \<open>What a body does to the queue\<close>

text \<open>The dials a queue still allows: each entry its first and its remaining re-probes.\<close>

definition dials_left :: "queue \<Rightarrow> nat" where
  "dials_left q = sum_list (map (\<lambda>x. Suc (SERVER_ERROR_REPROBES_MAX - snd x)) q)"

lemma dials_left_simps [simp]:
  "dials_left [] = 0"
  "dials_left (x # q) = Suc (SERVER_ERROR_REPROBES_MAX - snd x) + dials_left q"
  by (simp_all add: dials_left_def)

lemma dials_left_eq:
  "dials_left q = (\<Sum>x\<in>#mset q. Suc (SERVER_ERROR_REPROBES_MAX - snd x))"
  by (induction q) simp_all

lemma dials_left_mset: "mset q = mset q' \<Longrightarrow> dials_left q = dials_left q'"
  by (simp add: dials_left_eq)

lemma mset_prefer [simp]: "mset (prefer_different_providers q p) = mset q"
  by (simp add: prefer_different_providers_def)

text \<open>The queue after a body that did not end the plan: the rest of the queue, reordered at most,
  or the candidate pushed back one round later.\<close>

definition queue_next :: "candidate \<Rightarrow> nat \<Rightarrow> queue \<Rightarrow> queue \<Rightarrow> bool" where
  "queue_next c r q q' \<longleftrightarrow>
     mset q' = mset q \<or> (r < SERVER_ERROR_REPROBES_MAX \<and> q' = (c, Suc r) # q)"

lemma queue_next_dials: "queue_next c r q q' \<Longrightarrow> dials_left q' < dials_left ((c, r) # q)"
  by (auto simp: queue_next_def dest: dials_left_mset)

text \<open>Every step of a body is built from a few updates, so that a fact about a body follows from
  those updates: the frame of each, by field.\<close>

lemma push_attempt_simps [simp]:
  "ts_queue (push_attempt out st) = ts_queue st" "ts_attempts (push_attempt out st) = ts_attempts st @ [out]"
  "ts_usage (push_attempt out st) = ts_usage st" "ts_health (push_attempt out st) = ts_health st"
  "ts_attempted_any (push_attempt out st) = ts_attempted_any st"
  "ts_limiter (push_attempt out st) = ts_limiter st" "ts_world (push_attempt out st) = ts_world st"
  "ts_log (push_attempt out st) = ts_log st"
  by (simp_all add: push_attempt_def)

lemma text_record_simps [simp]:
  "ts_queue (text_record env c cls r st) = ts_queue st"
  "ts_attempts (text_record env c cls r st) = ts_attempts st"
  "ts_usage (text_record env c cls r st) = ts_usage st"
  "ts_attempted_any (text_record env c cls r st) = ts_attempted_any st"
  "ts_limiter (text_record env c cls r st) = ts_limiter st"
  "ts_log (text_record env c cls r st) = ts_log st"
  by (simp_all add: text_record_def split: prod.split)

lemma text_release_simps [simp]:
  "ts_queue (text_release c st) = ts_queue st" "ts_attempts (text_release c st) = ts_attempts st"
  "ts_usage (text_release c st) = ts_usage st" "ts_health (text_release c st) = ts_health st"
  "ts_attempted_any (text_release c st) = ts_attempted_any st"
  "ts_world (text_release c st) = ts_world st" "ts_log (text_release c st) = ts_log st"
  "ts_limiter (text_release c st) = give_slot (pr_id (c_provider c)) (ts_limiter st)"
  by (simp_all add: text_release_def)

lemma reprobe_simps [simp]:
  "ts_queue (reprobe env args c r m w reason st) = (c, Suc r) # ts_queue st"
  "ts_attempts (reprobe env args c r m w reason st) = ts_attempts st"
  "ts_usage (reprobe env args c r m w reason st) = ts_usage st"
  "ts_health (reprobe env args c r m w reason st) = ts_health st"
  "ts_attempted_any (reprobe env args c r m w reason st) = ts_attempted_any st"
  "ts_limiter (reprobe env args c r m w reason st) = ts_limiter st"
  "ts_world (reprobe env args c r m w reason st) = te_sleep env w (ts_world st)"
  by (simp_all add: reprobe_def)

text \<open>Reading the flag or the clock changes the world only.\<close>

definition same_but_world :: "'w text_state \<Rightarrow> 'w text_state \<Rightarrow> bool" where
  "same_but_world st st' \<longleftrightarrow> st' = st\<lparr>ts_world := ts_world st'\<rparr>"

lemma same_but_worldD:
  assumes "same_but_world st st'"
  shows "ts_queue st' = ts_queue st" "ts_attempts st' = ts_attempts st" "ts_usage st' = ts_usage st"
    "ts_attempted_any st' = ts_attempted_any st" "ts_health st' = ts_health st"
    "ts_limiter st' = ts_limiter st" "ts_log st' = ts_log st"
  by (subst assms [unfolded same_but_world_def], simp)+

lemma read_same:
  "read_cancelled env st = (b, st') \<Longrightarrow> same_but_world st st'"
  "read_elapsed env n st = (t, st') \<Longrightarrow> same_but_world st st'"
  by (cases "te_cancelled env (ts_world st)"; cases "te_instant env (ts_world st)";
      auto simp: read_cancelled_def read_elapsed_def same_but_world_def)+

lemma same_trans: "same_but_world a b \<Longrightarrow> same_but_world b c \<Longrightarrow> same_but_world a c"
  unfolding same_but_world_def by (cases a; cases b; cases c) simp

lemma reprobe_admitted_same:
  assumes "reprobe_admitted env started wait st = (b, st')"
  shows "same_but_world st st'"
proof -
  obtain x st1 where c: "read_cancelled env st = (x, st1)" by fastforce
  obtain y st2 where e: "read_elapsed env started st1 = (y, st2)" by fastforce
  from assms c e show ?thesis
    using read_same(1) [OF c] same_trans [OF read_same(1) [OF c] read_same(2) [OF e]]
    by (cases x) (simp_all add: reprobe_admitted_def)
qed

subsection \<open>What a body keeps\<close>

text \<open>
  \<open>body_frame c r st res st'\<close>: a body on \<open>c\<close> in its round \<open>r\<close> leaves the limiter as it was,
  adds at most one outcome, labelled with \<open>c\<close> (exactly one if the plan goes on), touches the
  health of no key but \<open>c\<close>'s, and can only end the plan in \<open>c\<close>'s name.
\<close>

fun names_candidate :: "candidate \<Rightarrow> ended option \<Rightarrow> bool" where
  "names_candidate c (Some (EServed c' _)) = (c' = c)"
| "names_candidate c (Some (EMidStream _ c')) = (c' = c)"
| "names_candidate c _ = True"

definition adds_outcomes :: "candidate \<Rightarrow> ended option \<Rightarrow> outcome list \<Rightarrow> outcome list \<Rightarrow> bool" where
  "adds_outcomes c res before after \<longleftrightarrow>
     (\<exists>outs. after = before @ outs \<and> length outs \<le> 1 \<and> (res = None \<longrightarrow> length outs = 1)
        \<and> (\<forall>a \<in> set outs. o_label a = Some (label_of c)))"

definition body_frame ::
  "candidate \<Rightarrow> nat \<Rightarrow> 'w text_state \<Rightarrow> ended option \<Rightarrow> 'w text_state \<Rightarrow> bool" where
  "body_frame c r st res st' \<longleftrightarrow>
     ts_limiter st' = ts_limiter st
     \<and> (res = None \<longrightarrow> queue_next c r (ts_queue st) (ts_queue st'))
     \<and> adds_outcomes c res (ts_attempts st) (ts_attempts st')
     \<and> (\<forall>k. k \<noteq> ak_id (c_key c) \<longrightarrow> ts_health st' k = ts_health st k)
     \<and> names_candidate c res"

lemma adds_outcomes_intros:
  "res \<noteq> None \<Longrightarrow> adds_outcomes c res as as"
  "o_label a = Some (label_of c) \<Longrightarrow> adds_outcomes c res as (as @ [a])"
  by (auto simp: adds_outcomes_def)

lemma text_record_other_key:
  "k \<noteq> ak_id (c_key c) \<Longrightarrow> ts_health (text_record env c cls r st) k = ts_health st k"
  by (simp add: text_record_def record_result_def split: prod.split)

text \<open>\<open>after_next\<close> only moves the queue, the log and the world.\<close>

lemma after_next_frame:
  "ts_attempts (after_next env args started c r out st) = ts_attempts st
   \<and> ts_usage (after_next env args started c r out st) = ts_usage st
   \<and> ts_attempted_any (after_next env args started c r out st) = ts_attempted_any st
   \<and> ts_health (after_next env args started c r out st) = ts_health st
   \<and> ts_limiter (after_next env args started c r out st) = ts_limiter st
   \<and> queue_next c r (ts_queue st) (ts_queue (after_next env args started c r out st))"
proof -
  obtain b1 st1 where 1: "reprobe_admitted env started (reprobe_wait out) st = (b1, st1)" by fastforce
  obtain b2 st2 where 2: "reprobe_admitted env started NETWORK_RETRY_BACKOFF st = (b2, st2)" by fastforce
  note s1 = same_but_worldD [OF reprobe_admitted_same [OF 1]]
  note s2 = same_but_worldD [OF reprobe_admitted_same [OF 2]]
  show ?thesis
    by (cases b1; cases b2)
      (simp_all add: after_next_def 1 2 s1 s2 queue_next_def SERVER_ERROR_REPROBES_MAX_def
        NETWORK_REPROBES_MAX_def)
qed

lemmas after_next_simps [simp] =
  after_next_frame [THEN conjunct1]
  after_next_frame [THEN conjunct2, THEN conjunct1]
  after_next_frame [THEN conjunct2, THEN conjunct2, THEN conjunct1]
  after_next_frame [THEN conjunct2, THEN conjunct2, THEN conjunct2, THEN conjunct1]
  after_next_frame [THEN conjunct2, THEN conjunct2, THEN conjunct2, THEN conjunct2, THEN conjunct1]

lemmas after_next_queue =
  after_next_frame [THEN conjunct2, THEN conjunct2, THEN conjunct2, THEN conjunct2, THEN conjunct2]

lemma after_failure_frame:
  assumes "after_failure parse env args started c r e delivered st = (res, st')"
  shows "body_frame c r st res st'"
proof -
  obtain cancelled st1 where rc: "read_cancelled env st = (cancelled, st1)" by fastforce
  note same = same_but_worldD [OF read_same(1) [OF rc]]
  let ?d = "attempt_disposition delivered cancelled"
  let ?out = "labelled (attempt_outcome parse e ?d) c"
  let ?st2 = "if records_key_health ?d
    then text_record env c (o_cls ?out) (o_retry_after_ms ?out) st1 else st1"
  have st2: "ts_limiter ?st2 = ts_limiter st" "ts_queue ?st2 = ts_queue st"
    "ts_attempts ?st2 = ts_attempts st"
    "\<And>k. k \<noteq> ak_id (c_key c) \<Longrightarrow> ts_health ?st2 k = ts_health st k"
    by (simp_all add: same text_record_other_key)
  have eq: "(res, st') = (case ?d of
      Rethrow \<Rightarrow> (Some (EMidStream e c), push_attempt ?out ?st2)
    | Stop \<Rightarrow> (Some ECancelled, push_attempt ?out ?st2)
    | Next \<Rightarrow> (None, after_next env args started c r ?out (push_attempt ?out ?st2)))"
    using assms unfolding after_failure_def rc by (simp only: prod.case Let_def)
  have q: "queue_next c r (ts_queue st)
      (ts_queue (after_next env args started c r ?out (push_attempt ?out ?st2)))"
    using after_next_queue [of c r "push_attempt ?out ?st2" env args started ?out] st2(2) by simp
  show ?thesis
    using eq st2 q by (cases ?d) (simp_all add: body_frame_def adds_outcomes_intros)
qed

lemma after_stream_frame:
  "after_stream c io st = (res, st') \<Longrightarrow> body_frame c r st res st'"
  by (auto simp: after_stream_def body_frame_def adds_outcomes_intros split: if_splits)

text \<open>A prelude that leaves limiter, queue, chain and health alone.\<close>

definition same_core :: "'w text_state \<Rightarrow> 'w text_state \<Rightarrow> bool" where
  "same_core st st' \<longleftrightarrow>
     ts_limiter st' = ts_limiter st \<and> ts_queue st' = ts_queue st \<and> ts_attempts st' = ts_attempts st
     \<and> ts_health st' = ts_health st"

lemma body_frame_prelude: "same_core st st1 \<Longrightarrow> body_frame c r st1 res st' \<Longrightarrow> body_frame c r st res st'"
  by (simp add: body_frame_def same_core_def)

lemma same_core_of_world: "same_but_world st st' \<Longrightarrow> same_core st st'"
  by (simp add: same_core_def same_but_worldD)

lemma dial_candidate_frame:
  assumes "dial_candidate parse env args started c r adapter st = (res, st')"
  shows "body_frame c r st res st'"
proof -
  obtain d w where d: "te_generate env adapter (ak_secret_ref (c_key c)) (text_args_for args c)
      (ts_world st) = (d, w)" by fastforce
  obtain failure io where r: "run_dial parse args d (fresh_io (ts_usage st) (ts_log st)) = (failure, io)"
    by fastforce
  let ?st1 = "st\<lparr>ts_world := w, ts_usage := io_usage io, ts_log := io_log io\<rparr>"
  have s: "same_core st ?st1" by (simp add: same_core_def)
  show ?thesis
    using assms d r body_frame_prelude [OF s after_failure_frame]
      body_frame_prelude [OF s after_stream_frame]
    by (cases failure) (auto simp: dial_candidate_def Let_def)
qed

lemma held_body_frame:
  assumes "held_body parse env args started c r st = (res, st')"
  shows "body_frame c r st res st'"
proof -
  obtain elapsed st1 where e: "read_elapsed env started st = (elapsed, st1)" by fastforce
  note s1 = same_core_of_world [OF read_same(2) [OF e]]
  show ?thesis
  proof (cases "candidate_is_affordable elapsed (\<not> ts_attempted_any st1)")
    case False
    with assms e have "res = Some ESpent" "st' = st1" by (simp_all add: held_body_def)
    with s1 show ?thesis by (simp add: body_frame_def same_core_def adds_outcomes_intros)
  next
    case True
    let ?st2 = "st1\<lparr>ts_attempted_any := True\<rparr>"
    obtain a w where a: "te_for_provider env (pr_id (c_provider c)) (ts_world ?st2) = (a, w)" by fastforce
    have s2: "same_core st (?st2\<lparr>ts_world := w\<rparr>)" using s1 by (simp add: same_core_def)
    show ?thesis
    proof (cases a)
      case (Some adapter)
      with True assms e a have "dial_candidate parse env args started c r adapter (?st2\<lparr>ts_world := w\<rparr>)
          = (res, st')" by (simp add: held_body_def Let_def)
      from body_frame_prelude [OF s2 dial_candidate_frame [OF this]] show ?thesis .
    next
      case None
      let ?out = "labelled transport_outcome c"
      let ?st3 = "push_attempt ?out
        (text_record env c (o_cls ?out) (o_retry_after_ms ?out) (?st2\<lparr>ts_world := w\<rparr>))"
      obtain b st4 where b: "read_cancelled env ?st3 = (b, st4)" by fastforce
      from True assms e a None b have "res = (if b then Some ECancelled else None)" "st' = st4"
        by (simp_all add: held_body_def Let_def)
      with same_but_worldD [OF read_same(1) [OF b]] s1 show ?thesis
        by (simp add: body_frame_def same_core_def text_record_other_key adds_outcomes_intros queue_next_def)
    qed
  qed
qed

lemma text_body_frame:
  assumes "text_body parse env args started c r st = (res, st')" and "opt_lim_ok (ts_limiter st)"
  shows "body_frame c r st res st'"
proof -
  obtain b st1 where b: "read_cancelled env st = (b, st1)" by fastforce
  note s = same_core_of_world [OF read_same(1) [OF b]]
  consider (stop) b | (skip) "\<not> b" "take_slot (pr_id (c_provider c)) (ts_limiter st1) = None"
    | (go) l where "\<not> b" "take_slot (pr_id (c_provider c)) (ts_limiter st1) = Some l"
    by (cases "take_slot (pr_id (c_provider c)) (ts_limiter st1)") auto
  then show ?thesis
  proof cases
    case stop
    with assms b have "res = Some ECancelled" "st' = st1" by (simp_all add: text_body_def)
    with s show ?thesis by (simp add: body_frame_def same_core_def adds_outcomes_intros)
  next
    case skip
    with assms b have "res = None" "st' = push_attempt (labelled saturated_outcome c) st1"
      by (simp_all add: text_body_def)
    with s show ?thesis
      by (simp add: body_frame_def same_core_def adds_outcomes_intros queue_next_def)
  next
    case go
    obtain st2 where h: "held_body parse env args started c r (st1\<lparr>ts_limiter := l\<rparr>) = (res, st2)"
      and st': "st' = text_release c st2"
      using assms(1) b go by (auto simp: text_body_def split: prod.splits)
    from held_body_frame [OF h] have f: "body_frame c r (st1\<lparr>ts_limiter := l\<rparr>) res st2" .
    have "give_slot (pr_id (c_provider c)) l = ts_limiter st"
      using engine_slots.rel_acq [OF _ go(2)] assms(2) s by (simp add: same_core_def)
    with f s show ?thesis by (simp add: body_frame_def same_core_def st')
  qed
qed

lemma text_body_queue:
  assumes "text_body parse env args started c r st = (None, st')"
  shows "queue_next c r (ts_queue st) (ts_queue st')"
proof -
  obtain b st1 where b: "read_cancelled env st = (b, st1)" by fastforce
  note s = same_but_worldD [OF read_same(1) [OF b]]
  show ?thesis
  proof (cases "take_slot (pr_id (c_provider c)) (ts_limiter st1)")
    case None
    with assms b s show ?thesis by (cases b) (auto simp: text_body_def queue_next_def)
  next
    case (Some l)
    obtain res st2 where h: "held_body parse env args started c r (st1\<lparr>ts_limiter := l\<rparr>) = (res, st2)"
      by fastforce
    with assms b Some have "res = None" "st' = text_release c st2" "\<not> b"
      by (cases b; simp add: text_body_def)+
    with held_body_frame [OF h] s show ?thesis by (simp add: body_frame_def)
  qed
qed

subsection \<open>The loop\<close>

function text_loop ::
  "(string \<Rightarrow> json option) \<Rightarrow> ('a, 'w) text_env \<Rightarrow> execute_text_args \<Rightarrow> nat \<Rightarrow> 'w text_state
     \<Rightarrow> ended \<times> 'w text_state" where
  "text_loop parse env args started st =
     (case ts_queue st of
        [] \<Rightarrow> (ESpent, st)
      | (c, r) # q \<Rightarrow>
          (case text_body parse env args started c r (st\<lparr>ts_queue := q\<rparr>) of
             (Some e, st') \<Rightarrow> (e, st')
           | (None, st') \<Rightarrow> text_loop parse env args started st'))"
  by pat_completeness auto

termination
proof (relation "measure (\<lambda>(_, _, _, _, st). dials_left (ts_queue st))", goal_cases)
  case 1
  then show ?case by simp
next
  case (2 parse env args started st x q c r res st')
  then have "text_body parse env args started c r (st\<lparr>ts_queue := q\<rparr>) = (None, st')"
    and q: "ts_queue st = (c, r) # q" by simp_all
  from queue_next_dials [OF text_body_queue [OF this(1)]] q show ?case by simp
qed

declare text_loop.simps [simp del]

definition execute_text ::
  "(string \<Rightarrow> json option) \<Rightarrow> ('a, 'w) text_env \<Rightarrow> execute_text_args \<Rightarrow> tracker \<Rightarrow> limiter option
     \<Rightarrow> 'w \<Rightarrow> (text_failure + text_success) \<times> 'w text_state" where
  "execute_text parse env args health limiter w =
     (let budget = attempt_budget (length (xt_plan args)) (xt_max_attempts args) in
      case te_instant env w of
        (started, w1) \<Rightarrow>
          (case text_loop parse env args started
                  \<lparr>ts_queue = map (\<lambda>c. (c, 0)) (take budget (xt_plan args)), ts_attempts = [],
                   ts_usage = None, ts_attempted_any = False, ts_health = health,
                   ts_limiter = limiter, ts_world = w1, ts_log = []\<rparr> of
             (EServed c obs, st) \<Rightarrow>
               (Inr \<lparr>sx_candidate = c, sx_attempts = ts_attempts st, sx_usage = ts_usage st,
                     sx_observation = obs\<rparr>,
                text_record env c Ok None st)
           | (EMidStream e c, st) \<Rightarrow> (Inl (FMidStream e c (ts_attempts st) (ts_usage st)), st)
           | (ECancelled, st) \<Rightarrow> (Inl (FCancelled (ts_attempts st) (ts_usage st)), st)
           | (ESpent, st) \<Rightarrow>
               (Inl (FAllAttemptsFailed \<lparr>af_model = xt_model args, af_chain = ts_attempts st\<rparr>
                       (ts_usage st)), st)))"

text \<open>The rule every invariant of a plan is proved with: \<open>I\<close> holds between bodies, \<open>Q\<close> at the end.\<close>

lemma text_loop_rule:
  assumes "text_loop parse env args started st = (e, st')" and "I st"
    and "\<And>st c r q st1. I st \<Longrightarrow> ts_queue st = (c, r) # q \<Longrightarrow>
           text_body parse env args started c r (st\<lparr>ts_queue := q\<rparr>) = (None, st1) \<Longrightarrow> I st1"
    and "\<And>st c r q e st1. I st \<Longrightarrow> ts_queue st = (c, r) # q \<Longrightarrow>
           text_body parse env args started c r (st\<lparr>ts_queue := q\<rparr>) = (Some e, st1) \<Longrightarrow> Q e st1"
    and "\<And>st. I st \<Longrightarrow> ts_queue st = [] \<Longrightarrow> Q ESpent st"
  shows "Q e st'"
  using assms(1,2)
proof (induction "dials_left (ts_queue st)" arbitrary: st rule: less_induct)
  case less
  show ?case
  proof (cases "ts_queue st")
    case Nil
    with less.prems show ?thesis by (simp add: text_loop.simps assms(5))
  next
    case (Cons x q)
    obtain c r where x: "x = (c, r)" by (cases x)
    obtain res st1 where b: "text_body parse env args started c r (st\<lparr>ts_queue := q\<rparr>) = (res, st1)"
      by fastforce
    note unfold = text_loop.simps [of parse env args started st]
    show ?thesis
    proof (cases res)
      case (Some e1)
      with less.prems(1) Cons x b have "e1 = e" "st1 = st'" by (simp_all add: unfold)
      with assms(4) [OF less.prems(2)] Cons x b Some show ?thesis by simp
    next
      case None
      with b have b': "text_body parse env args started c r (st\<lparr>ts_queue := q\<rparr>) = (None, st1)" by simp
      have "text_loop parse env args started st1 = (e, st')"
        using less.prems(1) Cons x b' by (simp add: unfold)
      moreover have "dials_left (ts_queue st1) < dials_left (ts_queue st)"
        using queue_next_dials [OF text_body_queue [OF b']] Cons x by simp
      ultimately show ?thesis
        using less.hyps assms(3) [OF less.prems(2) _ b'] Cons x by simp
    qed
  qed
qed

subsection \<open>What the caller is shown\<close>

text \<open>Output is a chunk or a tool call; what one dial offers of it, in order.\<close>

fun is_output :: "delivery \<Rightarrow> bool" where
  "is_output (DChunk _) = True"
| "is_output (DTool _) = True"
| "is_output _ = False"

definition outputs :: "delivery list \<Rightarrow> delivery list" where
  "outputs ds = filter is_output ds"

fun callback_output :: "execute_text_args \<Rightarrow> adapter_callback \<Rightarrow> delivery list" where
  "callback_output args (CbTool tc) = (if xt_on_tool_call args then [DTool tc] else [])"
| "callback_output args _ = []"

fun tick_output :: "execute_text_args \<Rightarrow> tick \<Rightarrow> delivery list" where
  "tick_output args (Cb cb) = callback_output args cb"
| "tick_output args (Chunk s) = [DChunk s]"
| "tick_output args _ = []"

definition dial_output :: "execute_text_args \<Rightarrow> dial \<Rightarrow> delivery list" where
  "dial_output args d =
     concat (map (callback_output args) (d_callbacks d)) @ concat (map (tick_output args) (d_ticks d))"

lemma outputs_simps [simp]: "outputs [] = []" "outputs (a @ b) = outputs a @ outputs b"
  "outputs (d # ds) = (if is_output d then d # outputs ds else outputs ds)"
  by (simp_all add: outputs_def)

lemma outputs_deliver [simp]:
  "outputs (deliver args d ds) = outputs ds @ (if is_output d \<and> heard args d then [d] else [])"
  by (simp add: deliver_def)

lemma outputs_on_callback:
  "outputs (io_log (on_callback parse args cb io)) = outputs (io_log io) @ callback_output args cb"
  "served_output (on_callback parse args cb io) \<longleftrightarrow> served_output io \<or> (\<exists>tc. cb = CbTool tc)"
  by (cases cb; auto simp: served_output_def)+

lemma outputs_callbacks:
  "outputs (io_log (fold (on_callback parse args) cbs io)) =
     outputs (io_log io) @ concat (map (callback_output args) cbs)"
  "served_output io \<Longrightarrow> served_output (fold (on_callback parse args) cbs io)"
  by (induction cbs arbitrary: io) (simp_all add: outputs_on_callback)

lemma no_output_callbacks:
  "\<not> served_output (fold (on_callback parse args) cbs io) \<Longrightarrow> concat (map (callback_output args) cbs) = []"
proof (induction cbs arbitrary: io)
  case Nil
  then show ?case by simp
next
  case (Cons cb cbs)
  then have "\<not> served_output (on_callback parse args cb io)"
    using outputs_callbacks(2) by fastforce
  then have "callback_output args cb = []" by (cases cb) (auto simp: outputs_on_callback simp del: on_callback.simps)
  with Cons show ?case by simp
qed

text \<open>What a stream shows is a prefix of what it offers: nothing if it did not serve, and something
  if it did and tool calls are heard.\<close>

definition shows_prefix ::
  "execute_text_args \<Rightarrow> delivery list \<Rightarrow> attempt_io \<Rightarrow> attempt_io \<Rightarrow> bool" where
  "shows_prefix args offered io io' \<longleftrightarrow>
     (\<exists>new rest. offered = new @ rest \<and> outputs (io_log io') = outputs (io_log io) @ new
        \<and> (served_output io \<longrightarrow> served_output io') \<and> (\<not> served_output io' \<longrightarrow> new = [])
        \<and> (xt_on_tool_call args \<longrightarrow> served_output io' \<longrightarrow> served_output io \<or> new \<noteq> []))"

lemma shows_prefix_refl: "shows_prefix args offered io io"
  unfolding shows_prefix_def by (intro exI [of _ "[]"] exI [of _ offered]) simp

lemma shows_prefix_step:
  assumes "shows_prefix args offered io1 io'" and "outputs (io_log io1) = outputs (io_log io) @ out"
    and "served_output io1 \<longleftrightarrow> served_output io \<or> x" and "out \<noteq> [] \<longrightarrow> x"
    and "xt_on_tool_call args \<longrightarrow> x \<longrightarrow> out \<noteq> []"
  shows "shows_prefix args (out @ offered) io io'"
proof -
  from assms(1) obtain new rest where n: "offered = new @ rest"
    "outputs (io_log io') = outputs (io_log io1) @ new"
    "served_output io1 \<longrightarrow> served_output io'" "\<not> served_output io' \<longrightarrow> new = []"
    "xt_on_tool_call args \<longrightarrow> served_output io' \<longrightarrow> served_output io1 \<or> new \<noteq> []"
    unfolding shows_prefix_def by blast
  have "out @ offered = (out @ new) @ rest" using n(1) by simp
  moreover have "outputs (io_log io') = outputs (io_log io) @ (out @ new)" using n(2) assms(2) by simp
  moreover have "served_output io \<longrightarrow> served_output io'" using n(3) assms(3) by blast
  moreover have "\<not> served_output io' \<longrightarrow> out @ new = []" using n(3,4) assms(3,4) by auto
  moreover have "xt_on_tool_call args \<longrightarrow> served_output io' \<longrightarrow> served_output io \<or> out @ new \<noteq> []"
    using n(5) assms(3,5) by auto
  ultimately show ?thesis unfolding shows_prefix_def by blast
qed

lemma run_stream_shows:
  "run_stream parse args armed ticks io = (failure, io') \<Longrightarrow>
     shows_prefix args (concat (map (tick_output args) ticks)) io io'"
proof (induction parse args armed ticks io rule: run_stream.induct)
  case (2 parse args armed cb ticks io)
  have "callback_output args cb \<noteq> [] \<longrightarrow> (\<exists>tc. cb = CbTool tc)"
    and "xt_on_tool_call args \<longrightarrow> (\<exists>tc. cb = CbTool tc) \<longrightarrow> callback_output args cb \<noteq> []"
    by (cases cb; auto)+
  with 2 shows_prefix_step [OF _ outputs_on_callback] show ?case by simp
next
  case (3 parse args armed s ticks io)
  let ?io = "io\<lparr>io_emitted := True, io_log := deliver args (DChunk s) (io_log io)\<rparr>"
  have "shows_prefix args (concat (map (tick_output args) ticks)) ?io io'" using 3 by simp
  from shows_prefix_step [OF this, of io "[DChunk s]" True] show ?case
    by (simp add: served_output_def)
next
  case (5 parse args armed ticks io)
  then show ?case by (auto simp: shows_prefix_refl split: if_splits)
qed (auto simp: shows_prefix_refl)

lemma some_output_callbacks:
  "xt_on_tool_call args \<Longrightarrow> served_output (fold (on_callback parse args) cbs io) \<Longrightarrow>
     served_output io \<or> concat (map (callback_output args) cbs) \<noteq> []"
proof (induction cbs arbitrary: io)
  case (Cons cb cbs)
  from Cons.IH [of "on_callback parse args cb io"] Cons.prems
  have "served_output (on_callback parse args cb io) \<or> concat (map (callback_output args) cbs) \<noteq> []"
    by simp
  then show ?case using Cons.prems(1) by (auto simp: outputs_on_callback(2))
qed simp

lemma run_dial_shows:
  assumes "run_dial parse args d (fresh_io usage ds) = (failure, io)"
  shows "\<exists>new rest. dial_output args d = new @ rest \<and> outputs (io_log io) = outputs ds @ new
    \<and> (\<not> served_output io \<longrightarrow> new = []) \<and> (xt_on_tool_call args \<longrightarrow> served_output io \<longrightarrow> new \<noteq> [])"
proof -
  let ?io1 = "fold (on_callback parse args) (d_callbacks d) (fresh_io usage ds)"
  let ?out = "concat (map (callback_output args) (d_callbacks d))"
  have f: "outputs (io_log (fresh_io usage ds)) = outputs ds" "\<not> served_output (fresh_io usage ds)"
    by (simp_all add: fresh_io_def served_output_def)
  have io1: "outputs (io_log ?io1) = outputs ds @ ?out" "\<not> served_output ?io1 \<longrightarrow> ?out = []"
    "xt_on_tool_call args \<longrightarrow> served_output ?io1 \<longrightarrow> ?out \<noteq> []"
    using outputs_callbacks(1) [of parse args _ "fresh_io usage ds"] no_output_callbacks f
      some_output_callbacks [of args parse "d_callbacks d" "fresh_io usage ds"] by auto
  have "shows_prefix args (concat (map (tick_output args) (d_ticks d))) ?io1 io"
  proof (cases "d_refused d")
    case None
    with assms show ?thesis by (auto simp: run_dial_def Let_def intro: run_stream_shows)
  next
    case (Some e)
    with assms show ?thesis by (auto simp: run_dial_def Let_def shows_prefix_refl)
  qed
  then obtain new rest where n: "concat (map (tick_output args) (d_ticks d)) = new @ rest"
    "outputs (io_log io) = outputs (io_log ?io1) @ new"
    "served_output ?io1 \<longrightarrow> served_output io" "\<not> served_output io \<longrightarrow> new = []"
    "xt_on_tool_call args \<longrightarrow> served_output io \<longrightarrow> served_output ?io1 \<or> new \<noteq> []"
    unfolding shows_prefix_def by blast
  have "dial_output args d = (?out @ new) @ rest" using n(1) by (simp add: dial_output_def)
  moreover have "outputs (io_log io) = outputs ds @ (?out @ new)" using n(2) io1(1) by simp
  moreover have "\<not> served_output io \<longrightarrow> ?out @ new = []" using n(3,4) io1(2) by auto
  moreover have "xt_on_tool_call args \<longrightarrow> served_output io \<longrightarrow> ?out @ new \<noteq> []"
    using n(5) io1(3) by auto
  ultimately show ?thesis by blast
qed

text \<open>\<open>from_one_dial\<close>: the list is a prefix of what one dial of the candidate offered.\<close>

definition from_one_dial ::
  "('a, 'w) text_env \<Rightarrow> execute_text_args \<Rightarrow> candidate \<Rightarrow> delivery list \<Rightarrow> bool" where
  "from_one_dial env args c ds \<longleftrightarrow>
     (\<exists>adapter w rest.
        dial_output args (fst (te_generate env adapter (ak_secret_ref (c_key c)) (text_args_for args c) w))
        = ds @ rest)"

fun shown_for :: "('a, 'w) text_env \<Rightarrow> execute_text_args \<Rightarrow> ended \<Rightarrow> delivery list \<Rightarrow> bool" where
  "shown_for env args (EServed c obs) ds \<longleftrightarrow>
     from_one_dial env args c ds \<and> (obs \<noteq> None \<longrightarrow> ds = [])
     \<and> (xt_on_tool_call args \<longrightarrow> obs = None \<longrightarrow> ds \<noteq> [])"
| "shown_for env args (EMidStream e c) ds \<longleftrightarrow>
     from_one_dial env args c ds \<and> (xt_on_tool_call args \<longrightarrow> ds \<noteq> [])"
| "shown_for env args ECancelled ds \<longleftrightarrow> ds = []"
| "shown_for env args ESpent ds \<longleftrightarrow> ds = []"

definition body_shows ::
  "('a, 'w) text_env \<Rightarrow> execute_text_args \<Rightarrow> 'w text_state \<Rightarrow> ended option \<Rightarrow> 'w text_state \<Rightarrow> bool" where
  "body_shows env args st res st' \<longleftrightarrow>
     (\<exists>new. outputs (ts_log st') = outputs (ts_log st) @ new
        \<and> (case res of None \<Rightarrow> new = [] | Some e \<Rightarrow> shown_for env args e new))"

lemma after_next_outputs [simp]:
  "outputs (ts_log (after_next env args started c r out st)) = outputs (ts_log st)"
proof -
  obtain b1 st1 where 1: "reprobe_admitted env started (reprobe_wait out) st = (b1, st1)" by fastforce
  obtain b2 st2 where 2: "reprobe_admitted env started NETWORK_RETRY_BACKOFF st = (b2, st2)" by fastforce
  show ?thesis
    by (cases b1; cases b2)
      (simp_all add: after_next_def 1 2 reprobe_def same_but_worldD [OF reprobe_admitted_same [OF 1]]
        same_but_worldD [OF reprobe_admitted_same [OF 2]])
qed

lemma after_failure_outputs:
  assumes "after_failure parse env args started c r e delivered st = (res, st')"
  shows "outputs (ts_log st') = outputs (ts_log st)
    \<and> (delivered \<and> res = Some (EMidStream e c) \<or> \<not> delivered \<and> res \<in> {None, Some ECancelled})"
proof -
  obtain cancelled st1 where rc: "read_cancelled env st = (cancelled, st1)" by fastforce
  note l = same_but_worldD(7) [OF read_same(1) [OF rc]]
  show ?thesis
  proof (cases delivered)
    case True
    with assms rc l show ?thesis
      by (auto simp: after_failure_def attempt_disposition_def Let_def records_key_health_def)
  next
    case False
    with assms rc l show ?thesis
      by (cases cancelled)
        (auto simp: after_failure_def attempt_disposition_def Let_def records_key_health_def)
  qed
qed

lemma dial_candidate_shows:
  assumes "dial_candidate parse env args started c r adapter st = (res, st')"
  shows "body_shows env args st res st'"
proof -
  let ?gen = "te_generate env adapter (ak_secret_ref (c_key c)) (text_args_for args c) (ts_world st)"
  obtain d w where d: "?gen = (d, w)" by fastforce
  obtain failure io where r: "run_dial parse args d (fresh_io (ts_usage st) (ts_log st)) = (failure, io)"
    by fastforce
  let ?st1 = "st\<lparr>ts_world := w, ts_usage := io_usage io, ts_log := io_log io\<rparr>"
  from run_dial_shows [OF r] obtain new rest where n: "dial_output args d = new @ rest"
    "outputs (io_log io) = outputs (ts_log st) @ new" "\<not> served_output io \<longrightarrow> new = []"
    "xt_on_tool_call args \<longrightarrow> served_output io \<longrightarrow> new \<noteq> []" by blast
  have one: "from_one_dial env args c new"
    unfolding from_one_dial_def using d n(1) by (metis fst_conv)
  show ?thesis
  proof (cases failure)
    case None
    with assms d r have "after_stream c io ?st1 = (res, st')" by (simp add: dial_candidate_def Let_def)
    then show ?thesis
      using n one by (auto simp: after_stream_def body_shows_def split: if_splits)
  next
    case (Some e)
    with assms d r have "after_failure parse env args started c r e (served_output io) ?st1 = (res, st')"
      by (simp add: dial_candidate_def Let_def)
    note af = after_failure_outputs [OF this]
    have "outputs (ts_log st') = outputs (ts_log st) @ new" using af n(2) by simp
    moreover have "case res of None \<Rightarrow> new = [] | Some x \<Rightarrow> shown_for env args x new"
      using af n(3,4) one by auto
    ultimately show ?thesis unfolding body_shows_def by blast
  qed
qed

lemma body_shows_same_log:
  "ts_log st1 = ts_log st \<Longrightarrow> body_shows env args st1 res st' \<Longrightarrow> body_shows env args st res st'"
  by (simp add: body_shows_def)

lemma body_shows_nothing:
  "ts_log st' = ts_log st \<Longrightarrow> res \<in> {None, Some ECancelled, Some ESpent} \<Longrightarrow> body_shows env args st res st'"
  by (auto simp: body_shows_def)

lemma held_body_shows:
  assumes "held_body parse env args started c r st = (res, st')"
  shows "body_shows env args st res st'"
proof -
  obtain elapsed st1 where e: "read_elapsed env started st = (elapsed, st1)" by fastforce
  note l1 = same_but_worldD(7) [OF read_same(2) [OF e]]
  show ?thesis
  proof (cases "candidate_is_affordable elapsed (\<not> ts_attempted_any st1)")
    case False
    with assms e l1 show ?thesis by (auto simp: held_body_def intro: body_shows_nothing)
  next
    case True
    let ?st2 = "st1\<lparr>ts_attempted_any := True\<rparr>"
    obtain a w where a: "te_for_provider env (pr_id (c_provider c)) (ts_world ?st2) = (a, w)" by fastforce
    show ?thesis
    proof (cases a)
      case (Some adapter)
      with True assms e a have d: "dial_candidate parse env args started c r adapter (?st2\<lparr>ts_world := w\<rparr>)
          = (res, st')" by (simp add: held_body_def Let_def)
      show ?thesis
        by (rule body_shows_same_log [OF _ dial_candidate_shows [OF d]]) (simp add: l1)
    next
      case None
      let ?out = "labelled transport_outcome c"
      let ?st3 = "push_attempt ?out
        (text_record env c (o_cls ?out) (o_retry_after_ms ?out) (?st2\<lparr>ts_world := w\<rparr>))"
      obtain b st4 where b: "read_cancelled env ?st3 = (b, st4)" by fastforce
      from True assms e a None b have "res = (if b then Some ECancelled else None)" "st' = st4"
        by (simp_all add: held_body_def Let_def)
      with same_but_worldD(7) [OF read_same(1) [OF b]] l1 show ?thesis
        by (intro body_shows_nothing) auto
    qed
  qed
qed

lemma text_body_shows:
  assumes "text_body parse env args started c r st = (res, st')"
  shows "body_shows env args st res st'"
proof -
  obtain b st1 where b: "read_cancelled env st = (b, st1)" by fastforce
  note l1 = same_but_worldD(7) [OF read_same(1) [OF b]]
  show ?thesis
  proof (cases "b \<or> take_slot (pr_id (c_provider c)) (ts_limiter st1) = None")
    case True
    with assms b l1 show ?thesis
      by (cases b) (auto simp: text_body_def intro!: body_shows_nothing)
  next
    case False
    then obtain l where l: "\<not> b" "take_slot (pr_id (c_provider c)) (ts_limiter st1) = Some l" by auto
    obtain x st2 where h: "held_body parse env args started c r (st1\<lparr>ts_limiter := l\<rparr>) = (x, st2)"
      by fastforce
    from held_body_shows [OF h] l1 assms b l h show ?thesis
      by (auto simp: text_body_def body_shows_def)
  qed
qed

definition start_state :: "execute_text_args \<Rightarrow> tracker \<Rightarrow> limiter option \<Rightarrow> 'w \<Rightarrow> 'w text_state" where
  "start_state args health limiter w =
     \<lparr>ts_queue = map (\<lambda>c. (c, 0))
        (take (attempt_budget (length (xt_plan args)) (xt_max_attempts args)) (xt_plan args)),
      ts_attempts = [], ts_usage = None, ts_attempted_any = False, ts_health = health,
      ts_limiter = limiter, ts_world = w, ts_log = []\<rparr>"

lemma start_state_simps [simp]:
  "ts_attempts (start_state args h l w) = []" "ts_log (start_state args h l w) = []"
  "ts_health (start_state args h l w) = h" "ts_limiter (start_state args h l w) = l"
  "ts_world (start_state args h l w) = w" "ts_attempted_any (start_state args h l w) = False"
  by (simp_all add: start_state_def)

text \<open>How a request is its loop: what is proved of the loop's end carries over to its result.\<close>

fun ended_result :: "ended \<Rightarrow> text_failure + text_success \<Rightarrow> outcome list \<Rightarrow> bool" where
  "ended_result (EServed c obs) r as \<longleftrightarrow>
     (\<exists>s. r = Inr s \<and> sx_candidate s = c \<and> sx_observation s = obs \<and> sx_attempts s = as)"
| "ended_result (EMidStream e c) r as \<longleftrightarrow> (\<exists>u. r = Inl (FMidStream e c as u))"
| "ended_result ECancelled r as \<longleftrightarrow> (\<exists>u. r = Inl (FCancelled as u))"
| "ended_result ESpent r as \<longleftrightarrow> (\<exists>f u. r = Inl (FAllAttemptsFailed f u) \<and> af_chain f = as)"

fun ended_final :: "('a, 'w) text_env \<Rightarrow> ended \<Rightarrow> 'w text_state \<Rightarrow> 'w text_state" where
  "ended_final env (EServed c obs) st = text_record env c Ok None st"
| "ended_final env _ st = st"

lemma execute_text_loop:
  assumes "execute_text parse env args health limiter w = (r, st')"
  obtains started w1 e st where "te_instant env w = (started, w1)"
    and "text_loop parse env args started (start_state args health limiter w1) = (e, st)"
    and "ended_result e r (ts_attempts st)" and "st' = ended_final env e st"
proof -
  obtain started w1 where i: "te_instant env w = (started, w1)" by fastforce
  obtain e st where l: "text_loop parse env args started (start_state args health limiter w1) = (e, st)"
    by fastforce
  have "ended_result e r (ts_attempts st) \<and> st' = ended_final env e st"
    using assms i l by (cases e) (auto simp: execute_text_def Let_def start_state_def)
  with that i l show thesis by blast
qed

lemma ended_final_simps [simp]:
  "ts_log (ended_final env e st) = ts_log st" "ts_limiter (ended_final env e st) = ts_limiter st"
  "ts_attempts (ended_final env e st) = ts_attempts st"
  by (cases e; simp)+

lemma text_loop_shows:
  assumes "text_loop parse env args started (start_state args health limiter w) = (e, st')"
  shows "shown_for env args e (outputs (ts_log st'))"
proof (rule text_loop_rule [OF assms, where I = "\<lambda>st. outputs (ts_log st) = []"])
  fix st c r q st1
  assume "outputs (ts_log st) = []"
    and "text_body parse env args started c r (st\<lparr>ts_queue := q\<rparr>) = (None, st1)"
  then show "outputs (ts_log st1) = []"
    using text_body_shows by (force simp: body_shows_def)
next
  fix st c r q e st1
  assume "outputs (ts_log st) = []"
    and "text_body parse env args started c r (st\<lparr>ts_queue := q\<rparr>) = (Some e, st1)"
  then show "shown_for env args e (outputs (ts_log st1))"
    using text_body_shows by (force simp: body_shows_def)
qed simp_all

text \<open>The same of a whole request.\<close>

fun shown_by :: "('a, 'w) text_env \<Rightarrow> execute_text_args \<Rightarrow> text_failure + text_success \<Rightarrow> delivery list \<Rightarrow> bool" where
  "shown_by env args (Inr s) ds \<longleftrightarrow>
     from_one_dial env args (sx_candidate s) ds \<and> (sx_observation s \<noteq> None \<longrightarrow> ds = [])
     \<and> (xt_on_tool_call args \<longrightarrow> sx_observation s = None \<longrightarrow> ds \<noteq> [])"
| "shown_by env args (Inl (FMidStream e c as u)) ds \<longleftrightarrow>
     from_one_dial env args c ds \<and> (xt_on_tool_call args \<longrightarrow> ds \<noteq> [])"
| "shown_by env args (Inl (FCancelled as u)) ds \<longleftrightarrow> ds = []"
| "shown_by env args (Inl (FAllAttemptsFailed f u)) ds \<longleftrightarrow> ds = []"

lemma execute_text_shown_by:
  assumes "execute_text parse env args health limiter w = (r, st')"
  shows "shown_by env args r (outputs (ts_log st'))"
proof -
  from assms obtain started w1 e st where
    l: "text_loop parse env args started (start_state args health limiter w1) = (e, st)"
    and r: "ended_result e r (ts_attempts st)" and st': "st' = ended_final env e st"
    by (rule execute_text_loop)
  show ?thesis
    using text_loop_shows [OF l] r by (cases e) (auto simp: st')
qed

subsection \<open>Properties\<close>

text \<open>(C1) Failover never mixes answers. All chunks and tool calls a caller is shown by one request
  come, in order and from the first on, from one dial of one candidate, and it is the candidate the
  request is recorded as served by, whether the stream then ended or broke; a request that ends as
  cancelled or with all attempts failed has shown nothing. A caller that listens to tool calls has
  been shown something by every other request, except the one recorded as having drained a stream
  without output.\<close>

theorem output_comes_from_one_dial:
  assumes "execute_text parse env args health limiter w = (r, st')"
  shows "case r of
      Inr s \<Rightarrow> from_one_dial env args (sx_candidate s) (outputs (ts_log st'))
        \<and> (sx_observation s \<noteq> None \<longrightarrow> outputs (ts_log st') = [])
        \<and> (xt_on_tool_call args \<longrightarrow> sx_observation s = None \<longrightarrow> outputs (ts_log st') \<noteq> [])
    | Inl (FMidStream e c as u) \<Rightarrow> from_one_dial env args c (outputs (ts_log st'))
        \<and> (xt_on_tool_call args \<longrightarrow> outputs (ts_log st') \<noteq> [])
    | Inl (FCancelled as u) \<Rightarrow> outputs (ts_log st') = []
    | Inl (FAllAttemptsFailed f u) \<Rightarrow> outputs (ts_log st') = []"
  using execute_text_shown_by [OF assms] by (auto split: sum.split text_failure.split)

text \<open>A run of two candidates: the first provider refuses with 429 and names 30 s, the second
  streams one chunk. The world is the clock in nanoseconds; a dial takes a second.\<close>

definition demo_text_env :: "(string, nat) text_env" where
  "demo_text_env =
     \<lparr>te_cancelled = (\<lambda>w. (False, w)), te_instant = (\<lambda>w. (w, w)), te_now = (\<lambda>w. (1000, w)),
      te_sleep = (\<lambda>d w. w + d), te_for_provider = (\<lambda>p w. (Some p, w)),
      te_generate = (\<lambda>a _ _ w.
        (if a = ''b''
         then \<lparr>d_callbacks = [], d_refused = None, d_ticks = [Chunk ''hi'', Cb (CbFinish None)]\<rparr>
         else \<lparr>d_callbacks = [], d_refused = Some (Http 429 Response (Some 30000) None), d_ticks = []\<rparr>,
         w + from_secs 1))\<rparr>"

definition demo_text_args :: "candidate list \<Rightarrow> execute_text_args" where
  "demo_text_args plan =
     \<lparr>xt_plan = plan, xt_messages = [], xt_model = ''m'', xt_stream = True, xt_max_tokens = None,
      xt_temperature = None, xt_reasoning = None, xt_tools = None, xt_tool_choice = None,
      xt_response_format = None, xt_on_tool_call = True, xt_on_usage = True, xt_on_finish = True,
      xt_on_reasoning = True, xt_on_retry = True, xt_max_attempts = None,
      xt_prompt_cache_enabled = False\<rparr>"

definition demo_plan :: "candidate list" where
  "demo_plan = [mk_candidate ''a'' ''k1'', mk_candidate ''b'' ''k2'']"

definition demo_run :: "candidate list \<Rightarrow> (text_failure + text_success) \<times> nat text_state" where
  "demo_run plan =
     execute_text (\<lambda>_. None) demo_text_env (demo_text_args plan) Map.empty (Some (new_limiter 1)) 0"

lemmas demo_eval =
  demo_run_def execute_text_def text_loop.simps text_body_def held_body_def dial_candidate_def
  after_failure_def after_next_def after_stream_def run_dial_def fresh_io_def served_output_def
  read_cancelled_def read_elapsed_def candidate_is_affordable_def push_attempt_def text_record_def
  text_release_def take_slot_def give_slot_def attempt_budget_def MAX_ATTEMPTS_DEFAULT_def
  attempt_disposition_def attempt_outcome_def hint_of_def acquire_def acquire_locked_def
  new_limiter_def in_flight_count_def release_slot_def max_per_provider_def budget_consts
  detect_client_gate_def detect_not_found_def detect_invalid_request_def classify_def

lemma demo_run_served:
  "outputs (ts_log (snd (demo_run demo_plan))) = [DChunk ''hi'']
   \<and> (\<exists>s. fst (demo_run demo_plan) = Inr s \<and> sx_candidate s = mk_candidate ''b'' ''k2'')"
  by (simp add: demo_eval demo_text_env_def demo_text_args_def demo_plan_def mk_rows Let_def deliver_def)

theorem output_comes_from_one_dial_witness:
  "from_one_dial demo_text_env (demo_text_args demo_plan) (mk_candidate ''b'' ''k2'') [DChunk ''hi'']"
proof -
  from demo_run_served obtain s where
    s: "fst (demo_run demo_plan) = Inr s" "sx_candidate s = mk_candidate ''b'' ''k2''"
    and o: "outputs (ts_log (snd (demo_run demo_plan))) = [DChunk ''hi'']" by blast
  have "execute_text (\<lambda>_. None) demo_text_env (demo_text_args demo_plan) Map.empty
      (Some (new_limiter 1)) 0 = (Inr s, snd (demo_run demo_plan))"
    using s(1) by (metis demo_run_def prod.collapse)
  from output_comes_from_one_dial [OF this] show ?thesis by (simp add: s(2) o)
qed

subsection \<open>The invariant of a plan\<close>

definition plan_head :: "execute_text_args \<Rightarrow> candidate list" where
  "plan_head args = take (attempt_budget (length (xt_plan args)) (xt_max_attempts args)) (xt_plan args)"

lemma length_plan_head:
  "length (plan_head args) = attempt_budget (length (xt_plan args)) (xt_max_attempts args)"
  using attempt_budget_le [of "length (xt_plan args)" "xt_max_attempts args"]
  by (simp add: plan_head_def)

lemma start_queue: "ts_queue (start_state args h l w) = map (\<lambda>c. (c, 0)) (plan_head args)"
  by (simp add: start_state_def plan_head_def)

lemma dials_left_start:
  "dials_left (map (\<lambda>c. (c, 0)) cs) = Suc SERVER_ERROR_REPROBES_MAX * length cs"
  by (induction cs) simp_all

lemma queue_next_set: "queue_next c r q q' \<Longrightarrow> fst ` set q' \<subseteq> insert c (fst ` set q)"
proof -
  assume "queue_next c r q q'"
  then have "set q' = set q \<or> q' = (c, Suc r) # q"
    unfolding queue_next_def using mset_eq_setD by blast
  then show ?thesis by auto
qed

definition plan_inv ::
  "candidate list \<Rightarrow> tracker \<Rightarrow> limiter option \<Rightarrow> 'w text_state \<Rightarrow> bool" where
  "plan_inv cs health limiter st \<longleftrightarrow>
     ts_limiter st = limiter
     \<and> fst ` set (ts_queue st) \<subseteq> set cs
     \<and> length (ts_attempts st) + dials_left (ts_queue st) \<le> Suc SERVER_ERROR_REPROBES_MAX * length cs
     \<and> (\<forall>a \<in> set (ts_attempts st). \<exists>c \<in> set cs. o_label a = Some (label_of c))
     \<and> (\<forall>k. k \<notin> (\<lambda>c. ak_id (c_key c)) ` set cs \<longrightarrow> ts_health st k = health k)"

text \<open>The same at the end, where the queue no longer matters.\<close>

definition plan_end ::
  "candidate list \<Rightarrow> tracker \<Rightarrow> limiter option \<Rightarrow> ended \<Rightarrow> 'w text_state \<Rightarrow> bool" where
  "plan_end cs health limiter e st \<longleftrightarrow>
     ts_limiter st = limiter
     \<and> length (ts_attempts st) \<le> Suc SERVER_ERROR_REPROBES_MAX * length cs
     \<and> (\<forall>a \<in> set (ts_attempts st). \<exists>c \<in> set cs. o_label a = Some (label_of c))
     \<and> (\<forall>k. k \<notin> (\<lambda>c. ak_id (c_key c)) ` set cs \<longrightarrow> ts_health st k = health k)
     \<and> (case e of EServed c _ \<Rightarrow> c \<in> set cs | EMidStream _ c \<Rightarrow> c \<in> set cs | _ \<Rightarrow> True)"

lemma plan_inv_body:
  assumes "plan_inv cs health limiter st" and "ts_queue st = (c, r) # q"
    and "body_frame c r (st\<lparr>ts_queue := q\<rparr>) res st'"
  shows "case res of None \<Rightarrow> plan_inv cs health limiter st' | Some e \<Rightarrow> plan_end cs health limiter e st'"
proof -
  from assms(1,2) have inv: "ts_limiter st = limiter" "c \<in> set cs" "fst ` set q \<subseteq> set cs"
    "length (ts_attempts st) + dials_left ((c, r) # q) \<le> Suc SERVER_ERROR_REPROBES_MAX * length cs"
    "\<forall>a \<in> set (ts_attempts st). \<exists>c \<in> set cs. o_label a = Some (label_of c)"
    "\<forall>k. k \<notin> (\<lambda>c. ak_id (c_key c)) ` set cs \<longrightarrow> ts_health st k = health k"
    by (auto simp: plan_inv_def)
  from assms(3) have f: "ts_limiter st' = ts_limiter st"
    "res = None \<Longrightarrow> queue_next c r q (ts_queue st')"
    "\<And>k. k \<noteq> ak_id (c_key c) \<Longrightarrow> ts_health st' k = ts_health st k" "names_candidate c res"
    by (simp_all add: body_frame_def)
  from assms(3) obtain outs where o: "ts_attempts st' = ts_attempts st @ outs" "length outs \<le> 1"
    "\<forall>a \<in> set outs. o_label a = Some (label_of c)"
    by (auto simp: body_frame_def adds_outcomes_def)
  have h: "ts_health st' k = health k" if "k \<notin> (\<lambda>c. ak_id (c_key c)) ` set cs" for k
  proof -
    have "k \<noteq> ak_id (c_key c)" using that inv(2) by blast
    then show ?thesis using f(3) inv(6) that by simp
  qed
  have a: "\<forall>a \<in> set (ts_attempts st'). \<exists>c \<in> set cs. o_label a = Some (label_of c)"
    using inv(2,5) o by auto
  show ?thesis
  proof (cases res)
    case None
    have "dials_left (ts_queue st') < dials_left ((c, r) # q)"
      by (rule queue_next_dials [OF f(2) [OF None]])
    then have "length (ts_attempts st') + dials_left (ts_queue st')
        \<le> Suc SERVER_ERROR_REPROBES_MAX * length cs"
      using inv(4) o(1,2) by simp
    moreover have "fst ` set (ts_queue st') \<subseteq> set cs"
      using queue_next_set [OF f(2) [OF None]] inv(2,3) by blast
    ultimately show ?thesis using None inv(1) f(1) a h by (simp add: plan_inv_def)
  next
    case (Some e)
    have "length (ts_attempts st') \<le> Suc SERVER_ERROR_REPROBES_MAX * length cs"
      using inv(4) o(1,2) by simp
    with Some inv(1,2) f(1,4) a h show ?thesis by (cases e) (simp_all add: plan_end_def)
  qed
qed

lemma text_loop_plan_end:
  assumes "text_loop parse env args started (start_state args health limiter w) = (e, st')"
    and "opt_lim_ok limiter"
  shows "plan_end (plan_head args) health limiter e st'"
proof (rule text_loop_rule [OF assms(1), where I = "plan_inv (plan_head args) health limiter"])
  show "plan_inv (plan_head args) health limiter (start_state args health limiter w)"
    by (auto simp: plan_inv_def start_queue dials_left_start image_image)
next
  fix st :: "'a text_state" and c r q st1
  assume a: "plan_inv (plan_head args) health limiter st" "ts_queue st = (c, r) # q"
    and b: "text_body parse env args started c r (st\<lparr>ts_queue := q\<rparr>) = (None, st1)"
  have "body_frame c r (st\<lparr>ts_queue := q\<rparr>) None st1"
    by (rule text_body_frame [OF b]) (use a(1) assms(2) in \<open>simp add: plan_inv_def\<close>)
  from plan_inv_body [OF a this] show "plan_inv (plan_head args) health limiter st1" by simp
next
  fix st :: "'a text_state" and c r q e st1
  assume a: "plan_inv (plan_head args) health limiter st" "ts_queue st = (c, r) # q"
    and b: "text_body parse env args started c r (st\<lparr>ts_queue := q\<rparr>) = (Some e, st1)"
  have "body_frame c r (st\<lparr>ts_queue := q\<rparr>) (Some e) st1"
    by (rule text_body_frame [OF b]) (use a(1) assms(2) in \<open>simp add: plan_inv_def\<close>)
  from plan_inv_body [OF a this] show "plan_end (plan_head args) health limiter e st1" by simp
next
  fix st :: "'a text_state"
  assume "plan_inv (plan_head args) health limiter st" "ts_queue st = []"
  then show "plan_end (plan_head args) health limiter ESpent st"
    by (simp add: plan_inv_def plan_end_def)
qed

text \<open>Who a loop ends in the name of does not depend on the limiter.\<close>

lemma text_body_names:
  assumes "text_body parse env args started c r st = (Some e, st')"
  shows "names_candidate c (Some e)"
proof -
  obtain b st1 where b: "read_cancelled env st = (b, st1)" by fastforce
  show ?thesis
  proof (cases "take_slot (pr_id (c_provider c)) (ts_limiter st1)")
    case None
    with assms b show ?thesis by (cases b) (auto simp: text_body_def)
  next
    case (Some l)
    obtain res st2 where h: "held_body parse env args started c r (st1\<lparr>ts_limiter := l\<rparr>) = (res, st2)"
      by fastforce
    with assms b Some have "b \<and> e = ECancelled \<or> res = Some e"
      by (cases b) (simp_all add: text_body_def)
    then show ?thesis using held_body_frame [OF h] by (auto simp: body_frame_def)
  qed
qed

lemma text_loop_served:
  assumes "text_loop parse env args started (start_state args health limiter w) = (e, st')"
  shows "case e of EServed c _ \<Rightarrow> c \<in> set (plan_head args)
    | EMidStream _ c \<Rightarrow> c \<in> set (plan_head args) | _ \<Rightarrow> True"
proof (rule text_loop_rule [OF assms, where I = "\<lambda>st. fst ` set (ts_queue st) \<subseteq> set (plan_head args)"])
  show "fst ` set (ts_queue (start_state args health limiter w)) \<subseteq> set (plan_head args)"
    by (auto simp: start_queue)
next
  fix st :: "'a text_state" and c r q st1
  assume a: "fst ` set (ts_queue st) \<subseteq> set (plan_head args)" "ts_queue st = (c, r) # q"
    and b: "text_body parse env args started c r (st\<lparr>ts_queue := q\<rparr>) = (None, st1)"
  from queue_next_set [OF text_body_queue [OF b]] a
  show "fst ` set (ts_queue st1) \<subseteq> set (plan_head args)" by auto
next
  fix st :: "'a text_state" and c r q e st1
  assume a: "fst ` set (ts_queue st) \<subseteq> set (plan_head args)" "ts_queue st = (c, r) # q"
    and b: "text_body parse env args started c r (st\<lparr>ts_queue := q\<rparr>) = (Some e, st1)"
  from text_body_names [OF b] a show "case e of EServed c _ \<Rightarrow> c \<in> set (plan_head args)
    | EMidStream _ c \<Rightarrow> c \<in> set (plan_head args) | _ \<Rightarrow> True"
    by (cases e) auto
qed simp_all

fun attempts_of :: "text_failure + text_success \<Rightarrow> outcome list" where
  "attempts_of (Inr s) = sx_attempts s"
| "attempts_of (Inl (FMidStream _ _ as _)) = as"
| "attempts_of (Inl (FCancelled as _)) = as"
| "attempts_of (Inl (FAllAttemptsFailed f _)) = af_chain f"

fun served_of :: "text_failure + text_success \<Rightarrow> candidate option" where
  "served_of (Inr s) = Some (sx_candidate s)"
| "served_of (Inl (FMidStream _ c _ _)) = Some c"
| "served_of (Inl _) = None"

lemma ended_result_of:
  assumes "ended_result e r as"
  shows "attempts_of r = as"
    and "served_of r = (case e of EServed c _ \<Rightarrow> Some c | EMidStream _ c \<Rightarrow> Some c | _ \<Rightarrow> None)"
  using assms by (cases e; auto)+

lemma ended_final_health:
  "ts_health (ended_final env e st) k = ts_health st k
   \<or> (\<exists>c obs. e = EServed c obs \<and> k = ak_id (c_key c))"
  by (cases e) (auto simp: text_record_def record_result_def split: prod.splits)

lemma execute_text_plan_end:
  assumes "execute_text parse env args health limiter w = (r, st')" and "opt_lim_ok limiter"
  shows "ts_limiter st' = limiter"
    and "length (attempts_of r) \<le> 4 * attempt_budget (length (xt_plan args)) (xt_max_attempts args)"
    and "\<forall>a \<in> set (attempts_of r). \<exists>c \<in> set (plan_head args). o_label a = Some (label_of c)"
    and "served_of r = Some c \<Longrightarrow> c \<in> set (plan_head args)"
    and "k \<notin> (\<lambda>c. ak_id (c_key c)) ` set (plan_head args) \<Longrightarrow> ts_health st' k = health k"
proof -
  from assms(1) obtain started w1 e st where
    l: "text_loop parse env args started (start_state args health limiter w1) = (e, st)"
    and r: "ended_result e r (ts_attempts st)" and st': "st' = ended_final env e st"
    by (rule execute_text_loop)
  note pe = text_loop_plan_end [OF l assms(2)]
  note ro = ended_result_of [OF r]
  show "ts_limiter st' = limiter" using pe by (simp add: plan_end_def st')
  show "length (attempts_of r) \<le> 4 * attempt_budget (length (xt_plan args)) (xt_max_attempts args)"
    using pe by (simp add: plan_end_def ro length_plan_head SERVER_ERROR_REPROBES_MAX_def)
  show "\<forall>a \<in> set (attempts_of r). \<exists>c \<in> set (plan_head args). o_label a = Some (label_of c)"
    using pe by (simp add: plan_end_def ro)
  show "served_of r = Some c \<Longrightarrow> c \<in> set (plan_head args)"
    using pe ro(2) by (cases e) (simp_all add: plan_end_def)
  assume k: "k \<notin> (\<lambda>c. ak_id (c_key c)) ` set (plan_head args)"
  then have "ts_health st k = health k" using pe by (simp add: plan_end_def)
  moreover have "ts_health st' k = ts_health st k"
    using ended_final_health [of env e st k] pe k by (auto simp: plan_end_def st')
  ultimately show "ts_health st' k = health k" by simp
qed

text \<open>(C2) A text request ends, and its chain is bounded: whatever the adapters, the clock and the
  cancel flag do, at most four outcomes per candidate of the attempt budget are recorded, each
  labelled with a candidate of the plan's head, and the candidate a result names as serving is one
  of them.\<close>

theorem text_chain_is_bounded:
  assumes "opt_lim_ok limiter"
  shows "\<exists>r st'. execute_text parse env args health limiter w = (r, st')
    \<and> length (attempts_of r) \<le> 4 * attempt_budget (length (xt_plan args)) (xt_max_attempts args)
    \<and> (\<forall>a \<in> set (attempts_of r). \<exists>c \<in> set (plan_head args). o_label a = Some (label_of c))
    \<and> (\<forall>c. served_of r = Some c \<longrightarrow> c \<in> set (plan_head args))"
proof -
  obtain r st' where e: "execute_text parse env args health limiter w = (r, st')" by fastforce
  show ?thesis
    using execute_text_plan_end(2-4) [OF e assms] e by blast
qed

theorem text_chain_is_bounded_witness:
  "length (attempts_of (fst (demo_run demo_plan))) \<le> 8"
proof -
  have "opt_lim_ok (Some (new_limiter 1))" by (simp add: opt_lim_ok_def)
  from text_chain_is_bounded [OF this, of "\<lambda>_. None" demo_text_env "demo_text_args demo_plan"
      Map.empty 0] show ?thesis
    by (auto simp: demo_run_def demo_text_args_def attempt_budget_def MAX_ATTEMPTS_DEFAULT_def
        demo_plan_def)
qed

text \<open>(C10) A text request leaves no trace but its own: on every path, served, broken, cancelled,
  spent or over budget, each slot it took from the limiter is back, and the health of a key that is
  not among the candidates it may try is what it was.\<close>

theorem text_request_gives_back_its_slots:
  assumes "execute_text parse env args health limiter w = (r, st')" and "opt_lim_ok limiter"
  shows "ts_limiter st' = limiter
    \<and> (\<forall>k. k \<notin> (\<lambda>c. ak_id (c_key c)) ` set (plan_head args) \<longrightarrow> ts_health st' k = health k)"
  using execute_text_plan_end(1,5) [OF assms] by blast

theorem text_request_gives_back_its_slots_witness:
  "ts_limiter (snd (demo_run demo_plan)) = Some (new_limiter 1)"
  using text_request_gives_back_its_slots [of "\<lambda>_. None" demo_text_env "demo_text_args demo_plan"
      Map.empty "Some (new_limiter 1)" 0 "fst (demo_run demo_plan)" "snd (demo_run demo_plan)"]
  by (simp add: demo_run_def opt_lim_ok_def)

subsection \<open>What is dialled next\<close>

lemma after_next_other_host:
  "o_cls out = Network \<Longrightarrow> has_other_provider (ts_queue st) c \<Longrightarrow>
     after_next env args started c r out st =
       st\<lparr>ts_queue := prefer_different_providers (ts_queue st) (pr_id (c_provider c))\<rparr>"
  by (simp add: after_next_def)

lemma hd_prefer_different:
  assumes "has_other_provider q c"
  shows "prefer_different_providers q (pr_id (c_provider c)) \<noteq> []
    \<and> pr_id (c_provider (fst (hd (prefer_different_providers q (pr_id (c_provider c))))))
        \<noteq> pr_id (c_provider c)"
proof -
  define P where "P = (\<lambda>x :: candidate \<times> nat. pr_id (c_provider (fst x)) \<noteq> pr_id (c_provider c))"
  from assms obtain y where y: "y \<in> set q" "P y" unfolding has_other_provider_def P_def by blast
  then have "y \<in> set (filter P q)" by simp
  then obtain x xs where f: "filter P q = x # xs" by (cases "filter P q") auto
  then have "x \<in> set (filter P q)" by simp
  then have "P x" by simp
  moreover have "prefer_different_providers q (pr_id (c_provider c)) = stable_partition P q"
    using y unfolding prefer_different_providers_def P_def by (subst if_not_P) blast+
  ultimately show ?thesis by (simp add: stable_partition_def f) (simp add: P_def)
qed

lemma after_next_queue_cases:
  "ts_queue (after_next env args started c r out st) \<in>
     (if o_cls out = ServerError \<and> ts_queue st = [] \<and> r < 3 then {[], [(c, Suc r)]}
      else if o_cls out = Network \<and> has_other_provider (ts_queue st) c
        then {prefer_different_providers (ts_queue st) (pr_id (c_provider c))}
      else if o_cls out = Network \<and> r < 2 then {ts_queue st, (c, Suc r) # ts_queue st}
      else {ts_queue st})"
proof -
  obtain b1 st1 where 1: "reprobe_admitted env started (reprobe_wait out) st = (b1, st1)" by fastforce
  obtain b2 st2 where 2: "reprobe_admitted env started NETWORK_RETRY_BACKOFF st = (b2, st2)" by fastforce
  note s = same_but_worldD(1) [OF reprobe_admitted_same [OF 1]]
    same_but_worldD(1) [OF reprobe_admitted_same [OF 2]]
  show ?thesis
    by (cases b1; cases b2)
      (simp_all add: after_next_def 1 2 s SERVER_ERROR_REPROBES_MAX_def NETWORK_REPROBES_MAX_def)
qed

text \<open>(C15) What is dialled after a failure that showed nothing. After a transport failure the next
  dial goes to another provider whenever the plan still holds one, and both groups keep their order;
  when none is left, the same key comes back at most twice. After a server error the plan goes on as
  it was, and only an exhausted plan dials the same key again, at most three times. After any other
  class the plan goes on as it was.\<close>

theorem next_dial_after_a_failure:
  assumes "after_failure parse env args started c r e delivered st = (None, st')"
  shows "(classify_attempt_error e = Network \<longrightarrow>
        (if has_other_provider (ts_queue st) c
         then ts_queue st' \<noteq> []
           \<and> pr_id (c_provider (fst (hd (ts_queue st')))) \<noteq> pr_id (c_provider c)
           \<and> ts_queue st' =
               filter (\<lambda>x. pr_id (c_provider (fst x)) \<noteq> pr_id (c_provider c)) (ts_queue st)
               @ filter (\<lambda>x. pr_id (c_provider (fst x)) = pr_id (c_provider c)) (ts_queue st)
         else ts_queue st' = ts_queue st \<or> (r < 2 \<and> ts_queue st' = (c, Suc r) # ts_queue st)))
    \<and> (classify_attempt_error e = ServerError \<longrightarrow>
        ts_queue st' = ts_queue st
        \<or> (ts_queue st = [] \<and> r < 3 \<and> ts_queue st' = [(c, Suc r)]))
    \<and> (classify_attempt_error e \<notin> {Network, ServerError} \<longrightarrow> ts_queue st' = ts_queue st)"
proof -
  obtain cancelled st1 where rc: "read_cancelled env st = (cancelled, st1)" by fastforce
  note q1 = same_but_worldD(1) [OF read_same(1) [OF rc]]
  have d: "\<not> delivered" "\<not> cancelled"
    using assms rc by (auto simp: after_failure_def attempt_disposition_def Let_def split: if_splits)
  define out where "out = labelled (attempt_outcome parse e Next) c"
  define st3 where "st3 = push_attempt out (text_record env c (o_cls out) (o_retry_after_ms out) st1)"
  have st': "st' = after_next env args started c r out st3"
    using assms rc d
    by (simp add: after_failure_def attempt_disposition_def Let_def records_key_health_def
        out_def st3_def)
  have q3: "ts_queue st3 = ts_queue st" by (simp add: st3_def q1)
  have cls: "o_cls out = classify_attempt_error e" by (simp add: out_def attempt_outcome_def)
  note cs = after_next_queue_cases [of env args started c r out st3, folded st', unfolded q3 cls]
  have n: "ts_queue st' = prefer_different_providers (ts_queue st) (pr_id (c_provider c))
      \<and> ts_queue st' =
      filter (\<lambda>x. pr_id (c_provider (fst x)) \<noteq> pr_id (c_provider c)) (ts_queue st)
      @ filter (\<lambda>x. pr_id (c_provider (fst x)) = pr_id (c_provider c)) (ts_queue st)"
    if "classify_attempt_error e = Network" "has_other_provider (ts_queue st) c"
  proof -
    have e: "ts_queue st' = prefer_different_providers (ts_queue st) (pr_id (c_provider c))"
      using cs by (simp add: that)
    from that(2) have "\<exists>x \<in> set (ts_queue st). pr_id (c_provider (fst x)) \<noteq> pr_id (c_provider c)"
      by (simp add: has_other_provider_def)
    with e show ?thesis by (simp add: prefer_different_providers_def stable_partition_def)
  qed
  have net: "if has_other_provider (ts_queue st) c
     then ts_queue st' \<noteq> []
       \<and> pr_id (c_provider (fst (hd (ts_queue st')))) \<noteq> pr_id (c_provider c)
       \<and> ts_queue st' =
           filter (\<lambda>x. pr_id (c_provider (fst x)) \<noteq> pr_id (c_provider c)) (ts_queue st)
           @ filter (\<lambda>x. pr_id (c_provider (fst x)) = pr_id (c_provider c)) (ts_queue st)
     else ts_queue st' = ts_queue st \<or> (r < 2 \<and> ts_queue st' = (c, Suc r) # ts_queue st)"
    if k: "classify_attempt_error e = Network"
  proof (cases "has_other_provider (ts_queue st) c")
    case True
    from n [OF k True] hd_prefer_different [OF True] show ?thesis
      by (metis (no_types, lifting) True)
  next
    case False
    with cs k show ?thesis by (auto split: if_splits)
  qed
  have srv: "ts_queue st' = ts_queue st \<or> (ts_queue st = [] \<and> r < 3 \<and> ts_queue st' = [(c, Suc r)])"
    if k: "classify_attempt_error e = ServerError"
    using cs by (auto simp: k split: if_splits)
  have other: "ts_queue st' = ts_queue st"
    if k: "classify_attempt_error e \<notin> {Network, ServerError}"
    using cs k by (simp split: if_splits)
  show ?thesis using net srv other by blast
qed

theorem next_dial_after_a_failure_witness:
  "ts_queue (snd (after_failure (\<lambda>_. None) demo_text_env (demo_text_args []) 0
       (mk_candidate ''a'' ''k1'') 0 (Transport None) False
       ((start_state (demo_text_args []) Map.empty None 0)\<lparr>ts_queue :=
          [(mk_candidate ''a'' ''k2'', 0), (mk_candidate ''b'' ''k3'', 0)]\<rparr>)))
   = [(mk_candidate ''b'' ''k3'', 0), (mk_candidate ''a'' ''k2'', 0)]"
proof -
  let ?st = "(start_state (demo_text_args []) Map.empty None (0 :: nat))\<lparr>ts_queue :=
      [(mk_candidate ''a'' ''k2'', 0), (mk_candidate ''b'' ''k3'', 0)]\<rparr>"
  let ?r = "after_failure (\<lambda>_. None) demo_text_env (demo_text_args []) 0
      (mk_candidate ''a'' ''k1'') 0 (Transport None) False ?st"
  have n: "fst ?r = None"
    by (simp add: after_failure_def read_cancelled_def demo_text_env_def attempt_disposition_def Let_def)
  then have "?r = (None, snd ?r)" by (metis prod.collapse)
  from next_dial_after_a_failure [OF this] show ?thesis
    by (simp add: has_other_provider_def mk_rows)
qed

subsection \<open>The budget of a plan\<close>

text \<open>
  An environment that keeps a record, the newest first, of what the loop saw and did in it: the
  instants it read, the requests it handed to an adapter and the waits it made. On the world itself
  it does what \<open>env\<close> does.
\<close>

datatype seen = SawInstant nat | Dialled | Slept nat

definition watched :: "('a, 'w) text_env \<Rightarrow> ('a, 'w \<times> seen list) text_env" where
  "watched env =
     \<lparr>te_cancelled = (\<lambda>(w, l). case te_cancelled env w of (b, w') \<Rightarrow> (b, w', l)),
      te_instant = (\<lambda>(w, l). case te_instant env w of (t, w') \<Rightarrow> (t, w', SawInstant t # l)),
      te_now = (\<lambda>(w, l). case te_now env w of (t, w') \<Rightarrow> (t, w', l)),
      te_sleep = (\<lambda>d (w, l). (te_sleep env d w, Slept d # l)),
      te_for_provider = (\<lambda>p (w, l). case te_for_provider env p w of (a, w') \<Rightarrow> (a, w', l)),
      te_generate = (\<lambda>a s ta (w, l). case te_generate env a s ta w of (d, w') \<Rightarrow> (d, w', Dialled # l))\<rparr>"

fun last_instant :: "seen list \<Rightarrow> nat option" where
  "last_instant [] = None"
| "last_instant (SawInstant t # l) = Some t"
| "last_instant (Dialled # l) = last_instant l"
| "last_instant (Slept d # l) = last_instant l"

text \<open>By the instant read last, a wait of \<open>d\<close> and one whole header timeout still end inside the
  budget of a plan that began at \<open>started\<close>.\<close>

definition fits :: "nat \<Rightarrow> seen list \<Rightarrow> nat \<Rightarrow> bool" where
  "fits started l d \<longleftrightarrow>
     (case last_instant l of
        Some t \<Rightarrow> t - started + d + UPSTREAM_HEADER_TIMEOUT \<le> PLAN_BUDGET
      | None \<Rightarrow> False)"

fun budgeted :: "nat \<Rightarrow> seen list \<Rightarrow> bool" where
  "budgeted started [] = True"
| "budgeted started (SawInstant t # l) = budgeted started l"
| "budgeted started (Dialled # l) = ((Dialled \<in> set l \<longrightarrow> fits started l 0) \<and> budgeted started l)"
| "budgeted started (Slept d # l) = (fits started l d \<and> budgeted started l)"

definition seen_by :: "('w \<times> seen list) text_state \<Rightarrow> seen list" where
  "seen_by st = snd (ts_world st)"


lemma seen_by_updates [simp]:
  "seen_by (st\<lparr>ts_queue := q\<rparr>) = seen_by st" "seen_by (st\<lparr>ts_limiter := lm\<rparr>) = seen_by st"
  "seen_by (st\<lparr>ts_attempted_any := b\<rparr>) = seen_by st" "seen_by (st\<lparr>ts_world := x\<rparr>) = snd x"
  "seen_by (st\<lparr>ts_world := x, ts_usage := u, ts_log := lg\<rparr>) = snd x"
  "seen_by (push_attempt out st) = seen_by st" "seen_by (text_release c st) = seen_by st"
  "seen_by (text_record (watched env) c cls ra st) = seen_by st"
  by (simp_all add: seen_by_def watched_def text_record_def split: prod.splits)














text \<open>A run that dials twice and waits between: the fits are checked.\<close>

lemma budget_by_example:
  "budgeted 0 [Dialled, SawInstant (from_secs 24), Slept (from_secs 2), SawInstant (from_secs 20), Dialled,
     SawInstant 0, SawInstant 0]"
  "\<not> budgeted 0 [Dialled, SawInstant (from_secs 25), Dialled, SawInstant 0]"
  "\<not> budgeted 0 [Slept (from_secs 5), SawInstant (from_secs 20), Dialled, SawInstant 0]"
  by (simp_all add: fits_def budget_consts from_secs_def)

end
