(* ===== verification/Image_Loop.thy ===== *)
theory Image_Loop
  imports Adapter Planner
begin

text \<open>
  The image loop (\<open>engine/image.rs\<close>): the plan walked to one image. The adapters, the clock and
  the cancel flag live outside; \<open>image_env\<close> is how the loop sees them, each read or call taking
  the world to its successor. The permit a body holds is given back at the end of the body, on
  every path, by \<open>Drop\<close>.
\<close>

record ('a, 'w) image_env =
  ie_cancelled :: "'w \<Rightarrow> bool \<times> 'w"
  ie_now :: "'w \<Rightarrow> int \<times> 'w"
  ie_for_provider :: "string \<Rightarrow> 'w \<Rightarrow> 'a option \<times> 'w"
  ie_generate :: "'a \<Rightarrow> string \<Rightarrow> image_args \<Rightarrow> 'w \<Rightarrow> image_reply option \<times> 'w"

record execute_image_args =
  xi_plan :: "candidate list"
  xi_prompt :: string
  xi_model :: string
  xi_size :: "string option"
  xi_max_attempts :: "nat option"

record image_success =
  is_candidate :: candidate
  is_base64 :: "string option"
  is_url :: "string option"
  is_attempts :: "outcome list"

text \<open>What the loop carries from body to body.\<close>

record 'w image_state =
  im_health :: tracker
  im_limiter :: "limiter option"
  im_world :: 'w
  im_attempts :: "outcome list"

definition image_hint :: "nat \<Rightarrow> string option \<Rightarrow> body_hint option" where
  "image_hint status body =
     or_else (map_option (\<lambda>_. HintClientGate) (detect_client_gate status body))
             (map_option (\<lambda>_. HintNotFound) (detect_not_found status body))"

definition image_refusal :: "(string \<Rightarrow> json option) \<Rightarrow> image_reply \<Rightarrow> outcome" where
  "image_refusal parse reply =
     \<lparr>o_cls = classify (ir_status reply) (image_hint (ir_status reply) (ir_error_body reply)),
      o_status = ir_status reply, o_retry_after_ms = None,
      o_reason = reason_from_body parse (ir_error_body reply), o_label = None\<rparr>"

definition image_args_for :: "execute_image_args \<Rightarrow> candidate \<Rightarrow> image_args" where
  "image_args_for args c =
     \<lparr>ia_model = mr_native_id (c_model c), ia_prompt = xi_prompt args, ia_size = xi_size args\<rparr>"

text \<open>The call of one candidate: \<open>Inl\<close> the outcome of a failure, \<open>Inr\<close> the reply that served.\<close>

definition image_call ::
  "(string \<Rightarrow> json option) \<Rightarrow> ('a, 'w) image_env \<Rightarrow> execute_image_args \<Rightarrow> candidate \<Rightarrow> 'w
     \<Rightarrow> (outcome + image_reply) \<times> 'w" where
  "image_call parse env args c w =
     (case ie_for_provider env (pr_id (c_provider c)) w of
        (None, w1) \<Rightarrow> (Inl (labelled transport_outcome c), w1)
      | (Some adapter, w1) \<Rightarrow>
          (case ie_generate env adapter (ak_secret_ref (c_key c)) (image_args_for args c) w1 of
             (None, w2) \<Rightarrow> (Inl (labelled transport_outcome c), w2)
           | (Some reply, w2) \<Rightarrow>
               if ir_ok reply then (Inr reply, w2)
               else (Inl (labelled (image_refusal parse reply) c), w2)))"

text \<open>The record of a result reads the clock.\<close>

definition image_record ::
  "('a, 'w) image_env \<Rightarrow> candidate \<Rightarrow> error_class \<Rightarrow> nat option \<Rightarrow> 'w image_state \<Rightarrow> 'w image_state" where
  "image_record env c cls retry st =
     (case ie_now env (im_world st) of
        (now, w) \<Rightarrow> st\<lparr>im_health := record_result (im_health st) (ak_id (c_key c)) cls retry now,
                       im_world := w\<rparr>)"

definition image_push :: "outcome \<Rightarrow> 'w image_state \<Rightarrow> 'w image_state" where
  "image_push out st = st\<lparr>im_attempts := im_attempts st @ [out]\<rparr>"

definition image_release :: "candidate \<Rightarrow> 'w image_state \<Rightarrow> 'w image_state" where
  "image_release c st = st\<lparr>im_limiter := give_slot (pr_id (c_provider c)) (im_limiter st)\<rparr>"

text \<open>The body after the slot was taken.\<close>

definition image_attempt ::
  "(string \<Rightarrow> json option) \<Rightarrow> ('a, 'w) image_env \<Rightarrow> execute_image_args \<Rightarrow> candidate
     \<Rightarrow> 'w image_state \<Rightarrow> image_success option \<times> 'w image_state" where
  "image_attempt parse env args c st =
     (case image_call parse env args c (im_world st) of
        (Inr reply, w) \<Rightarrow>
          (Some \<lparr>is_candidate = c, is_base64 = ir_base64 reply, is_url = ir_url reply,
                 is_attempts = im_attempts st\<rparr>,
           image_release c (image_record env c Ok None (st\<lparr>im_world := w\<rparr>)))
      | (Inl out, w) \<Rightarrow>
          (None,
           image_release c (image_push out
             (image_record env c (o_cls out) (o_retry_after_ms out) (st\<lparr>im_world := w\<rparr>)))))"

fun image_loop ::
  "(string \<Rightarrow> json option) \<Rightarrow> ('a, 'w) image_env \<Rightarrow> execute_image_args \<Rightarrow> candidate list
     \<Rightarrow> 'w image_state \<Rightarrow> image_success option \<times> 'w image_state" where
  "image_loop parse env args [] st = (None, st)"
| "image_loop parse env args (c # plan) st =
     (case ie_cancelled env (im_world st) of
        (cancelled, w) \<Rightarrow>
          let st1 = st\<lparr>im_world := w\<rparr> in
          if cancelled then (None, st1)
          else case take_slot (pr_id (c_provider c)) (im_limiter st1) of
            None \<Rightarrow> image_loop parse env args plan (image_push (labelled saturated_outcome c) st1)
          | Some l \<Rightarrow>
              (case image_attempt parse env args c (st1\<lparr>im_limiter := l\<rparr>) of
                 (Some success, st2) \<Rightarrow> (Some success, st2)
               | (None, st2) \<Rightarrow> image_loop parse env args plan st2))"

definition execute_image ::
  "(string \<Rightarrow> json option) \<Rightarrow> ('a, 'w) image_env \<Rightarrow> execute_image_args
     \<Rightarrow> tracker \<Rightarrow> limiter option \<Rightarrow> 'w
     \<Rightarrow> (all_attempts_failed + image_success) \<times> 'w image_state" where
  "execute_image parse env args health limiter w =
     (let budget = attempt_budget (length (xi_plan args)) (xi_max_attempts args);
          st = \<lparr>im_health = health, im_limiter = limiter, im_world = w, im_attempts = []\<rparr>
      in case image_loop parse env args (take budget (xi_plan args)) st of
           (Some success, st') \<Rightarrow> (Inr success, st')
         | (None, st') \<Rightarrow>
             (Inl \<lparr>af_model = xi_model args, af_chain = im_attempts st'\<rparr>, st'))"

subsection \<open>One body\<close>

lemma image_record_simps [simp]:
  "im_attempts (image_record env c cls r st) = im_attempts st"
  "im_limiter (image_record env c cls r st) = im_limiter st"
  by (simp_all add: image_record_def split: prod.split)

lemma image_push_release_simps [simp]:
  "im_attempts (image_push out st) = im_attempts st @ [out]"
  "im_limiter (image_push out st) = im_limiter st"
  "im_health (image_push out st) = im_health st"
  "im_world (image_push out st) = im_world st"
  "im_attempts (image_release c st) = im_attempts st"
  "im_health (image_release c st) = im_health st"
  "im_world (image_release c st) = im_world st"
  "im_limiter (image_release c st) = give_slot (pr_id (c_provider c)) (im_limiter st)"
  by (simp_all add: image_push_def image_release_def)

lemma image_call_outcome:
  assumes "image_call parse env args c w = (Inl out, w')"
  shows "o_label out = Some (label_of c)" and "o_retry_after_ms out = None"
  using assms
  by (auto simp: image_call_def image_refusal_def transport_outcome_def
      split: prod.splits option.splits if_splits)

text \<open>What one body adds: at most one outcome, labelled with its candidate and naming no wait; the
  slot goes back; and no other key's health moves.\<close>

lemma image_attempt_spec:
  assumes "image_attempt parse env args c st = (res, st')"
  shows "im_limiter st' = give_slot (pr_id (c_provider c)) (im_limiter st)"
    and "\<exists>cls now. im_health st' = record_result (im_health st) (ak_id (c_key c)) cls None now
           \<and> (res \<noteq> None \<longrightarrow> cls = Ok)"
    and "res = None \<Longrightarrow> \<exists>out. im_attempts st' = im_attempts st @ [out]
           \<and> o_label out = Some (label_of c) \<and> o_retry_after_ms out = None"
    and "res = Some s \<Longrightarrow> is_candidate s = c \<and> is_attempts s = im_attempts st
           \<and> im_attempts st' = im_attempts st"
proof -
  obtain r w where call: "image_call parse env args c (im_world st) = (r, w)" by fastforce
  show "im_limiter st' = give_slot (pr_id (c_provider c)) (im_limiter st)"
    using assms call by (cases r) (auto simp: image_attempt_def)
  show "\<exists>cls now. im_health st' = record_result (im_health st) (ak_id (c_key c)) cls None now
      \<and> (res \<noteq> None \<longrightarrow> cls = Ok)"
  proof (cases r)
    case (Inl out)
    obtain now w2 where "ie_now env w = (now, w2)" by fastforce
    with Inl assms call image_call_outcome(2) [of parse env args c "im_world st"]
    have "im_health st' = record_result (im_health st) (ak_id (c_key c)) (o_cls out) None now"
      and "res = None"
      by (auto simp: image_attempt_def image_record_def)
    then show ?thesis by blast
  next
    case (Inr reply)
    obtain now w2 where "ie_now env w = (now, w2)" by fastforce
    with Inr assms call
    have "im_health st' = record_result (im_health st) (ak_id (c_key c)) Ok None now"
      by (auto simp: image_attempt_def image_record_def)
    then show ?thesis by blast
  qed
  show "res = None \<Longrightarrow> \<exists>out. im_attempts st' = im_attempts st @ [out]
      \<and> o_label out = Some (label_of c) \<and> o_retry_after_ms out = None"
    using assms call image_call_outcome [of parse env args c "im_world st"]
    by (cases r) (auto simp: image_attempt_def)
  show "res = Some s \<Longrightarrow> is_candidate s = c \<and> is_attempts s = im_attempts st
      \<and> im_attempts st' = im_attempts st"
    using assms call by (cases r) (auto simp: image_attempt_def)
qed

subsection \<open>The loop\<close>

lemma saturated_outcome_no_wait [simp]: "o_retry_after_ms saturated_outcome = None"
  by (simp add: saturated_outcome_def)

text \<open>What a loop adds to the chain: one outcome per candidate it passed, in the plan's order.\<close>

definition image_chain :: "candidate list \<Rightarrow> outcome list \<Rightarrow> bool" where
  "image_chain plan outs \<longleftrightarrow>
     length outs \<le> length plan
     \<and> map o_label outs = map (\<lambda>c. Some (label_of c)) (take (length outs) plan)
     \<and> (\<forall>a \<in> set outs. o_retry_after_ms a = None)"

lemma image_chain_simps:
  "image_chain plan []"
  "image_chain plan outs \<Longrightarrow> o_label a = Some (label_of c) \<Longrightarrow> o_retry_after_ms a = None \<Longrightarrow>
     image_chain (c # plan) (a # outs)"
  by (simp_all add: image_chain_def)

definition image_adds ::
  "candidate list \<Rightarrow> image_success option \<Rightarrow> outcome list \<Rightarrow> outcome list \<Rightarrow> outcome list \<Rightarrow> bool" where
  "image_adds plan res before after outs \<longleftrightarrow>
     after = before @ outs \<and> image_chain plan outs
     \<and> (\<forall>s. res = Some s \<longrightarrow> length outs < length plan \<and> is_candidate s = plan ! length outs
            \<and> is_attempts s = after)"

lemma image_adds_nil: "image_adds plan None as as []"
  by (simp add: image_adds_def image_chain_simps)

lemma image_adds_served:
  "is_candidate s = c \<Longrightarrow> is_attempts s = as \<Longrightarrow> image_adds (c # plan) (Some s) as as []"
  by (simp add: image_adds_def image_chain_simps)

lemma image_adds_cons:
  assumes "image_adds plan res (before @ [a]) after outs"
    and "o_label a = Some (label_of c)" and "o_retry_after_ms a = None"
  shows "image_adds (c # plan) res before after (a # outs)"
proof -
  from assms(1) have e: "after = (before @ [a]) @ outs" and c: "image_chain plan outs"
    and s: "\<forall>s. res = Some s \<longrightarrow> length outs < length plan \<and> is_candidate s = plan ! length outs
       \<and> is_attempts s = after"
    unfolding image_adds_def by blast+
  have e': "after = before @ a # outs" by (subst e) (simp only: append_assoc append.simps)
  have s': "\<forall>s. res = Some s \<longrightarrow> length (a # outs) < length (c # plan)
      \<and> is_candidate s = (c # plan) ! length (a # outs) \<and> is_attempts s = after"
    using s by (simp only: list.size nth_Cons_Suc add_0_right add_Suc_right Suc_less_eq) 
  from e' s' image_chain_simps(2) [OF c assms(2,3)] show ?thesis unfolding image_adds_def by blast
qed

text \<open>What a loop keeps: the limiter, and the health of every key that is not in its plan.\<close>

definition image_keeps :: "candidate list \<Rightarrow> 'w image_state \<Rightarrow> 'w image_state \<Rightarrow> bool" where
  "image_keeps plan st st' \<longleftrightarrow>
     im_limiter st' = im_limiter st
     \<and> (\<forall>k. k \<notin> (\<lambda>c. ak_id (c_key c)) ` set plan \<longrightarrow> im_health st' k = im_health st k)"

lemma image_attempt_keeps:
  assumes "image_attempt parse env args c (st\<lparr>im_limiter := l\<rparr>) = (r, st')"
    and "take_slot (pr_id (c_provider c)) (im_limiter st) = Some l" and "opt_lim_ok (im_limiter st)"
  shows "image_keeps (c # plan) st st'"
proof -
  have "im_limiter st' = im_limiter st"
    using image_attempt_spec(1) [OF assms(1)] engine_slots.rel_acq [OF assms(3,2)] by simp
  moreover obtain cls now where
    "im_health st' = record_result (im_health st) (ak_id (c_key c)) cls None now"
    using image_attempt_spec(2) [OF assms(1)] by auto
  ultimately show ?thesis by (simp add: image_keeps_def record_result_def)
qed

lemma image_keeps_trans:
  "image_keeps (c # plan) st st1 \<Longrightarrow> image_keeps plan st1 st2 \<Longrightarrow> image_keeps (c # plan) st st2"
  by (simp add: image_keeps_def)

lemma image_loop_spec:
  assumes "image_loop parse env args plan st = (res, st')" and "opt_lim_ok (im_limiter st)"
  shows "image_keeps plan st st' \<and> (\<exists>outs. image_adds plan res (im_attempts st) (im_attempts st') outs)"
  using assms
proof (induction plan arbitrary: st)
  case Nil
  then show ?case using image_adds_nil by (auto simp: image_keeps_def)
next
  case (Cons c plan)
  obtain cancelled w where w: "ie_cancelled env (im_world st) = (cancelled, w)" by fastforce
  define st1 where "st1 = st\<lparr>im_world := w\<rparr>"
  have st1: "im_limiter st1 = im_limiter st" "im_attempts st1 = im_attempts st"
    "im_health st1 = im_health st" "image_keeps (c # plan) st st1" by (simp_all add: st1_def image_keeps_def)
  consider (stop) cancelled | (skip) "\<not> cancelled" "take_slot (pr_id (c_provider c)) (im_limiter st1) = None"
    | (go) l where "\<not> cancelled" "take_slot (pr_id (c_provider c)) (im_limiter st1) = Some l"
    by (cases "take_slot (pr_id (c_provider c)) (im_limiter st1)") auto
  then show ?case
  proof cases
    case stop
    with Cons.prems w have "res = None" "st' = st1" by (simp_all add: st1_def)
    with st1 image_adds_nil show ?thesis by metis
  next
    case skip
    let ?st = "image_push (labelled saturated_outcome c) st1"
    from Cons.prems w skip have l: "image_loop parse env args plan ?st = (res, st')"
      by (simp add: st1_def)
    have k: "image_keeps (c # plan) st ?st" using st1(4) by (simp add: image_keeps_def)
    from Cons.IH [OF l] Cons.prems(2) st1 obtain outs where
      "image_keeps plan ?st st'"
      and o: "image_adds plan res (im_attempts st @ [labelled saturated_outcome c]) (im_attempts st') outs"
      by auto
    with image_keeps_trans [OF k] image_adds_cons [OF o, of c] show ?thesis by auto
  next
    case go
    obtain r2 st2 where a: "image_attempt parse env args c (st1\<lparr>im_limiter := l\<rparr>) = (r2, st2)"
      by fastforce
    note spec = image_attempt_spec [OF a]
    have k: "image_keeps (c # plan) st st2"
      using image_attempt_keeps [OF a go(2), where plan = plan] Cons.prems(2) st1 by (simp add: image_keeps_def)
    then have lim: "opt_lim_ok (im_limiter st2)" using Cons.prems(2) by (simp add: image_keeps_def)
    show ?thesis
    proof (cases r2)
      case (Some s)
      with Cons.prems(1) w go a have "res = Some s" "st' = st2" by (simp_all add: st1_def)
      moreover have "image_adds (c # plan) (Some s) (im_attempts st) (im_attempts st2) []"
        using spec(4) [OF Some] st1 by (simp add: image_adds_served)
      ultimately show ?thesis using k by auto
    next
      case None
      from spec(3) [OF None] st1 obtain out where out: "im_attempts st2 = im_attempts st @ [out]"
        "o_label out = Some (label_of c)" "o_retry_after_ms out = None" by auto
      from Cons.prems(1) w go a None have l: "image_loop parse env args plan st2 = (res, st')"
        by (simp add: st1_def)
      from Cons.IH [OF l lim] obtain outs where "image_keeps plan st2 st'"
        and o: "image_adds plan res (im_attempts st @ [out]) (im_attempts st') outs"
        by (auto simp: out(1))
      with image_keeps_trans [OF k] image_adds_cons [OF o out(2,3)] show ?thesis by auto
    qed
  qed
qed

text \<open>The whole request, in these terms.\<close>

lemma execute_image_spec:
  assumes "execute_image parse env args health limiter w = (r, st')" and "opt_lim_ok limiter"
  shows "\<exists>outs res. image_chain (xi_plan args) outs
     \<and> length outs \<le> attempt_budget (length (xi_plan args)) (xi_max_attempts args)
     \<and> im_limiter st' = limiter
     \<and> (\<forall>k. k \<notin> (\<lambda>c. ak_id (c_key c)) ` set (xi_plan args) \<longrightarrow> im_health st' k = health k)
     \<and> (case res of
          None \<Rightarrow> r = Inl \<lparr>af_model = xi_model args, af_chain = outs\<rparr>
        | Some s \<Rightarrow> r = Inr s \<and> is_attempts s = outs \<and> is_candidate s = xi_plan args ! length outs
            \<and> length outs < attempt_budget (length (xi_plan args)) (xi_max_attempts args))"
proof -
  let ?b = "attempt_budget (length (xi_plan args)) (xi_max_attempts args)"
  let ?st = "\<lparr>im_health = health, im_limiter = limiter, im_world = w, im_attempts = []\<rparr>"
  obtain res st2 where l: "image_loop parse env args (take ?b (xi_plan args)) ?st = (res, st2)"
    by fastforce
  have len: "length (take ?b (xi_plan args)) = ?b"
    using attempt_budget_le [of "length (xi_plan args)" "xi_max_attempts args"] by simp
  from image_loop_spec [OF l] assms(2) obtain outs where
    k: "image_keeps (take ?b (xi_plan args)) ?st st2"
    and o: "image_adds (take ?b (xi_plan args)) res [] (im_attempts st2) outs" by auto
  have st': "st' = st2" using assms(1) l by (auto simp: execute_image_def split: option.splits)
  have c: "image_chain (take ?b (xi_plan args)) outs" using o by (simp add: image_adds_def)
  then have lo: "length outs \<le> ?b" unfolding image_chain_def len by simp
  with c have c': "image_chain (xi_plan args) outs"
    using attempt_budget_le [of "length (xi_plan args)" "xi_max_attempts args"]
    by (simp add: image_chain_def min_def)
  have f: "im_health st' x = health x" if "x \<notin> (\<lambda>c. ak_id (c_key c)) ` set (xi_plan args)" for x
  proof -
    have "x \<notin> (\<lambda>c. ak_id (c_key c)) ` set (take ?b (xi_plan args))"
      using that set_take_subset [of ?b "xi_plan args"] by (meson image_mono subsetD)
    with k show ?thesis unfolding image_keeps_def st' by simp
  qed
  have lim: "im_limiter st' = limiter" using k by (simp add: image_keeps_def st')
  show ?thesis
  proof (cases res)
    case None
    then have "r = Inl \<lparr>af_model = xi_model args, af_chain = outs\<rparr>"
      using assms(1) l o by (auto simp: execute_image_def image_adds_def)
    then show ?thesis using c' lo f lim by (intro exI [of _ outs] exI [of _ None]) simp
  next
    case (Some s)
    then have "r = Inr s" using assms(1) l by (simp add: execute_image_def)
    moreover have "length outs < ?b" "is_candidate s = xi_plan args ! length outs" "is_attempts s = outs"
      using o Some len by (simp_all add: image_adds_def)
    ultimately show ?thesis using c' lo f lim by (intro exI [of _ outs] exI [of _ "Some s"]) simp
  qed
qed

subsection \<open>Properties\<close>

lemma min_retry_unnamed: "\<forall>a \<in> set as. o_retry_after_ms a = None \<Longrightarrow> min_retry_after_ms as = 0"
  by (simp add: min_retry_after_ms_eq named_waits_def map_filter_Nil named_wait_def)

text \<open>An image request walks its plan in order, once: the attempts that failed are those on
  the first candidates of the plan, one outcome each, labelled with them; the candidate that served
  is the next one; no more than the attempt budget are tried; and every slot taken is given back,
  whether the request is served, fails or is cancelled.\<close>

theorem image_request_walks_its_plan:
  assumes "execute_image parse env args health limiter w = (r, st')" and "opt_lim_ok limiter"
  shows "im_limiter st' = limiter
    \<and> (case r of
         Inr s \<Rightarrow>
           length (is_attempts s) < attempt_budget (length (xi_plan args)) (xi_max_attempts args)
           \<and> is_candidate s = xi_plan args ! length (is_attempts s)
           \<and> map o_label (is_attempts s) =
               map (\<lambda>c. Some (label_of c)) (take (length (is_attempts s)) (xi_plan args))
       | Inl f \<Rightarrow>
           length (af_chain f) \<le> attempt_budget (length (xi_plan args)) (xi_max_attempts args)
           \<and> map o_label (af_chain f) =
               map (\<lambda>c. Some (label_of c)) (take (length (af_chain f)) (xi_plan args)))"
  using execute_image_spec [OF assms] by (auto simp: image_chain_def split: option.splits)

text \<open>A run of two candidates: the first provider refuses with 429, the second answers. The world
  is the number of calls made.\<close>

definition demo_image_env :: "(string, nat) image_env" where
  "demo_image_env =
     \<lparr>ie_cancelled = (\<lambda>w. (False, w)), ie_now = (\<lambda>w. (1000, w)),
      ie_for_provider = (\<lambda>p w. (Some p, w)),
      ie_generate = (\<lambda>a _ _ w.
        (Some \<lparr>ir_ok = (a = ''b''), ir_status = (if a = ''b'' then 200 else 429),
               ir_base64 = None, ir_url = Some ''u'', ir_error_body = None\<rparr>, w + 1))\<rparr>"

definition demo_image_args :: execute_image_args where
  "demo_image_args =
     \<lparr>xi_plan = [mk_candidate ''a'' ''k1'', mk_candidate ''b'' ''k2''], xi_prompt = ''p'',
      xi_model = ''m'', xi_size = None, xi_max_attempts = None\<rparr>"

definition demo_image_run :: "(all_attempts_failed + image_success) \<times> nat image_state" where
  "demo_image_run =
     execute_image (\<lambda>_. None) demo_image_env demo_image_args Map.empty (Some (new_limiter 1)) 0"

theorem image_request_walks_its_plan_witness:
  "im_limiter (snd demo_image_run) = Some (new_limiter 1)"
  using image_request_walks_its_plan
    [of "\<lambda>_. None" demo_image_env demo_image_args Map.empty "Some (new_limiter 1)" 0
        "fst demo_image_run" "snd demo_image_run"]
  by (simp add: demo_image_run_def opt_lim_ok_def)

text \<open>A failed image request never names a wait, whatever its providers answered: the reply
  of an image adapter has no room for one, so the client is told none and a rate-limited key cools
  by the floor only. And the request touches the health of no key outside its plan.\<close>

theorem image_failure_names_no_wait:
  assumes "execute_image parse env args health limiter w = (Inl f, st')" and "opt_lim_ok limiter"
  shows "af_min_retry_after_ms f = 0
    \<and> (\<forall>a \<in> set (af_chain f). o_retry_after_ms a = None)
    \<and> (\<forall>k. k \<notin> (\<lambda>c. ak_id (c_key c)) ` set (xi_plan args) \<longrightarrow> im_health st' k = health k)"
  using execute_image_spec [OF assms]
  by (auto simp: image_chain_def af_min_retry_after_ms_def min_retry_unnamed split: option.splits)

theorem image_failure_names_no_wait_witness:
  "\<exists>f st'. execute_image (\<lambda>_. None) demo_image_env
       (demo_image_args\<lparr>xi_max_attempts := Some 1\<rparr>) Map.empty None 0 = (Inl f, st')
     \<and> length (af_chain f) = 1 \<and> af_min_retry_after_ms f = 0"
proof -
  let ?args = "demo_image_args\<lparr>xi_max_attempts := Some 1\<rparr>"
  obtain f st' where e:
    "execute_image (\<lambda>_. None) demo_image_env ?args Map.empty None 0 = (Inl f, st')"
    and l: "length (af_chain f) = 1"
    by (simp add: execute_image_def demo_image_env_def demo_image_args_def attempt_budget_def
        take_slot_def image_attempt_def image_call_def mk_rows)
  show ?thesis
    using e l image_failure_names_no_wait [OF e] by (auto simp: opt_lim_ok_def)
qed

end
