(* ===== verification/Ledger.thy ===== *)
theory Ledger
  imports Prelude
begin

text \<open>
  The usage ledger (\<open>ledger.rs\<close>): a window of rows in memory and an optional sink. The sink writes
  a database, which is the state \<open>'s\<close>: a sink takes a row and the state to an error or none and
  the state after. \<open>VecDeque\<close> front to back is the list from its head.
\<close>

definition DEFAULT_MAX_MEM_ENTRIES :: nat where
  "DEFAULT_MAX_MEM_ENTRIES = 50000"

record ledger_row =
  lr_ts :: int
  lr_modality :: string
  lr_source :: string
  lr_provider_id :: "string option"
  lr_key_id :: "string option"
  lr_app_key_id :: "string option"
  lr_requested_model :: "string option"
  lr_model :: string
  lr_status :: string
  lr_http_status :: "int option"
  lr_error_class :: "string option"
  lr_latency_ms :: "int option"
  lr_tokens_in :: int
  lr_tokens_out :: int
  lr_cost_estimate_micros :: int
  lr_cached_tokens :: "int option"
  lr_fallback_chain_json :: "string option"
  lr_failure_detail :: "string option"

type_synonym 's sink = "ledger_row \<Rightarrow> 's \<Rightarrow> string option \<times> 's"

record 's usage_ledger =
  ul_mem :: "ledger_row list"
  ul_evicted :: nat
  ul_max_entries :: nat
  ul_store :: 's

definition with_capacity :: "nat \<Rightarrow> 's \<Rightarrow> 's usage_ledger" where
  "with_capacity n s = \<lparr>ul_mem = [], ul_evicted = 0, ul_max_entries = n, ul_store = s\<rparr>"

definition new_ledger :: "'s \<Rightarrow> 's usage_ledger" where
  "new_ledger s = with_capacity DEFAULT_MAX_MEM_ENTRIES s"

text \<open>The end of \<open>append\<close>: drop what is over the bound from the front.\<close>

definition trim :: "'s usage_ledger \<Rightarrow> 's usage_ledger" where
  "trim l =
     (let over = length (ul_mem l) - max (ul_max_entries l) 1 in
      if 0 < over then l\<lparr>ul_mem := drop over (ul_mem l), ul_evicted := ul_evicted l + over\<rparr> else l)"

definition ledger_append ::
  "'s sink option \<Rightarrow> ledger_row \<Rightarrow> 's usage_ledger \<Rightarrow> string option \<times> 's usage_ledger" where
  "ledger_append sink row l =
     (let l1 = l\<lparr>ul_mem := ul_mem l @ [row]\<rparr> in
      case sink of
        None \<Rightarrow> (None, trim l1)
      | Some f \<Rightarrow>
          (case f row (ul_store l1) of
             (Some e, s) \<Rightarrow> (Some e, l1\<lparr>ul_store := s\<rparr>)
           | (None, s) \<Rightarrow> (None, trim (l1\<lparr>ul_store := s\<rparr>))))"

text \<open>Failures and all outcomes of a provider since \<open>since_ts\<close>.\<close>

definition health_rows :: "string \<Rightarrow> int \<Rightarrow> 's usage_ledger \<Rightarrow> ledger_row list" where
  "health_rows provider_id since_ts l =
     filter (\<lambda>row. \<not> (lr_ts row < since_ts \<or> lr_provider_id row \<noteq> Some provider_id)) (ul_mem l)"

definition recent_health :: "'s usage_ledger \<Rightarrow> string \<Rightarrow> int \<Rightarrow> int \<times> int" where
  "recent_health l provider_id since_ts =
     fold (\<lambda>row (failures, total_rows).
        if lr_ts row < since_ts \<or> lr_provider_id row \<noteq> Some provider_id then (failures, total_rows)
        else (if lr_status row \<noteq> ''ok'' then failures + 1 else failures, total_rows + 1))
       (ul_mem l) (0, 0)"

definition evicted_count :: "'s usage_ledger \<Rightarrow> nat" where
  "evicted_count l = ul_evicted l"

definition oldest_ts :: "'s usage_ledger \<Rightarrow> int option" where
  "oldest_ts l = (if ul_mem l = [] then None else Some (Min (lr_ts ` set (ul_mem l))))"

record ledger_filter =
  lf_since :: "int option"
  lf_source :: "string option"
  lf_provider_id :: "string option"

definition is_none_or :: "'a option \<Rightarrow> ('a \<Rightarrow> bool) \<Rightarrow> bool" where
  "is_none_or x P = (case x of None \<Rightarrow> True | Some y \<Rightarrow> P y)"

definition matches :: "ledger_filter \<Rightarrow> ledger_row \<Rightarrow> bool" where
  "matches f e \<longleftrightarrow>
     is_none_or (lf_since f) (\<lambda>s. s \<le> lr_ts e)
     \<and> is_none_or (lf_source f) (\<lambda>s. lr_source e = s)
     \<and> is_none_or (lf_provider_id f) (\<lambda>p. lr_provider_id e = Some p)"

definition ledger_query :: "'s usage_ledger \<Rightarrow> ledger_filter \<Rightarrow> ledger_row list" where
  "ledger_query l f = sort_key (\<lambda>e. - lr_ts e) (filter (matches f) (ul_mem l))"

subsection \<open>Facts\<close>

lemma recent_health_eq:
  "recent_health l p since =
     (int (length (filter (\<lambda>r. lr_status r \<noteq> ''ok'') (health_rows p since l))),
      int (length (health_rows p since l)))"
proof -
  have "fold (\<lambda>row (failures, total_rows).
        if lr_ts row < since \<or> lr_provider_id row \<noteq> Some p then (failures, total_rows)
        else (if lr_status row \<noteq> ''ok'' then failures + 1 else failures, total_rows + 1)) rows (f, t) =
      (f + int (length (filter (\<lambda>r. lr_status r \<noteq> ''ok'')
           (filter (\<lambda>row. \<not> (lr_ts row < since \<or> lr_provider_id row \<noteq> Some p)) rows))),
       t + int (length (filter (\<lambda>row. \<not> (lr_ts row < since \<or> lr_provider_id row \<noteq> Some p)) rows)))"
    for rows and f t :: int
    by (induction rows arbitrary: f t) auto
  from this [of "ul_mem l" 0 0] show ?thesis
    by (simp only: recent_health_def health_rows_def) simp
qed

text \<open>Rows appended one after the other.\<close>

definition append_all :: "'s sink option \<Rightarrow> ledger_row list \<Rightarrow> 's usage_ledger \<Rightarrow> 's usage_ledger" where
  "append_all sink rows l = fold (\<lambda>row l. snd (ledger_append sink row l)) rows l"

lemma append_all_simps [simp]:
  "append_all sink [] l = l"
  "append_all sink (rows @ [row]) l = snd (ledger_append sink row (append_all sink rows l))"
  by (simp_all add: append_all_def)

lemma trim_simps [simp]:
  "ul_mem (trim l) = drop (length (ul_mem l) - max (ul_max_entries l) 1) (ul_mem l)"
  "ul_evicted (trim l) = ul_evicted l + (length (ul_mem l) - max (ul_max_entries l) 1)"
  "ul_max_entries (trim l) = ul_max_entries l" "ul_store (trim l) = ul_store l"
  by (auto simp: trim_def Let_def not_less)

lemma ledger_append_mem:
  "lr_provider_id row \<noteq> Some p \<Longrightarrow> ul_max_entries l \<ge> length (ul_mem l) + 1 \<Longrightarrow>
     recent_health (snd (ledger_append sink row l)) p since = recent_health l p since"
  by (auto simp: ledger_append_def recent_health_eq health_rows_def Let_def split: option.splits prod.splits)

text \<open>The sink that keeps every row and never fails, and the one that always fails.\<close>

definition keeping_sink :: "ledger_row list sink" where
  "keeping_sink row s = (None, s @ [row])"

definition failing_sink :: "'s sink" where
  "failing_sink row s = (Some ''disk full'', s)"

text \<open>A sink that reports no error.\<close>

definition sink_works :: "'s sink option \<Rightarrow> bool" where
  "sink_works sink \<longleftrightarrow> (case sink of None \<Rightarrow> True | Some f \<Rightarrow> \<forall>row s. fst (f row s) = None)"

lemma append_working:
  assumes "sink_works sink"
  shows "fst (ledger_append sink row l) = None"
    and "ul_mem (snd (ledger_append sink row l)) =
           drop (length (ul_mem l) + 1 - max (ul_max_entries l) 1) (ul_mem l @ [row])"
    and "ul_evicted (snd (ledger_append sink row l)) =
           ul_evicted l + (length (ul_mem l) + 1 - max (ul_max_entries l) 1)"
    and "ul_max_entries (snd (ledger_append sink row l)) = ul_max_entries l"
proof -
  have w: "\<exists>s'. (case sink of None \<Rightarrow> s' = s | Some f \<Rightarrow> f row s = (None, s'))" for s
    using assms by (cases sink) (auto simp: sink_works_def, metis prod.collapse)
  from w [of "ul_store l"] obtain s' where
    "case sink of None \<Rightarrow> s' = ul_store l | Some f \<Rightarrow> f row (ul_store l) = (None, s')" ..
  then have e: "ledger_append sink row l = (None, trim (l\<lparr>ul_mem := ul_mem l @ [row], ul_store := s'\<rparr>))"
    by (cases sink) (simp_all add: ledger_append_def Let_def)
  show "fst (ledger_append sink row l) = None"
    and "ul_mem (snd (ledger_append sink row l)) =
           drop (length (ul_mem l) + 1 - max (ul_max_entries l) 1) (ul_mem l @ [row])"
    and "ul_evicted (snd (ledger_append sink row l)) =
           ul_evicted l + (length (ul_mem l) + 1 - max (ul_max_entries l) 1)"
    and "ul_max_entries (snd (ledger_append sink row l)) = ul_max_entries l"
    by (simp_all add: e)
qed

lemma window:
  assumes "sink_works sink"
  shows "ul_max_entries (append_all sink rows (with_capacity n s)) = n
    \<and> ul_mem (append_all sink rows (with_capacity n s)) = drop (length rows - max n 1) rows
    \<and> ul_evicted (append_all sink rows (with_capacity n s)) = length rows - max n 1"
proof (induction rows rule: rev_induct)
  case Nil
  then show ?case by (simp add: with_capacity_def)
next
  case (snoc row rows)
  let ?l = "append_all sink rows (with_capacity n s)" and ?m = "max n 1"
  note a = append_working [OF assms, of row ?l]
  have m: "0 < ?m" by simp
  have len: "length (ul_mem ?l) = length rows - (length rows - ?m)" using snoc by simp
  have drop: "drop (length rows - (length rows - ?m) + 1 - ?m) (drop (length rows - ?m) rows @ [row])
      = drop (length (rows @ [row]) - ?m) (rows @ [row])"
  proof (cases "length rows < ?m")
    case True
    then show ?thesis by simp
  next
    case False
    then have "length rows - (length rows - ?m) = ?m" and k: "Suc (length rows) - ?m = Suc (length rows - ?m)"
      using m by linarith+
    then have "length rows - (length rows - ?m) + 1 - ?m = 1" by simp
    moreover have "drop 1 (drop (length rows - ?m) rows @ [row]) = drop (Suc (length rows - ?m)) rows @ [row]"
      using False m by (cases "drop (length rows - ?m) rows") (auto simp: drop_Suc tl_drop [symmetric])
    moreover have "drop (Suc (length rows) - ?m) (rows @ [row]) = drop (Suc (length rows - ?m)) rows @ [row]"
      using False m unfolding k by simp
    ultimately show ?thesis by simp
  qed
  have ev: "length rows - ?m + (length rows - (length rows - ?m) + 1 - ?m) = length (rows @ [row]) - ?m"
    using m by simp
  show ?case
    using snoc a(4) by (simp only: append_all_simps a(2,3) length_drop drop ev simp_thms)
qed

lemma keeping_sink_works [simp]: "sink_works (Some keeping_sink)" "sink_works None"
  by (simp_all add: sink_works_def keeping_sink_def)

subsection \<open>Properties\<close>

text \<open>As long as the sink works, memory is exactly the newest rows: after any sequence of
  appends the window holds the last \<open>max(1, max_entries)\<close> of them in order, the evicted count is
  the number of the others, and a query since a moment later than every evicted row answers as if
  nothing had been evicted, newest first.\<close>

theorem window_holds_the_newest_rows:
  assumes "sink_works sink"
  shows "ul_mem (append_all sink rows (with_capacity n s)) = drop (length rows - max n 1) rows
    \<and> evicted_count (append_all sink rows (with_capacity n s)) = length rows - max n 1
    \<and> ((\<forall>r \<in> set (take (length rows - max n 1) rows). lr_ts r < since) \<longrightarrow>
         lf_since f = Some since \<longrightarrow>
         ledger_query (append_all sink rows (with_capacity n s)) f
           = sort_key (\<lambda>e. - lr_ts e) (filter (matches f) rows))
    \<and> sorted (map (\<lambda>e. - lr_ts e) (ledger_query (append_all sink rows (with_capacity n s)) f))"
proof -
  let ?l = "append_all sink rows (with_capacity n s)" and ?k = "length rows - max n 1"
  have w: "ul_mem ?l = drop ?k rows" "evicted_count ?l = ?k"
    using window [OF assms, of rows n s] by (simp_all add: evicted_count_def)
  have q: "ledger_query ?l f = sort_key (\<lambda>e. - lr_ts e) (filter (matches f) rows)"
    if old: "\<forall>r \<in> set (take ?k rows). lr_ts r < since" and "lf_since f = Some since"
  proof -
    have "filter (matches f) (take ?k rows) = []"
      using that by (auto simp: filter_empty_conv matches_def is_none_or_def)
    then have "filter (matches f) rows = filter (matches f) (drop ?k rows)"
      by (metis append_Nil append_take_drop_id filter_append)
    then show ?thesis by (simp add: ledger_query_def w)
  qed
  show ?thesis using w q by (simp add: ledger_query_def)
qed

definition demo_row :: "int \<Rightarrow> string option \<Rightarrow> string \<Rightarrow> ledger_row" where
  "demo_row ts provider status =
     \<lparr>lr_ts = ts, lr_modality = ''text'', lr_source = ''ui'', lr_provider_id = provider,
      lr_key_id = None, lr_app_key_id = None, lr_requested_model = None, lr_model = ''m'',
      lr_status = status, lr_http_status = None, lr_error_class = None, lr_latency_ms = None,
      lr_tokens_in = 0, lr_tokens_out = 0, lr_cost_estimate_micros = 0, lr_cached_tokens = None,
      lr_fallback_chain_json = None, lr_failure_detail = None\<rparr>"

theorem window_holds_the_newest_rows_witness:
  "map lr_ts (ul_mem (append_all (Some keeping_sink)
       [demo_row 1 None ''ok'', demo_row 2 None ''ok'', demo_row 3 None ''ok''] (with_capacity 2 []))) = [2, 3]"
  using window_holds_the_newest_rows [of "Some keeping_sink"
      "[demo_row 1 None ''ok'', demo_row 2 None ''ok'', demo_row 3 None ''ok'']" 2 "[]" 0
      "\<lparr>lf_since = None, lf_source = None, lf_provider_id = None\<rparr>"]
  by (simp add: demo_row_def)

text \<open>The bound holds only while the sink works. A sink that keeps failing makes \<open>append\<close> return
  before the trim, so the window then holds every row of the process, however small its bound.\<close>

theorem failing_sink_disables_the_bound:
  "ul_mem (append_all (Some failing_sink) rows (with_capacity n s)) = rows
   \<and> evicted_count (append_all (Some failing_sink) rows (with_capacity n s)) = 0"
proof (induction rows rule: rev_induct)
  case Nil
  then show ?case by (simp add: with_capacity_def evicted_count_def)
next
  case (snoc row rows)
  then show ?case
    by (simp add: ledger_append_def failing_sink_def evicted_count_def Let_def)
qed

end
