(* ===== verification/Router.thy ===== *)
theory Router
  imports Text_Loop Image_Loop Ledger
begin

text \<open>
  The router (\<open>router.rs\<close>): rows and settings, the state all requests share, planning with the
  failover setting and the wait for a cooling key, and the facade: text, image, the system AI's
  \<open>complete\<close>, each with the ledger row it writes.

  A request is run alone: the shared state it is handed is the one it leaves, and other requests'
  changes during its sleeps are not modelled. The clock of one planning call is read once.
  \<open>serde_json\<close> is \<open>sv_parse\<close> and \<open>sv_render\<close>; \<open>clamp_concurrency\<close>, which works on \<open>f64\<close>,
  is \<open>sv_clamp\<close>.
\<close>

definition TEXT :: string where "TEXT = ''text''"
definition IMAGE :: string where "IMAGE = ''image''"
definition DEFAULT_SOURCE :: string where "DEFAULT_SOURCE = ''ui''"
definition GENERATOR_SOURCE :: string where "GENERATOR_SOURCE = ''generator''"
definition NO_ROUTE :: string where "NO_ROUTE = ''NO_ROUTE''"
definition NO_CARRIER :: string where "NO_CARRIER = ''no enabled provider carries it''"
definition NO_IMAGE_CAPABILITY :: string where
  "NO_IMAGE_CAPABILITY = ''no enabled provider is configured for image generation''"
definition NOT_TAGGED_AS_IMAGE :: string where
  "NOT_TAGGED_AS_IMAGE = ''it is not tagged as an image model in the catalog''"
definition SYSTEM_AI_LOCKED :: string where
  "SYSTEM_AI_LOCKED =
     ''AI-assisted path unlocks after the first enabled provider with an active key and a text model''"
definition SYSTEM_AI_EXHAUSTED :: string where
  "SYSTEM_AI_EXHAUSTED = ''system AI: no healthy text provider available''"

subsection \<open>Rows\<close>

record router_store =
  rs_providers :: "provider_row list"
  rs_keys :: "api_key_row list"
  rs_models :: "model_row list"
  rs_aliases :: "alias_row list"

definition keys_of :: "router_store \<Rightarrow> string \<Rightarrow> api_key_row list" where
  "keys_of s provider_id = filter (\<lambda>k. ak_provider_id k = provider_id) (rs_keys s)"

definition get_provider :: "router_store \<Rightarrow> string \<Rightarrow> provider_row option" where
  "get_provider s i = List.find (\<lambda>p. pr_id p = i) (rs_providers s)"

definition provider_by_slug :: "router_store \<Rightarrow> string \<Rightarrow> provider_row option" where
  "provider_by_slug s slug = List.find (\<lambda>p. pr_slug p = slug) (rs_providers s)"

definition slug_of :: "router_store \<Rightarrow> string \<Rightarrow> string" where
  "slug_of s i = (case get_provider s i of Some p \<Rightarrow> pr_slug p | None \<Rightarrow> i)"

definition for_modality :: "router_store \<Rightarrow> string \<Rightarrow> model_row list" where
  "for_modality s modality = filter (\<lambda>m. mr_modality m = modality) (rs_models s)"

definition store_pricing_for ::
  "(string \<Rightarrow> json option) \<Rightarrow> router_store \<Rightarrow> string \<Rightarrow> string \<Rightarrow> pricing_micros option" where
  "store_pricing_for parse s provider_id native_id =
     Option.bind (List.find (\<lambda>m. mr_provider_id m = provider_id \<and> mr_native_id m = native_id) (rs_models s))
       (\<lambda>row. Option.bind (mr_pricing_json row) (pricing_from_cache_json parse))"

subsection \<open>Settings\<close>

record system_ai_pick =
  pk_provider_id :: string
  pk_model :: string

record router_settings =
  st_failover_enabled :: bool
  st_system_ai :: "system_ai_pick option"
  st_per_provider_concurrency :: json
  st_gateway_tools_enabled :: bool
  st_prompt_cache_enabled :: bool

definition default_settings :: router_settings where
  "default_settings =
     \<lparr>st_failover_enabled = True, st_system_ai = None,
      st_per_provider_concurrency = JNumber (PosInt PER_PROVIDER_DEFAULT),
      st_gateway_tools_enabled = True, st_prompt_cache_enabled = False\<rparr>"

fun as_bool :: "json \<Rightarrow> bool option" where
  "as_bool (JBool b) = Some b"
| "as_bool _ = None"

definition bool_or :: "json \<Rightarrow> string \<Rightarrow> bool \<Rightarrow> bool" where
  "bool_or v k d = (case Option.bind (json_get v k) as_bool of Some b \<Rightarrow> b | None \<Rightarrow> d)"

definition pick_from_value :: "json \<Rightarrow> system_ai_pick option" where
  "pick_from_value s =
     Option.bind (Option.bind (json_get s ''providerId'') as_str) (\<lambda>p.
     Option.bind (Option.bind (json_get s ''model'') as_str) (\<lambda>m.
       Some \<lparr>pk_provider_id = p, pk_model = m\<rparr>))"

definition settings_from_value :: "json \<Rightarrow> router_settings" where
  "settings_from_value v =
     \<lparr>st_failover_enabled = bool_or v ''failoverEnabled'' (st_failover_enabled default_settings),
      st_system_ai = Option.bind (json_get v ''systemAi'') pick_from_value,
      st_per_provider_concurrency =
        (case json_get v ''perProviderConcurrency'' of Some j \<Rightarrow> j
         | None \<Rightarrow> st_per_provider_concurrency default_settings),
      st_gateway_tools_enabled =
        bool_or v ''gatewayToolsEnabled'' (st_gateway_tools_enabled default_settings),
      st_prompt_cache_enabled =
        bool_or v ''promptCacheEnabled'' (st_prompt_cache_enabled default_settings)\<rparr>"

definition settings_from_store :: "json option \<Rightarrow> router_settings" where
  "settings_from_store row =
     (case row of Some v \<Rightarrow> settings_from_value v | None \<Rightarrow> default_settings)"

subsection \<open>Requests and errors\<close>

record call_options =
  op_source :: "string option"
  op_app_key_id :: "string option"

definition call_source :: "call_options \<Rightarrow> string" where
  "call_source o' = (case op_source o' of Some s \<Rightarrow> s | None \<Rightarrow> DEFAULT_SOURCE)"

record text_request =
  tr_model :: string
  tr_messages :: "json list"
  tr_max_tokens :: "nat option"
  tr_temperature :: "rat option"
  tr_reasoning :: "reasoning_effort option"
  tr_tools :: "json option"
  tr_tool_choice :: "json option"
  tr_response_format :: "json option"
  tr_on_tool_call :: bool
  tr_on_usage :: bool
  tr_on_finish :: bool
  tr_on_reasoning :: bool
  tr_on_retry :: bool
  tr_max_attempts :: "nat option"
  tr_prompt_cache_enabled :: bool

record image_request =
  iq_model :: string
  iq_prompt :: string

record image_result =
  ires_url :: "string option"
  ires_base64 :: "string option"

record complete_request =
  cq_prompt :: string
  cq_system :: "string option"
  cq_max_tokens :: nat
  cq_exclude_provider_ids :: "string list"

datatype router_error =
    RNoRoute string string string \<comment> \<open>model, modality, reason\<close>
  | RText text_failure
  | RImage all_attempts_failed
  | RSystemAiUnavailable
  | RLedger string

fun router_message :: "router_error \<Rightarrow> string" where
  "router_message (RNoRoute model modality reason) =
     (if modality = TEXT then ''no route for model \"'' @ model @ ''\" ('' @ reason @ '')''
      else ''no route for '' @ modality @ '' model \"'' @ model @ ''\" ('' @ reason @ '')'')"
| "router_message (RText (FMidStream e _ _ _)) =
     (case err_message e of Some m \<Rightarrow> ''mid-stream failure: '' @ m | None \<Rightarrow> ''mid-stream failure'')"
| "router_message (RText (FCancelled _ _)) = ''request cancelled''"
| "router_message (RText (FAllAttemptsFailed f _)) = describe_failed f"
| "router_message (RImage f) = describe_failed f"
| "router_message RSystemAiUnavailable = SYSTEM_AI_EXHAUSTED"
| "router_message (RLedger detail) = ''ledger write failed: '' @ detail"

subsection \<open>State\<close>

record 's shared_state =
  sh_health :: tracker
  sh_cursors :: "string \<Rightarrow> int option"
  sh_ledger :: "'s usage_ledger"
  sh_limiter :: limiter

definition cursor :: "'s shared_state \<Rightarrow> string \<Rightarrow> int" where
  "cursor sh p = (case sh_cursors sh p of Some n \<Rightarrow> n | None \<Rightarrow> 0)"

definition advance :: "string \<Rightarrow> 's shared_state \<Rightarrow> 's shared_state" where
  "advance p sh = sh\<lparr>sh_cursors := (sh_cursors sh)(p \<mapsto> wrap_i64 (cursor sh p + 1))\<rparr>"

text \<open>A router: its rows, settings, the outside, and the sink the ledger was built with.\<close>

record ('a, 'w, 's) model_router =
  mo_store :: router_store
  mo_settings :: router_settings
  mo_text :: "('a, 'w) text_env"
  mo_image :: "('a, 'w) image_env"
  mo_sink :: "'s sink option"
  sv_parse :: "string \<Rightarrow> json option"
  sv_render :: "json \<Rightarrow> string"
  sv_clamp :: "json \<Rightarrow> nat"

text \<open>What a request runs over.\<close>

record ('w, 's) router_state =
  ro_shared :: "'s shared_state"
  ro_world :: 'w
  ro_log :: "delivery list"

definition router_now ::
  "('a, 'w, 's) model_router \<Rightarrow> ('w, 's) router_state \<Rightarrow> int \<times> ('w, 's) router_state" where
  "router_now m st = (case te_now (mo_text m) (ro_world st) of (n, w) \<Rightarrow> (n, st\<lparr>ro_world := w\<rparr>))"

definition router_cancelled ::
  "('a, 'w, 's) model_router \<Rightarrow> ('w, 's) router_state \<Rightarrow> bool \<times> ('w, 's) router_state" where
  "router_cancelled m st =
     (case te_cancelled (mo_text m) (ro_world st) of (b, w) \<Rightarrow> (b, st\<lparr>ro_world := w\<rparr>))"

definition sync_concurrency ::
  "('a, 'w, 's) model_router \<Rightarrow> ('w, 's) router_state \<Rightarrow> ('w, 's) router_state" where
  "sync_concurrency m st =
     st\<lparr>ro_shared := (ro_shared st)\<lparr>sh_limiter :=
          set_max_per_provider (sv_clamp m (st_per_provider_concurrency (mo_settings m)))
            (sh_limiter (ro_shared st))\<rparr>\<rparr>"

subsection \<open>Planning\<close>

definition plan_view ::
  "('a, 'w, 's) model_router \<Rightarrow> 's shared_state \<Rightarrow> int \<Rightarrow> plan_context" where
  "plan_view m sh now =
     \<lparr>x_providers = rs_providers (mo_store m), x_aliases = rs_aliases (mo_store m),
      x_health = sh_health sh, x_keys_for = keys_of (mo_store m), x_catalog = rs_models (mo_store m),
      x_next_key_cursor = cursor sh, x_pricing_for = store_pricing_for (sv_parse m) (mo_store m),
      x_provider_recent_health =
        (\<lambda>p. Some (recent_health (sh_ledger sh) p (wrap_i64 (now - PROVIDER_HEALTH_WINDOW_MS))))\<rparr>"

definition plan_at ::
  "('a, 'w, 's) model_router \<Rightarrow> 's shared_state \<Rightarrow> string \<Rightarrow> string \<Rightarrow> string list \<Rightarrow> int \<Rightarrow> candidate list" where
  "plan_at m sh model modality excluded now =
     (let plan = build_plan
            \<lparr>i_model = model, i_modality = modality, i_exclude_provider_ids = excluded\<rparr>
            (plan_view m sh now) now
      in if st_failover_enabled (mo_settings m) then plan
         else case plan of
                [] \<Rightarrow> plan
              | c # _ \<Rightarrow> filter (\<lambda>d. pr_id (c_provider d) = pr_id (c_provider c)) plan)"

definition router_plan ::
  "('a, 'w, 's) model_router \<Rightarrow> string \<Rightarrow> string \<Rightarrow> string list \<Rightarrow> ('w, 's) router_state
     \<Rightarrow> candidate list \<times> ('w, 's) router_state" where
  "router_plan m model modality excluded st =
     (case router_now m st of (now, st1) \<Rightarrow> (plan_at m (ro_shared st1) model modality excluded now, st1))"

definition COOLDOWN_WAIT_BUDGET_MS :: int where
  "COOLDOWN_WAIT_BUDGET_MS = 5000"

definition cooldown_retry_at ::
  "('a, 'w, 's) model_router \<Rightarrow> string \<Rightarrow> string \<Rightarrow> ('w, 's) router_state
     \<Rightarrow> int option \<times> ('w, 's) router_state" where
  "cooldown_retry_at m model modality st =
     (case router_now m st of (now, st1) \<Rightarrow>
        (earliest_key_retry_at \<lparr>i_model = model, i_modality = modality, i_exclude_provider_ids = []\<rparr>
           (plan_view m (ro_shared st1) now) now, st1))"

text \<open>The test in the middle of the loop: its three disjuncts in their order, with their reads.\<close>

definition gives_up ::
  "('a, 'w, 's) model_router \<Rightarrow> int \<Rightarrow> int \<Rightarrow> ('w, 's) router_state \<Rightarrow> bool \<times> ('w, 's) router_state" where
  "gives_up m deadline_ms wait_ms st =
     (if wait_ms \<le> 0 then (True, st)
      else case router_now m st of (now, st1) \<Rightarrow>
        if wrap_i64 (deadline_ms - now) < wait_ms then (True, st1)
        else router_cancelled m st1)"

text \<open>The loop, which only the clock ends: \<open>None\<close> is a loop that never returns.\<close>

text \<open>One round: \<open>Inl\<close> what the loop returns, \<open>Inr\<close> the state it goes round with.\<close>

definition wait_round ::
  "('a, 'w, 's) model_router \<Rightarrow> string \<Rightarrow> string \<Rightarrow> int \<Rightarrow> ('w, 's) router_state
     \<Rightarrow> (candidate list \<times> ('w, 's) router_state) + ('w, 's) router_state" where
  "wait_round m model modality deadline_ms st =
     (case cooldown_retry_at m model modality st of
        (None, st1) \<Rightarrow> Inl ([], st1)
      | (Some at', st1) \<Rightarrow>
          (case router_now m st1 of (now, st2) \<Rightarrow>
             (case gives_up m deadline_ms (wrap_i64 (at' - now)) st2 of
                (True, st3) \<Rightarrow> Inl ([], st3)
              | (False, st3) \<Rightarrow>
                  (case router_plan m model modality []
                          (st3\<lparr>ro_world := te_sleep (mo_text m)
                             (from_millis (nat (wrap_i64 (at' - now)))) (ro_world st3)\<rparr>) of
                     (replanned, st4) \<Rightarrow>
                       if replanned \<noteq> [] then Inl (replanned, st4) else Inr st4))))"

partial_function (option) wait_loop ::
  "('a, 'w, 's) model_router \<Rightarrow> string \<Rightarrow> string \<Rightarrow> int \<Rightarrow> ('w, 's) router_state
     \<Rightarrow> (candidate list \<times> ('w, 's) router_state) option" where
  "wait_loop m model modality deadline_ms st =
     (case wait_round m model modality deadline_ms st of
        Inl res \<Rightarrow> Some res
      | Inr st' \<Rightarrow> wait_loop m model modality deadline_ms st')"

definition plan_waiting_out_cooldown ::
  "('a, 'w, 's) model_router \<Rightarrow> string \<Rightarrow> string \<Rightarrow> ('w, 's) router_state
     \<Rightarrow> (candidate list \<times> ('w, 's) router_state) option" where
  "plan_waiting_out_cooldown m model modality st =
     (case router_plan m model modality [] st of
        (plan, st1) \<Rightarrow>
          if plan \<noteq> [] then Some (plan, st1)
          else case router_now m st1 of (now, st2) \<Rightarrow>
            wait_loop m model modality (wrap_i64 (now + COOLDOWN_WAIT_BUDGET_MS)) st2)"

subsection \<open>Ledger rows\<close>

definition blank_row :: "int \<Rightarrow> string \<Rightarrow> string \<Rightarrow> ledger_row" where
  "blank_row ts modality source =
     \<lparr>lr_ts = ts, lr_modality = modality, lr_source = source, lr_provider_id = None,
      lr_key_id = None, lr_app_key_id = None, lr_requested_model = None, lr_model = [],
      lr_status = ''ok'', lr_http_status = None, lr_error_class = None, lr_latency_ms = None,
      lr_tokens_in = 0, lr_tokens_out = 0, lr_cost_estimate_micros = 0, lr_cached_tokens = None,
      lr_fallback_chain_json = None, lr_failure_detail = None\<rparr>"

definition chain_entry :: "outcome \<Rightarrow> json" where
  "chain_entry a =
     (let e0 = (case o_label a of
            Some l \<Rightarrow> map_insert ''key'' (JString (key_label l))
                        (map_insert ''provider'' (JString (provider_slug l)) [])
          | None \<Rightarrow> []);
          e1 = map_insert ''cls'' (JString (class_str (o_cls a))) e0
      in JObject (case o_reason a of
           Some r \<Rightarrow> map_insert ''reason'' (JString r) e1
         | None \<Rightarrow> e1))"

definition chain_value :: "outcome list \<Rightarrow> json" where
  "chain_value attempts = JArray (map chain_entry attempts)"

definition chain_json :: "('a, 'w, 's) model_router \<Rightarrow> outcome list \<Rightarrow> string option" where
  "chain_json m attempts = Some (sv_render m (chain_value attempts))"

record delivered =
  dv_chunks :: nat
  dv_tool_calls :: nat

definition delivered_any :: "delivered \<Rightarrow> bool" where
  "delivered_any d \<longleftrightarrow> 0 < dv_chunks d \<or> 0 < dv_tool_calls d"

definition counts_or_zero :: "usage_tokens option \<Rightarrow> nat \<times> nat" where
  "counts_or_zero u = (case u of Some t \<Rightarrow> usage_counts t | None \<Rightarrow> (0, 0))"

definition ok_text_row ::
  "('a, 'w, 's) model_router \<Rightarrow> string \<Rightarrow> call_options \<Rightarrow> int \<Rightarrow> int \<Rightarrow> text_success \<Rightarrow> ledger_row" where
  "ok_text_row m requested opts now t0 s =
     (let c = sx_candidate s;
          (tokens_in, tokens_out) = counts_or_zero (sx_usage s)
      in (blank_row now TEXT (call_source opts))\<lparr>
           lr_provider_id := Some (pr_id (c_provider c)),
           lr_key_id := Some (ak_id (c_key c)),
           lr_app_key_id := op_app_key_id opts,
           lr_requested_model := Some requested,
           lr_model := mr_native_id (c_model c),
           lr_latency_ms := Some (wrap_i64 (now - t0)),
           lr_tokens_in := u64_as_i64 tokens_in,
           lr_tokens_out := u64_as_i64 tokens_out,
           lr_cached_tokens := Option.bind (sx_usage s) cached_for_ledger,
           lr_cost_estimate_micros :=
             (case estimate_cost_micros
                (store_pricing_for (sv_parse m) (mo_store m) (mr_provider_id (c_model c))
                   (mr_native_id (c_model c))) tokens_in tokens_out of
                Some x \<Rightarrow> x | None \<Rightarrow> 0),
           lr_fallback_chain_json := chain_json m (sx_attempts s)\<rparr>)"

text \<open>The tuple of the failing arms: usage, attempts, served, class, status, detail.\<close>

record failed_parts =
  fp_usage :: "usage_tokens option"
  fp_attempts :: "outcome list"
  fp_served :: "candidate option"
  fp_error_class :: string
  fp_http_status :: "int option"
  fp_detail :: "string option"

fun failed_parts_of :: "text_failure + text_success \<Rightarrow> bool \<Rightarrow> failed_parts" where
  "failed_parts_of (Inr s) cancelled =
     \<lparr>fp_usage = sx_usage s, fp_attempts = sx_attempts s, fp_served = None,
      fp_error_class =
        (if cancelled then ''CANCELLED''
         else if (case sx_observation s of Some ob \<Rightarrow> 0 < so_reasoning_carried ob | None \<Rightarrow> False)
           then ''NO_OUTPUT''
         else ''PARSE_ERROR''),
      fp_http_status = None, fp_detail = Option.bind (sx_observation s) describe\<rparr>"
| "failed_parts_of (Inl (FCancelled as u)) cancelled =
     \<lparr>fp_usage = u, fp_attempts = as, fp_served = None, fp_error_class = ''CANCELLED'',
      fp_http_status = None, fp_detail = None\<rparr>"
| "failed_parts_of (Inl (FMidStream e c as u)) cancelled =
     \<lparr>fp_usage = u, fp_attempts = as, fp_served = Some c, fp_error_class = ''NETWORK'',
      fp_http_status = None, fp_detail = err_message e\<rparr>"
| "failed_parts_of (Inl (FAllAttemptsFailed f u)) cancelled =
     \<lparr>fp_usage = u, fp_attempts = af_chain f, fp_served = None,
      fp_error_class = (if af_chain f = [] then NO_ROUTE else class_str (o_cls (last (af_chain f)))),
      fp_http_status = (if af_chain f = [] then None else Some (int (o_status (last (af_chain f))))),
      fp_detail = None\<rparr>"

definition failed_text_row ::
  "('a, 'w, 's) model_router \<Rightarrow> string \<Rightarrow> call_options \<Rightarrow> int \<Rightarrow> int \<Rightarrow> failed_parts \<Rightarrow> ledger_row" where
  "failed_text_row m requested opts now t0 fp =
     (let (tokens_in, tokens_out) = counts_or_zero (fp_usage fp)
      in (blank_row now TEXT (call_source opts))\<lparr>
           lr_status := ''error'',
           lr_error_class := Some (fp_error_class fp),
           lr_http_status := fp_http_status fp,
           lr_app_key_id := op_app_key_id opts,
           lr_requested_model := Some requested,
           lr_latency_ms := Some (wrap_i64 (now - t0)),
           lr_tokens_in := u64_as_i64 tokens_in,
           lr_tokens_out := u64_as_i64 tokens_out,
           lr_cached_tokens := Option.bind (fp_usage fp) cached_for_ledger,
           lr_failure_detail := fp_detail fp,
           lr_provider_id := map_option (\<lambda>c. pr_id (c_provider c)) (fp_served fp),
           lr_key_id := map_option (\<lambda>c. ak_id (c_key c)) (fp_served fp),
           lr_model := (case fp_served fp of Some c \<Rightarrow> mr_native_id (c_model c) | None \<Rightarrow> requested),
           lr_fallback_chain_json := chain_json m (fp_attempts fp)\<rparr>)"

text \<open>\<open>self.shared.ledger().append(row)\<close>, its error as \<open>RouterError::Ledger\<close>.\<close>

definition router_append ::
  "('a, 'w, 's) model_router \<Rightarrow> ledger_row \<Rightarrow> ('w, 's) router_state
     \<Rightarrow> router_error option \<times> ('w, 's) router_state" where
  "router_append m row st =
     (case ledger_append (mo_sink m) row (sh_ledger (ro_shared st)) of
        (e, l) \<Rightarrow> (map_option RLedger e, st\<lparr>ro_shared := (ro_shared st)\<lparr>sh_ledger := l\<rparr>\<rparr>))"

definition advance_cursor :: "string \<Rightarrow> ('w, 's) router_state \<Rightarrow> ('w, 's) router_state" where
  "advance_cursor p st = st\<lparr>ro_shared := advance p (ro_shared st)\<rparr>"

definition write_text_ledger ::
  "('a, 'w, 's) model_router \<Rightarrow> string \<Rightarrow> call_options \<Rightarrow> int \<Rightarrow> text_failure + text_success
     \<Rightarrow> delivered \<Rightarrow> bool \<Rightarrow> ('w, 's) router_state \<Rightarrow> router_error option \<times> ('w, 's) router_state" where
  "write_text_ledger m requested opts t0 result d cancelled st =
     (case router_now m st of (now, st1) \<Rightarrow>
        (case (result, delivered_any d) of
           (Inr s, True) \<Rightarrow>
             (case router_append m (ok_text_row m requested opts now t0 s) st1 of
                (Some e, st2) \<Rightarrow> (Some e, st2)
              | (None, st2) \<Rightarrow> (None, advance_cursor (pr_id (c_provider (sx_candidate s))) st2))
         | _ \<Rightarrow>
             router_append m (failed_text_row m requested opts now t0 (failed_parts_of result cancelled)) st1))"

definition record_no_route ::
  "('a, 'w, 's) model_router \<Rightarrow> string \<Rightarrow> string \<Rightarrow> call_options \<Rightarrow> int \<Rightarrow> ('w, 's) router_state
     \<Rightarrow> router_error option \<times> ('w, 's) router_state" where
  "record_no_route m requested modality opts t0 st =
     (case router_now m st of (now, st1) \<Rightarrow>
        router_append m
          ((blank_row now modality (call_source opts))\<lparr>
             lr_app_key_id := op_app_key_id opts, lr_requested_model := Some requested,
             lr_model := requested, lr_status := ''error'', lr_error_class := Some NO_ROUTE,
             lr_latency_ms := Some (wrap_i64 (now - t0)),
             lr_fallback_chain_json := chain_json m []\<rparr>) st1)"

subsection \<open>Text\<close>

definition text_exec_args :: "text_request \<Rightarrow> candidate list \<Rightarrow> execute_text_args" where
  "text_exec_args req plan =
     \<lparr>xt_plan = plan, xt_messages = tr_messages req, xt_model = tr_model req, xt_stream = True,
      xt_max_tokens = tr_max_tokens req, xt_temperature = tr_temperature req,
      xt_reasoning = tr_reasoning req, xt_tools = tr_tools req, xt_tool_choice = tr_tool_choice req,
      xt_response_format = tr_response_format req, xt_on_tool_call = True, xt_on_usage = True,
      xt_on_finish = True, xt_on_reasoning = True, xt_on_retry = True,
      xt_max_attempts = tr_max_attempts req,
      xt_prompt_cache_enabled = tr_prompt_cache_enabled req\<rparr>"

text \<open>What the forwarders pass on to the caller's own callbacks.\<close>

fun forwards :: "text_request \<Rightarrow> delivery \<Rightarrow> bool" where
  "forwards req (DChunk _) = True"
| "forwards req (DTool _) = tr_on_tool_call req"
| "forwards req (DUsage _) = tr_on_usage req"
| "forwards req (DFinish _) = tr_on_finish req"
| "forwards req (DReason _) = tr_on_reasoning req"
| "forwards req (DRetry _) = tr_on_retry req"

fun is_chunk :: "delivery \<Rightarrow> bool" where
  "is_chunk (DChunk _) = True"
| "is_chunk _ = False"

fun is_tool :: "delivery \<Rightarrow> bool" where
  "is_tool (DTool _) = True"
| "is_tool _ = False"

definition delivered_of :: "delivery list \<Rightarrow> delivered" where
  "delivered_of ds =
     \<lparr>dv_chunks = length (filter is_chunk ds), dv_tool_calls = length (filter is_tool ds)\<rparr>"

text \<open>The engine run over the shared state.\<close>

definition run_text ::
  "('a, 'w, 's) model_router \<Rightarrow> execute_text_args \<Rightarrow> ('w, 's) router_state
     \<Rightarrow> (text_failure + text_success) \<times> delivery list \<times> ('w, 's) router_state" where
  "run_text m args st =
     (case execute_text (sv_parse m) (mo_text m) args (sh_health (ro_shared st))
             (Some (sh_limiter (ro_shared st))) (ro_world st) of
        (result, ts) \<Rightarrow>
          (result, ts_log ts,
           st\<lparr>ro_world := ts_world ts,
              ro_shared := (ro_shared st)\<lparr>sh_health := ts_health ts,
                sh_limiter := (case ts_limiter ts of Some l \<Rightarrow> l | None \<Rightarrow> sh_limiter (ro_shared st))\<rparr>\<rparr>))"

text \<open>The part of \<open>generate_text\<close> after a plan was found.\<close>

definition run_planned_text ::
  "('a, 'w, 's) model_router \<Rightarrow> text_request \<Rightarrow> call_options \<Rightarrow> int \<Rightarrow> candidate list
     \<Rightarrow> ('w, 's) router_state \<Rightarrow> (router_error + text_success) \<times> ('w, 's) router_state" where
  "run_planned_text m req opts t0 plan st =
     (case run_text m (text_exec_args req plan) st of
        (result, ds, st1) \<Rightarrow>
          (case router_cancelled m (st1\<lparr>ro_log := ro_log st1 @ filter (forwards req) ds\<rparr>) of
             (cancelled, st2) \<Rightarrow>
               (case write_text_ledger m (tr_model req) opts t0 result (delivered_of ds) cancelled st2 of
                  (Some e, st3) \<Rightarrow> (Inl e, st3)
                | (None, st3) \<Rightarrow>
                    (case result of Inl f \<Rightarrow> Inl (RText f) | Inr s \<Rightarrow> Inr s, st3))))"

definition generate_text ::
  "('a, 'w, 's) model_router \<Rightarrow> text_request \<Rightarrow> call_options \<Rightarrow> ('w, 's) router_state
     \<Rightarrow> ((router_error + text_success) \<times> ('w, 's) router_state) option" where
  "generate_text m req opts st =
     (case router_now m st of (t0, st1) \<Rightarrow>
        (case plan_waiting_out_cooldown m (tr_model req) TEXT (sync_concurrency m st1) of
           None \<Rightarrow> None
         | Some (plan, st2) \<Rightarrow>
             if plan = [] then
               (case record_no_route m (tr_model req) TEXT opts t0 st2 of
                  (Some e, st3) \<Rightarrow> Some (Inl e, st3)
                | (None, st3) \<Rightarrow> Some (Inl (RNoRoute (tr_model req) TEXT NO_CARRIER), st3))
             else Some (run_planned_text m req opts t0 plan st2)))"

subsection \<open>Image\<close>

text \<open>\<open>requested.ends_with(&format!("/{}", native_id))\<close>\<close>

definition names_model :: "string \<Rightarrow> model_row \<Rightarrow> bool" where
  "names_model requested row \<longleftrightarrow>
     mr_native_id row = requested \<or> strip_suffix (''/'' @ mr_native_id row) requested \<noteq> None"

definition why_no_image :: "router_store \<Rightarrow> string \<Rightarrow> string" where
  "why_no_image s requested =
     (if for_modality s IMAGE = [] then NO_IMAGE_CAPABILITY
      else if \<not> (\<exists>row \<in> set (rs_models s). names_model requested row) then NO_CARRIER
      else NOT_TAGGED_AS_IMAGE)"

definition image_exec_args :: "image_request \<Rightarrow> candidate list \<Rightarrow> execute_image_args" where
  "image_exec_args req plan =
     \<lparr>xi_plan = plan, xi_prompt = iq_prompt req, xi_model = iq_model req, xi_size = None,
      xi_max_attempts = None\<rparr>"

definition image_row ::
  "('a, 'w, 's) model_router \<Rightarrow> string \<Rightarrow> call_options \<Rightarrow> int \<Rightarrow> int \<Rightarrow> image_success \<Rightarrow> ledger_row" where
  "image_row m requested opts now t0 s =
     (blank_row now IMAGE (call_source opts))\<lparr>
        lr_provider_id := Some (pr_id (c_provider (is_candidate s))),
        lr_key_id := Some (ak_id (c_key (is_candidate s))),
        lr_app_key_id := op_app_key_id opts,
        lr_requested_model := Some requested,
        lr_model := mr_native_id (c_model (is_candidate s)),
        lr_latency_ms := Some (wrap_i64 (now - t0)),
        lr_fallback_chain_json := chain_json m (is_attempts s)\<rparr>"

definition run_image ::
  "('a, 'w, 's) model_router \<Rightarrow> execute_image_args \<Rightarrow> ('w, 's) router_state
     \<Rightarrow> (all_attempts_failed + image_success) \<times> ('w, 's) router_state" where
  "run_image m args st =
     (case execute_image (sv_parse m) (mo_image m) args (sh_health (ro_shared st))
             (Some (sh_limiter (ro_shared st))) (ro_world st) of
        (result, im) \<Rightarrow>
          (result,
           st\<lparr>ro_world := im_world im,
              ro_shared := (ro_shared st)\<lparr>sh_health := im_health im,
                sh_limiter := (case im_limiter im of Some l \<Rightarrow> l | None \<Rightarrow> sh_limiter (ro_shared st))\<rparr>\<rparr>))"

definition run_planned_image ::
  "('a, 'w, 's) model_router \<Rightarrow> image_request \<Rightarrow> call_options \<Rightarrow> int \<Rightarrow> candidate list
     \<Rightarrow> ('w, 's) router_state \<Rightarrow> (router_error + image_result) \<times> ('w, 's) router_state" where
  "run_planned_image m req opts t0 plan st =
     (case run_image m (image_exec_args req plan) st of
        (Inl f, st1) \<Rightarrow> (Inl (RImage f), st1)
      | (Inr s, st1) \<Rightarrow>
          (case router_now m st1 of (now, st2) \<Rightarrow>
             (case router_append m (image_row m (iq_model req) opts now t0 s) st2 of
                (Some e, st3) \<Rightarrow> (Inl e, st3)
              | (None, st3) \<Rightarrow>
                  (Inr \<lparr>ires_url = is_url s, ires_base64 = is_base64 s\<rparr>,
                   advance_cursor (pr_id (c_provider (is_candidate s))) st3))))"

definition generate_image ::
  "('a, 'w, 's) model_router \<Rightarrow> image_request \<Rightarrow> call_options \<Rightarrow> ('w, 's) router_state
     \<Rightarrow> ((router_error + image_result) \<times> ('w, 's) router_state) option" where
  "generate_image m req opts st =
     (case router_now m st of (t0, st1) \<Rightarrow>
        (case plan_waiting_out_cooldown m (iq_model req) IMAGE (sync_concurrency m st1) of
           None \<Rightarrow> None
         | Some (plan, st2) \<Rightarrow>
             if plan = [] then
               (case record_no_route m (iq_model req) IMAGE opts t0 st2 of
                  (Some e, st3) \<Rightarrow> Some (Inl e, st3)
                | (None, st3) \<Rightarrow>
                    Some (Inl (RNoRoute (iq_model req) IMAGE (why_no_image (mo_store m) (iq_model req))), st3))
             else Some (run_planned_image m req opts t0 plan st2)))"

subsection \<open>The rest of the facade\<close>

record model_info =
  mi_id :: string
  mi_provider_id :: string
  mi_modality :: string

definition list_models :: "router_store \<Rightarrow> string option \<Rightarrow> model_info list" where
  "list_models s modality =
     map (\<lambda>row. \<lparr>mi_id = (case get_provider s (mr_provider_id row) of
                    Some p \<Rightarrow> pr_slug p @ ''/'' @ mr_native_id row | None \<Rightarrow> mr_native_id row),
                mi_provider_id = mr_provider_id row, mi_modality = mr_modality row\<rparr>)
       (case modality of Some k \<Rightarrow> for_modality s k | None \<Rightarrow> rs_models s)"

record system_ai_health =
  sa_available :: bool
  sa_reason :: "string option"

definition key_active :: "router_store \<Rightarrow> tracker \<Rightarrow> int \<Rightarrow> string \<Rightarrow> bool" where
  "key_active s health now provider_id \<longleftrightarrow>
     (\<exists>k \<in> set (keys_of s provider_id). is_key_usable health k now)"

definition system_ai_available ::
  "('a, 'w, 's) model_router \<Rightarrow> ('w, 's) router_state \<Rightarrow> system_ai_health \<times> ('w, 's) router_state" where
  "system_ai_available m st =
     (case router_now m st of (now, st1) \<Rightarrow>
        let s = mo_store m;
            active = key_active s (sh_health (ro_shared st1)) now;
            pick_ok = (case st_system_ai (mo_settings m) of
               Some pick \<Rightarrow>
                 (case get_provider s (pk_provider_id pick) of
                    Some p \<Rightarrow> is_provider_usable p \<and> active (pk_provider_id pick) | None \<Rightarrow> False)
             | None \<Rightarrow> False);
            any_ok = (\<exists>p \<in> set (rs_providers s).
               is_provider_usable p \<and> (\<exists>row \<in> set (for_modality s TEXT). mr_provider_id row = pr_id p)
               \<and> active (pr_id p))
        in (if pick_ok \<or> any_ok then \<lparr>sa_available = True, sa_reason = None\<rparr>
            else \<lparr>sa_available = False, sa_reason = Some SYSTEM_AI_LOCKED\<rparr>, st1))"

definition chat_message :: "string \<Rightarrow> string \<Rightarrow> json" where
  "chat_message role content =
     JObject (map_insert ''content'' (JString content) (map_insert ''role'' (JString role) []))"

definition complete_messages :: "complete_request \<Rightarrow> json list" where
  "complete_messages req =
     (case cq_system req of
        Some sys \<Rightarrow> [chat_message ''system'' sys, chat_message ''user'' (cq_prompt req)]
      | None \<Rightarrow> [chat_message ''user'' (cq_prompt req)])"

definition model_order :: "('a, 'w, 's) model_router \<Rightarrow> string list \<Rightarrow> string list" where
  "model_order m excluded =
     (case st_system_ai (mo_settings m) of
        Some pick \<Rightarrow>
          if pk_provider_id pick \<in> set excluded then []
          else [slug_of (mo_store m) (pk_provider_id pick) @ ''/'' @ pk_model pick]
      | None \<Rightarrow> [])
     @ concat (map (\<lambda>p.
         if \<not> is_provider_usable p \<or> pr_id p \<in> set excluded then []
         else map (\<lambda>row. pr_slug p @ ''/'' @ mr_native_id row)
                (filter (\<lambda>row. mr_provider_id row = pr_id p) (for_modality (mo_store m) TEXT)))
       (rs_providers (mo_store m)))"

definition complete_exec_args ::
  "('a, 'w, 's) model_router \<Rightarrow> complete_request \<Rightarrow> string \<Rightarrow> candidate list \<Rightarrow> execute_text_args" where
  "complete_exec_args m req model plan =
     \<lparr>xt_plan = plan, xt_messages = complete_messages req, xt_model = model, xt_stream = False,
      xt_max_tokens = Some (cq_max_tokens req), xt_temperature = None, xt_reasoning = None,
      xt_tools = None, xt_tool_choice = None, xt_response_format = None,
      xt_on_tool_call = False, xt_on_usage = False, xt_on_finish = False, xt_on_reasoning = False,
      xt_on_retry = False, xt_max_attempts = None,
      xt_prompt_cache_enabled = st_prompt_cache_enabled (mo_settings m)\<rparr>"

fun chunk_text :: "delivery \<Rightarrow> string" where
  "chunk_text (DChunk s) = s"
| "chunk_text _ = []"

definition complete_row :: "int \<Rightarrow> string \<Rightarrow> text_success \<Rightarrow> ledger_row" where
  "complete_row now model s =
     (blank_row now TEXT GENERATOR_SOURCE)\<lparr>
        lr_provider_id := Some (pr_id (c_provider (sx_candidate s))),
        lr_key_id := Some (ak_id (c_key (sx_candidate s))),
        lr_requested_model := Some model,
        lr_model := mr_native_id (c_model (sx_candidate s)),
        lr_latency_ms := Some 0\<rparr>"

text \<open>The loop over the models; the flag it reads is the one the timer raises.\<close>

fun complete_loop ::
  "('a, 'w, 's) model_router \<Rightarrow> complete_request \<Rightarrow> string list \<Rightarrow> ('w, 's) router_state
     \<Rightarrow> (router_error + string) \<times> ('w, 's) router_state" where
  "complete_loop m req [] st = (Inl RSystemAiUnavailable, st)"
| "complete_loop m req (model # models) st =
     (case router_cancelled m st of (cancelled, st1) \<Rightarrow>
        if cancelled then (Inl RSystemAiUnavailable, st1)
        else case router_plan m model TEXT (cq_exclude_provider_ids req) st1 of (plan, st2) \<Rightarrow>
          if plan = [] then complete_loop m req models st2
          else case run_text m (complete_exec_args m req model plan) st2 of
            (Inl f, ds, st3) \<Rightarrow> complete_loop m req models st3
          | (Inr s, ds, st3) \<Rightarrow>
              let text = concat (map chunk_text ds) in
              if text = [] then complete_loop m req models st3
              else case router_now m st3 of (now, st4) \<Rightarrow>
                (case router_append m (complete_row now model s) st4 of
                   (Some e, st5) \<Rightarrow> (Inl e, st5)
                 | (None, st5) \<Rightarrow> (Inr text, st5)))"

definition complete_text ::
  "('a, 'w, 's) model_router \<Rightarrow> complete_request \<Rightarrow> ('w, 's) router_state
     \<Rightarrow> (router_error + string) \<times> ('w, 's) router_state" where
  "complete_text m req st = complete_loop m req (model_order m (cq_exclude_provider_ids req)) st"
end
