(* ===== verification/Router_Laws.thy ===== *)
theory Router_Laws
  imports Router
begin

text \<open>
  What the router promises: the wait for a cooling key, the one ledger row of a request, the
  ledger's view of a provider, failover switched off, and the exclusions of \<open>complete\<close>.
\<close>

subsection \<open>Waiting out a cooldown\<close>














subsection \<open>Properties\<close>


text \<open>A router for concrete runs: one provider with one key and one text model; the world is the clock
  in milliseconds; its adapter streams one chunk.\<close>

definition demo_outside :: "(string, nat) text_env" where
  "demo_outside =
     \<lparr>te_cancelled = (\<lambda>w. (False, w)), te_instant = (\<lambda>w. (from_millis w, w)),
      te_now = (\<lambda>w. (int w, w)), te_sleep = (\<lambda>d w. w + as_millis d),
      te_for_provider = (\<lambda>p w. (Some p, w)),
      te_generate = (\<lambda>a _ _ w.
        (\<lparr>d_callbacks = [], d_refused = None, d_ticks = [Chunk ''hi'']\<rparr>, w + 1))\<rparr>"

definition demo_router :: "(string, nat, ledger_row list) model_router" where
  "demo_router =
     \<lparr>mo_store = \<lparr>rs_providers = [mk_provider ''a'' ''enabled'' ''priority''],
                  rs_keys = [mk_key ''k1'' ''a'' 0], rs_models = [mk_model ''a'' ''m''],
                  rs_aliases = []\<rparr>,
      mo_settings = default_settings, mo_text = demo_outside, mo_image = demo_image_env,
      mo_sink = Some keeping_sink, sv_parse = (\<lambda>_. None), sv_render = (\<lambda>_. ''[]''),
      sv_clamp = (\<lambda>_. 4)\<rparr>"

definition demo_state :: "tracker \<Rightarrow> (nat, ledger_row list) router_state" where
  "demo_state tr =
     \<lparr>ro_shared = \<lparr>sh_health = tr, sh_cursors = Map.empty, sh_ledger = new_ledger [],
                   sh_limiter = default_limiter\<rparr>,
      ro_world = 1000, ro_log = []\<rparr>"






subsection \<open>One request, one row\<close>

lemma delivered_any_iff: "delivered_any (delivered_of ds) \<longleftrightarrow> outputs ds \<noteq> []"
proof -
  have "is_output d \<longleftrightarrow> is_chunk d \<or> is_tool d" for d by (cases d) simp_all
  then show ?thesis
    by (auto simp: delivered_any_def delivered_of_def outputs_def filter_empty_conv)
qed

lemma run_text_spec:
  assumes "run_text m args st = (result, ds, st1)"
  shows "shown_by (mo_text m) args result (outputs ds)"
    and "sh_ledger (ro_shared st1) = sh_ledger (ro_shared st)"
    and "sh_cursors (ro_shared st1) = sh_cursors (ro_shared st)"
    and "served_of result = Some c \<Longrightarrow> c \<in> set (xt_plan args)"
    and "lim_ok (sh_limiter (ro_shared st)) \<Longrightarrow> sh_limiter (ro_shared st1) = sh_limiter (ro_shared st)"
    and "ro_log st1 = ro_log st"
proof -
  obtain ts where e: "execute_text (sv_parse m) (mo_text m) args (sh_health (ro_shared st))
      (Some (sh_limiter (ro_shared st))) (ro_world st) = (result, ts)" and d: "ds = ts_log ts"
    using assms by (auto simp: run_text_def split: prod.splits)
  from assms e have st1: "st1 = st\<lparr>ro_world := ts_world ts,
      ro_shared := (ro_shared st)\<lparr>sh_health := ts_health ts,
        sh_limiter := (case ts_limiter ts of Some l \<Rightarrow> l | None \<Rightarrow> sh_limiter (ro_shared st))\<rparr>\<rparr>"
    by (simp add: run_text_def)
  show "shown_by (mo_text m) args result (outputs ds)" using execute_text_shown_by [OF e] d by simp
  show "sh_ledger (ro_shared st1) = sh_ledger (ro_shared st)"
    "sh_cursors (ro_shared st1) = sh_cursors (ro_shared st)" "ro_log st1 = ro_log st"
    by (simp_all add: st1)
  have "set (plan_head args) \<subseteq> set (xt_plan args)"
    by (simp add: plan_head_def set_take_subset)
  moreover obtain started w1 e' st2 where
    l: "text_loop (sv_parse m) (mo_text m) args started
      (start_state args (sh_health (ro_shared st)) (Some (sh_limiter (ro_shared st))) w1) = (e', st2)"
    and r: "ended_result e' result (ts_attempts st2)" and "ts = ended_final (mo_text m) e' st2"
    by (rule execute_text_loop [OF e])
  moreover have "c \<in> set (plan_head args)" if "served_of result = Some c"
    using text_loop_served [OF l] ended_result_of(2) [OF r] that by (cases e') auto
  ultimately show "served_of result = Some c \<Longrightarrow> c \<in> set (xt_plan args)" by blast
  assume "lim_ok (sh_limiter (ro_shared st))"
  then show "sh_limiter (ro_shared st1) = sh_limiter (ro_shared st)"
    using execute_text_plan_end(1) [OF e] by (simp add: st1 opt_lim_ok_def)
qed

text \<open>The row of a request whose result is \<open>result\<close> and whose client was shown \<open>ds\<close>: it names a provider
  exactly if something was shown, and then the one that served.\<close>

definition row_tells ::
  "text_failure + text_success \<Rightarrow> delivery list \<Rightarrow> ledger_row \<Rightarrow> bool" where
  "row_tells result ds row \<longleftrightarrow>
     lr_provider_id row =
       (if outputs ds = [] then None else map_option (\<lambda>c. pr_id (c_provider c)) (served_of result))
     \<and> lr_key_id row =
       (if outputs ds = [] then None else map_option (\<lambda>c. ak_id (c_key c)) (served_of result))
     \<and> lr_status row = (if outputs ds \<noteq> [] \<and> (\<exists>s. result = Inr s) then ''ok'' else ''error'')
     \<and> (lr_error_class row = None \<longleftrightarrow> lr_status row = ''ok'')"

lemma failed_row_simps [simp]:
  "lr_provider_id (failed_text_row m req opts now t0 fp) = map_option (\<lambda>c. pr_id (c_provider c)) (fp_served fp)"
  "lr_key_id (failed_text_row m req opts now t0 fp) = map_option (\<lambda>c. ak_id (c_key c)) (fp_served fp)"
  "lr_status (failed_text_row m req opts now t0 fp) = ''error''"
  "lr_error_class (failed_text_row m req opts now t0 fp) = Some (fp_error_class fp)"
  by (simp_all add: failed_text_row_def Let_def split: prod.split)

lemma ok_row_simps [simp]:
  "lr_provider_id (ok_text_row m req opts now t0 s) = Some (pr_id (c_provider (sx_candidate s)))"
  "lr_key_id (ok_text_row m req opts now t0 s) = Some (ak_id (c_key (sx_candidate s)))"
  "lr_status (ok_text_row m req opts now t0 s) = ''ok''"
  "lr_error_class (ok_text_row m req opts now t0 s) = None"
  by (simp_all add: ok_text_row_def blank_row_def Let_def split: prod.split)

lemma router_append_spec:
  assumes "router_append m row st = (e, st')"
  shows "sh_ledger (ro_shared st') = snd (ledger_append (mo_sink m) row (sh_ledger (ro_shared st)))"
    and "e = map_option RLedger (fst (ledger_append (mo_sink m) row (sh_ledger (ro_shared st))))"
    and "sh_cursors (ro_shared st') = sh_cursors (ro_shared st)"
    and "sh_health (ro_shared st') = sh_health (ro_shared st)"
    and "sh_limiter (ro_shared st') = sh_limiter (ro_shared st)"
  using assms by (auto simp: router_append_def split: prod.splits)

lemma router_now_shared: "router_now m st = (n, st') \<Longrightarrow> ro_shared st' = ro_shared st"
  by (cases "te_now (mo_text m) (ro_world st)") (auto simp: router_now_def)

lemma router_cancelled_shared: "router_cancelled m st = (b, st') \<Longrightarrow> ro_shared st' = ro_shared st"
  by (cases "te_cancelled (mo_text m) (ro_world st)") (auto simp: router_cancelled_def)

definition cursor_moves :: "string option \<Rightarrow> 's shared_state \<Rightarrow> 's shared_state \<Rightarrow> bool" where
  "cursor_moves p sh sh' \<longleftrightarrow>
     sh_cursors sh' =
       (case p of None \<Rightarrow> sh_cursors sh | Some q \<Rightarrow> (sh_cursors sh)(q \<mapsto> wrap_i64 (cursor sh q + 1)))"

lemma write_text_ledger_spec:
  assumes "write_text_ledger m req opts t0 result (delivered_of ds) cancelled st = (e, st')"
    and "shown_by env args result (outputs ds)" and "xt_on_tool_call args"
  shows "\<exists>row. sh_ledger (ro_shared st') = snd (ledger_append (mo_sink m) row (sh_ledger (ro_shared st)))
    \<and> e = map_option RLedger (fst (ledger_append (mo_sink m) row (sh_ledger (ro_shared st))))
    \<and> row_tells result ds row
    \<and> cursor_moves (if lr_status row = ''ok'' \<and> e = None then lr_provider_id row else None)
        (ro_shared st) (ro_shared st')"
proof -
  obtain now st1 where 1: "router_now m st = (now, st1)" by fastforce
  note s1 = router_now_shared [OF 1]
  show ?thesis
  proof (cases "outputs ds \<noteq> [] \<and> (\<exists>s. result = Inr s)")
    case True
    then obtain s where r: "result = Inr s" and o: "outputs ds \<noteq> []" by blast
    let ?row = "ok_text_row m req opts now t0 s"
    obtain e2 st2 where a: "router_append m ?row st1 = (e2, st2)" by fastforce
    note ra = router_append_spec [OF a]
    have "write_text_ledger m req opts t0 result (delivered_of ds) cancelled st =
        (case e2 of Some x \<Rightarrow> (Some x, st2)
         | None \<Rightarrow> (None, advance_cursor (pr_id (c_provider (sx_candidate s))) st2))"
      using o by (simp add: write_text_ledger_def 1 r delivered_any_iff a)
    with assms(1) have x: "e = e2"
      "st' = (if e2 = None then advance_cursor (pr_id (c_provider (sx_candidate s))) st2 else st2)"
      by (auto split: option.splits)
    show ?thesis
      using ra x o r s1
      by (intro exI [of _ ?row])
        (auto simp: row_tells_def cursor_moves_def advance_cursor_def advance_def cursor_def)
  next
    case False
    let ?row = "failed_text_row m req opts now t0 (failed_parts_of result cancelled)"
    have w: "router_append m ?row st1 = (e, st')"
      using assms(1) False 1 by (cases result; auto simp: write_text_ledger_def delivered_any_iff split: bool.splits)
    have "row_tells result ds ?row"
    proof (cases result)
      case (Inl f)
      with assms(2,3) show ?thesis by (cases f) (simp_all add: row_tells_def)
    next
      case (Inr s)
      with False show ?thesis by (simp add: row_tells_def)
    qed
    then show ?thesis
      using router_append_spec [OF w] s1
      by (intro exI [of _ ?row]) (simp add: cursor_moves_def)
  qed
qed

lemma run_planned_text_spec:
  assumes "run_planned_text m req opts t0 plan st = (r, st')"
  shows "\<exists>result ds st1 row. run_text m (text_exec_args req plan) st = (result, ds, st1)
    \<and> sh_ledger (ro_shared st') = snd (ledger_append (mo_sink m) row (sh_ledger (ro_shared st)))
    \<and> row_tells result ds row
    \<and> (case fst (ledger_append (mo_sink m) row (sh_ledger (ro_shared st))) of
          Some e \<Rightarrow> r = Inl (RLedger e)
        | None \<Rightarrow> r = (case result of Inl f \<Rightarrow> Inl (RText f) | Inr s \<Rightarrow> Inr s))
    \<and> cursor_moves
        (if lr_status row = ''ok''
            \<and> fst (ledger_append (mo_sink m) row (sh_ledger (ro_shared st))) = None
         then lr_provider_id row else None) (ro_shared st) (ro_shared st')"
proof -
  obtain result ds st1 where t: "run_text m (text_exec_args req plan) st = (result, ds, st1)"
    by (metis prod_cases3)
  obtain b st2 where c: "router_cancelled m (st1\<lparr>ro_log := ro_log st1 @ filter (forwards req) ds\<rparr>) = (b, st2)"
    by fastforce
  obtain e st3 where w: "write_text_ledger m (tr_model req) opts t0 result (delivered_of ds) b st2 = (e, st3)"
    by fastforce
  have sh: "ro_shared st2 = ro_shared st1" using router_cancelled_shared [OF c] by simp
  from write_text_ledger_spec [OF w run_text_spec(1) [OF t]]
  obtain row where row:
    "sh_ledger (ro_shared st3) = snd (ledger_append (mo_sink m) row (sh_ledger (ro_shared st)))"
    "e = map_option RLedger (fst (ledger_append (mo_sink m) row (sh_ledger (ro_shared st))))"
    "row_tells result ds row"
    "cursor_moves (if lr_status row = ''ok'' \<and> e = None then lr_provider_id row else None)
       (ro_shared st2) (ro_shared st3)"
    using run_text_spec(2) [OF t] by (auto simp: sh text_exec_args_def)
  have m: "cursor_moves p (ro_shared st) (ro_shared st3)" if "cursor_moves p (ro_shared st2) (ro_shared st3)" for p
    using that run_text_spec(3) [OF t] by (cases p) (simp_all add: sh cursor_moves_def cursor_def)
  have r: "r = (case e of Some x \<Rightarrow> Inl x | None \<Rightarrow> (case result of Inl f \<Rightarrow> Inl (RText f) | Inr s \<Rightarrow> Inr s))"
    "st' = st3"
    using assms t c w by (auto simp: run_planned_text_def split: option.splits)
  show ?thesis
    using t row m r
    by (intro exI [of _ result] exI [of _ ds] exI [of _ st1] exI [of _ row]) (auto split: option.splits)
qed

text \<open>(C6) Every planned text request leaves exactly one ledger row, and the row is honest: it names a
  provider and a key if and only if the client was shown a chunk or a tool call, and then those of
  the candidate that served, which is in the plan; its status is \<open>ok\<close> if and only if moreover the
  stream did not break, and an error class stands on the row exactly when it is not \<open>ok\<close>. The
  round-robin cursor of the provider moves by one for an \<open>ok\<close> row that was recorded, and no cursor
  moves otherwise; a row that could not be recorded is the request's error.\<close>

theorem one_row_per_request_names_who_served:
  assumes "run_planned_text m req opts t0 plan st = (r, st')"
  shows "\<exists>result ds st1 row. run_text m (text_exec_args req plan) st = (result, ds, st1)
    \<and> sh_ledger (ro_shared st') = snd (ledger_append (mo_sink m) row (sh_ledger (ro_shared st)))
    \<and> row_tells result ds row
    \<and> (\<forall>c. served_of result = Some c \<longrightarrow> c \<in> set plan)
    \<and> (case fst (ledger_append (mo_sink m) row (sh_ledger (ro_shared st))) of
          Some e \<Rightarrow> r = Inl (RLedger e)
        | None \<Rightarrow> r = (case result of Inl f \<Rightarrow> Inl (RText f) | Inr s \<Rightarrow> Inr s))
    \<and> cursor_moves
        (if lr_status row = ''ok''
            \<and> fst (ledger_append (mo_sink m) row (sh_ledger (ro_shared st))) = None
         then lr_provider_id row else None) (ro_shared st) (ro_shared st')"
proof -
  have "c \<in> set plan"
    if "run_text m (text_exec_args req plan) st = (result, ds, st1)" "served_of result = Some c"
    for result ds st1 c
    using run_text_spec(4) [OF that] by (simp add: text_exec_args_def)
  then show ?thesis using run_planned_text_spec [OF assms] by blast
qed

definition demo_request :: text_request where
  "demo_request =
     \<lparr>tr_model = ''m'', tr_messages = [], tr_max_tokens = None, tr_temperature = None,
      tr_reasoning = None, tr_tools = None, tr_tool_choice = None, tr_response_format = None,
      tr_on_tool_call = False, tr_on_usage = False, tr_on_finish = False, tr_on_reasoning = False,
      tr_on_retry = False, tr_max_attempts = None, tr_prompt_cache_enabled = False\<rparr>"

definition demo_options :: call_options where
  "demo_options = \<lparr>op_source = None, op_app_key_id = None\<rparr>"

lemma demo_run_text:
  "\<exists>s ds st1. run_text demo_router (text_exec_args demo_request [mk_candidate ''a'' ''k1''])
       (demo_state Map.empty) = (Inr s, ds, st1)
     \<and> outputs ds = [DChunk ''hi''] \<and> sx_candidate s = mk_candidate ''a'' ''k1''"
  by (simp add: run_text_def demo_eval demo_router_def demo_outside_def text_exec_args_def
      demo_request_def demo_state_def default_limiter_def PER_PROVIDER_DEFAULT_def mk_rows Let_def
      deliver_def from_millis_def)

theorem one_row_per_request_names_who_served_witness:
  "\<exists>row. sh_ledger (ro_shared (snd (run_planned_text demo_router demo_request demo_options 0
            [mk_candidate ''a'' ''k1''] (demo_state Map.empty))))
       = snd (ledger_append (Some keeping_sink) row (new_ledger []))
     \<and> lr_status row = ''ok'' \<and> lr_provider_id row = Some ''a''"
proof -
  let ?plan = "[mk_candidate ''a'' ''k1'']"
  obtain r st' where e: "run_planned_text demo_router demo_request demo_options 0 ?plan
      (demo_state Map.empty) = (r, st')" by fastforce
  from demo_run_text obtain s ds st1 where
    t: "run_text demo_router (text_exec_args demo_request ?plan) (demo_state Map.empty) = (Inr s, ds, st1)"
    and shown: "outputs ds = [DChunk ''hi'']" and c: "sx_candidate s = mk_candidate ''a'' ''k1''" by blast
  from one_row_per_request_names_who_served [OF e] obtain row where
    l: "sh_ledger (ro_shared st') =
      snd (ledger_append (mo_sink demo_router) row (sh_ledger (ro_shared (demo_state Map.empty))))"
    and r: "row_tells (Inr s) ds row"
    unfolding t by blast
  have "mo_sink demo_router = Some keeping_sink" "sh_ledger (ro_shared (demo_state Map.empty)) = new_ledger []"
    by (simp_all add: demo_router_def demo_state_def)
  moreover have "lr_status row = ''ok''" "lr_provider_id row = Some ''a''"
    using r by (simp_all add: row_tells_def shown c) (simp add: mk_rows)
  ultimately show ?thesis using l unfolding e snd_conv by metis
qed

text \<open>What the planner's demotion reads cannot see a provider that only fails. A request whose
  every attempt failed, that was cancelled, or that drained a stream without output appends a row
  naming no provider, so the recent health of every provider, and with it whether the planner holds
  it to be failing, is after the request what it was before.\<close>

theorem failed_attempts_are_invisible_to_recent_health:
  assumes "run_planned_text m req opts t0 plan st = (r, st')"
    and "run_text m (text_exec_args req plan) st = (result, ds, st1)" and "outputs ds = []"
    and "length (ul_mem (sh_ledger (ro_shared st))) < ul_max_entries (sh_ledger (ro_shared st))"
  shows "recent_health (sh_ledger (ro_shared st')) p since
      = recent_health (sh_ledger (ro_shared st)) p since
    \<and> currently_failing p (plan_view m (ro_shared st') now) = currently_failing p (plan_view m (ro_shared st) now)"
proof -
  from run_planned_text_spec [OF assms(1)] assms(2,3) obtain row where
    l: "sh_ledger (ro_shared st') = snd (ledger_append (mo_sink m) row (sh_ledger (ro_shared st)))"
    and "row_tells result ds row" by auto
  with assms(3) have "lr_provider_id row = None" by (simp add: row_tells_def)
  then have r: "recent_health (sh_ledger (ro_shared st')) q since =
      recent_health (sh_ledger (ro_shared st)) q since" for q since
    unfolding l using assms(4) by (intro ledger_append_mem) auto
  then show ?thesis by (simp add: currently_failing_def plan_view_def)
qed

text \<open>A provider that refuses every dial.\<close>

definition demo_refusing :: "(string, nat, ledger_row list) model_router" where
  "demo_refusing = demo_router\<lparr>mo_text := demo_outside\<lparr>te_generate := (\<lambda>a _ _ w.
     (\<lparr>d_callbacks = [], d_refused = Some (Http 401 Response None None), d_ticks = []\<rparr>, w + 1))\<rparr>\<rparr>"

lemma demo_refused:
  "\<exists>f u ds st1. run_text demo_refusing (text_exec_args demo_request [mk_candidate ''a'' ''k1''])
       (demo_state Map.empty) = (Inl (FAllAttemptsFailed f u), ds, st1) \<and> outputs ds = []"
  by (simp add: run_text_def demo_eval demo_refusing_def demo_router_def demo_outside_def text_exec_args_def
      demo_request_def demo_state_def default_limiter_def PER_PROVIDER_DEFAULT_def mk_rows Let_def
      deliver_def from_millis_def)

theorem failed_attempts_are_invisible_to_recent_health_witness:
  "recent_health (sh_ledger (ro_shared (snd (run_planned_text demo_refusing demo_request demo_options 0
       [mk_candidate ''a'' ''k1''] (demo_state Map.empty))))) ''a'' 0 = (0, 0)"
proof -
  let ?plan = "[mk_candidate ''a'' ''k1'']"
  obtain r st' where e: "run_planned_text demo_refusing demo_request demo_options 0 ?plan
      (demo_state Map.empty) = (r, st')" by fastforce
  obtain f u ds st1 where t: "run_text demo_refusing (text_exec_args demo_request ?plan)
      (demo_state Map.empty) = (Inl (FAllAttemptsFailed f u), ds, st1)" and none: "outputs ds = []"
    using demo_refused by blast
  have c: "length (ul_mem (sh_ledger (ro_shared (demo_state Map.empty))))
      < ul_max_entries (sh_ledger (ro_shared (demo_state Map.empty)))"
    by (simp add: demo_state_def new_ledger_def with_capacity_def DEFAULT_MAX_MEM_ENTRIES_def)
  from failed_attempts_are_invisible_to_recent_health [OF e t none c, of "''a''" 0]
  have "recent_health (sh_ledger (ro_shared st')) ''a'' 0
      = recent_health (sh_ledger (ro_shared (demo_state Map.empty))) ''a'' 0" by blast
  also have "\<dots> = (0, 0)"
    by (simp add: demo_state_def new_ledger_def with_capacity_def recent_health_def)
  finally show ?thesis by (simp add: e)
qed

subsection \<open>The other facade calls\<close>

lemma plan_at_subset:
  "set (plan_at m sh model modality ex t) \<subseteq>
     set (build_plan \<lparr>i_model = model, i_modality = modality, i_exclude_provider_ids = ex\<rparr>
            (plan_view m sh t) t)"
  by (auto simp: plan_at_def Let_def split: list.splits)

lemma plan_at_not_excluded:
  assumes "c \<in> set (plan_at m sh model modality ex t)"
  shows "pr_id (c_provider c) \<notin> set ex"
proof -
  let ?in = "\<lparr>i_model = model, i_modality = modality, i_exclude_provider_ids = ex\<rparr>"
  have "c \<in> set (build_plan ?in (plan_view m sh t) t)"
    using assms plan_at_subset by blast
  then obtain w where "carrier_of ?in (plan_view m sh t) w = Some (c_provider c, c_model c)"
    by (auto simp: set_build_plan set_servable_carriers)
  from carrier_of_Some [OF this] show ?thesis by auto
qed

lemma router_plan_spec:
  assumes "router_plan m model modality ex st = (plan, st')"
  shows "ro_shared st' = ro_shared st" and "\<exists>t. plan = plan_at m (ro_shared st) model modality ex t"
proof -
  obtain n st1 where "router_now m st = (n, st1)" by fastforce
  with assms router_now_shared [OF this]
  show "ro_shared st' = ro_shared st" "\<exists>t. plan = plan_at m (ro_shared st) model modality ex t"
    by (auto simp: router_plan_def)
qed

text \<open>
  How a completion that returned text came about: the models before the serving one were tried on
  the very states the loop went through and served nothing, and the serving one was planned and run
  in the state they left.
\<close>

definition completed_by ::
  "('a, 'w, 's) model_router \<Rightarrow> complete_request \<Rightarrow> string list \<Rightarrow> ('w, 's) router_state \<Rightarrow> string
     \<Rightarrow> ('w, 's) router_state \<Rightarrow> bool" where
  "completed_by m req models st text st' \<longleftrightarrow>
     (\<exists>failed model rest st0 st1 plan st2 s ds st3 now st4.
        models = failed @ model # rest
        \<and> complete_loop m req failed st = (Inl RSystemAiUnavailable, st0)
        \<and> router_cancelled m st0 = (False, st1)
        \<and> router_plan m model TEXT (cq_exclude_provider_ids req) st1 = (plan, st2)
        \<and> run_text m (complete_exec_args m req model plan) st2 = (Inr s, ds, st3)
        \<and> router_now m st3 = (now, st4)
        \<and> text = concat (map chunk_text ds) \<and> text \<noteq> []
        \<and> sx_candidate s \<in> set plan
        \<and> from_one_dial (mo_text m) (complete_exec_args m req model plan) (sx_candidate s) (outputs ds)
        \<and> (\<forall>c \<in> set plan. pr_id (c_provider c) \<notin> set (cq_exclude_provider_ids req))
        \<and> sh_ledger (ro_shared st')
            = snd (ledger_append (mo_sink m) (complete_row now model s) (sh_ledger (ro_shared st))))"

lemma completed_by_later:
  assumes "completed_by m req models st1 text st'"
    and "sh_ledger (ro_shared st1) = sh_ledger (ro_shared st)"
    and "\<And>ms. complete_loop m req (model # ms) st = complete_loop m req ms st1"
  shows "completed_by m req (model # models) st text st'"
  using assms(1) unfolding completed_by_def assms(2) by (metis append_Cons assms(3))

fun completion_ok ::
  "('a, 'w, 's) model_router \<Rightarrow> complete_request \<Rightarrow> string list \<Rightarrow> ('w, 's) router_state
     \<Rightarrow> router_error + string \<Rightarrow> ('w, 's) router_state \<Rightarrow> bool" where
  "completion_ok m req models st (Inr text) st' \<longleftrightarrow> completed_by m req models st text st'"
| "completion_ok m req models st (Inl e) st' \<longleftrightarrow>
     (e = RSystemAiUnavailable \<and> sh_ledger (ro_shared st') = sh_ledger (ro_shared st))
     \<or> (\<exists>x. e = RLedger x)"

lemma completion_ok_later:
  assumes "completion_ok m req models st1 r st'"
    and "sh_ledger (ro_shared st1) = sh_ledger (ro_shared st)"
    and "\<And>ms. complete_loop m req (model # ms) st = complete_loop m req ms st1"
  shows "completion_ok m req (model # models) st r st'"
  using assms(1) completed_by_later [OF _ assms(2,3)] by (cases r) (auto simp: assms(2))

lemma complete_loop_spec:
  assumes "complete_loop m req models st = (r, st')"
  shows "completion_ok m req models st r st'"
  using assms
proof (induction models arbitrary: st)
  case Nil
  then show ?case by auto
next
  case (Cons model models)
  obtain b st1 where 1: "router_cancelled m st = (b, st1)" by fastforce
  note s1 = router_cancelled_shared [OF 1]
  show ?case
  proof (cases b)
    case True
    with Cons.prems 1 s1 show ?thesis by auto
  next
    case nb: False
    obtain plan st2 where 2: "router_plan m model TEXT (cq_exclude_provider_ids req) st1 = (plan, st2)"
      by fastforce
    note s2 = router_plan_spec [OF 2]
    show ?thesis
    proof (cases "plan = []")
      case True
      then have step: "complete_loop m req (model # ms) st = complete_loop m req ms st2" for ms
        using nb 1 2 by simp
      from Cons.IH [of st2] Cons.prems step show ?thesis
        by (intro completion_ok_later [of m req models st2]) (simp_all add: s1 s2(1))
    next
      case False
      let ?args = "complete_exec_args m req model plan"
      obtain result ds st3 where 3: "run_text m ?args st2 = (result, ds, st3)" by (metis prod_cases3)
      note s3 = run_text_spec [OF 3]
      show ?thesis
      proof (cases "\<exists>s. result = Inr s \<and> concat (map chunk_text ds) \<noteq> []")
        case go_on: False
        have step: "complete_loop m req (model # ms) st = complete_loop m req ms st3" for ms
          using nb 1 2 3 False go_on by (cases result) (simp_all add: Let_def)
        from Cons.IH [of st3] Cons.prems step show ?thesis
          by (intro completion_ok_later [of m req models st3]) (simp_all add: s1 s2(1) s3(2))
      next
        case True
        then obtain s where r: "result = Inr s" and t: "concat (map chunk_text ds) \<noteq> []" by blast
        obtain now st4 where 4: "router_now m st3 = (now, st4)" by fastforce
        obtain e st5 where 5: "router_append m (complete_row now model s) st4 = (e, st5)" by fastforce
        have res: "r = (case e of Some x \<Rightarrow> Inl x | None \<Rightarrow> Inr (concat (map chunk_text ds)))" "st' = st5"
          using Cons.prems nb 1 2 3 False r t 4 5
          by (auto simp: Let_def simp del: concat_eq_Nil_conv split: option.splits)
        have l: "sh_ledger (ro_shared st5) =
            snd (ledger_append (mo_sink m) (complete_row now model s) (sh_ledger (ro_shared st)))"
          using router_append_spec(1) [OF 5] router_now_shared [OF 4] by (simp add: s1 s2(1) s3(2))
        have mem: "sx_candidate s \<in> set plan"
          using s3(4) [of "sx_candidate s"] r by (simp add: complete_exec_args_def)
        have ex: "\<forall>c \<in> set plan. pr_id (c_provider c) \<notin> set (cq_exclude_provider_ids req)"
          using s2(2) plan_at_not_excluded by blast
        have one: "from_one_dial (mo_text m) ?args (sx_candidate s) (outputs ds)"
          using s3(1) r by simp
        have start: "complete_loop m req [] st = (Inl RSystemAiUnavailable, st)"
          and "router_cancelled m st = (False, st1)"
          using 1 nb by simp_all
        with 2 3 r 4 t mem one ex l
        have "completed_by m req (model # models) st (concat (map chunk_text ds)) st5"
          unfolding completed_by_def by (metis append_Nil)
        moreover have "\<exists>y. x = RLedger y" if "e = Some x" for x
          using router_append_spec(2) [OF 5] that by (auto simp: map_option_case split: option.splits)
        ultimately show ?thesis using res by (cases e) auto
      qed
    qed
  qed
qed

text \<open>(C16) A completion is never served by an excluded provider: text that \<open>complete\<close> returns is not
  empty and is the chunks of one dial of a candidate of the plan the router made, at its turn, for
  one of the models it tries in order; no candidate of that plan belongs to an excluded provider, and
  exactly one row is recorded, naming that candidate. When the system AI is unavailable nothing was
  recorded.\<close>

theorem completion_respects_exclusions:
  assumes "complete_text m req st = (r, st')"
  shows "(\<forall>text. r = Inr text \<longrightarrow>
        completed_by m req (model_order m (cq_exclude_provider_ids req)) st text st')
    \<and> (r = Inl RSystemAiUnavailable \<longrightarrow> sh_ledger (ro_shared st') = sh_ledger (ro_shared st))
    \<and> (\<forall>e. r = Inl e \<longrightarrow> e = RSystemAiUnavailable \<or> (\<exists>x. e = RLedger x))"
  using complete_loop_spec [OF assms [unfolded complete_text_def]]
  by (cases r) auto

definition demo_completion :: "string list \<Rightarrow> complete_request" where
  "demo_completion ex =
     \<lparr>cq_prompt = ''q'', cq_system = None, cq_max_tokens = 10, cq_exclude_provider_ids = ex\<rparr>"

lemma demo_completion_plan:
  "plan_at demo_router (ro_shared (demo_state Map.empty)) ''a/m'' TEXT [] 1000 =
     [\<lparr>c_provider = mk_provider ''a'' ''enabled'' ''priority'', c_key = mk_key ''k1'' ''a'' 0,
       c_model = mk_model ''a'' ''m''\<rparr>]"
  by (simp add: plan_at_def build_plan_def servable_carriers_def resolve_wanted_def
      strip_client_namespace_def plan_view_def demo_router_def demo_state_def qualified_ref_def
      alias_refs_def bare_refs_def order_carriers_def carrier_of_def is_provider_usable_def
      PROVIDER_STATUS_ENABLED_def currently_failing_def stable_partition_def map_filter_simps
      COST_SPREAD_def mk_rows Let_def recent_health_def new_ledger_def with_capacity_def
      PROVIDER_HEALTH_MIN_SAMPLES_def TEXT_def default_settings_def keys_of_def order_keys_def
      is_key_usable_def block_of_def KEY_STATUS_DENIED_def default_health_def)

lemma demo_completion_text:
  "fst (complete_text demo_router (demo_completion []) (demo_state Map.empty)) = Inr ''hi''"
proof -
  let ?c = "\<lparr>c_provider = mk_provider ''a'' ''enabled'' ''priority'', c_key = mk_key ''k1'' ''a'' 0,
       c_model = mk_model ''a'' ''m''\<rparr>"
  have o': "model_order demo_router [] = [''a/m'']"
    by (simp add: model_order_def demo_router_def default_settings_def is_provider_usable_def
        PROVIDER_STATUS_ENABLED_def for_modality_def TEXT_def mk_rows)
  have c: "router_cancelled demo_router (demo_state Map.empty) = (False, demo_state Map.empty)"
    by (simp add: router_cancelled_def demo_router_def demo_outside_def)
  have p: "router_plan demo_router ''a/m'' TEXT [] (demo_state Map.empty) = ([?c], demo_state Map.empty)"
    using demo_completion_plan
    by (simp add: router_plan_def router_now_def demo_router_def demo_outside_def demo_state_def)
  have r: "\<exists>s st3. run_text demo_router (complete_exec_args demo_router (demo_completion []) ''a/m'' [?c])
      (demo_state Map.empty) = (Inr s, [DChunk ''hi''], st3)"
    by (simp add: run_text_def demo_eval demo_router_def demo_outside_def complete_exec_args_def
        demo_state_def default_limiter_def PER_PROVIDER_DEFAULT_def mk_rows Let_def deliver_def
        from_millis_def)
  then obtain s st3 where r: "run_text demo_router
      (complete_exec_args demo_router (demo_completion []) ''a/m'' [?c]) (demo_state Map.empty)
      = (Inr s, [DChunk ''hi''], st3)" by blast
  obtain now st4 where n: "router_now demo_router st3 = (now, st4)" by fastforce
  obtain e st5 where a: "router_append demo_router (complete_row now ''a/m'' s) st4 = (e, st5)" by fastforce
  have "fst (ledger_append (mo_sink demo_router) row l) = None" for row l
    by (rule append_working(1)) (simp add: demo_router_def)
  then have e: "e = None" using router_append_spec(2) [OF a] by simp
  have x: "cq_exclude_provider_ids (demo_completion []) = []" by (simp add: demo_completion_def)
  show ?thesis
    by (simp add: complete_text_def x o' c p r n a e)
qed

theorem completion_respects_exclusions_witness:
  "completed_by demo_router (demo_completion []) (model_order demo_router []) (demo_state Map.empty) ''hi''
     (snd (complete_text demo_router (demo_completion []) (demo_state Map.empty)))"
proof -
  have "complete_text demo_router (demo_completion []) (demo_state Map.empty)
      = (Inr ''hi'', snd (complete_text demo_router (demo_completion []) (demo_state Map.empty)))"
    using demo_completion_text by (metis prod.collapse)
  from completion_respects_exclusions [OF this] show ?thesis by (simp add: demo_completion_def)
qed

text \<open>An image request leaves a row only when it was served: a failed one, whatever its chain
  says, leaves the ledger and every cursor untouched, and a served one leaves exactly one \<open>ok\<close> row
  naming the candidate that served.\<close>

theorem failed_image_requests_leave_no_row:
  assumes "run_planned_image m req opts t0 plan st = (r, st')"
  shows "(\<forall>f. r = Inl (RImage f) \<longrightarrow>
        sh_ledger (ro_shared st') = sh_ledger (ro_shared st)
        \<and> sh_cursors (ro_shared st') = sh_cursors (ro_shared st))
    \<and> (\<forall>x. r = Inr x \<longrightarrow>
        (\<exists>s st1 row. run_image m (image_exec_args req plan) st = (Inr s, st1)
           \<and> sh_ledger (ro_shared st') = snd (ledger_append (mo_sink m) row (sh_ledger (ro_shared st)))
           \<and> lr_status row = ''ok''
           \<and> lr_provider_id row = Some (pr_id (c_provider (is_candidate s)))
           \<and> lr_key_id row = Some (ak_id (c_key (is_candidate s)))))"
proof -
  obtain result st1 where 1: "run_image m (image_exec_args req plan) st = (result, st1)" by fastforce
  have s1: "sh_ledger (ro_shared st1) = sh_ledger (ro_shared st)"
    "sh_cursors (ro_shared st1) = sh_cursors (ro_shared st)"
    using 1 by (auto simp: run_image_def split: prod.splits)
  show ?thesis
  proof (cases result)
    case (Inl f)
    with assms 1 s1 show ?thesis by (auto simp: run_planned_image_def)
  next
    case (Inr s)
    obtain now st2 where 2: "router_now m st1 = (now, st2)" by fastforce
    let ?row = "image_row m (iq_model req) opts now t0 s"
    obtain e st3 where 3: "router_append m ?row st2 = (e, st3)" by fastforce
    note a = router_append_spec [OF 3]
    have r: "r = (case e of Some x \<Rightarrow> Inl x | None \<Rightarrow> Inr \<lparr>ires_url = is_url s, ires_base64 = is_base64 s\<rparr>)"
      and l: "sh_ledger (ro_shared st') = sh_ledger (ro_shared st3)"
      using assms 1 Inr 2 3
      by (auto simp: run_planned_image_def advance_cursor_def advance_def split: option.splits)
    have row: "lr_status ?row = ''ok''" "lr_provider_id ?row = Some (pr_id (c_provider (is_candidate s)))"
      "lr_key_id ?row = Some (ak_id (c_key (is_candidate s)))"
      by (simp_all add: image_row_def blank_row_def)
    have "sh_ledger (ro_shared st') = snd (ledger_append (mo_sink m) ?row (sh_ledger (ro_shared st)))"
      using a(1) l s1 router_now_shared [OF 2] by simp
    moreover have "\<nexists>f. r = Inl (RImage f)" using r a(2) by (auto split: option.splits)
    ultimately show ?thesis using 1 Inr row by blast
  qed
qed

lemma demo_image_failed:
  "\<exists>f. fst (run_planned_image demo_router \<lparr>iq_model = ''m'', iq_prompt = ''p''\<rparr> demo_options 0
       [mk_candidate ''a'' ''k1''] (demo_state Map.empty)) = Inl (RImage f)"
  by (simp add: run_planned_image_def run_image_def execute_image_def image_exec_args_def
      demo_router_def demo_image_env_def demo_state_def attempt_budget_def MAX_ATTEMPTS_DEFAULT_def
      take_slot_def image_attempt_def image_call_def acquire_def acquire_locked_def default_limiter_def
      new_limiter_def max_per_provider_def in_flight_count_def PER_PROVIDER_DEFAULT_def mk_rows)

theorem failed_image_requests_leave_no_row_witness:
  "sh_ledger (ro_shared (snd (run_planned_image demo_router \<lparr>iq_model = ''m'', iq_prompt = ''p''\<rparr>
       demo_options 0 [mk_candidate ''a'' ''k1''] (demo_state Map.empty)))) = new_ledger []"
proof -
  let ?r = "run_planned_image demo_router \<lparr>iq_model = ''m'', iq_prompt = ''p''\<rparr>
       demo_options 0 [mk_candidate ''a'' ''k1''] (demo_state Map.empty)"
  from demo_image_failed obtain f where "?r = (Inl (RImage f), snd ?r)" by (metis prod.collapse)
  from failed_image_requests_leave_no_row [OF this] show ?thesis by (simp add: demo_state_def)
qed

text \<open>With failover off the plan is the full plan cut down to its first provider: all of that
  provider's keys, in their order, and nothing else, and it is empty only if the full plan is.\<close>

theorem failover_off_stays_on_one_provider:
  assumes "\<not> st_failover_enabled (mo_settings m)"
    and "full = build_plan \<lparr>i_model = model, i_modality = modality, i_exclude_provider_ids = ex\<rparr>
                (plan_view m sh now) now"
  shows "(plan_at m sh model modality ex now = [] \<longleftrightarrow> full = [])
    \<and> (full \<noteq> [] \<longrightarrow> hd (plan_at m sh model modality ex now) = hd full
         \<and> plan_at m sh model modality ex now =
             filter (\<lambda>c. pr_id (c_provider c) = pr_id (c_provider (hd full))) full)"
proof -
  have p: "plan_at m sh model modality ex now = (case full of [] \<Rightarrow> full
      | c # _ \<Rightarrow> filter (\<lambda>d. pr_id (c_provider d) = pr_id (c_provider c)) full)"
    using assms by (simp only: plan_at_def Let_def if_False)
  show ?thesis unfolding p by (cases full) simp_all
qed

theorem failover_off_stays_on_one_provider_witness:
  "plan_at (demo_router\<lparr>mo_settings := default_settings\<lparr>st_failover_enabled := False\<rparr>\<rparr>)
       (ro_shared (demo_state Map.empty)) ''none'' ''text'' [] 0 = []
   \<longleftrightarrow> build_plan \<lparr>i_model = ''none'', i_modality = ''text'', i_exclude_provider_ids = []\<rparr>
        (plan_view (demo_router\<lparr>mo_settings := default_settings\<lparr>st_failover_enabled := False\<rparr>\<rparr>)
           (ro_shared (demo_state Map.empty)) 0) 0 = []"
  using failover_off_stays_on_one_provider
    [of "demo_router\<lparr>mo_settings := default_settings\<lparr>st_failover_enabled := False\<rparr>\<rparr>", OF _ refl]
  by simp

end
