(* ===== verification/Tool_Schema.thy ===== *)
theory Tool_Schema
  imports Json
begin

text \<open>
  The sanitation of tool parameter schemas (\<open>core/gateway_normalizer.rs\<close>, \<open>sanitize_schema\<close> to
  \<open>sanitize_openai_tools\<close>): what a client declares is cleaned before it is sent upstream.
\<close>

definition MAX_SCHEMA_DEPTH :: nat where
  "MAX_SCHEMA_DEPTH = 32"

text \<open>A new map from the members of another, in their order; a member may be left out.\<close>

definition collect_members ::
  "(string \<Rightarrow> json \<Rightarrow> json option) \<Rightarrow> json_map \<Rightarrow> json_map" where
  "collect_members f m =
     fold (\<lambda>(k, v) out. case f k v of None \<Rightarrow> out | Some v' \<Rightarrow> map_insert k v' out) m []"

text \<open>Keep opaque object schemas open.\<close>

definition open_object :: "json_map \<Rightarrow> json_map" where
  "open_object r =
     (let is_object_type = (Option.bind (map_get r ''type'') as_str = Some ''object'');
          has_props = (case map_get r ''properties'' of Some p \<Rightarrow> is_object p | None \<Rightarrow> False)
      in if is_object_type \<or> has_props then
           if \<not> contains_key r ''properties'' then
             let r1 = map_insert ''properties'' (JObject []) r in
             if \<not> contains_key r1 ''additionalProperties''
             then map_insert ''additionalProperties'' (JBool True) r1 else r1
           else if has_props \<and> map_get r ''properties'' = Some (JObject [])
                   \<and> \<not> contains_key r ''additionalProperties''
           then map_insert ''additionalProperties'' (JBool True) r
           else r
         else r)"

text \<open>\<open>required\<close> may only name keys that are in \<open>properties\<close>.\<close>

definition prune_required :: "json_map \<Rightarrow> json_map" where
  "prune_required r =
     (case (Option.bind (map_get r ''required'') as_array,
            Option.bind (map_get r ''properties'') as_object) of
        (Some req, Some props) \<Rightarrow>
          map_insert ''required''
            (JArray (filter (\<lambda>x. case as_str x of Some s \<Rightarrow> s \<in> set (map fst props) | None \<Rightarrow> False) req)) r
      | _ \<Rightarrow> r)"

text \<open>The arms of the loop over the members, given the recursive call \<open>rec\<close>.\<close>

definition clean_property :: "(json \<Rightarrow> json) \<Rightarrow> json \<Rightarrow> json" where
  "clean_property rec v =
     (if is_object v then rec v else case as_boolean v of Some b \<Rightarrow> JBool b | None \<Rightarrow> JObject [])"

definition clean_member :: "(json \<Rightarrow> json) \<Rightarrow> string \<Rightarrow> json \<Rightarrow> json option" where
  "clean_member rec k v =
     (if v = JNull then None
      else if k = ''properties'' then
        (case v of
           JObject props \<Rightarrow>
             Some (JObject (collect_members (\<lambda>_ pv. Some (clean_property rec pv)) props))
         | _ \<Rightarrow> Some v)
      else if k = ''items'' then
        (case v of
           JArray xs \<Rightarrow>
             Some (case List.find is_object xs of Some x \<Rightarrow> rec x | None \<Rightarrow> JObject [])
         | JObject m \<Rightarrow> Some (rec v)
         | _ \<Rightarrow> None)
      else if k \<in> {''anyOf'', ''oneOf'', ''allOf''} then
        (case v of
           JArray xs \<Rightarrow> Some (JArray (map (\<lambda>x. if is_object x then rec x else JObject []) xs))
         | _ \<Rightarrow> None)
      else if k = ''additionalProperties'' then
        (case v of JObject m \<Rightarrow> Some (rec v) | JBool b \<Rightarrow> Some (JBool b) | _ \<Rightarrow> None)
      else if k = ''enum'' then
        (case v of JArray xs \<Rightarrow> Some (JArray (filter (\<lambda>e. e \<noteq> JNull) xs)) | _ \<Rightarrow> Some v)
      else if k = ''required'' then
        (case v of JArray xs \<Rightarrow> Some (JArray (filter is_jstring xs)) | _ \<Rightarrow> Some v)
      else Some v)"

function sanitize_schema :: "json \<Rightarrow> nat \<Rightarrow> json" where
  "sanitize_schema v depth =
     (if MAX_SCHEMA_DEPTH < depth then JObject []
      else case v of
        JObject m \<Rightarrow>
          JObject (prune_required (open_object
            (collect_members (clean_member (\<lambda>x. sanitize_schema x (depth + 1))) m)))
      | _ \<Rightarrow> JObject [])"
  by pat_completeness auto
termination
  by (relation "measure (\<lambda>(_, depth). Suc MAX_SCHEMA_DEPTH - depth)") auto

declare sanitize_schema.simps [simp del]

definition ensure_root_object_type :: "json_map \<Rightarrow> json_map" where
  "ensure_root_object_type s =
     (if contains_key s ''type'' then s
      else if contains_key s ''anyOf'' \<or> contains_key s ''oneOf'' \<or> contains_key s ''allOf'' then s
      else
        let s1 = map_insert ''type'' (JString ''object'') s in
        if \<not> (case map_get s1 ''properties'' of Some p \<Rightarrow> is_object p | None \<Rightarrow> False) then
          let s2 = map_insert ''properties'' (JObject []) s1 in
          if \<not> contains_key s2 ''additionalProperties''
          then map_insert ''additionalProperties'' (JBool True) s2 else s2
        else s1)"

definition normalize_parameters :: "json \<Rightarrow> json" where
  "normalize_parameters p =
     (if is_object p then on_object ensure_root_object_type (sanitize_schema p 0)
      else jobj [(''type'', JString ''object''), (''properties'', JObject []),
                 (''additionalProperties'', JBool True)])"

definition or_null :: "json option \<Rightarrow> json" where
  "or_null v = (case v of Some x \<Rightarrow> x | None \<Rightarrow> JNull)"

definition sanitize_openai_tool :: "json \<Rightarrow> json" where
  "sanitize_openai_tool tool =
     (case tool of
        JObject obj \<Rightarrow>
          (case Option.bind (map_get obj ''function'') as_object of
             Some function \<Rightarrow>
               let params = or_null (map_get function ''parameters'')
               in JObject (map_insert ''function''
                    (JObject (map_insert ''parameters'' (normalize_parameters params) function)) obj)
           | None \<Rightarrow>
               if Option.bind (map_get obj ''type'') as_str = Some ''function'' then
                 let params = or_null (map_get obj ''parameters'')
                 in JObject (map_insert ''parameters'' (normalize_parameters params) obj)
               else JObject obj)
      | _ \<Rightarrow> tool)"

definition sanitize_openai_tools :: "json \<Rightarrow> json" where
  "sanitize_openai_tools tools = on_array (map sanitize_openai_tool) tools"

subsection \<open>Collecting members\<close>

lemma collect_snoc:
  "collect_members f (m @ [(k, v)]) =
     (case f k v of None \<Rightarrow> collect_members f m | Some v' \<Rightarrow> map_insert k v' (collect_members f m))"
  by (simp add: collect_members_def split: option.split)

lemma map_ok_collect [simp]: "map_ok (collect_members f m)"
proof (induction m rule: rev_induct)
  case Nil
  then show ?case by (simp add: collect_members_def)
next
  case (snoc x m)
  then show ?case by (cases x) (simp add: collect_snoc split: option.split)
qed

lemma collect_member:
  "(k, v') \<in> set (collect_members f m) \<Longrightarrow> \<exists>v. (k, v) \<in> set m \<and> f k v = Some v'"
proof (induction m rule: rev_induct)
  case Nil
  then show ?case by (simp add: collect_members_def)
next
  case (snoc x m)
  obtain j w where x: "x = (j, w)" by (cases x)
  show ?case
  proof (cases "f j w")
    case None
    with snoc x show ?thesis by (auto simp: collect_snoc)
  next
    case (Some w')
    with snoc.prems x have "(k, v') = (j, w') \<or> (k, v') \<in> set (collect_members f m)"
      using set_map_insert [of j w' "collect_members f m"] by (auto simp: collect_snoc)
    with snoc.IH Some x show ?thesis by auto
  qed
qed

lemma collect_same:
  assumes "map_ok m" and "\<And>k v. (k, v) \<in> set m \<Longrightarrow> f k v = Some v"
  shows "collect_members f m = m"
  using assms
proof (induction m rule: rev_induct)
  case Nil
  then show ?case by (simp add: collect_members_def)
next
  case (snoc x m)
  obtain j w where x: "x = (j, w)" by (cases x)
  from snoc.prems(1) have ok: "map_ok m" and last: "\<forall>k' \<in> set (map fst m). k' < j"
    by (auto simp: map_ok_def sorted_wrt_append x)
  have "collect_members f m = m" using snoc.IH [OF ok] snoc.prems(2) by simp
  with snoc.prems(2) [of j w] map_insert_last [OF last] show ?case
    by (simp add: collect_snoc x)
qed

subsection \<open>Sanitation is a projection\<close>

text \<open>What the members of a result need of the recursion.\<close>

definition projects :: "(json \<Rightarrow> json) \<Rightarrow> bool" where
  "projects rec \<longleftrightarrow>
     (\<forall>x. rec (rec x) = rec x \<and> is_object (rec x)) \<and> rec (JObject []) = JObject []"

lemma clean_property_again: "projects rec \<Longrightarrow> clean_property rec (clean_property rec v) = clean_property rec v"
  by (cases v) (auto simp: clean_property_def projects_def split: option.split)

lemma clean_properties_again:
  "projects rec \<Longrightarrow>
     collect_members (\<lambda>_ pv. Some (clean_property rec pv))
       (collect_members (\<lambda>_ pv. Some (clean_property rec pv)) ps)
     = collect_members (\<lambda>_ pv. Some (clean_property rec pv)) ps"
  by (rule collect_same) (auto dest!: collect_member simp: clean_property_again)

lemma object_not_null: "is_object x \<Longrightarrow> x \<noteq> JNull"
  by auto

lemma projects_rec:
  assumes "projects rec" and "v' = rec x \<or> v' = JObject []"
  obtains m where "v' = JObject m" and "rec v' = v'"
proof -
  from assms have "rec v' = v' \<and> is_object v'" by (auto simp: projects_def)
  then show thesis using that by (cases v') auto
qed

lemma clean_items:
  "clean_member rec ''items'' v = Some v' \<Longrightarrow> (\<exists>x. v' = rec x) \<or> v' = JObject []"
  by (cases v) (auto simp: clean_member_def split: option.splits)

lemma clean_additional:
  "clean_member rec ''additionalProperties'' v = Some v' \<Longrightarrow> (\<exists>x. v' = rec x) \<or> (\<exists>b. v' = JBool b)"
  by (cases v) (auto simp: clean_member_def)

lemma clean_combinator:
  "k \<in> {''anyOf'', ''oneOf'', ''allOf''} \<Longrightarrow> clean_member rec k v = Some v' \<Longrightarrow>
     \<exists>xs. v' = JArray (map (\<lambda>x. if is_object x then rec x else JObject []) xs)"
  by (cases v) (auto simp: clean_member_def)

lemma clean_other:
  assumes "k \<notin> {''properties'', ''items'', ''anyOf'', ''oneOf'', ''allOf'', ''additionalProperties'',
    ''enum'', ''required''}"
  shows "clean_member rec k v = (if v = JNull then None else Some v)"
  using assms by (simp add: clean_member_def)

lemma clean_member_again:
  assumes "projects rec" and "clean_member rec k v = Some v'"
  shows "clean_member rec k v' = Some v'"
proof -
  consider (props) "k = ''properties''" | (items) "k = ''items''"
    | (comb) "k \<in> {''anyOf'', ''oneOf'', ''allOf''}" | (addl) "k = ''additionalProperties''"
    | (enum) "k = ''enum''" | (req) "k = ''required''"
    | (other) "k \<notin> {''properties'', ''items'', ''anyOf'', ''oneOf'', ''allOf'', ''additionalProperties'',
        ''enum'', ''required''}" by (simp only: insert_iff empty_iff) argo
  then show ?thesis
  proof cases
    case props
    with assms show ?thesis
      by (cases v) (auto simp: clean_member_def clean_properties_again)
  next
    case items
    with assms(2) have "(\<exists>x. v' = rec x) \<or> v' = JObject []" by (intro clean_items) simp
    then obtain m where "v' = JObject m" "rec v' = v'" using projects_rec [OF assms(1)] by blast
    with items show ?thesis by (simp add: clean_member_def)
  next
    case comb
    then obtain xs where
      v': "v' = JArray (map (\<lambda>x. if is_object x then rec x else JObject []) xs)"
      using clean_combinator assms(2) by blast
    define f where "f = (\<lambda>x. if is_object x then rec x else JObject [])"
    have "f (f x) = f x" for x
      using assms(1) by (simp add: f_def projects_def)
    then have "map f (map f xs) = map f xs" by simp
    moreover have "clean_member rec k (JArray ys) = Some (JArray (map f ys))" for ys
      using comb by (auto simp: clean_member_def f_def)
    ultimately show ?thesis by (simp only: v' f_def [symmetric])
  next
    case addl
    with assms(2) have "(\<exists>x. v' = rec x) \<or> (\<exists>b. v' = JBool b)" by (intro clean_additional) simp
    then consider m where "v' = JObject m" "rec v' = v'" | b where "v' = JBool b"
      using projects_rec [OF assms(1)] by blast
    then show ?thesis using addl by cases (simp_all add: clean_member_def)
  next
    case enum
    with assms(2) show ?thesis by (cases v) (auto simp: clean_member_def)
  next
    case req
    with assms(2) show ?thesis by (cases v) (auto simp: clean_member_def)
  next
    case other
    with assms(2) show ?thesis by (auto simp: clean_other split: if_split_asm)
  qed
qed

text \<open>The two repairs, and when there is nothing to repair.\<close>

definition opened :: "json_map \<Rightarrow> bool" where
  "opened r \<longleftrightarrow>
     (Option.bind (map_get r ''type'') as_str = Some ''object'' \<longrightarrow> contains_key r ''properties'')
     \<and> (map_get r ''properties'' = Some (JObject []) \<longrightarrow> contains_key r ''additionalProperties'')"

definition required_exists :: "json_map \<Rightarrow> bool" where
  "required_exists r \<longleftrightarrow>
     (\<forall>req props. map_get r ''required'' = Some (JArray req) \<longrightarrow>
        map_get r ''properties'' = Some (JObject props) \<longrightarrow>
        (\<forall>x \<in> set req. \<exists>s. x = JString s \<and> s \<in> set (map fst props)))"

lemma opened_open_object: "opened (open_object r)"
  by (auto simp: opened_def open_object_def contains_key_def Let_def split: option.splits)

lemma open_object_id: "opened r \<Longrightarrow> open_object r = r"
  by (auto simp: opened_def open_object_def contains_key_def Let_def split: option.splits)

lemma as_array_Some [simp]: "as_array v = Some xs \<longleftrightarrow> v = JArray xs"
  by (cases v) auto

lemma as_object_Some [simp]: "as_object v = Some m \<longleftrightarrow> v = JObject m"
  by (cases v) auto

lemma as_str_Some [simp]: "as_str v = Some s \<longleftrightarrow> v = JString s"
  by (cases v) auto

lemma prune_required_get:
  "map_get (prune_required r) k =
     (if k = ''required'' then
        (case (Option.bind (map_get r ''required'') as_array,
               Option.bind (map_get r ''properties'') as_object) of
           (Some req, Some props) \<Rightarrow>
             Some (JArray (filter (\<lambda>x. case as_str x of Some s \<Rightarrow> s \<in> set (map fst props) | None \<Rightarrow> False) req))
         | _ \<Rightarrow> map_get r k)
      else map_get r k)"
  by (auto simp: prune_required_def split: option.splits)

lemma required_exists_prune: "required_exists (prune_required r)"
  by (auto simp: required_exists_def prune_required_get split: option.splits bind_splits)

lemma opened_prune: "opened (prune_required r) = opened r"
  by (simp add: opened_def prune_required_get contains_key_def)

lemma map_ok_open: "map_ok r \<Longrightarrow> map_ok (open_object r)"
  by (simp add: open_object_def Let_def)

lemma map_ok_prune: "map_ok r \<Longrightarrow> map_ok (prune_required r)"
  by (simp add: prune_required_def split: option.split)

lemma prune_required_id:
  assumes "map_ok r" and "required_exists r"
  shows "prune_required r = r"
proof (cases "(Option.bind (map_get r ''required'') as_array,
    Option.bind (map_get r ''properties'') as_object)")
  case (Pair a b)
  show ?thesis
  proof (cases "\<exists>req props. a = Some req \<and> b = Some props")
    case True
    then obtain req props where ab: "a = Some req" "b = Some props" by blast
    with Pair have g: "map_get r ''required'' = Some (JArray req)"
      "map_get r ''properties'' = Some (JObject props)" by (auto simp: bind_eq_Some_conv)
    with assms(2) have "\<forall>x \<in> set req. \<exists>s. x = JString s \<and> s \<in> set (map fst props)"
      by (auto simp: required_exists_def)
    then have "filter (\<lambda>x. case as_str x of Some s \<Rightarrow> s \<in> set (map fst props) | None \<Rightarrow> False) req = req"
      by (intro filter_True) (force dest!: bspec)
    with g map_insert_same [OF assms(1) g(1)] show ?thesis
      by (simp add: prune_required_def)
  next
    case False
    with Pair show ?thesis by (auto simp: prune_required_def split: option.split)
  qed
qed

text \<open>One level: the map of a sanitized object.\<close>

definition clean_level :: "(json \<Rightarrow> json) \<Rightarrow> json_map \<Rightarrow> json_map" where
  "clean_level rec m = prune_required (open_object (collect_members (clean_member rec) m))"

lemma open_object_cases:
  "open_object r \<in> {r, map_insert ''additionalProperties'' (JBool True) r,
     map_insert ''properties'' (JObject []) r,
     map_insert ''additionalProperties'' (JBool True) (map_insert ''properties'' (JObject []) r)}"
  by (simp add: open_object_def Let_def)

lemma two_inserts:
  assumes "r' \<in> {r, map_insert a v r, map_insert p w r, map_insert a v (map_insert p w r)}"
    and "x \<in> set r'"
  shows "x \<in> set r \<or> x = (p, w) \<or> x = (a, v)"
  using assms set_map_insert [of a v r] set_map_insert [of p w r]
    set_map_insert [of a v "map_insert p w r"]
  by blast

lemmas open_object_members = two_inserts [OF open_object_cases]

lemma prune_required_members:
  "x \<in> set (prune_required r) \<Longrightarrow>
     x \<in> set r \<or> (\<exists>xs. x = (''required'', JArray xs) \<and> (\<forall>y \<in> set xs. is_jstring y))"
  unfolding prune_required_def
  by (cases x) (auto split: option.split_asm elim!: map_insertE)

lemma clean_added:
  "clean_member rec ''properties'' (JObject []) = Some (JObject [])"
  "clean_member rec ''additionalProperties'' (JBool b) = Some (JBool b)"
  "\<forall>y \<in> set xs. is_jstring y \<Longrightarrow> clean_member rec ''required'' (JArray xs) = Some (JArray xs)"
  by (simp_all add: clean_member_def collect_members_def)

lemma clean_level_members:
  assumes "projects rec" and "(k, v) \<in> set (clean_level rec m)"
  shows "clean_member rec k v = Some v"
proof -
  let ?c = "collect_members (clean_member rec) m"
  have c: "clean_member rec k v = Some v" if "(k, v) \<in> set ?c" for k v
    using clean_member_again [OF assms(1)] collect_member [OF that] by blast
  from assms(2) have "(k, v) \<in> set (open_object ?c)
      \<or> (\<exists>xs. (k, v) = (''required'', JArray xs) \<and> (\<forall>y \<in> set xs. is_jstring y))"
    unfolding clean_level_def by (rule prune_required_members)
  then show ?thesis
  proof (elim disjE exE conjE)
    assume "(k, v) \<in> set (open_object ?c)"
    from open_object_members [OF this] show ?thesis
      by (elim disjE) (simp_all add: c clean_added)
  next
    fix xs assume "(k, v) = (''required'', JArray xs)" and "\<forall>y \<in> set xs. is_jstring y"
    then show ?thesis by (simp add: clean_added)
  qed
qed

lemma clean_level_again:
  assumes "projects rec"
  shows "clean_level rec (clean_level rec m) = clean_level rec m"
proof -
  let ?r = "clean_level rec m"
  have ok: "map_ok ?r" by (simp add: clean_level_def map_ok_prune map_ok_open)
  have "collect_members (clean_member rec) ?r = ?r"
    by (rule collect_same [OF ok]) (rule clean_level_members [OF assms])
  moreover have "opened ?r" by (simp add: clean_level_def opened_prune opened_open_object)
  moreover have "required_exists ?r" by (simp add: clean_level_def required_exists_prune)
  ultimately show ?thesis
    using ok by (simp add: clean_level_def [of rec ?r] open_object_id prune_required_id)
qed

lemma clean_level_Nil [simp]: "clean_level rec [] = []"
  by (simp add: clean_level_def collect_members_def open_object_def prune_required_def)

lemma sanitize_eq:
  "sanitize_schema v d =
     (if MAX_SCHEMA_DEPTH < d then JObject []
      else case as_object v of
        Some m \<Rightarrow> JObject (clean_level (\<lambda>x. sanitize_schema x (d + 1)) m)
      | None \<Rightarrow> JObject [])"
  by (cases v; subst sanitize_schema.simps; simp add: clean_level_def)

lemma sanitize_projects: "projects (\<lambda>x. sanitize_schema x d)"
proof (induction "Suc MAX_SCHEMA_DEPTH - d" arbitrary: d)
  case 0
  then show ?case by (simp add: projects_def sanitize_eq)
next
  case (Suc n)
  from Suc.hyps(2) have "n = Suc MAX_SCHEMA_DEPTH - (d + 1)" by simp
  from Suc.hyps(1) [OF this] have p: "projects (\<lambda>x. sanitize_schema x (d + 1))" .
  from clean_level_again [OF p] show ?case
    by (simp add: projects_def sanitize_eq [where d = d] split: option.split)
qed

subsection \<open>Every schema inside a sanitized one\<close>

text \<open>The schemas a schema contains, itself among them.\<close>

inductive sub_schema :: "json \<Rightarrow> json \<Rightarrow> bool" where
  itself: "sub_schema s s"
| in_properties: "map_get m ''properties'' = Some (JObject ps) \<Longrightarrow> (k, x) \<in> set ps \<Longrightarrow>
    is_object x \<Longrightarrow> sub_schema t x \<Longrightarrow> sub_schema t (JObject m)"
| in_items: "map_get m ''items'' = Some x \<Longrightarrow> sub_schema t x \<Longrightarrow> sub_schema t (JObject m)"
| in_combinator: "k \<in> {''anyOf'', ''oneOf'', ''allOf''} \<Longrightarrow> map_get m k = Some (JArray xs) \<Longrightarrow>
    x \<in> set xs \<Longrightarrow> sub_schema t x \<Longrightarrow> sub_schema t (JObject m)"
| in_additional: "map_get m ''additionalProperties'' = Some x \<Longrightarrow> is_object x \<Longrightarrow>
    sub_schema t x \<Longrightarrow> sub_schema t (JObject m)"

fun well_shaped :: "json \<Rightarrow> bool" where
  "well_shaped (JObject m) =
     (map_ok m \<and> JNull \<notin> snd ` set m \<and> opened m \<and> required_exists m)"
| "well_shaped _ = False"

definition sanitized :: "json \<Rightarrow> bool" where
  "sanitized j \<longleftrightarrow> (\<exists>v d. j = sanitize_schema v d)"

lemma sanitized_Nil [simp]: "sanitized (JObject [])"
proof -
  have "JObject [] = sanitize_schema JNull 0" by (simp add: sanitize_eq)
  then show ?thesis unfolding sanitized_def by blast
qed

lemma sanitized_level:
  assumes "sanitized (JObject m)"
  obtains "m = []" | d m0 where "m = clean_level (\<lambda>x. sanitize_schema x d) m0"
  using assms by (auto simp: sanitized_def sanitize_eq split: if_splits option.splits)

lemma sanitized_member:
  assumes "sanitized (JObject m)" and "map_get m k = Some x"
  obtains d where "clean_member (\<lambda>x. sanitize_schema x d) k x = Some x"
  using assms(1)
proof (cases rule: sanitized_level)
  case 1
  with assms(2) show ?thesis by simp
next
  case (2 d m0)
  with that clean_level_members [OF sanitize_projects] map_get_in_set [OF assms(2)] show ?thesis
    by blast
qed

lemma sanitized_intro [simp]: "sanitized (sanitize_schema v d)"
  by (auto simp: sanitized_def)

lemma sanitized_self:
  "x = sanitize_schema x d \<or> x = JObject [] \<Longrightarrow> sanitized x"
  by (auto simp: sanitized_def sanitized_Nil [unfolded sanitized_def])

lemma clean_property_sanitized:
  "clean_property (\<lambda>x. sanitize_schema x d) v = x \<Longrightarrow> is_object x \<Longrightarrow> sanitized x"
  by (auto simp: clean_property_def split: if_splits option.splits)

lemma sanitized_sub_schema: "sub_schema t s \<Longrightarrow> sanitized s \<Longrightarrow> sanitized t"
proof (induction rule: sub_schema.induct)
  case (itself s)
  then show ?case .
next
  case (in_properties m ps k x t)
  from in_properties(6,1) obtain d where
    c: "clean_member (\<lambda>x. sanitize_schema x d) ''properties'' (JObject ps) = Some (JObject ps)"
    using sanitized_member by blast
  then have "collect_members (\<lambda>_ pv. Some (clean_property (\<lambda>x. sanitize_schema x d) pv)) ps = ps"
    by (simp add: clean_member_def)
  with in_properties(2) obtain v where "clean_property (\<lambda>x. sanitize_schema x d) v = x"
    using collect_member [of k x "\<lambda>_ pv. Some (clean_property (\<lambda>x. sanitize_schema x d) pv)" ps] by auto
  with in_properties(3,5) clean_property_sanitized show ?case by blast
next
  case (in_items m x t)
  from in_items(4,1) obtain d where
    "clean_member (\<lambda>x. sanitize_schema x d) ''items'' x = Some x"
    using sanitized_member by blast
  from clean_items [OF this] in_items(3) show ?case by auto
next
  case (in_combinator k m xs x t)
  from in_combinator(6,2) obtain d where
    "clean_member (\<lambda>x. sanitize_schema x d) k (JArray xs) = Some (JArray xs)"
    using sanitized_member by blast
  from clean_combinator [OF in_combinator(1) this] in_combinator(3) have "sanitized x"
    by auto
  with in_combinator(5) show ?case by blast
next
  case (in_additional m x t)
  from in_additional(5,1) obtain d where
    "clean_member (\<lambda>x. sanitize_schema x d) ''additionalProperties'' x = Some x"
    using sanitized_member by blast
  from clean_additional [OF this] in_additional(2,4) show ?case by auto
qed

lemma sanitized_well_shaped:
  assumes "sanitized s"
  shows "well_shaped s"
proof -
  from assms obtain m where m: "s = JObject m"
    by (auto simp: sanitized_def sanitize_eq split: if_splits option.splits)
  with assms have "sanitized (JObject m)" by simp
  then have "map_ok m \<and> JNull \<notin> snd ` set m \<and> opened m \<and> required_exists m"
  proof (cases rule: sanitized_level)
    case 1
    then show ?thesis by (simp add: opened_def required_exists_def)
  next
    case (2 d m0)
    have "JNull \<notin> snd ` set m"
      using clean_level_members [OF sanitize_projects, of _ JNull d m0] 2
      by (auto simp: clean_member_def)
    then show ?thesis
      by (simp add: 2 clean_level_def map_ok_prune map_ok_open opened_prune opened_open_object
          required_exists_prune)
  qed
  with m show ?thesis by simp
qed

subsection \<open>Properties\<close>

text \<open>(C18) Sanitation is a projection onto clean schemas: whatever a client declares, sanitizing the
  result again changes nothing, and every schema inside it, at any depth, is a sorted map without
  null members, has \<open>properties\<close> if its type is \<open>object\<close>, is left open if it declares none, and
  requires only properties it has. The parameters of a tool always say what they are: they have a
  type or are a combination.\<close>

theorem sanitized_schemas_are_clean:
  "sanitize_schema (sanitize_schema v 0) 0 = sanitize_schema v 0
   \<and> (\<forall>t. sub_schema t (sanitize_schema v 0) \<longrightarrow> well_shaped t)
   \<and> (\<exists>k \<in> {''type'', ''anyOf'', ''oneOf'', ''allOf''}. json_get (normalize_parameters v) k \<noteq> None)"
proof -
  have again: "sanitize_schema (sanitize_schema v 0) 0 = sanitize_schema v 0"
    using sanitize_projects [of 0] by (simp add: projects_def)
  have shaped: "\<forall>t. sub_schema t (sanitize_schema v 0) \<longrightarrow> well_shaped t"
    using sanitized_sub_schema sanitized_well_shaped sanitized_intro by blast
  have root: "\<exists>k \<in> {''type'', ''anyOf'', ''oneOf'', ''allOf''}. map_get (ensure_root_object_type s) k \<noteq> None" for s
    by (auto simp: ensure_root_object_type_def contains_key_def Let_def)
  have "\<exists>k \<in> {''type'', ''anyOf'', ''oneOf'', ''allOf''}. json_get (normalize_parameters v) k \<noteq> None"
  proof (cases "is_object v")
    case True
    then obtain m where "sanitize_schema v 0 = JObject m"
      by (cases v) (auto simp: sanitize_eq split: if_splits)
    with root [of m] True show ?thesis by (simp add: normalize_parameters_def)
  next
    case False
    then show ?thesis by (simp add: normalize_parameters_def jobj_def)
  qed
  with again shaped show ?thesis by blast
qed

theorem sanitized_schemas_are_clean_witness:
  "well_shaped (sanitize_schema (JObject [(''type'', JString ''object'')]) 0)"
  using sanitized_schemas_are_clean [of "JObject [(''type'', JString ''object'')]"] itself by blast

end
