(* ===== verification/Normalizer.thy ===== *)
theory Normalizer
  imports Tool_Schema
begin

text \<open>
  The normalizer of gateway requests (\<open>core/gateway_normalizer.rs\<close>): what a client sends is brought
  into the shape the target provider accepts before the router sees it. A pure function of the
  body; how an \<open>f64\<close> prints is the parameter \<open>show_f64\<close>.
\<close>

subsection \<open>Client detection\<close>

datatype client_hint = Workbuddy | ClaudeCode | Codex | Zcode | Cursor | Generic

fun hint_str :: "client_hint \<Rightarrow> string" where
  "hint_str Workbuddy = ''workbuddy''"
| "hint_str ClaudeCode = ''claude-code''"
| "hint_str Codex = ''codex''"
| "hint_str Zcode = ''zcode''"
| "hint_str Cursor = ''cursor''"
| "hint_str Generic = ''generic''"

definition header_or_empty :: "(string \<Rightarrow> string option) \<Rightarrow> string \<Rightarrow> string" where
  "header_or_empty headers k = (case headers k of Some v \<Rightarrow> v | None \<Rightarrow> [])"

definition detect_client :: "(string \<Rightarrow> string option) \<Rightarrow> client_hint" where
  "detect_client headers =
     (let ua = to_lowercase (header_or_empty headers ''user-agent'');
          x_client = to_lowercase (header_or_empty headers ''x-client-name'');
          x_codex = (headers ''x-codex-client'' \<noteq> None)
      in if contains ua ''workbuddy'' \<or> contains x_client ''workbuddy'' then Workbuddy
         else if contains ua ''claude-code'' \<or> contains ua ''anthropic''
              \<or> contains x_client ''claude-code'' then ClaudeCode
         else if contains ua ''codex'' \<or> contains x_client ''codex'' \<or> x_codex then Codex
         else if contains ua ''z.ai'' \<or> contains ua ''zcode'' \<or> contains x_client ''zcode''
              \<or> contains x_client ''z.ai'' then Zcode
         else if contains ua ''cursor'' \<or> contains x_client ''cursor'' then Cursor
         else Generic)"

record normalize_options =
  no_client_hint :: "client_hint option"
  no_target_provider :: "string option"
  no_target_model :: "string option"
  no_preserve_developer_role :: "bool option"
  no_preserve_cache_control :: "bool option"

record normalized_request =
  nr_body :: json
  nr_tool_name_map :: "(string \<times> string) list"

subsection \<open>Utilities\<close>

definition role_of :: "json \<Rightarrow> string" where
  "role_of msg = (case get_str msg ''role'' of Some r \<Rightarrow> r | None \<Rightarrow> [])"

definition extract_text_from_content :: "json \<Rightarrow> string" where
  "extract_text_from_content content =
     (case as_str content of
        Some s \<Rightarrow> s
      | None \<Rightarrow>
          (case as_array content of
             None \<Rightarrow> []
           | Some arr \<Rightarrow>
               join [CHR 0x0A]
                 (map (\<lambda>p. case get_str p ''text'' of Some t \<Rightarrow> t | None \<Rightarrow> [])
                   (filter (\<lambda>p. get_str p ''type'' = Some ''text'') arr))))"

fun is_json_integer :: "json \<Rightarrow> bool" where
  "is_json_integer (JNumber (PosInt n)) = True"
| "is_json_integer (JNumber (NegInt i)) = True"
| "is_json_integer (JNumber (FloatNum r)) = (of_int \<lfloor>r\<rfloor> = r)"
| "is_json_integer _ = False"

subsection \<open>Roles\<close>

definition PROVIDERS_WITHOUT_SYSTEM_ROLE :: "string list" where
  "PROVIDERS_WITHOUT_SYSTEM_ROLE = [''duckduckgo-web'', ''ddgw'']"

definition PROVIDERS_PRESERVING_DEVELOPER_ROLE :: "string list" where
  "PROVIDERS_PRESERVING_DEVELOPER_ROLE = [''openai'', ''azure-openai'', ''azure'', ''github'']"

definition MODELS_WITHOUT_SYSTEM_ROLE :: "string list" where
  "MODELS_WITHOUT_SYSTEM_ROLE = [''ernie-'']"

definition default_preserve_developer_for_provider :: "string \<Rightarrow> bool" where
  "default_preserve_developer_for_provider provider =
     (let id = to_lowercase (str_trim provider)
      in if id = [] then False
         else if id \<in> set PROVIDERS_PRESERVING_DEVELOPER_ROLE then True
         else contains id ''openai'')"

text \<open>\<open>parse().unwrap_or(0)\<close> of a non-empty run of digits as a \<open>u64\<close>\<close>

definition parse_u64_or_0 :: "string \<Rightarrow> nat" where
  "parse_u64_or_0 s = (if digits_value s \<le> u64_max then digits_value s else 0)"

text \<open>The version after a \<open>glm\<close> at the start of \<open>s\<close>.\<close>

definition glm_version_here :: "string \<Rightarrow> (nat \<times> nat) option" where
  "glm_version_here s =
     (if take 3 s \<noteq> ''glm'' then None
      else
        let after = drop 3 s;
            r = (if take 1 after = ''-'' then drop 1 after else after);
            major = takeWhile is_digit r;
            tail = dropWhile is_digit r
        in if major = [] then None
           else
             let minor = (if tail \<noteq> [] \<and> (hd tail = CHR ''.'' \<or> hd tail = CHR ''p'')
                          then takeWhile is_digit (drop 1 tail) else [])
             in Some (parse_u64_or_0 major, if minor = [] then 0 else parse_u64_or_0 minor))"

fun parse_glm_version :: "string \<Rightarrow> (nat \<times> nat) option" where
  "parse_glm_version [] = None"
| "parse_glm_version (c # cs) =
     (case glm_version_here (c # cs) of Some v \<Rightarrow> Some v | None \<Rightarrow> parse_glm_version cs)"

definition is_glm_without_system_role :: "string \<Rightarrow> bool" where
  "is_glm_without_system_role model_lower =
     (if \<not> starts_with model_lower ''glm'' then False
      else case parse_glm_version model_lower of
        Some (major, minor) \<Rightarrow> \<not> (5 < major \<or> (major = 5 \<and> 1 \<le> minor))
      | None \<Rightarrow> True)"

definition supports_system_role :: "string \<Rightarrow> string \<Rightarrow> bool" where
  "supports_system_role provider model =
     (if to_lowercase (str_trim provider) \<in> set PROVIDERS_WITHOUT_SYSTEM_ROLE then False
      else
        let model_lower = to_lowercase model
        in if is_glm_without_system_role model_lower then False
           else \<not> (\<exists>p \<in> set MODELS_WITHOUT_SYSTEM_ROLE. starts_with model_lower p))"

definition normalize_developer_role ::
  "string \<Rightarrow> bool option \<Rightarrow> string \<Rightarrow> json list \<Rightarrow> json list" where
  "normalize_developer_role target_format preserve provider messages =
     (if target_format = ''openai''
         \<and> (case preserve of Some b \<Rightarrow> b | None \<Rightarrow> default_preserve_developer_for_provider provider)
      then messages
      else map (\<lambda>msg. if to_lowercase (role_of msg) = ''developer''
                      then set_key ''role'' (JString ''system'') msg else msg) messages)"

definition normalize_model_role :: "json list \<Rightarrow> json list" where
  "normalize_model_role messages =
     map (\<lambda>msg. if to_lowercase (role_of msg) = ''model''
                then set_key ''role'' (JString ''assistant'') msg else msg) messages"

definition is_systemish :: "json \<Rightarrow> bool" where
  "is_systemish m \<longleftrightarrow> role_of m = ''system'' \<or> role_of m = ''developer''"

definition content_or_null :: "json \<Rightarrow> json" where
  "content_or_null m = or_null (json_get m ''content'')"

definition newline :: string where
  "newline = [CHR 0x0A]"

definition system_content :: "json list \<Rightarrow> string" where
  "system_content messages =
     join (newline @ newline)
       (filter (\<lambda>s. s \<noteq> [])
         (map (\<lambda>m. extract_text_from_content (content_or_null m)) (filter is_systemish messages)))"

text \<open>The first element that satisfies \<open>P\<close> is replaced by its image under \<open>f\<close>.\<close>

fun update_first :: "('a \<Rightarrow> bool) \<Rightarrow> ('a \<Rightarrow> 'a) \<Rightarrow> 'a list \<Rightarrow> 'a list" where
  "update_first P f [] = []"
| "update_first P f (x # xs) = (if P x then f x # xs else x # update_first P f xs)"

definition normalize_system_role :: "string \<Rightarrow> string \<Rightarrow> json list \<Rightarrow> json list" where
  "normalize_system_role provider model messages =
     (if messages = [] \<or> supports_system_role provider model then messages
      else if \<not> (\<exists>m \<in> set messages. is_systemish m) then messages
      else
        let sys = system_content messages;
            non_system = filter (\<lambda>m. \<not> is_systemish m) messages
        in if sys = [] then non_system
           else if \<exists>m \<in> set non_system. role_of m = ''user'' then
             update_first (\<lambda>m. role_of m = ''user'')
               (\<lambda>m. set_key ''content'' (JString (''[System Instructions]'' @ newline @ sys @ newline
                      @ newline @ ''[User Message]'' @ newline
                      @ extract_text_from_content (content_or_null m))) m)
               non_system
           else jobj [(''role'', JString ''user''),
                      (''content'', JString (''[System Instructions]'' @ newline @ sys))] # non_system)"

text \<open>\<open>remove(idx)\<close> and \<open>insert(0, _)\<close>\<close>

definition hoist_leading_system_message :: "json list \<Rightarrow> json list" where
  "hoist_leading_system_message messages =
     (case List.extract (\<lambda>m. role_of m = ''system'') messages of
        Some (before, sys, after) \<Rightarrow> sys # before @ after
      | None \<Rightarrow> messages)"

subsection \<open>Tool-call ids\<close>

text \<open>The UTF-16 code units of a scalar value given by its UTF-8 bytes.\<close>

definition scalar_value :: "string \<Rightarrow> nat" where
  "scalar_value u =
     (case map of_char u of
        [a] \<Rightarrow> a
      | [a, b] \<Rightarrow> (a - 0xC0) * 64 + (b - 0x80)
      | [a, b, c] \<Rightarrow> (a - 0xE0) * 4096 + (b - 0x80) * 64 + (c - 0x80)
      | [a, b, c, d] \<Rightarrow> (a - 0xF0) * 262144 + (b - 0x80) * 4096 + (c - 0x80) * 64 + (d - 0x80)
      | _ \<Rightarrow> 0xFFFD)"

definition utf16_units :: "string \<Rightarrow> nat list" where
  "utf16_units u =
     (let n = scalar_value u
      in if n < 0x10000 then [n]
         else [0xD800 + (n - 0x10000) div 0x400, 0xDC00 + (n - 0x10000) mod 0x400])"

definition encode_utf16 :: "string \<Rightarrow> nat list" where
  "encode_utf16 s = concat (map utf16_units (chars s))"

definition wrap_i32 :: "int \<Rightarrow> int" where
  "wrap_i32 x = (x + 2 ^ 31) mod 2 ^ 32 - 2 ^ 31"

definition simple_hash :: "string \<Rightarrow> int" where
  "simple_hash s =
     \<bar>fold (\<lambda>unit h. wrap_i32 (wrap_i32 (h * 31) + int unit)) (encode_utf16 s) 0\<bar>"

definition DIGITS :: string where
  "DIGITS = ''0123456789abcdefghijklmnopqrstuvwxyz''"

text \<open>The loop, least digit first.\<close>

fun base36_digits :: "nat \<Rightarrow> string" where
  "base36_digits n = (if n = 0 then [] else DIGITS ! (n mod 36) # base36_digits (n div 36))"

declare base36_digits.simps [simp del]

definition to_base36 :: "nat \<Rightarrow> string" where
  "to_base36 n = (if n = 0 then ''0'' else rev (base36_digits n))"

definition generate_tool_call_id :: "nat \<Rightarrow> string \<Rightarrow> string \<Rightarrow> string" where
  "generate_tool_call_id index name args_prefix =
     (let raw = show_nat index @ '':'' @ name @ '':'' @ args_prefix
      in ''call_'' @ take_chars 9 (to_base36 (nat (simple_hash raw))))"

definition normalize_to_9_char_id :: "string \<Rightarrow> string" where
  "normalize_to_9_char_id ident =
     (if length (chars ident) = 9 then ident
      else
        let digits = take_chars 9 (to_base36 (nat (simple_hash ident)))
        in replicate (9 - length (chars digits)) (CHR ''0'') @ digits)"

definition function_str :: "json_map \<Rightarrow> string \<Rightarrow> string" where
  "function_str obj k =
     (case Option.bind (map_get obj ''function'') (\<lambda>f. get_str f k) of Some s \<Rightarrow> s | None \<Rightarrow> [])"

definition ensure_call :: "bool \<Rightarrow> nat \<Rightarrow> json_map \<Rightarrow> json_map" where
  "ensure_call use_9char i obj =
     (let has_id = (case Option.bind (map_get obj ''id'') as_str of Some s \<Rightarrow> s \<noteq> [] | None \<Rightarrow> False);
          obj1 = (if has_id then obj
                  else map_insert ''id'' (JString (generate_tool_call_id i (function_str obj ''name'')
                         (take_chars 32 (function_str obj ''arguments'')))) obj);
          obj2 = (if use_9char then
                    (case Option.bind (map_get obj1 ''id'') as_str of
                       Some s \<Rightarrow> map_insert ''id'' (JString (normalize_to_9_char_id s)) obj1
                     | None \<Rightarrow> obj1)
                  else obj1)
      in if (case map_get obj2 ''index'' of Some v \<Rightarrow> is_json_integer v | None \<Rightarrow> False) then obj2
         else map_insert ''index'' (JNumber (PosInt i)) obj2)"

definition ensure_message :: "bool \<Rightarrow> json \<Rightarrow> json" where
  "ensure_message use_9char =
     on_key ''tool_calls'' (on_array (\<lambda>calls.
       map (\<lambda>(i, tc). on_object (ensure_call use_9char i) tc) (enumerate 0 calls)))"

definition on_messages :: "(json list \<Rightarrow> json list) \<Rightarrow> json \<Rightarrow> json" where
  "on_messages f = on_key ''messages'' (on_array f)"

definition ensure_tool_call_ids :: "bool \<Rightarrow> json \<Rightarrow> json" where
  "ensure_tool_call_ids use_9char = on_messages (map (ensure_message use_9char))"

subsection \<open>Tool results\<close>

definition call_ids :: "json \<Rightarrow> string list" where
  "call_ids msg =
     (if role_of msg = ''assistant''
      then List.map_filter (\<lambda>tc. get_str tc ''id'')
             (case get_array msg ''tool_calls'' of Some calls \<Rightarrow> calls | None \<Rightarrow> [])
      else [])"

definition declared_ids :: "json list \<Rightarrow> string list" where
  "declared_ids messages = concat (map call_ids messages)"

definition answered_ids :: "json list \<Rightarrow> string list" where
  "answered_ids messages =
     List.map_filter (\<lambda>m. get_str m ''tool_call_id'') (filter (\<lambda>m. role_of m = ''tool'') messages)"

definition empty_result :: "string \<Rightarrow> json" where
  "empty_result ident =
     jobj [(''role'', JString ''tool''), (''tool_call_id'', JString ident), (''content'', JString [])]"

definition declares_calls :: "json \<Rightarrow> bool" where
  "declares_calls m \<longleftrightarrow>
     role_of m = ''assistant''
     \<and> (case get_array m ''tool_calls'' of Some calls \<Rightarrow> calls \<noteq> [] | None \<Rightarrow> False)"

text \<open>The index after the last element that satisfies \<open>P\<close>, or the end.\<close>

definition insert_index :: "('a \<Rightarrow> bool) \<Rightarrow> 'a list \<Rightarrow> nat" where
  "insert_index P xs =
     (if \<exists>x \<in> set xs. P x then length xs - length (takeWhile (\<lambda>x. \<not> P x) (rev xs)) else length xs)"

definition add_missing_results :: "json list \<Rightarrow> json list" where
  "add_missing_results messages =
     (let answered = answered_ids messages;
          missing = map empty_result
            (filter (\<lambda>id. id \<notin> set answered) (dedup_seen [] (declared_ids messages)))
      in if missing = [] then messages
         else
           let i = insert_index declares_calls messages
           in take i messages @ missing @ drop i messages)"

definition fix_missing_tool_responses :: "json \<Rightarrow> json" where
  "fix_missing_tool_responses = on_messages add_missing_results"

definition is_orphan :: "string list \<Rightarrow> json \<Rightarrow> bool" where
  "is_orphan valid m \<longleftrightarrow>
     role_of m = ''tool''
     \<and> (case get_str m ''tool_call_id'' of Some s \<Rightarrow> s \<notin> set valid | None \<Rightarrow> False)"

definition strip_orphaned_tool_results :: "json \<Rightarrow> json" where
  "strip_orphaned_tool_results =
     on_messages (\<lambda>messages. filter (\<lambda>m. \<not> is_orphan (declared_ids messages) m) messages)"

subsection \<open>Message shapes\<close>

definition is_nullish :: "json option \<Rightarrow> bool" where
  "is_nullish v \<longleftrightarrow> v = None \<or> v = Some JNull"

definition messages_is_array :: "json_map \<Rightarrow> bool" where
  "messages_is_array body \<longleftrightarrow> (case map_get body ''messages'' of Some v \<Rightarrow> is_jarray v | None \<Rightarrow> False)"

definition promote_input_to_messages :: "json_map \<Rightarrow> json_map" where
  "promote_input_to_messages body =
     (if is_nullish (map_get body ''input'') \<or> messages_is_array body then body
      else
        let input = or_null (map_get body ''input'')
        in map_remove ''input''
             (case input of
                JString s \<Rightarrow>
                  map_insert ''messages''
                    (JArray [jobj [(''role'', JString ''user''), (''content'', JString s)]]) body
              | JArray arr \<Rightarrow> map_insert ''messages'' (JArray arr) body
              | JObject m \<Rightarrow> map_insert ''messages'' (JArray [input]) body
              | _ \<Rightarrow> body))"

definition ensure_array_content :: "json list \<Rightarrow> json list" where
  "ensure_array_content messages =
     map (\<lambda>msg.
       if get_str msg ''role'' = Some ''tool'' then msg
       else case get_str msg ''content'' of
         Some s \<Rightarrow>
           if s \<noteq> [] then
             set_key ''content'' (JArray [jobj [(''type'', JString ''text''), (''text'', JString s)]]) msg
           else msg
       | None \<Rightarrow> msg) messages"

subsection \<open>Clients\<close>

definition CLAUDE_TOOL_RENAME_MAP :: "(string \<times> string) list" where
  "CLAUDE_TOOL_RENAME_MAP =
     [(''bash'', ''Bash''), (''read'', ''Read''), (''write'', ''Write''), (''edit'', ''Edit''),
      (''glob'', ''Glob''), (''grep'', ''Grep''), (''task'', ''Task''), (''agent'', ''Agent''),
      (''webfetch'', ''WebFetch''), (''websearch'', ''WebSearch''),
      (''todowrite'', ''TodoWrite''), (''todoread'', ''TodoRead''),
      (''question'', ''Question''), (''askuserquestion'', ''AskUserQuestion''),
      (''skill'', ''Skill''), (''slashcommand'', ''SlashCommand''),
      (''multiedit'', ''MultiEdit''), (''notebook'', ''Notebook''),
      (''notebookedit'', ''NotebookEdit''), (''notebookread'', ''NotebookRead''),
      (''lsp'', ''Lsp''), (''apply_patch'', ''ApplyPatch''), (''applypatch'', ''ApplyPatch''),
      (''bashoutput'', ''BashOutput''), (''killshell'', ''KillShell''),
      (''killbash'', ''KillBash''), (''enterplanmode'', ''EnterPlanMode''),
      (''exitplanmode'', ''ExitPlanMode''), (''enterworktree'', ''EnterWorktree''),
      (''exitworktree'', ''ExitWorktree''), (''artifact'', ''Artifact''),
      (''designsync'', ''DesignSync''), (''monitor'', ''Monitor''),
      (''sendmessage'', ''SendMessage''), (''listagents'', ''ListAgents''),
      (''pushnotification'', ''PushNotification''), (''reportfindings'', ''ReportFindings''),
      (''schedulewakeup'', ''ScheduleWakeup''), (''croncreate'', ''CronCreate''),
      (''crondelete'', ''CronDelete''), (''cronlist'', ''CronList''),
      (''taskoutput'', ''TaskOutput''), (''taskstop'', ''TaskStop''),
      (''taskcreate'', ''TaskCreate''), (''taskupdate'', ''TaskUpdate''),
      (''tasklist'', ''TaskList''), (''taskget'', ''TaskGet''), (''workflow'', ''Workflow'')]"

definition claude_rename :: "string \<Rightarrow> string option" where
  "claude_rename name = map_option snd (List.find (\<lambda>(from, _). from = name) CLAUDE_TOOL_RENAME_MAP)"

text \<open>The name under \<open>name\<close> of a map, rewritten and recorded.\<close>

definition rename_name :: "json_map \<Rightarrow> (string \<times> string) list \<Rightarrow> json_map \<times> (string \<times> string) list" where
  "rename_name obj names =
     (case Option.bind (map_get obj ''name'') as_str of
        None \<Rightarrow> (obj, names)
      | Some original \<Rightarrow>
          (case claude_rename original of
             None \<Rightarrow> (obj, names)
           | Some mapped \<Rightarrow>
               (map_insert ''name'' (JString mapped) obj, map_insert mapped original names)))"

text \<open>A rewriting of a value that needs an object, with the recorded names threaded.\<close>

fun through_object ::
  "(json_map \<Rightarrow> 's \<Rightarrow> json_map \<times> 's) \<Rightarrow> json \<Rightarrow> 's \<Rightarrow> json \<times> 's" where
  "through_object f (JObject m) s = (case f m s of (m', s') \<Rightarrow> (JObject m', s'))"
| "through_object f j s = (j, s)"

definition through_key ::
  "string \<Rightarrow> (json \<Rightarrow> 's \<Rightarrow> json \<times> 's) \<Rightarrow> json_map \<Rightarrow> 's \<Rightarrow> json_map \<times> 's" where
  "through_key k f m s =
     (case map_get m k of
        None \<Rightarrow> (m, s)
      | Some v \<Rightarrow> (case f v s of (v', s') \<Rightarrow> (map_modify k (\<lambda>_. v') m, s')))"

fun through_array :: "(json \<Rightarrow> 's \<Rightarrow> json \<times> 's) \<Rightarrow> json \<Rightarrow> 's \<Rightarrow> json \<times> 's" where
  "through_array f (JArray xs) s = (case map_state f xs s of (ys, s') \<Rightarrow> (JArray ys, s'))"
| "through_array f j s = (j, s)"

text \<open>Chat Completions tools carry the name in \<open>function\<close>, Responses tools at the top.\<close>

definition rename_tool :: "json_map \<Rightarrow> (string \<times> string) list \<Rightarrow> json_map \<times> (string \<times> string) list" where
  "rename_tool obj names =
     (case Option.bind (map_get obj ''function'') (\<lambda>f. get_str f ''name'') of
        Some _ \<Rightarrow> through_key ''function'' (through_object rename_name) obj names
      | None \<Rightarrow> rename_name obj names)"

definition rename_block :: "json_map \<Rightarrow> (string \<times> string) list \<Rightarrow> json_map \<times> (string \<times> string) list" where
  "rename_block b names =
     (if Option.bind (map_get b ''type'') as_str = Some ''tool_use'' then rename_name b names
      else (b, names))"

definition rename_choice :: "json_map \<Rightarrow> (string \<times> string) list \<Rightarrow> json_map \<times> (string \<times> string) list" where
  "rename_choice c names =
     (if Option.bind (map_get c ''type'') as_str = Some ''tool'' then rename_name c names
      else (c, names))"

definition remap_claude_tool_names_in_request ::
  "json_map \<Rightarrow> (string \<times> string) list \<Rightarrow> json_map \<times> (string \<times> string) list" where
  "remap_claude_tool_names_in_request body names =
     (case through_key ''tools'' (through_array (through_object rename_tool)) body names of
        (body1, names1) \<Rightarrow>
          (case through_key ''messages''
                  (through_array (through_object
                    (through_key ''content'' (through_array (through_object rename_block))))) body1 names1 of
             (body2, names2) \<Rightarrow> through_key ''tool_choice'' (through_object rename_choice) body2 names2))"

text \<open>\<open>String(number)\<close>: an integral float below \<open>2 ^ 53\<close> prints without its fraction.\<close>

definition show_int :: "int \<Rightarrow> string" where
  "show_int i = (if i < 0 then CHR ''-'' # show_nat (nat (- i)) else show_nat (nat i))"

fun js_number_string :: "(rat \<Rightarrow> string) \<Rightarrow> jnum \<Rightarrow> string" where
  "js_number_string show_f64 (PosInt n) = show_nat n"
| "js_number_string show_f64 (NegInt i) = show_int i"
| "js_number_string show_f64 (FloatNum r) =
     (if of_int \<lfloor>r\<rfloor> = r \<and> \<bar>r\<bar> < 9007199254740992 then show_int \<lfloor>r\<rfloor> else show_f64 r)"

definition codex_reasoning :: "(rat \<Rightarrow> string) \<Rightarrow> json_map \<Rightarrow> json_map" where
  "codex_reasoning show_f64 body =
     (if contains_key body ''reasoning_effort'' \<and> \<not> contains_key body ''reasoning'' then
        let rendered = (case or_null (map_get body ''reasoning_effort'') of
                          JString s \<Rightarrow> Some s
                        | JNumber n \<Rightarrow> Some (js_number_string show_f64 n)
                        | _ \<Rightarrow> None)
        in map_remove ''reasoning_effort''
             (case rendered of
                Some r \<Rightarrow> map_insert ''reasoning'' (jobj [(''effort'', JString r)]) body
              | None \<Rightarrow> body)
      else body)"

definition codex_output_tokens :: "json_map \<Rightarrow> json_map" where
  "codex_output_tokens body =
     (if is_nullish (map_get body ''max_output_tokens'') then
        (case Option.bind (map_get body ''max_completion_tokens'') as_number of
           Some n \<Rightarrow>
             map_remove ''max_completion_tokens'' (map_insert ''max_output_tokens'' (JNumber n) body)
         | None \<Rightarrow>
             (case Option.bind (map_get body ''max_tokens'') as_number of
                Some n \<Rightarrow> map_remove ''max_tokens'' (map_insert ''max_output_tokens'' (JNumber n) body)
              | None \<Rightarrow> body))
      else map_remove ''max_completion_tokens'' (map_remove ''max_tokens'' body))"

definition codex_response_format :: "json_map \<Rightarrow> json_map" where
  "codex_response_format body =
     (if is_nullish (map_get body ''response_format'') then body
      else map_remove ''response_format''
        (if is_nullish (map_get body ''text'')
         then map_insert ''text'' (jobj [(''format'', or_null (map_get body ''response_format''))]) body
         else body))"

definition input_message :: "string \<Rightarrow> json" where
  "input_message s =
     jobj [(''type'', JString ''message''), (''role'', JString ''user''),
       (''content'', JArray [jobj [(''type'', JString ''input_text''), (''text'', JString s)]])]"

definition codex_item :: "json \<Rightarrow> json" where
  "codex_item item =
     (case item of
        JString s \<Rightarrow> input_message s
      | JObject m \<Rightarrow>
          if map_get m ''type'' = None then JObject (map_insert ''type'' (JString ''message'') m) else item
      | _ \<Rightarrow> item)"

definition codex_input :: "json_map \<Rightarrow> json_map" where
  "codex_input body =
     (if is_nullish (map_get body ''input'') \<or> messages_is_array body then body
      else case or_null (map_get body ''input'') of
        JString s \<Rightarrow> map_insert ''input'' (JArray [input_message s]) body
      | JArray arr \<Rightarrow> map_insert ''input'' (JArray (map codex_item arr)) body
      | _ \<Rightarrow> body)"

definition normalize_codex_request :: "(rat \<Rightarrow> string) \<Rightarrow> json_map \<Rightarrow> json_map" where
  "normalize_codex_request show_f64 body =
     codex_input (codex_response_format (codex_output_tokens (codex_reasoning show_f64 body)))"

subsection \<open>The pipeline\<close>

definition role_phase :: "normalize_options \<Rightarrow> string \<Rightarrow> string \<Rightarrow> json list \<Rightarrow> json list" where
  "role_phase opts provider model messages =
     hoist_leading_system_message
       (normalize_system_role provider model
         (normalize_developer_role ''openai'' (no_preserve_developer_role opts) provider
           (normalize_model_role messages)))"

definition tool_hygiene :: "json \<Rightarrow> json" where
  "tool_hygiene body =
     strip_orphaned_tool_results (fix_missing_tool_responses (ensure_tool_call_ids False body))"

definition tools_phase :: "json \<Rightarrow> json" where
  "tools_phase body =
     (case json_get body ''tools'' of
        Some tools \<Rightarrow> set_key ''tools'' (sanitize_openai_tools tools) body
      | None \<Rightarrow> body)"

definition target_of :: "string option \<Rightarrow> string" where
  "target_of t = to_lowercase (str_trim (case t of Some s \<Rightarrow> s | None \<Rightarrow> []))"

definition shape_phases :: "(rat \<Rightarrow> string) \<Rightarrow> json \<Rightarrow> normalize_options \<Rightarrow> json" where
  "shape_phases show_f64 body opts =
     (let hint = (case no_client_hint opts of Some h \<Rightarrow> h | None \<Rightarrow> Generic);
          b1 = (if hint = Codex \<or> \<not> is_nullish (json_get body ''input'')
                then on_object (normalize_codex_request show_f64) body else body);
          b2 = on_object promote_input_to_messages b1;
          b3 = on_messages (role_phase opts (target_of (no_target_provider opts))
                 (target_of (no_target_model opts))) b2;
          b4 = tool_hygiene b3;
          b5 = tools_phase b4
      in on_messages ensure_array_content b5)"

definition normalize_gateway_request ::
  "(rat \<Rightarrow> string) \<Rightarrow> json \<Rightarrow> normalize_options \<Rightarrow> normalized_request" where
  "normalize_gateway_request show_f64 body opts =
     (let b6 = shape_phases show_f64 body opts;
          (b7, names) = (if no_client_hint opts = Some ClaudeCode
                         then through_object remap_claude_tool_names_in_request b6 []
                         else (b6, []))
      in \<lparr>nr_body = tool_hygiene b7, nr_tool_name_map = names\<rparr>)"

subsection \<open>Messages of a body\<close>

abbreviation messages_of :: "json \<Rightarrow> json list option" where
  "messages_of body \<equiv> get_array body ''messages''"

lemma as_array_on_array [simp]: "as_array (on_array f v) = map_option f (as_array v)"
  by (cases v) auto

lemma get_array_on_key [simp]:
  "get_array (on_key k (on_array f) j) k' =
     (if k' = k then map_option f (get_array j k) else get_array j k')"
  by (auto simp: get_array_def split: option.split bind_split)

lemma messages_on_messages [simp]: "messages_of (on_messages f body) = map_option f (messages_of body)"
  by (simp add: on_messages_def)

lemma on_array_same: "(\<And>xs. as_array v = Some xs \<Longrightarrow> f xs = xs) \<Longrightarrow> on_array f v = v"
  by (cases v) auto

lemma on_messages_same:
  assumes "\<And>ms. messages_of body = Some ms \<Longrightarrow> f ms = ms"
  shows "on_messages f body = body"
  unfolding on_messages_def
proof (rule on_key_same)
  fix v assume "json_get body ''messages'' = Some v"
  then show "on_array f v = v"
    using assms by (intro on_array_same) (simp add: get_array_def)
qed

lemma get_str_on_key [simp]: "k' \<noteq> k \<Longrightarrow> get_str (on_key k f j) k' = get_str j k'"
  by (simp add: get_str_def)

lemma get_str_set_key [simp]: "k' \<noteq> k \<Longrightarrow> get_str (set_key k v j) k' = get_str j k'"
  by (simp add: get_str_def)

lemma get_array_set_key [simp]: "k' \<noteq> k \<Longrightarrow> get_array (set_key k v j) k' = get_array j k'"
  by (simp add: get_array_def)

lemma role_of_on_key [simp]: "k \<noteq> ''role'' \<Longrightarrow> role_of (on_key k f j) = role_of j"
  by (simp add: role_of_def)

lemma role_of_set_key [simp]: "k \<noteq> ''role'' \<Longrightarrow> role_of (set_key k v j) = role_of j"
  by (simp add: role_of_def)

lemma role_of_ensure [simp]: "role_of (ensure_message b m) = role_of m"
  by (simp add: ensure_message_def)

subsection \<open>Tool calls and results\<close>

text \<open>What an upstream relies on: every call has an id and a position, every declared id has a
  result, every result that names an id answers a declared one.\<close>

definition call_ok :: "json \<Rightarrow> bool" where
  "call_ok tc \<longleftrightarrow> is_object tc \<longrightarrow>
     (\<exists>s. get_str tc ''id'' = Some s \<and> s \<noteq> [])
     \<and> (\<exists>v. json_get tc ''index'' = Some v \<and> is_json_integer v)"

definition calls_ok :: "json list \<Rightarrow> bool" where
  "calls_ok ms \<longleftrightarrow>
     (\<forall>m \<in> set ms. \<forall>calls. get_array m ''tool_calls'' = Some calls \<longrightarrow> (\<forall>tc \<in> set calls. call_ok tc))"

definition results_paired :: "json list \<Rightarrow> bool" where
  "results_paired ms \<longleftrightarrow>
     set (declared_ids ms) \<subseteq> set (answered_ids ms) \<and> set (answered_ids ms) \<subseteq> set (declared_ids ms)"

lemma ensure_call_ok: "call_ok (JObject (ensure_call False i obj))"
  by (auto simp: call_ok_def ensure_call_def Let_def get_str_def generate_tool_call_id_def
      split: option.splits)

lemma ensure_call_same:
  assumes "call_ok (JObject obj)"
  shows "ensure_call False i obj = obj"
  using assms by (auto simp: call_ok_def ensure_call_def Let_def get_str_def split: option.splits)

lemma call_ok_on_object: "call_ok (on_object (ensure_call False i) tc)"
  by (cases tc) (simp_all add: ensure_call_ok, simp_all add: call_ok_def)

lemma on_object_ensure_same: "call_ok tc \<Longrightarrow> on_object (ensure_call False i) tc = tc"
  by (cases tc) (simp_all add: ensure_call_same)

lemma calls_ok_ensure: "calls_ok (map (ensure_message False) ms)"
  by (auto simp: calls_ok_def ensure_message_def call_ok_on_object)

lemma ensure_same: "calls_ok ms \<Longrightarrow> map (ensure_message False) ms = ms"
proof (intro map_idI)
  fix m assume ok: "calls_ok ms" and m: "m \<in> set ms"
  have same: "map (\<lambda>(i, tc). on_object (ensure_call False i) tc) (enumerate 0 calls) = calls"
    if "get_array m ''tool_calls'' = Some calls" for calls
  proof -
    have "map (\<lambda>(i, tc). on_object (ensure_call False i) tc) (enumerate n calls') = calls'"
      if "\<forall>tc \<in> set calls'. call_ok tc" for n calls'
      using that by (induction calls' arbitrary: n) (simp_all add: on_object_ensure_same)
    with ok m that show ?thesis by (auto simp: calls_ok_def)
  qed
  show "ensure_message False m = m"
    unfolding ensure_message_def
  proof (rule on_key_same)
    fix v assume "json_get m ''tool_calls'' = Some v"
    then show "on_array (\<lambda>calls. map (\<lambda>(i, tc). on_object (ensure_call False i) tc) (enumerate 0 calls)) v = v"
      using same by (intro on_array_same) (simp add: get_array_def)
  qed
qed

subsubsection \<open>Missing and orphaned results\<close>

lemma role_empty_result [simp]: "role_of (empty_result i) = ''tool''"
  and id_empty_result [simp]: "get_str (empty_result i) ''tool_call_id'' = Some i"
  and calls_empty_result [simp]: "get_array (empty_result i) ''tool_calls'' = None"
  by (simp_all add: empty_result_def jobj_def role_of_def get_str_def get_array_def)

lemma call_ids_tool [simp]: "role_of m = ''tool'' \<Longrightarrow> call_ids m = []"
  by (simp add: call_ids_def)

lemma declared_append [simp]: "declared_ids (xs @ ys) = declared_ids xs @ declared_ids ys"
  by (simp add: declared_ids_def)

lemma answered_append [simp]: "answered_ids (xs @ ys) = answered_ids xs @ answered_ids ys"
  by (induction xs) (simp_all add: answered_ids_def map_filter_simps split: option.split)

lemma declared_tools: "\<forall>m \<in> set ms. role_of m = ''tool'' \<Longrightarrow> declared_ids ms = []"
  by (simp add: declared_ids_def)

lemma answered_set: "set (answered_ids ms) = {i. \<exists>m \<in> set ms. role_of m = ''tool'' \<and> get_str m ''tool_call_id'' = Some i}"
  by (auto simp: answered_ids_def set_map_filter)

lemma split_take_drop: "declared_ids ms = declared_ids (take i ms) @ declared_ids (drop i ms)"
  "set (answered_ids ms) = set (answered_ids (take i ms)) \<union> set (answered_ids (drop i ms))"
  by (metis append_take_drop_id declared_append, metis append_take_drop_id answered_append set_append)

lemma add_missing_shape:
  obtains i missing where "add_missing_results ms = take i ms @ missing @ drop i ms"
    and "\<forall>m \<in> set missing. \<exists>j. m = empty_result j"
    and "set (declared_ids ms) \<subseteq> set (answered_ids ms) \<union> set (answered_ids missing)"
proof -
  let ?missing = "map empty_result
    (filter (\<lambda>i. i \<notin> set (answered_ids ms)) (dedup_seen [] (declared_ids ms)))"
  have sub: "set (declared_ids ms) \<subseteq> set (answered_ids ms) \<union> set (answered_ids ?missing)"
    by (auto simp: answered_set)
  show thesis
  proof (cases "?missing = []")
    case True
    with sub show ?thesis
      by (intro that [of 0 "[]"]) (simp_all add: add_missing_results_def Let_def)
  next
    case False
    with sub show ?thesis
      by (intro that [of "insert_index declares_calls ms" ?missing])
        (auto simp: add_missing_results_def Let_def)
  qed
qed

lemma add_missing_answers:
  "set (declared_ids (add_missing_results ms)) = set (declared_ids ms)
   \<and> set (declared_ids ms) \<subseteq> set (answered_ids (add_missing_results ms))"
proof -
  obtain i missing where r: "add_missing_results ms = take i ms @ missing @ drop i ms"
    and e: "\<forall>m \<in> set missing. \<exists>j. m = empty_result j"
    and sub: "set (declared_ids ms) \<subseteq> set (answered_ids ms) \<union> set (answered_ids missing)"
    by (rule add_missing_shape)
  have "declared_ids missing = []" using e by (intro declared_tools) auto
  with r sub split_take_drop [of ms i] show ?thesis by auto
qed

lemma add_missing_same: "set (declared_ids ms) \<subseteq> set (answered_ids ms) \<Longrightarrow> add_missing_results ms = ms"
  by (auto simp: add_missing_results_def Let_def filter_empty_conv)

lemma add_missing_others:
  "filter (\<lambda>m. role_of m \<noteq> ''tool'') (add_missing_results ms) = filter (\<lambda>m. role_of m \<noteq> ''tool'') ms"
proof -
  obtain i missing where r: "add_missing_results ms = take i ms @ missing @ drop i ms"
    and e: "\<forall>m \<in> set missing. \<exists>j. m = empty_result j" by (rule add_missing_shape)
  have "filter (\<lambda>m. role_of m \<noteq> ''tool'') missing = []" using e by (auto simp: filter_empty_conv)
  then have "filter (\<lambda>m. role_of m \<noteq> ''tool'') (add_missing_results ms)
      = filter (\<lambda>m. role_of m \<noteq> ''tool'') (take i ms @ drop i ms)"
    unfolding r filter_append by simp
  then show ?thesis unfolding append_take_drop_id .
qed

definition strip_orphans :: "json list \<Rightarrow> json list" where
  "strip_orphans ms = filter (\<lambda>m. \<not> is_orphan (declared_ids ms) m) ms"

lemma declared_filter:
  "(\<And>m. m \<in> set ms \<Longrightarrow> \<not> P m \<Longrightarrow> role_of m = ''tool'') \<Longrightarrow> declared_ids (filter P ms) = declared_ids ms"
  by (induction ms) (auto simp: declared_ids_def)

lemma declared_strip [simp]: "declared_ids (strip_orphans ms) = declared_ids ms"
  unfolding strip_orphans_def by (rule declared_filter) (simp add: is_orphan_def)

lemma answered_strip: "set (answered_ids (strip_orphans ms)) = set (answered_ids ms) \<inter> set (declared_ids ms)"
  by (auto simp: answered_set strip_orphans_def is_orphan_def split: option.splits)

lemma strip_same: "set (answered_ids ms) \<subseteq> set (declared_ids ms) \<Longrightarrow> strip_orphans ms = ms"
  unfolding strip_orphans_def
  by (intro filter_True) (auto simp: is_orphan_def answered_set split: option.splits)

lemma strip_others:
  "filter (\<lambda>m. role_of m \<noteq> ''tool'') (strip_orphans ms) = filter (\<lambda>m. role_of m \<noteq> ''tool'') ms"
  unfolding strip_orphans_def by (auto simp: is_orphan_def intro!: filter_cong)

text \<open>The three passes as one function on the messages.\<close>

definition hygiene :: "json list \<Rightarrow> json list" where
  "hygiene ms = strip_orphans (add_missing_results (map (ensure_message False) ms))"

lemma on_messages_comp: "on_messages f (on_messages g body) = on_messages (\<lambda>ms. f (g ms)) body"
proof -
  have a: "on_array f (on_array g v) = on_array (\<lambda>ms. f (g ms)) v" for v by (cases v) auto
  have "map_modify k f' (map_modify k g' m) = map_modify k (\<lambda>v. f' (g' v)) m" for k f' g' and m :: json_map
    by (induction k g' m rule: map_modify.induct) auto
  then show ?thesis by (cases body) (simp_all add: on_messages_def on_key_def a)
qed

lemma tool_hygiene_eq: "tool_hygiene body = on_messages hygiene body"
  unfolding tool_hygiene_def strip_orphaned_tool_results_def fix_missing_tool_responses_def
    ensure_tool_call_ids_def on_messages_comp hygiene_def strip_orphans_def by simp

lemma hygiene_paired: "results_paired (hygiene ms)"
proof -
  let ?a = "add_missing_results (map (ensure_message False) ms)"
  have "set (declared_ids ?a) \<subseteq> set (answered_ids ?a)" using add_missing_answers by blast
  then show ?thesis by (auto simp: results_paired_def hygiene_def answered_strip)
qed

lemma calls_ok_append: "calls_ok (xs @ ys) \<longleftrightarrow> calls_ok xs \<and> calls_ok ys"
  by (auto simp: calls_ok_def)

lemma hygiene_calls: "calls_ok (hygiene ms)"
proof -
  obtain i missing where r: "add_missing_results (map (ensure_message False) ms)
      = take i (map (ensure_message False) ms) @ missing @ drop i (map (ensure_message False) ms)"
    and e: "\<forall>m \<in> set missing. \<exists>j. m = empty_result j" by (rule add_missing_shape)
  have "calls_ok missing" using e by (auto simp: calls_ok_def)
  moreover have "calls_ok (take i ms')" "calls_ok (drop i ms')" if "calls_ok ms'" for ms'
    using that by (auto simp: calls_ok_def dest: in_set_takeD in_set_dropD)
  ultimately have "calls_ok (add_missing_results (map (ensure_message False) ms))"
    unfolding r using calls_ok_ensure [of ms] by (simp add: calls_ok_append)
  then show ?thesis by (auto simp: calls_ok_def hygiene_def strip_orphans_def)
qed

lemma hygiene_again: "hygiene (hygiene ms) = hygiene ms"
  using hygiene_paired [of ms] ensure_same [OF hygiene_calls [of ms]]
  by (simp add: hygiene_def [of "hygiene ms"] results_paired_def add_missing_same strip_same)

lemma hygiene_others:
  "filter (\<lambda>m. role_of m \<noteq> ''tool'') (hygiene ms)
     = map (ensure_message False) (filter (\<lambda>m. role_of m \<noteq> ''tool'') ms)"
  by (simp add: hygiene_def strip_others add_missing_others filter_map comp_def)

lemma normalize_gateway_request_body:
  "nr_body (normalize_gateway_request show_f64 body opts) =
     tool_hygiene (if no_client_hint opts = Some ClaudeCode
       then fst (through_object remap_claude_tool_names_in_request (shape_phases show_f64 body opts) [])
       else shape_phases show_f64 body opts)"
  by (simp add: normalize_gateway_request_def Let_def split: prod.split)

subsection \<open>Properties\<close>

text \<open>(C17) Calls and results pair up in every request that leaves the normalizer, whatever the client
  sent: every tool call has an id and a position, every id an assistant turn declares has a result
  and every result that names an id answers a declared one; a further pass changes nothing. The
  repair touches tool results only: all other messages survive in order, with their calls
  completed.\<close>

theorem normalized_tool_results_pair:
  "(\<forall>ms. messages_of (nr_body (normalize_gateway_request show_f64 body opts)) = Some ms \<longrightarrow>
      results_paired ms \<and> calls_ok ms)
   \<and> tool_hygiene (nr_body (normalize_gateway_request show_f64 body opts))
      = nr_body (normalize_gateway_request show_f64 body opts)
   \<and> (\<forall>ms. messages_of body = Some ms \<longrightarrow>
        (\<exists>ms'. messages_of (tool_hygiene body) = Some ms'
          \<and> filter (\<lambda>m. role_of m \<noteq> ''tool'') ms'
              = map (ensure_message False) (filter (\<lambda>m. role_of m \<noteq> ''tool'') ms)))"
proof -
  obtain b where "nr_body (normalize_gateway_request show_f64 body opts) = tool_hygiene b"
    by (metis normalize_gateway_request_body)
  then show ?thesis
    using hygiene_paired hygiene_calls hygiene_others
    by (auto simp: tool_hygiene_eq on_messages_comp hygiene_again)
qed

theorem normalized_tool_results_pair_witness:
  "\<exists>ms'. messages_of (tool_hygiene (JObject [(''messages'', JArray [jobj [(''role'', JString ''user'')]])])) = Some ms'
     \<and> filter (\<lambda>m. role_of m \<noteq> ''tool'') ms' = [jobj [(''role'', JString ''user'')]]"
proof -
  have "messages_of (JObject [(''messages'', JArray [jobj [(''role'', JString ''user'')]])])
      = Some [jobj [(''role'', JString ''user'')]]"
    by (simp add: get_array_def)
  from normalized_tool_results_pair [THEN conjunct2, THEN conjunct2, rule_format, OF this]
  show ?thesis by (simp add: role_of_def get_str_def jobj_def ensure_message_def on_key_def)
qed

subsection \<open>Roles\<close>

lemma map_state_keeps:
  "(\<And>x s. g (fst (f x s)) = g x) \<Longrightarrow> map g (fst (map_state f xs s)) = map g xs"
  by (induction f xs s rule: map_state.induct) (auto split: prod.splits, metis fst_conv)

lemma through_key_get: "k' \<noteq> k \<Longrightarrow> map_get (fst (through_key k f m s)) k' = map_get m k'"
  by (auto simp: through_key_def split: option.split prod.split)

lemma through_object_get:
  "(\<And>m s. map_get (fst (f m s)) k = map_get m k) \<Longrightarrow> json_get (fst (through_object f j s)) k = json_get j k"
  by (cases j) (auto split: prod.split, metis fst_conv)

lemma rename_keeps_roles:
  assumes "messages_of (JObject (fst (remap_claude_tool_names_in_request m names))) = Some ms"
  shows "\<exists>ms0. messages_of (JObject m) = Some ms0 \<and> map role_of ms = map role_of ms0"
proof -
  define g where "g = through_object (through_key ''content'' (through_array (through_object rename_block)))"
  have role: "role_of (fst (g x s)) = role_of x" for x s
    unfolding g_def role_of_def get_str_def
    by (subst through_object_get) (simp_all add: through_key_get)
  obtain b1 n1 where b1: "through_key ''tools'' (through_array (through_object rename_tool)) m names = (b1, n1)"
    by fastforce
  obtain b2 n2 where b2: "through_key ''messages'' (through_array g) b1 n1 = (b2, n2)" by fastforce
  have "map_get b1 ''messages'' = map_get m ''messages''"
    using through_key_get [of "''messages''" "''tools''" "through_array (through_object rename_tool)" m names] b1
    by simp
  moreover have "map_get (fst (remap_claude_tool_names_in_request m names)) ''messages'' = map_get b2 ''messages''"
    using b1 b2 by (simp add: remap_claude_tool_names_in_request_def g_def through_key_get)
  moreover have "Option.bind (map_get b2 ''messages'') as_array
      = (case map_get b1 ''messages'' of
           Some (JArray xs) \<Rightarrow> Some (fst (map_state g xs n1)) | _ \<Rightarrow> None)"
    using b2 by (auto simp: through_key_def split: option.splits prod.splits json.splits)
  ultimately show ?thesis
    using assms map_state_keeps [of role_of g, OF role]
    by (auto simp: get_array_def split: option.splits json.splits)
qed

lemma roles_array_content: "map role_of (ensure_array_content ms) = map role_of ms"
  by (auto simp: ensure_array_content_def split: option.split)

lemma roles_hygiene: "set (map role_of (hygiene ms)) \<subseteq> insert ''tool'' (set (map role_of ms))"
proof
  fix r assume "r \<in> set (map role_of (hygiene ms))"
  then obtain m where m: "m \<in> set (hygiene ms)" "r = role_of m" by auto
  show "r \<in> insert ''tool'' (set (map role_of ms))"
  proof (cases "role_of m = ''tool''")
    case False
    with m have "m \<in> set (filter (\<lambda>m. role_of m \<noteq> ''tool'') (hygiene ms))" by simp
    with m(2) show ?thesis by (auto simp: hygiene_others)
  qed (use m in simp)
qed

lemma messages_tools_phase [simp]: "messages_of (tools_phase body) = messages_of body"
  by (auto simp: tools_phase_def split: option.split)

lemma messages_shape_phases:
  assumes "messages_of (shape_phases show_f64 body opts) = Some ms"
  obtains ms0 where "ms = ensure_array_content (hygiene (role_phase opts
    (target_of (no_target_provider opts)) (target_of (no_target_model opts)) ms0))"
  using assms by (auto simp: shape_phases_def Let_def tool_hygiene_eq)

text \<open>The roles of a normalized body are those its role phase left, and \<open>tool\<close>.\<close>

lemma normalized_roles:
  assumes "messages_of (nr_body (normalize_gateway_request show_f64 body opts)) = Some ms"
  obtains ms0 where "set (map role_of ms) \<subseteq> insert ''tool'' (set (map role_of (role_phase opts
    (target_of (no_target_provider opts)) (target_of (no_target_model opts)) ms0)))"
proof -
  let ?b6 = "shape_phases show_f64 body opts"
  obtain ms7 ms6 where ms: "ms = hygiene ms7" and b6: "messages_of ?b6 = Some ms6"
    and roles: "map role_of ms7 = map role_of ms6"
  proof (cases "no_client_hint opts = Some ClaudeCode \<and> is_object ?b6")
    case True
    then obtain m where m: "?b6 = JObject m" by (cases ?b6) auto
    with True assms obtain ms7 where "ms = hygiene ms7"
      "messages_of (JObject (fst (remap_claude_tool_names_in_request m []))) = Some ms7"
      by (auto simp: normalize_gateway_request_body tool_hygiene_eq split: prod.splits)
    with rename_keeps_roles [OF this(2)] that m show ?thesis by auto
  next
    case False
    then have "fst (through_object remap_claude_tool_names_in_request ?b6 []) = ?b6"
      if "no_client_hint opts = Some ClaudeCode"
      using that by (cases ?b6) auto
    with assms that show ?thesis
      by (auto simp: normalize_gateway_request_body tool_hygiene_eq split: if_splits)
  qed
  obtain ms0 where ms6: "ms6 = ensure_array_content (hygiene (role_phase opts
      (target_of (no_target_provider opts)) (target_of (no_target_model opts)) ms0))"
    by (rule messages_shape_phases [OF b6])
  have "set (map role_of ms) \<subseteq> insert ''tool'' (set (map role_of ms6))"
    using roles_hygiene [of ms7] roles ms by simp
  moreover have "set (map role_of ms6) \<subseteq> insert ''tool'' (set (map role_of (role_phase opts
      (target_of (no_target_provider opts)) (target_of (no_target_model opts)) ms0)))"
    unfolding ms6 roles_array_content by (rule roles_hygiene)
  ultimately show thesis using that by blast
qed

lemma extract_mset:
  "List.extract P xs = Some (ys, x, zs) \<Longrightarrow> mset (x # ys @ zs) = mset xs \<and> P x"
  by (auto simp: extract_Some_iff)

lemma mset_hoist [simp]: "mset (hoist_leading_system_message ms) = mset ms"
  by (auto simp: hoist_leading_system_message_def split: option.split dest: extract_mset)

lemma set_hoist [simp]: "set (hoist_leading_system_message ms) = set ms"
  by (metis mset_hoist set_mset_mset)

lemma hoist_leads:
  "m \<in> set ms \<Longrightarrow> role_of m = ''system'' \<Longrightarrow>
     hoist_leading_system_message ms \<noteq> [] \<and> role_of (hd (hoist_leading_system_message ms)) = ''system''"
  by (auto simp: hoist_leading_system_message_def extract_None_iff split: option.split dest: extract_mset)

lemma roles_update_first:
  "(\<And>x. role_of (f x) = role_of x) \<Longrightarrow> map role_of (update_first P f xs) = map role_of xs"
  by (induction xs) auto

lemma update_first_member:
  "\<exists>x \<in> set xs. P x \<Longrightarrow> \<exists>x \<in> set xs. P x \<and> f x \<in> set (update_first P f xs)"
  by (induction xs) auto

lemma normalize_system_role_eq:
  assumes "\<not> supports_system_role provider model" and "\<exists>m \<in> set ms. is_systemish m"
  shows "normalize_system_role provider model ms =
    (let sys = system_content ms; non_system = filter (\<lambda>m. \<not> is_systemish m) ms
     in if sys = [] then non_system
        else if \<exists>m \<in> set non_system. role_of m = ''user'' then
          update_first (\<lambda>m. role_of m = ''user'')
            (\<lambda>m. set_key ''content'' (JString (''[System Instructions]'' @ newline @ sys @ newline
                   @ newline @ ''[User Message]'' @ newline
                   @ extract_text_from_content (content_or_null m))) m)
            non_system
        else jobj [(''role'', JString ''user''),
                   (''content'', JString (''[System Instructions]'' @ newline @ sys))] # non_system)"
  using assms by (auto simp: normalize_system_role_def)

lemma if_cases: "P x \<Longrightarrow> P y \<Longrightarrow> P (if b then x else y)"
  by simp

lemma no_systemish_after:
  assumes "\<not> supports_system_role provider model"
  shows "\<forall>m \<in> set (normalize_system_role provider model ms). \<not> is_systemish m"
proof (cases "\<exists>m \<in> set ms. is_systemish m")
  case False
  then have "normalize_system_role provider model ms = ms"
    by (simp only: normalize_system_role_def if_False if_True simp_thms if_cancel)
  with False show ?thesis by simp
next
  case True
  let ?n = "filter (\<lambda>m. \<not> is_systemish m) ms"
  have out: "\<forall>m \<in> set xs. \<not> is_systemish m" if "map role_of xs = map role_of ?n" for xs
  proof
    fix m assume "m \<in> set xs"
    then have "role_of m \<in> set (map role_of ?n)" unfolding that [symmetric] by simp
    then show "\<not> is_systemish m" by (auto simp: is_systemish_def)
  qed
  have user: "\<not> is_systemish (jobj [(''role'', JString ''user''), (''content'', c)])" for c
    by (simp add: is_systemish_def jobj_def role_of_def get_str_def)
  define f where "f = (\<lambda>m. set_key ''content'' (JString (''[System Instructions]'' @ newline
      @ system_content ms @ newline @ newline @ ''[User Message]'' @ newline
      @ extract_text_from_content (content_or_null m))) m)"
  have role: "role_of (f m) = role_of m" for m by (simp add: f_def)
  note eq = normalize_system_role_eq [OF assms True, unfolded Let_def, folded f_def]
  have a: "\<forall>m \<in> set (update_first P f ?n). \<not> is_systemish m" for P
    by (rule out) (rule roles_update_first [OF role])
  have b: "\<forall>m \<in> set ?n. \<not> is_systemish m" by simp
  have c: "\<forall>m \<in> set (jobj [(''role'', JString ''user''), (''content'', x)] # ?n). \<not> is_systemish m" for x
    using b user by simp
  show ?thesis
    unfolding eq by (rule if_cases [where P = "\<lambda>xs. \<forall>m \<in> set xs. \<not> is_systemish m"], rule b,
      rule if_cases [where P = "\<lambda>xs. \<forall>m \<in> set xs. \<not> is_systemish m"], rule a, rule c)
qed

lemma system_text_is_carried:
  assumes "\<not> supports_system_role provider model" and "system_content ms \<noteq> []"
  shows "\<exists>m \<in> set (normalize_system_role provider model ms). role_of m = ''user''
    \<and> (\<exists>c. get_str m ''content'' = Some c \<and> contains c (system_content ms))"
proof -
  have True: "\<exists>m \<in> set ms. is_systemish m"
  proof (rule ccontr)
    assume "\<not> (\<exists>m \<in> set ms. is_systemish m)"
    then have "filter is_systemish ms = []" by (simp add: filter_empty_conv)
    with assms(2) show False by (simp add: system_content_def)
  qed
  let ?n = "filter (\<lambda>m. \<not> is_systemish m) ms"
  define text_of where "text_of = (\<lambda>m. ''[System Instructions]'' @ newline
      @ system_content ms @ newline @ newline @ ''[User Message]'' @ newline
      @ extract_text_from_content (content_or_null m))"
  define f where "f = (\<lambda>m. set_key ''content'' (JString (text_of m)) m)"
  note eq = normalize_system_role_eq [OF assms(1) True, unfolded Let_def, folded text_of_def,
      folded f_def]
  show ?thesis
  proof (cases "\<exists>m \<in> set ?n. role_of m = ''user''")
    case user: True
    then obtain x where x: "x \<in> set ?n" "role_of x = ''user''"
      and fx: "f x \<in> set (update_first (\<lambda>m. role_of m = ''user'') f ?n)"
      using update_first_member [OF user, of f] by blast
    have "as_object x \<noteq> None" using x(2) by (cases x) (auto simp: role_of_def get_str_def)
    then have "get_str (f x) ''content'' = Some (text_of x)" by (simp add: f_def get_str_def)
    moreover have "contains (text_of x) (system_content ms)"
      unfolding contains_iff text_of_def by (metis append.assoc)
    moreover have "role_of (f x) = ''user''" using x(2) by (simp add: f_def)
    moreover have "normalize_system_role provider model ms
        = update_first (\<lambda>m. role_of m = ''user'') f ?n"
      unfolding eq f_def text_of_def using assms(2) user by (simp only: if_False if_True)
    ultimately show ?thesis using fx by metis
  next
    case False
    define c where "c = ''[System Instructions]'' @ newline @ system_content ms"
    have "normalize_system_role provider model ms
        = jobj [(''role'', JString ''user''), (''content'', JString c)] # ?n"
      unfolding eq c_def using assms(2) False by (simp only: if_False)
    moreover have "contains c (system_content ms)"
      unfolding contains_iff c_def by (metis append.assoc append_Nil2)
    ultimately show ?thesis by (simp add: jobj_def role_of_def get_str_def)
  qed
qed

text \<open>The system role reaches only targets that know it. For a target without it no message
  of a normalized request has the role \<open>system\<close> or \<open>developer\<close>, and the text of the system messages
  is not lost: a user message contains it. For a target that has it no message is lost or added and
  a system message leads.\<close>

theorem system_role_reaches_only_who_knows_it:
  assumes "provider = target_of (no_target_provider opts)" and "model = target_of (no_target_model opts)"
    and "marked = normalize_developer_role ''openai'' (no_preserve_developer_role opts) provider
           (normalize_model_role ms0)"
  shows "if supports_system_role provider model
    then mset (role_phase opts provider model ms0) = mset marked
      \<and> ((\<exists>m \<in> set marked. role_of m = ''system'') \<longrightarrow>
           role_of (hd (role_phase opts provider model ms0)) = ''system'')
    else (\<forall>body ms. messages_of (nr_body (normalize_gateway_request show_f64 body opts)) = Some ms \<longrightarrow>
           (\<forall>m \<in> set ms. \<not> is_systemish m))
      \<and> (system_content marked \<noteq> [] \<longrightarrow>
           (\<exists>m \<in> set (role_phase opts provider model ms0). role_of m = ''user''
              \<and> (\<exists>c. get_str m ''content'' = Some c \<and> contains c (system_content marked))))"
proof (cases "supports_system_role provider model")
  case True
  have phase: "role_phase opts provider model ms0 = hoist_leading_system_message marked"
    by (simp add: role_phase_def assms(3) [symmetric] normalize_system_role_def True)
  show ?thesis
    unfolding if_P [OF True] phase using hoist_leads [of _ marked] by (intro conjI impI) auto
next
  case False
  have gone: "\<not> is_systemish m"
    if n: "messages_of (nr_body (normalize_gateway_request show_f64 body opts)) = Some ms"
      and m: "m \<in> set ms" for body ms m
  proof -
    obtain ms1 where sub: "set (map role_of ms) \<subseteq>
        insert ''tool'' (set (map role_of (role_phase opts provider model ms1)))"
      using normalized_roles [OF n] unfolding assms(1,2) by blast
    have "\<forall>m \<in> set (role_phase opts provider model ms1). \<not> is_systemish m"
      using no_systemish_after [OF False] by (simp add: role_phase_def)
    then have "r \<noteq> ''system'' \<and> r \<noteq> ''developer''"
      if "r \<in> set (map role_of (role_phase opts provider model ms1))" for r
      using that unfolding is_systemish_def by fastforce
    moreover have "role_of m \<in> insert ''tool'' (set (map role_of (role_phase opts provider model ms1)))"
      using sub m by auto
    ultimately have "role_of m = ''tool'' \<or> role_of m \<noteq> ''system'' \<and> role_of m \<noteq> ''developer''"
      by (metis insert_iff)
    then show ?thesis by (elim disjE) (simp_all add: is_systemish_def)
  qed
  have phase: "set (role_phase opts provider model ms0) = set (normalize_system_role provider model marked)"
    by (simp add: role_phase_def assms(3))
  show ?thesis
    unfolding if_not_P [OF False] phase
    using gone system_text_is_carried [OF False, of marked] by (intro conjI impI allI ballI)
qed

theorem system_role_reaches_only_who_knows_it_witness:
  "\<exists>m. role_of m = ''user'' \<and> (\<exists>c. get_str m ''content'' = Some c \<and> contains c ''s'')
     \<and> m \<in> set (role_phase \<lparr>no_client_hint = None, no_target_provider = Some ''ddgw'',
         no_target_model = None, no_preserve_developer_role = None, no_preserve_cache_control = None\<rparr>
         ''ddgw'' [] [jobj [(''role'', JString ''system''), (''content'', JString ''s'')]])"
proof -
  let ?o = "\<lparr>no_client_hint = None, no_target_provider = Some ''ddgw'', no_target_model = None,
        no_preserve_developer_role = None, no_preserve_cache_control = None\<rparr>"
  let ?ms = "[jobj [(''role'', JString ''system''), (''content'', JString ''s'')]]"
  let ?marked = "normalize_developer_role ''openai'' (no_preserve_developer_role ?o)
    (target_of (no_target_provider ?o)) (normalize_model_role ?ms)"
  have no: "\<not> supports_system_role (target_of (no_target_provider ?o)) (target_of (no_target_model ?o))"
    by code_simp
  have text_of: "system_content ?marked = ''s''"
    by code_simp
  have target: "target_of (no_target_provider ?o) = ''ddgw''" "target_of (no_target_model ?o) = []"
    by code_simp+
  from system_role_reaches_only_who_knows_it [OF refl refl refl, of ?o ?ms "\<lambda>_. []",
      unfolded if_not_P [OF no] text_of]
  show ?thesis unfolding target by blast
qed

end
