(* ===== verification/Manifest_View.thy ===== *)
theory Manifest_View
  imports Json
begin

text \<open>
  The interpreter's view of a provider manifest (\<open>manifest_view.rs\<close>) and the requests and responses
  of the HTTP port (\<open>http_port.rs\<close>). Reading a stored manifest into the view is \<open>serde\<close>'s derived
  deserialiser: the view is an argument of the interpreter.
\<close>

subsection \<open>Authentication and catalogue\<close>

record auth_header =
  ah_name :: string
  ah_prefix :: "string option"

record provider_view =
  pv_base_url :: string
  pv_auth_headers :: "auth_header list"

record model_map =
  mm_models :: string
  mm_raw :: "string option"

record list_models_endpoint =
  lm_path :: string
  lm_headers :: "(string \<times> string) list"
  lm_map :: model_map

subsection \<open>Text endpoints\<close>

record usage_keys =
  uk_prompt :: string
  uk_completion :: string
  uk_cached :: "string option"

record tool_call_discriminator =
  td_path :: string
  td_equals :: "json option"
  td_present :: "bool option"

record tool_call_shape =
  sh_discriminator :: "tool_call_discriminator option"
  sh_id :: "string option"
  sh_name :: string
  sh_arguments :: string
  sh_arguments_format :: "string option"
  sh_streamed_as :: "string option"

record response_map =
  rm_text :: string
  rm_usage :: "string option"
  rm_tool_calls :: "string option"
  rm_tool_call_shape :: "tool_call_shape option"
  rm_usage_keys :: "usage_keys option"

record chunk_map =
  cm_delta :: string
  cm_tool_calls :: "string option"

record condition =
  cn_path :: string
  cn_equals :: json

record start_event =
  se_when :: condition
  se_id :: "string option"
  se_name :: "string option"
  se_index :: "string option"

record delta_event =
  de_when :: condition
  de_partial :: string
  de_index :: "string option"

record tool_call_stream =
  mc_start :: start_event
  mc_delta :: delta_event

record stream_spec =
  ss_chunk_map :: chunk_map
  ss_error_map :: json_map
  ss_finish :: "string option"
  ss_stop_when :: "condition option"
  ss_tool_call_stream :: "tool_call_stream option"
  ss_request_usage :: "bool option"

record text_endpoint =
  tx_path :: string
  tx_stream_path :: "string option"
  tx_headers :: "(string \<times> string) list"
  tx_request_template :: json_map
  tx_tool_choice_map :: "json_map option"
  tx_messages_role_map :: "json_map option"
  tx_system_field :: "string option"
  tx_content_part_templates :: "json_map option"
  tx_content_field :: "string option"
  tx_tool_declaration_templates :: "json_map option"
  tx_tool_declaration_wrapper :: "json_map option"
  tx_response_finish :: "string option"
  tx_response_finish_map :: "json_map option"
  tx_response_map :: response_map
  tx_stream :: "stream_spec option"

subsection \<open>Image endpoints and the manifest\<close>

record image_response_map =
  im_image_b64 :: "string option"
  im_image_url :: "string option"

record image_endpoint =
  ie_path :: string
  ie_headers :: "(string \<times> string) list"
  ie_request_template :: json_map
  ie_response_map :: image_response_map

record endpoints =
  ep_list_models :: "list_models_endpoint option"
  ep_generate_text :: "text_endpoint option"
  ep_generate_image :: "image_endpoint option"

record capabilities =
  cap_text :: bool
  cap_image :: bool

record limits =
  li_max_output_tokens :: "nat option"

record manifest_view =
  mv_dialect :: string
  mv_provider :: provider_view
  mv_endpoints :: endpoints
  mv_capabilities :: capabilities
  mv_limits :: "limits option"

definition OPENAI_CHAT_V1 :: string where
  "OPENAI_CHAT_V1 = ''openai-chat-v1''"

subsection \<open>The HTTP port\<close>

datatype http_method = Get | Post

fun method_str :: "http_method \<Rightarrow> string" where
  "method_str Get = ''GET''"
| "method_str Post = ''POST''"

record http_request =
  hq_url :: string
  hq_method :: http_method
  hq_headers :: "(string \<times> string) list"
  hq_body :: "string option"
  hq_secret_ref :: "string option"
  hq_stream :: bool

datatype http_error_kind = HttpTransport | HttpDenied

record http_error =
  he_message :: string
  he_kind :: http_error_kind

text \<open>The lines of a response are what the stream will yield, in order.\<close>

record http_response =
  hr_status :: nat
  hr_headers :: "(string \<times> string) list"
  hr_body :: string
  hr_lines :: "(http_error + string) list option"

end
