(* ===== verification/Template.thy ===== *)
theory Template
  imports Json
begin

text \<open>
  Request templates of a provider manifest (\<open>core/template.rs\<close>): a string that is entirely
  \<open>{{key}}\<close> or \<open>{{key?}}\<close> stands for a value of the call, everything else is a literal.
\<close>

datatype template_error = MissingRequired string string

text \<open>JavaScript's white space: U+0009..000D, U+0020, U+00A0, U+1680, U+2000..200A, U+2028, U+2029,
  U+202F, U+205F, U+3000 and U+FEFF, each as its UTF-8 bytes.\<close>

definition is_js_whitespace :: "string \<Rightarrow> bool" where
  "is_js_whitespace u \<longleftrightarrow> u \<in> set
     ([[CHR 0x09], [CHR 0x0A], [CHR 0x0B], [CHR 0x0C], [CHR 0x0D], [CHR 0x20], [CHR 0xC2, CHR 0xA0],
       [CHR 0xE1, CHR 0x9A, CHR 0x80], [CHR 0xE2, CHR 0x80, CHR 0xA8], [CHR 0xE2, CHR 0x80, CHR 0xA9],
       [CHR 0xE2, CHR 0x80, CHR 0xAF], [CHR 0xE2, CHR 0x81, CHR 0x9F], [CHR 0xE3, CHR 0x80, CHR 0x80],
       [CHR 0xEF, CHR 0xBB, CHR 0xBF]]
      @ map (\<lambda>b. [CHR 0xE2, CHR 0x80, b])
          [CHR 0x80, CHR 0x81, CHR 0x82, CHR 0x83, CHR 0x84, CHR 0x85, CHR 0x86, CHR 0x87, CHR 0x88,
           CHR 0x89, CHR 0x8A])"

definition is_key_char :: "char \<Rightarrow> bool" where
  "is_key_char c \<longleftrightarrow>
     (48 \<le> (of_char c :: nat) \<and> (of_char c :: nat) \<le> 57)
     \<or> (65 \<le> (of_char c :: nat) \<and> (of_char c :: nat) \<le> 90)
     \<or> (97 \<le> (of_char c :: nat) \<and> (of_char c :: nat) \<le> 122) \<or> c = CHR ''_''"

definition parse_placeholder :: "string \<Rightarrow> (string \<times> bool) option" where
  "parse_placeholder s =
     Option.bind (strip_prefix ''{{'' s) (\<lambda>t. Option.bind (strip_suffix ''}}'' t) (\<lambda>u.
       let inner = trim_start_matches is_js_whitespace u;
           key = takeWhile is_key_char inner;
           after_key = dropWhile is_key_char inner;
           after_question = strip_prefix ''?'' after_key;
           tail = (case after_question of Some r \<Rightarrow> r | None \<Rightarrow> after_key)
       in if key = [] then None
          else if trim_end_matches is_js_whitespace tail = [] then Some (key, after_question \<noteq> None)
          else None))"

text \<open>The loop over the fields, with the map built so far.\<close>

function render_fields ::
  "json_map \<Rightarrow> (string \<times> json) list \<Rightarrow> json_map \<Rightarrow> template_error + json_map" where
  "render_fields vals [] out = Inr out"
| "render_fields vals ((field, tpl) # rest) out =
     (case tpl of
        JObject nested \<Rightarrow>
          (case render_fields vals nested [] of
             Inl e \<Rightarrow> Inl e
           | Inr rendered \<Rightarrow> render_fields vals rest (map_insert field (JObject rendered) out))
      | JString text \<Rightarrow>
          (case parse_placeholder text of
             None \<Rightarrow> render_fields vals rest (map_insert field tpl out)
           | Some (key, optional) \<Rightarrow>
               (case map_get vals key of
                  Some v \<Rightarrow>
                    (if v = JNull
                     then if optional then render_fields vals rest out
                          else Inl (MissingRequired key field)
                     else render_fields vals rest (map_insert field v out))
                | None \<Rightarrow>
                    (if optional then render_fields vals rest out
                     else Inl (MissingRequired key field))))
      | _ \<Rightarrow> render_fields vals rest (map_insert field tpl out))"
  by pat_completeness auto
termination
  by (relation "measure (\<lambda>(_, t, _). size_list (size_prod (\<lambda>_. 0) size) t)") auto

definition render_template :: "json_map \<Rightarrow> json_map \<Rightarrow> template_error + json_map" where
  "render_template template vals = render_fields vals template []"

subsection \<open>What a template means\<close>

text \<open>A value the call has.\<close>

definition has_value :: "json_map \<Rightarrow> string \<Rightarrow> bool" where
  "has_value vals key \<longleftrightarrow> map_get vals key \<noteq> None \<and> map_get vals key \<noteq> Some JNull"

text \<open>The first required placeholder without a value, in the order of the fields, depth first.\<close>

function first_missing :: "json_map \<Rightarrow> (string \<times> json) list \<Rightarrow> template_error option" where
  "first_missing vals [] = None"
| "first_missing vals ((field, tpl) # rest) =
     (case (case tpl of
              JObject nested \<Rightarrow> first_missing vals nested
            | JString text \<Rightarrow>
                (case parse_placeholder text of
                   Some (key, False) \<Rightarrow>
                     if has_value vals key then None else Some (MissingRequired key field)
                 | _ \<Rightarrow> None)
            | _ \<Rightarrow> None) of
        Some e \<Rightarrow> Some e
      | None \<Rightarrow> first_missing vals rest)"
  by pat_completeness auto
termination
  by (relation "measure (\<lambda>(_, t). size_list (size_prod (\<lambda>_. 0) size) t)") auto

text \<open>What the fields become: a literal stays, a placeholder is the value of the call or nothing.\<close>

function resolve_fields :: "json_map \<Rightarrow> (string \<times> json) list \<Rightarrow> (string \<times> json) list" where
  "resolve_fields vals [] = []"
| "resolve_fields vals ((field, tpl) # rest) =
     (case (case tpl of
              JObject nested \<Rightarrow> Some (JObject (resolve_fields vals nested))
            | JString text \<Rightarrow>
                (case parse_placeholder text of
                   None \<Rightarrow> Some tpl
                 | Some (key, _) \<Rightarrow> if has_value vals key then map_get vals key else None)
            | _ \<Rightarrow> Some tpl) of
        Some v \<Rightarrow> (field, v) # resolve_fields vals rest
      | None \<Rightarrow> resolve_fields vals rest)"
  by pat_completeness auto
termination
  by (relation "measure (\<lambda>(_, t). size_list (size_prod (\<lambda>_. 0) size) t)") auto

text \<open>Every object of the template is a map.\<close>

function template_ok :: "(string \<times> json) list \<Rightarrow> bool" where
  "template_ok [] = True"
| "template_ok ((field, tpl) # rest) =
     ((\<forall>k \<in> set (map fst rest). field < k)
      \<and> (case tpl of JObject nested \<Rightarrow> template_ok nested | _ \<Rightarrow> True) \<and> template_ok rest)"
  by pat_completeness auto
termination
  by (relation "measure (size_list (size_prod (\<lambda>_. 0) size))") auto

lemma resolve_keys: "set (map fst (resolve_fields vals t)) \<subseteq> set (map fst t)"
  by (induction vals t rule: resolve_fields.induct) (auto split: option.split)

lemma render_fields_eq:
  assumes "template_ok t" and "\<forall>k \<in> set (map fst out). \<forall>k' \<in> set (map fst t). k < k'"
  shows "render_fields vals t out =
    (case first_missing vals t of
       Some e \<Rightarrow> Inl e | None \<Rightarrow> Inr (out @ resolve_fields vals t))"
  using assms
proof (induction vals t out rule: render_fields.induct)
  case (1 vals out)
  then show ?case by simp
next
  case (2 vals field tpl rest out)
  have "\<forall>k \<in> set (map fst out). k < field" using "2.prems"(2) by auto
  then have last: "map_insert field v out = out @ [(field, v)]" for v by (rule map_insert_last)
  have ok: "template_ok rest" using "2.prems"(1) by simp
  have below: "\<forall>k \<in> set (map fst (out @ [(field, v)])). \<forall>k' \<in> set (map fst rest). k < k'" for v :: json
    using "2.prems" by auto
  have skip: "\<forall>k \<in> set (map fst out). \<forall>k' \<in> set (map fst rest). k < k'"
    using "2.prems"(2) by auto
  show ?case
  proof (cases tpl)
    case (JObject nested)
    have n: "render_fields vals nested [] =
        (case first_missing vals nested of Some e \<Rightarrow> Inl e | None \<Rightarrow> Inr ([] @ resolve_fields vals nested))"
      using "2.IH" "2.prems"(1) JObject by simp
    show ?thesis
    proof (cases "first_missing vals nested")
      case None
      with "2.IH" n JObject last ok below show ?thesis by (simp cong: option.case_cong)
    next
      case (Some e)
      with n JObject show ?thesis by simp
    qed
  next
    case (JString str)
    show ?thesis
    proof (cases "parse_placeholder str")
      case None
      with "2.IH" JString last ok below show ?thesis by (simp cong: option.case_cong)
    next
      case (Some kp)
      obtain key optional where kp: "kp = (key, optional)" by (cases kp)
      show ?thesis using "2.IH" JString Some kp last ok below skip
        by (cases "map_get vals key") (auto simp: has_value_def cong: option.case_cong)
    qed
  qed (use "2.IH" last ok below in \<open>simp_all cong: option.case_cong\<close>)
qed

lemma resolve_null:
  "(k, JNull) \<in> set (resolve_fields vals t) \<Longrightarrow> (k, JNull) \<in> set t"
proof (induction vals t rule: resolve_fields.induct)
  case (2 vals field tpl rest)
  then show ?case by (auto simp: has_value_def split: option.splits json.splits if_splits)
qed simp

subsection \<open>Properties\<close>

text \<open>Rendering means what its reference says: for every template whose objects are maps, the
  call fails exactly if some required placeholder, at any depth, has no value (absent and null are
  the same), and then with the first one in document order; otherwise every literal is copied,
  every placeholder with a value is that value, and an optional one without a value leaves no
  field. So a null is sent only where the template itself has one.\<close>

theorem rendering_resolves_every_field:
  assumes "template_ok t"
  shows "render_template t vals =
      (case first_missing vals t of Some e \<Rightarrow> Inl e | None \<Rightarrow> Inr (resolve_fields vals t))
    \<and> (\<forall>out k. render_template t vals = Inr out \<longrightarrow> (k, JNull) \<in> set out \<longrightarrow> (k, JNull) \<in> set t)
    \<and> (\<forall>out. render_template t vals = Inr out \<longrightarrow> set (map fst out) \<subseteq> set (map fst t))"
proof -
  have r: "render_template t vals =
      (case first_missing vals t of Some e \<Rightarrow> Inl e | None \<Rightarrow> Inr (resolve_fields vals t))"
    using render_fields_eq [OF assms, of "[]" vals]
    by (simp add: render_template_def cong: option.case_cong)
  show ?thesis
  proof (cases "first_missing vals t")
    case None
    with r resolve_null [of _ vals t] resolve_keys [of vals t] show ?thesis by auto
  next
    case (Some e)
    with r show ?thesis by simp
  qed
qed

theorem rendering_resolves_every_field_witness:
  "render_template [(''max_tokens'', JString ''{{max_tokens?}}''), (''model'', JString ''{{ model }}'')]
       [(''max_tokens'', JNull), (''model'', JString ''m1'')]
     = Inr [(''model'', JString ''m1'')]"
  using rendering_resolves_every_field [of
      "[(''max_tokens'', JString ''{{max_tokens?}}''), (''model'', JString ''{{ model }}'')]"
      "[(''max_tokens'', JNull), (''model'', JString ''m1'')]"]
  by (simp add: has_value_def parse_placeholder_def strip_prefix_def strip_suffix_def
      trim_start_matches_def trim_end_matches_def is_js_whitespace_def is_key_char_def is_cont_def)

end
