(* ===== verification/Manifest.thy ===== *)
theory Manifest
  imports Manifest_View Adapter Template
begin

text \<open>
  The part of the declarative adapter that needs no socket (\<open>manifest.rs\<close>) and the substitution of
  the secret on the way out (\<open>inject_secret\<close> of \<open>egress.rs\<close>): headers, URLs, \<open>Retry-After\<close>, cached
  tokens and the reassembly of streamed tool calls. A \<open>BTreeMap\<close> is a list sorted by key. Two
  things of the standard library are arguments: \<open>show\<close> prints a JSON value, and \<open>parse_f64\<close> and
  \<open>to_ms\<close> are the conversion of a number of seconds (the text of an \<open>f64\<close>, and its product with a
  thousand, rounded).
\<close>

subsection \<open>Errors\<close>

definition MESSAGE_BODY_LIMIT :: nat where
  "MESSAGE_BODY_LIMIT = 400"

record manifest_http_error =
  mh_status :: nat
  mh_body :: string
  mh_kind :: failure_kind
  mh_retry_after_ms :: "nat option"

fun kind_label :: "failure_kind \<Rightarrow> string" where
  "kind_label Response = ''response''"
| "kind_label MidStream = ''mid-stream''"

text \<open>The loop over the characters with the units counted so far.\<close>

fun truncate_chars :: "string list \<Rightarrow> nat \<Rightarrow> nat \<Rightarrow> string" where
  "truncate_chars [] units lmt = []"
| "truncate_chars (ch # cs) units lmt =
     (if lmt < units + len_utf16 ch then []
      else ch @ truncate_chars cs (units + len_utf16 ch) lmt)"

definition truncate_utf16 :: "string \<Rightarrow> nat \<Rightarrow> string" where
  "truncate_utf16 body lmt = truncate_chars (chars body) 0 lmt"

definition truncate_for_message :: "string \<Rightarrow> string" where
  "truncate_for_message body = truncate_utf16 body MESSAGE_BODY_LIMIT"

definition http_error_message :: "manifest_http_error \<Rightarrow> string" where
  "http_error_message e =
     ''provider HTTP '' @ show_nat (mh_status e) @ '' ('' @ kind_label (mh_kind e) @ ''): ''
       @ truncate_for_message (mh_body e)"

definition to_attempt_error :: "manifest_http_error \<Rightarrow> attempt_error" where
  "to_attempt_error e =
     Http (mh_status e) (mh_kind e) (mh_retry_after_ms e)
       (Some (truncate_utf16 (mh_body e) MESSAGE_BODY_LIMIT))"

subsection \<open>URLs\<close>

definition is_unreserved :: "char \<Rightarrow> bool" where
  "is_unreserved c \<longleftrightarrow> is_digit c
     \<or> (65 \<le> (of_char c :: nat) \<and> (of_char c :: nat) \<le> 90)
     \<or> (97 \<le> (of_char c :: nat) \<and> (of_char c :: nat) \<le> 122)
     \<or> c \<in> set [CHR ''/'', CHR ''-'', CHR ''_'', CHR ''.'', CHR ''!'', CHR ''~'', CHR ''*'',
         CHR 0x27, CHR ''('', CHR '')'']"

text \<open>\<open>{b:02X}\<close>: two upper-case hexadecimal digits\<close>

definition hex_digit :: "nat \<Rightarrow> char" where
  "hex_digit d = (if d < 10 then char_of (48 + d) else char_of (55 + d))"

definition hex_byte :: "char \<Rightarrow> string" where
  "hex_byte c = [hex_digit (of_char c div 16), hex_digit (of_char c mod 16)]"

definition encode_byte :: "char \<Rightarrow> string" where
  "encode_byte c = (if is_unreserved c then [c] else CHR ''%'' # hex_byte c)"

definition urlencode_component :: "string \<Rightarrow> string" where
  "urlencode_component s = concat (map encode_byte s)"

definition render_path :: "string \<Rightarrow> string \<Rightarrow> string" where
  "render_path path model = str_replace ''{{model}}'' (urlencode_component model) path"

definition join_url :: "string \<Rightarrow> string \<Rightarrow> string" where
  "join_url base_url path =
     (let base = trim_end_matches (\<lambda>u. u = ''/'') base_url
      in if strip_prefix ''/'' path \<noteq> None then base @ path else base @ ''/'' @ path)"

subsection \<open>Headers\<close>

definition SENTINEL :: string where
  "SENTINEL = ''{{secret}}''"

text \<open>The value one \<open>AuthHeader\<close> gives its header.\<close>

definition auth_value :: "auth_header \<Rightarrow> string" where
  "auth_value h =
     (case ah_prefix h of
        Some p \<Rightarrow> if p \<noteq> [] then p @ '' '' @ SENTINEL else SENTINEL
      | None \<Rightarrow> SENTINEL)"

definition auth_headers :: "auth_header list \<Rightarrow> (string \<times> string) list" where
  "auth_headers hs = fold (\<lambda>h. map_insert (ah_name h) (auth_value h)) hs []"

definition parse_header_placeholder :: "string \<Rightarrow> string option" where
  "parse_header_placeholder s =
     Option.bind (strip_prefix ''{{'' s) (\<lambda>t. Option.bind (strip_suffix ''}}'' t) (\<lambda>u.
       let inner = trim_end_matches is_js_whitespace (trim_start_matches is_js_whitespace u)
       in if inner = [] \<or> \<not> list_all is_key_char inner then None else Some inner))"

fun js_string_coerce :: "(json \<Rightarrow> string) \<Rightarrow> json option \<Rightarrow> string" where
  "js_string_coerce show None = []"
| "js_string_coerce show (Some JNull) = []"
| "js_string_coerce show (Some (JString s)) = s"
| "js_string_coerce show (Some (JBool b)) = (if b then ''true'' else ''false'')"
| "js_string_coerce show (Some v) = show v"

definition render_headers ::
  "(json \<Rightarrow> string) \<Rightarrow> (string \<times> string) list \<Rightarrow> json_map \<Rightarrow> (string \<times> string) list" where
  "render_headers show headers vars =
     map (\<lambda>(name, v). (name, (case parse_header_placeholder v of
                                 Some key \<Rightarrow> js_string_coerce show (map_get vars key)
                               | None \<Rightarrow> v))) headers"

definition header_value :: "(string \<times> string) list \<Rightarrow> string \<Rightarrow> string option" where
  "header_value headers name =
     (case map_get headers name of
        Some found \<Rightarrow> Some found
      | None \<Rightarrow> map_option snd
          (List.find (\<lambda>(k, _). to_lowercase k = to_lowercase name) headers))"

datatype egress_refusal = SentinelMissing

definition inject_secret ::
  "(string \<times> string) list \<Rightarrow> string option \<Rightarrow> egress_refusal + (string \<times> string) list" where
  "inject_secret headers secret =
     (let has_sentinel = list_ex (\<lambda>(_, v). contains v SENTINEL) headers
      in case secret of
           Some s \<Rightarrow>
             (if \<not> has_sentinel then Inl SentinelMissing
              else Inr (map (\<lambda>(k, v). (k, if contains v SENTINEL then str_replace SENTINEL s v else v))
                          headers))
         | None \<Rightarrow> (if has_sentinel then Inl SentinelMissing else Inr headers))"

subsection \<open>Waits and cached tokens\<close>

datatype f64 = Finite rat | NotFinite

definition parse_retry_after ::
  "(string \<Rightarrow> f64 option) \<Rightarrow> (rat \<Rightarrow> int) \<Rightarrow> string option \<Rightarrow> nat option" where
  "parse_retry_after parse_f64 to_ms raw =
     Option.bind raw (\<lambda>r.
       let v = trim_matches is_js_whitespace r
       in if v = [] then None
          else (case parse_f64 v of
                  Some (Finite secs) \<Rightarrow>
                    if secs < 0 then None
                    else if 2 ^ 64 \<le> to_ms secs then Some u64_max
                    else Some (nat (to_ms secs))
                | _ \<Rightarrow> None))"

definition retry_after_from ::
  "(string \<Rightarrow> f64 option) \<Rightarrow> (rat \<Rightarrow> int) \<Rightarrow> (string \<times> string) list \<Rightarrow> nat option" where
  "retry_after_from parse_f64 to_ms headers =
     parse_retry_after parse_f64 to_ms (header_value headers ''retry-after'')"

text \<open>\<open>Value::as_u64\<close>\<close>

fun as_u64 :: "json \<Rightarrow> nat option" where
  "as_u64 (JNumber (PosInt n)) = Some n"
| "as_u64 _ = None"

definition read_cached_tokens :: "json_map \<Rightarrow> nat option" where
  "read_cached_tokens usage =
     (case (case map_get usage ''prompt_tokens_details'' of
              Some (JObject details) \<Rightarrow> Option.bind (map_get details ''cached_tokens'') as_u64
            | _ \<Rightarrow> None) of
        Some cached \<Rightarrow> Some cached
      | None \<Rightarrow> Option.bind (map_get usage ''cache_read_input_tokens'') as_u64)"

subsection \<open>Reading a path back\<close>

definition decode_pair :: "char \<Rightarrow> char \<Rightarrow> char option" where
  "decode_pair a b =
     (case (hex_value a, hex_value b) of
        (Some x, Some y) \<Rightarrow> Some (char_of (16 * x + y)) | _ \<Rightarrow> None)"

text \<open>Percent-decoding, as a server does it.\<close>

fun percent_decode :: "string \<Rightarrow> string" where
  "percent_decode (c # a # b # r) =
     (if c = CHR ''%'' then
        (case decode_pair a b of Some d \<Rightarrow> d # percent_decode r | None \<Rightarrow> c # percent_decode (a # b # r))
      else c # percent_decode (a # b # r))"
| "percent_decode s = s"

lemma hex_value_digit: "d < 16 \<Longrightarrow> hex_value (hex_digit d) = Some d"
  by (auto simp: hex_value_def hex_digit_def of_char_of Let_def)

lemma decode_hex_byte: "decode_pair (hex_digit (of_char c div 16)) (hex_digit (of_char c mod 16)) = Some c"
proof -
  have "(of_char c :: nat) < 256" using nat_of_char_less_256 by simp
  then have "(of_char c :: nat) div 16 < 16" by (simp add: less_mult_imp_div_less)
  then show ?thesis by (simp add: decode_pair_def hex_value_digit)
qed

lemma percent_decode_plain: "c \<noteq> CHR ''%'' \<Longrightarrow> percent_decode (c # r) = c # percent_decode r"
  by (cases r; cases "tl r") auto

lemma percent_decode_encode: "percent_decode (encode_byte c @ r) = c # percent_decode r"
proof (cases "is_unreserved c")
  case True
  then have "c \<noteq> CHR ''%''" by (auto simp: is_unreserved_def is_digit_def)
  with True show ?thesis by (simp add: encode_byte_def percent_decode_plain)
next
  case False
  then show ?thesis by (simp add: encode_byte_def hex_byte_def decode_hex_byte)
qed

lemma percent_decode_urlencode: "percent_decode (urlencode_component s @ r) = s @ percent_decode r"
  by (induction s) (simp_all add: urlencode_component_def percent_decode_encode)

lemma hex_digit_unreserved: "d < 16 \<Longrightarrow> is_unreserved (hex_digit d)"
  by (auto simp: is_unreserved_def is_digit_def hex_digit_def of_char_of)

lemma urlencode_safe: "list_all (\<lambda>c. is_unreserved c \<or> c = CHR ''%'') (urlencode_component s)"
proof (induction s)
  case (Cons c s)
  have "(of_char c :: nat) < 256" using nat_of_char_less_256 by simp
  then have "(of_char c :: nat) div 16 < 16" by (simp add: less_mult_imp_div_less)
  with Cons show ?case
    by (auto simp: urlencode_component_def encode_byte_def hex_byte_def hex_digit_unreserved)
qed (simp add: urlencode_component_def)

lemma str_replace_none: "\<not> contains s p \<Longrightarrow> p \<noteq> [] \<Longrightarrow> str_replace p new s = s"
  by (induction s) auto

lemma str_replace_here: "p \<noteq> [] \<Longrightarrow> str_replace p new (p @ s) = new @ str_replace p new s"
  by (cases p) auto

lemma str_replace_after:
  assumes "hd p \<notin> set a" and "p \<noteq> []"
  shows "str_replace p new (a @ s) = a @ str_replace p new s"
  using assms(1)
proof (induction a)
  case (Cons x a)
  then have "take (length p) (x # a @ s) \<noteq> p" using assms(2) by (cases p) auto
  with Cons show ?case by simp
qed simp

subsection \<open>Properties\<close>

text \<open>Whatever a model is called, it is one part of the URL: its name in the path consists of
  unreserved bytes and percent signs and decodes to the name, so two models never share a URL; the
  rest of the path is sent as the manifest has it; and the base URL and the path are joined with
  one slash between them.\<close>

theorem model_name_survives_the_url:
  assumes "CHR ''{'' \<notin> set a" and "CHR ''{'' \<notin> set b"
  shows "render_path (a @ ''{{model}}'' @ b) model = a @ urlencode_component model @ b
    \<and> list_all (\<lambda>c. is_unreserved c \<or> c = CHR ''%'') (urlencode_component model)
    \<and> percent_decode (urlencode_component model) = model
    \<and> join_url base path = trim_end_matches (\<lambda>u. u = ''/'') base @ ''/''
        @ (case strip_prefix ''/'' path of Some r \<Rightarrow> r | None \<Rightarrow> path)"
proof (intro conjI)
  have "str_replace ''{{model}}'' new b = b" for new
    using str_replace_after [of "''{{model}}''" b new "[]"] assms(2) by simp
  then have tail: "str_replace ''{{model}}'' new (''{{model}}'' @ b) = new @ b" for new
    using str_replace_here [of "''{{model}}''" new b] by simp
  show "render_path (a @ ''{{model}}'' @ b) model = a @ urlencode_component model @ b"
    unfolding render_path_def
    using str_replace_after [of "''{{model}}''" a _ "''{{model}}'' @ b"] assms(1) tail by simp
  show "percent_decode (urlencode_component model) = model"
    using percent_decode_urlencode [of model "[]"] by simp
  show "join_url base path = trim_end_matches (\<lambda>u. u = ''/'') base @ ''/''
        @ (case strip_prefix ''/'' path of Some r \<Rightarrow> r | None \<Rightarrow> path)"
  proof (cases "strip_prefix ''/'' path")
    case (Some r)
    then have "path = ''/'' @ r" by (simp add: strip_prefix_Some)
    with Some show ?thesis by (simp add: join_url_def Let_def)
  qed (simp add: join_url_def Let_def)
qed (rule urlencode_safe)

theorem model_name_survives_the_url_witness:
  "render_path ''/v1beta/models/{{model}}:generateContent'' ''a b''
     = ''/v1beta/models/a%20b:generateContent''"
proof -
  have "urlencode_component ''a b'' = ''a%20b''" by code_simp
  with model_name_survives_the_url [of "''/v1beta/models/''" "'':generateContent''" "''a b''"]
  show ?thesis by simp
qed

end
