(* ===== verification/Tool_Calls.thy ===== *)
theory Tool_Calls
  imports Manifest
begin

text \<open>
  Tool calls as providers send them: fragments of a stream, reassembled by index, and complete
  calls of an answer, read by the two hard-wired shapes or by the shape a manifest declares
  (\<open>manifest.rs\<close>, \<open>dialect_shaping.rs\<close>). A sink that receives calls is the list of them.
\<close>

subsection \<open>Fragments\<close>

record pending_call =
  pc_id :: "string option"
  pc_name :: "string option"
  pc_args :: string

type_synonym pending_calls = "(int \<times> pending_call) list"

definition default_pending :: pending_call where
  "default_pending = \<lparr>pc_id = None, pc_name = None, pc_args = []\<rparr>"

definition is_js_object :: "json \<Rightarrow> bool" where
  "is_js_object j \<longleftrightarrow> is_object j \<or> is_jarray j"

text \<open>\<open>.filter(|s| !s.is_empty())\<close>\<close>

definition non_empty :: "string option \<Rightarrow> string option" where
  "non_empty os = (case os of Some s \<Rightarrow> if s = [] then None else Some s | None \<Rightarrow> None)"

definition delta_index :: "json \<Rightarrow> int" where
  "delta_index item =
     (case Option.bind (json_get item ''index'') as_i64 of Some i \<Rightarrow> i | None \<Rightarrow> 0)"

definition delta_id :: "json \<Rightarrow> string option" where
  "delta_id item = non_empty (get_str item ''id'')"

definition delta_function :: "json \<Rightarrow> json option" where
  "delta_function item =
     (case json_get item ''function'' of
        Some f \<Rightarrow> if is_js_object f then Some f else None
      | None \<Rightarrow> None)"

definition delta_name :: "json \<Rightarrow> string option" where
  "delta_name item = Option.bind (delta_function item) (\<lambda>f. non_empty (get_str f ''name''))"

definition delta_fragment :: "json \<Rightarrow> string option" where
  "delta_fragment item = Option.bind (delta_function item) (\<lambda>f. get_str f ''arguments'')"

definition replace_by :: "'a option \<Rightarrow> 'a option \<Rightarrow> 'a option" where
  "replace_by old new = (case new of Some v \<Rightarrow> Some v | None \<Rightarrow> old)"

definition absorb_delta :: "json \<Rightarrow> pending_call \<Rightarrow> pending_call" where
  "absorb_delta item p =
     p\<lparr>pc_id := replace_by (pc_id p) (delta_id item),
       pc_name := replace_by (pc_name p) (delta_name item),
       pc_args := pc_args p @ (case delta_fragment item of Some s \<Rightarrow> s | None \<Rightarrow> [])\<rparr>"

definition entry_or_default :: "pending_calls \<Rightarrow> int \<Rightarrow> pending_call" where
  "entry_or_default acc i = (case map_get acc i of Some p \<Rightarrow> p | None \<Rightarrow> default_pending)"

definition absorb :: "json \<Rightarrow> pending_calls \<Rightarrow> pending_calls" where
  "absorb item acc =
     (if \<not> is_js_object item then acc
      else (let i = delta_index item
            in map_insert i (absorb_delta item (entry_or_default acc i)) acc))"

definition collect_tool_call_deltas :: "json \<Rightarrow> pending_calls \<Rightarrow> pending_calls" where
  "collect_tool_call_deltas raw acc =
     (case raw of JArray items \<Rightarrow> fold absorb items acc | other \<Rightarrow> absorb other acc)"

subsection \<open>Complete calls\<close>

fun block_walk :: "json \<Rightarrow> string list \<Rightarrow> json option" where
  "block_walk cur [] = Some cur"
| "block_walk cur (seg # segs) =
     (if \<not> is_js_object cur then None
      else (case json_get cur seg of None \<Rightarrow> None | Some next \<Rightarrow> block_walk next segs))"

definition block_field :: "json \<Rightarrow> string \<Rightarrow> json option" where
  "block_field block path = block_walk block (split_on (CHR ''.'') path)"

definition is_some_value :: "json option \<Rightarrow> bool" where
  "is_some_value v \<longleftrightarrow> v \<noteq> None \<and> v \<noteq> Some JNull"

definition is_tool_call_block :: "json \<Rightarrow> tool_call_shape \<Rightarrow> bool" where
  "is_tool_call_block block shape =
     (case sh_discriminator shape of
        None \<Rightarrow> True
      | Some d \<Rightarrow>
          (let v = block_field block (td_path d)
           in case td_present d of
                Some present \<Rightarrow> if present then is_some_value v else \<not> is_some_value v
              | None \<Rightarrow> (case td_equals d of None \<Rightarrow> True | Some e \<Rightarrow> v = Some e)))"

text \<open>The text of the arguments. Both formats serialise a value that is not a string; with the
  format \<open>object\<close> a string is serialised too.\<close>

definition arguments_text :: "(json \<Rightarrow> string) \<Rightarrow> string option \<Rightarrow> json option \<Rightarrow> string" where
  "arguments_text show format raw_args =
     (case raw_args of
        None \<Rightarrow> []
      | Some JNull \<Rightarrow> []
      | Some (JString s) \<Rightarrow> if format = Some ''object'' then show (JString s) else s
      | Some v \<Rightarrow> show v)"

definition read_tool_call ::
  "(json \<Rightarrow> string) \<Rightarrow> tool_call_shape \<Rightarrow> json \<Rightarrow> tool_call option" where
  "read_tool_call show shape block =
     (if \<not> is_js_object block \<or> \<not> is_tool_call_block block shape then None
      else
        (case non_empty (Option.bind (block_field block (sh_name shape)) as_str) of
           None \<Rightarrow> None
         | Some name \<Rightarrow>
             Some \<lparr>tc_id = non_empty (Option.bind (sh_id shape)
                       (\<lambda>p. Option.bind (block_field block p) as_str)),
                   tc_name = Some name,
                   tc_arguments = Some (arguments_text show (sh_arguments_format shape)
                       (block_field block (sh_arguments shape))),
                   tc_raw = Some block\<rparr>))"

definition read_tool_calls ::
  "(json \<Rightarrow> string) \<Rightarrow> tool_call_shape \<Rightarrow> json \<Rightarrow> tool_call list" where
  "read_tool_calls show shape blocks =
     (case blocks of
        JArray items \<Rightarrow> List.map_filter (read_tool_call show shape) items
      | other \<Rightarrow> (case read_tool_call show shape other of None \<Rightarrow> [] | Some c \<Rightarrow> [c]))"

definition TOOL_BLOCK_TYPES :: "string list" where
  "TOOL_BLOCK_TYPES = [''tool_use'', ''function'']"

definition emit_call :: "(json \<Rightarrow> string) \<Rightarrow> json \<Rightarrow> tool_call option" where
  "emit_call show item =
     (if \<not> is_js_object item then None
      else if (case get_str item ''type'' of Some t \<Rightarrow> t \<notin> set TOOL_BLOCK_TYPES | None \<Rightarrow> False)
      then None
      else
        (let function = (case delta_function item of Some f \<Rightarrow> f | None \<Rightarrow> item);
             args_raw = (if is_some_value (json_get function ''arguments'')
                         then json_get function ''arguments''
                         else if is_some_value (json_get function ''input'')
                         then json_get function ''input'' else None);
             arguments = (case args_raw of
                            None \<Rightarrow> None
                          | Some (JString t) \<Rightarrow> Some t
                          | Some other \<Rightarrow> Some (show other))
         in Some \<lparr>tc_id = get_str item ''id'', tc_name = get_str function ''name'',
                  tc_arguments = arguments, tc_raw = Some item\<rparr>))"

definition emit_tool_calls ::
  "(json \<Rightarrow> string) \<Rightarrow> json \<Rightarrow> tool_call_shape option \<Rightarrow> tool_call list" where
  "emit_tool_calls show raw shape =
     (case shape of
        Some sh \<Rightarrow> read_tool_calls show sh raw
      | None \<Rightarrow>
          (case raw of
             JArray items \<Rightarrow> List.map_filter (emit_call show) items
           | other \<Rightarrow> (case emit_call show other of None \<Rightarrow> [] | Some c \<Rightarrow> [c])))"

subsection \<open>What reassembly means\<close>

text \<open>The deltas of a sequence of chunks, and those addressed to one index.\<close>

fun deltas_of :: "json \<Rightarrow> json list" where
  "deltas_of (JArray items) = filter is_js_object items"
| "deltas_of j = filter is_js_object [j]"

definition addressed :: "int \<Rightarrow> json list \<Rightarrow> json list" where
  "addressed i chunks = filter (\<lambda>d. delta_index d = i) (concat (map deltas_of chunks))"

text \<open>The last value that is present.\<close>

definition last_some :: "'a option list \<Rightarrow> 'a option" where
  "last_some xs = fold (\<lambda>new old. replace_by old new) xs None"

definition assembled :: "json list \<Rightarrow> pending_call" where
  "assembled ds =
     \<lparr>pc_id = last_some (map delta_id ds), pc_name = last_some (map delta_name ds),
      pc_args = concat (List.map_filter delta_fragment ds)\<rparr>"

definition collect_all :: "json list \<Rightarrow> pending_calls" where
  "collect_all chunks = fold collect_tool_call_deltas chunks []"

lemma collect_is_fold: "collect_tool_call_deltas raw acc = fold absorb (deltas_of raw) acc"
proof -
  have "fold absorb items acc = fold absorb (filter is_js_object items) acc" for items
    by (induction items arbitrary: acc) (simp_all add: absorb_def)
  then show ?thesis
    by (cases raw) (simp_all add: collect_tool_call_deltas_def absorb_def is_js_object_def)
qed

lemma collect_all_fold: "collect_all chunks = fold absorb (concat (map deltas_of chunks)) []"
proof -
  have "fold collect_tool_call_deltas chunks acc = fold absorb (concat (map deltas_of chunks)) acc" for acc
    by (induction chunks arbitrary: acc) (simp_all add: collect_is_fold)
  then show ?thesis by (simp add: collect_all_def)
qed

lemma assembled_snoc: "assembled (ds @ [d]) = absorb_delta d (assembled ds)"
  by (simp add: assembled_def absorb_delta_def last_some_def map_filter_simps
      List.map_filter_def split: option.split)

lemma assembled_Nil: "assembled [] = default_pending"
  by (simp add: assembled_def default_pending_def last_some_def map_filter_simps)

lemma absorb_all:
  "list_all is_js_object ds \<Longrightarrow>
     map_ok (fold absorb ds [])
     \<and> (\<forall>i. map_get (fold absorb ds []) i =
          (if filter (\<lambda>d. delta_index d = i) ds = [] then None
           else Some (assembled (filter (\<lambda>d. delta_index d = i) ds))))"
proof (induction ds rule: rev_induct)
  case Nil
  show ?case by simp
next
  case (snoc d ds)
  let ?acc = "fold absorb ds []"
  have d: "is_js_object d" and ok: "map_ok ?acc"
    and at: "map_get ?acc i =
      (if filter (\<lambda>x. delta_index x = i) ds = [] then None
       else Some (assembled (filter (\<lambda>x. delta_index x = i) ds)))" for i
    using snoc by simp_all
  have entry: "entry_or_default ?acc (delta_index d)
      = assembled (filter (\<lambda>x. delta_index x = delta_index d) ds)"
    using at [of "delta_index d"] by (simp add: entry_or_default_def assembled_Nil)
  have "absorb d ?acc = map_insert (delta_index d)
      (assembled (filter (\<lambda>x. delta_index x = delta_index d) (ds @ [d]))) ?acc"
    using d by (simp add: absorb_def [of d ?acc] Let_def entry assembled_snoc)
  then show ?case using ok at by simp
qed

lemma list_all_deltas: "list_all is_js_object (concat (map deltas_of chunks))"
proof -
  have "list_all is_js_object (deltas_of c)" for c
    by (cases c) (simp_all add: list_all_iff)
  then show ?thesis by (induction chunks) simp_all
qed

text \<open>Reassembly: the buffer holds, in the order of the indices, exactly the indices some fragment
  named; the arguments of a call are the fragments addressed to its index, concatenated in the
  order they arrived, and its id and name are the last ones that were not empty.\<close>

lemma collect_all_get:
  "map_get (collect_all chunks) i =
     (if addressed i chunks = [] then None else Some (assembled (addressed i chunks)))"
  using absorb_all [OF list_all_deltas [of chunks]] by (simp add: collect_all_fold addressed_def)

lemma collect_all_ok: "map_ok (collect_all chunks)"
  using absorb_all [OF list_all_deltas [of chunks]] by (simp add: collect_all_fold)

lemma collect_all_interleaving:
  "(\<And>i. addressed i chunks = addressed i chunks') \<Longrightarrow> collect_all chunks = collect_all chunks'"
  by (intro map_ok_ext collect_all_ok) (simp add: collect_all_get)

end
