(* ===== verification/Dialect.thy ===== *)
theory Dialect
  imports Tool_Calls
begin

text \<open>
  How one dialect spells what the program holds in OpenAI's shape (\<open>dialect_shaping.rs\<close>): replayed
  tool calls and results, roles, content parts, tool declarations, finish reasons. The parser and
  the printer of JSON are the arguments \<open>parse\<close> and \<open>show\<close>.
\<close>

subsection \<open>Text of a message\<close>

definition IMAGE_PLACEHOLDER :: string where
  "IMAGE_PLACEHOLDER = ''<image>''"

definition ascii_lower :: "char \<Rightarrow> char" where
  "ascii_lower c = (if 65 \<le> (of_char c :: nat) \<and> (of_char c :: nat) \<le> 90
                    then char_of ((of_char c :: nat) + 32) else c)"

definition is_ascii_whitespace :: "char \<Rightarrow> bool" where
  "is_ascii_whitespace c \<longleftrightarrow> c \<in> set [CHR 0x20, CHR 0x09, CHR 0x0A, CHR 0x0C, CHR 0x0D]"

definition is_image_part :: "string \<Rightarrow> bool" where
  "is_image_part ty =
     (let t = filter (\<lambda>c. \<not> is_ascii_whitespace c) (map ascii_lower ty)
      in contains t ''image'' \<or> contains t ''inlinedata'')"

text \<open>\<open>p.get(k).and_then(Value::as_str).unwrap_or("")\<close>\<close>

definition str_or_empty :: "json \<Rightarrow> string \<Rightarrow> string" where
  "str_or_empty j k = (case get_str j k of Some s \<Rightarrow> s | None \<Rightarrow> [])"

definition part_text :: "(json \<Rightarrow> string) \<Rightarrow> json \<Rightarrow> string" where
  "part_text show part =
     (case part of
        JString s \<Rightarrow> s
      | JObject _ \<Rightarrow>
          (case get_str part ''text'' of
             Some t \<Rightarrow> t
           | None \<Rightarrow>
               (if str_or_empty part ''type'' \<noteq> [] \<and> is_image_part (str_or_empty part ''type'')
                then IMAGE_PLACEHOLDER else show part))
      | _ \<Rightarrow> [])"

definition text_of_content :: "(json \<Rightarrow> string) \<Rightarrow> json \<Rightarrow> string" where
  "text_of_content show content =
     (case content of
        JString s \<Rightarrow> s
      | JNull \<Rightarrow> []
      | JArray items \<Rightarrow> join '' '' (filter (\<lambda>s. s \<noteq> []) (map (part_text show) items))
      | other \<Rightarrow> show other)"

definition render_object :: "json_map \<Rightarrow> json_map \<Rightarrow> template_error + json" where
  "render_object template vals =
     (case render_template template vals of Inl e \<Rightarrow> Inl e | Inr m \<Rightarrow> Inr (JObject m))"

text \<open>The values of a call, a map built by insertions.\<close>

definition vals_of :: "(string \<times> json) list \<Rightarrow> json_map" where
  "vals_of kvs = fold (\<lambda>(k, v). map_insert k v) kvs []"

subsection \<open>Content parts\<close>

definition render_part :: "json_map \<Rightarrow> json \<Rightarrow> template_error + json" where
  "render_part templates part =
     (case part of
        JObject p \<Rightarrow>
          (let ty = str_or_empty part ''type''
           in case (if ty = [] then None else Option.bind (map_get templates ty) as_object) of
                None \<Rightarrow> Inr part
              | Some template \<Rightarrow>
                  (if ty = ''text'' then
                     render_object template
                       (vals_of [(''text'', case map_get p ''text'' of Some v \<Rightarrow> v | None \<Rightarrow> JString [])])
                   else if ty = ''image'' then
                     (let media = (case get_str part ''mediaType'' of
                                     Some m \<Rightarrow> m | None \<Rightarrow> ''application/octet-stream'');
                          data = str_or_empty part ''dataBase64''
                      in render_object template
                           (vals_of [(''mediaType'', JString media), (''dataBase64'', JString data),
                              (''dataUri'', JString (''data:'' @ media @ '';base64,'' @ data))]))
                   else Inr part))
      | _ \<Rightarrow> Inr part)"

definition render_content_parts :: "json \<Rightarrow> json_map option \<Rightarrow> template_error + json" where
  "render_content_parts content templates =
     (case (templates, content) of
        (Some ts, JArray items) \<Rightarrow>
          (case map_result (render_part ts) items of Inl e \<Rightarrow> Inl e | Inr out \<Rightarrow> Inr (JArray out))
      | _ \<Rightarrow> Inr content)"

text \<open>A plain string in a dialect that names its own content field becomes one text part.\<close>

definition wrap_text :: "json_map option \<Rightarrow> string \<Rightarrow> template_error + json" where
  "wrap_text templates s =
     (if s = [] then Inr (JArray [])
      else
        (case (case Option.bind (Option.bind templates (\<lambda>t. map_get t ''text'')) as_object of
                 Some template \<Rightarrow> render_object template (vals_of [(''text'', JString s)])
               | None \<Rightarrow> Inr (jobj [(''type'', JString ''text''), (''text'', JString s)])) of
           Inl e \<Rightarrow> Inl e
         | Inr wrapped \<Rightarrow> Inr (JArray [wrapped])))"

definition as_parts_array :: "json_map option \<Rightarrow> json \<Rightarrow> template_error + json" where
  "as_parts_array templates rendered =
     (case rendered of
        JString s \<Rightarrow> wrap_text templates s
      | JNull \<Rightarrow> Inr (JArray [])
      | other \<Rightarrow> Inr other)"

definition shape_one_content ::
  "json_map option \<Rightarrow> string option \<Rightarrow> json \<Rightarrow> template_error + json" where
  "shape_one_content templates content_field m =
     (case m of
        JObject msg \<Rightarrow>
          (let content = (case map_get msg ''content'' of Some c \<Rightarrow> c | None \<Rightarrow> JNull)
           in case render_content_parts content templates of
                Inl e \<Rightarrow> Inl e
              | Inr rendered \<Rightarrow>
                  (case content_field of
                     Some f \<Rightarrow>
                       (if f \<noteq> ''content'' then
                          (case as_parts_array templates rendered of
                             Inl e \<Rightarrow> Inl e
                           | Inr parts \<Rightarrow>
                               Inr (JObject (map_insert f parts (map_remove ''content'' msg))))
                        else if rendered = content then Inr m
                        else Inr (JObject (map_insert ''content'' rendered msg)))
                   | None \<Rightarrow>
                       (if rendered = content then Inr m
                        else Inr (JObject (map_insert ''content'' rendered msg)))))
      | _ \<Rightarrow> Inr m)"

definition shape_message_content ::
  "json list \<Rightarrow> json_map option \<Rightarrow> string option \<Rightarrow> template_error + json list" where
  "shape_message_content messages templates content_field =
     (let renames = (case content_field of Some f \<Rightarrow> f \<noteq> ''content'' | None \<Rightarrow> False)
      in if templates = None \<and> \<not> renames then Inr messages
         else map_result (shape_one_content templates content_field) messages)"

subsection \<open>Roles\<close>

definition translate_role :: "json \<Rightarrow> json_map \<Rightarrow> json" where
  "translate_role target m =
     (let translated = map_insert ''role'' target m
      in JObject (if as_str target \<noteq> Some ''tool'' then map_remove ''tool_call_id'' translated
                  else translated))"

text \<open>The loop over the messages: those that stay, and the hoisted texts.\<close>

fun map_roles ::
  "(json \<Rightarrow> string) \<Rightarrow> json_map \<Rightarrow> json list \<Rightarrow> json list \<times> string list" where
  "map_roles show role_map [] = ([], [])"
| "map_roles show role_map (msg # msgs) =
     (case map_roles show role_map msgs of
        (out, parts) \<Rightarrow>
          (case msg of
             JObject m \<Rightarrow>
               (case map_get role_map (case get_str msg ''role'' of Some r \<Rightarrow> r | None \<Rightarrow> ''user'') of
                  None \<Rightarrow> (msg # out, parts)
                | Some JNull \<Rightarrow>
                    (let content = (case map_get m ''content'' of
                                      Some c \<Rightarrow> text_of_content show c | None \<Rightarrow> [])
                     in (out, if content = [] then parts else content # parts))
                | Some target \<Rightarrow> (translate_role target m # out, parts))
           | _ \<Rightarrow> (msg # out, parts)))"

definition blank_line :: string where
  "blank_line = [CHR 0x0A, CHR 0x0A]"

definition normalize_dialect_messages ::
  "(json \<Rightarrow> string) \<Rightarrow> json list \<Rightarrow> json_map option \<Rightarrow> string option \<Rightarrow> json list \<times> string option"
where
  "normalize_dialect_messages show messages role_map system_field =
     (case role_map of
        None \<Rightarrow> (messages, None)
      | Some rm \<Rightarrow>
          (case map_roles show rm messages of
             (out, parts) \<Rightarrow>
               (out, if system_field = None \<or> parts = [] then None
                     else Some (join blank_line parts))))"

subsection \<open>Tool declarations\<close>

definition or_default :: "json_map \<Rightarrow> string \<Rightarrow> json \<Rightarrow> json" where
  "or_default m k d = (case map_get m k of Some v \<Rightarrow> v | None \<Rightarrow> d)"

definition EMPTY_PARAMETERS :: json where
  "EMPTY_PARAMETERS = jobj [(''type'', JString ''object''), (''properties'', jobj [])]"

definition shape_declaration :: "json_map \<Rightarrow> json \<Rightarrow> template_error + json" where
  "shape_declaration templates tool =
     (case tool of
        JObject t \<Rightarrow>
          (case Option.bind (map_get templates
                  (case get_str tool ''type'' of Some ty \<Rightarrow> ty | None \<Rightarrow> ''function'')) as_object of
             None \<Rightarrow> Inr tool
           | Some template \<Rightarrow>
               (let f = (case Option.bind (map_get t ''function'') as_object of
                           Some g \<Rightarrow> g | None \<Rightarrow> [])
                in render_object template
                     (vals_of [(''name'', or_default f ''name'' (JString [])),
                        (''description'', or_default f ''description'' (JString [])),
                        (''parameters'', or_default f ''parameters'' EMPTY_PARAMETERS)])))
      | _ \<Rightarrow> Inr tool)"

definition shape_tool_declarations ::
  "json option \<Rightarrow> json_map option \<Rightarrow> json_map option \<Rightarrow> template_error + json option" where
  "shape_tool_declarations tools templates wrapper =
     (case (templates, tools) of
        (Some ts, Some (JArray items)) \<Rightarrow>
          (case map_result (shape_declaration ts) items of
             Inl e \<Rightarrow> Inl e
           | Inr declarations \<Rightarrow>
               (case wrapper of
                  None \<Rightarrow> Inr (Some (JArray declarations))
                | Some w \<Rightarrow>
                    (if declarations = [] then Inr (Some (JArray declarations))
                     else (case render_object w (vals_of [(''declarations'', JArray declarations)]) of
                             Inl e \<Rightarrow> Inl e
                           | Inr j \<Rightarrow> Inr (Some (JArray [j]))))))
      | _ \<Rightarrow> Inr tools)"

subsection \<open>Tool replay\<close>

definition is_empty_text_part :: "json \<Rightarrow> bool" where
  "is_empty_text_part part \<longleftrightarrow>
     get_str part ''type'' = Some ''text'' \<and> str_or_empty part ''text'' = []"

definition as_parts :: "json \<Rightarrow> json list" where
  "as_parts content =
     (case content of
        JArray items \<Rightarrow> filter (\<lambda>p. \<not> is_empty_text_part p) items
      | JString s \<Rightarrow>
          (if s \<noteq> [] then [jobj [(''type'', JString ''text''), (''text'', JString s)]] else [])
      | _ \<Rightarrow> [])"

definition non_null :: "json option \<Rightarrow> json option" where
  "non_null v = (if v = Some JNull then None else v)"

definition call_id :: "json \<Rightarrow> string option" where
  "call_id call = non_empty (get_str call ''id'')"

text \<open>The internal spelling \<open>call[k]\<close>, else OpenAI's \<open>call.function[k]\<close>.\<close>

definition call_field :: "string \<Rightarrow> json \<Rightarrow> json option" where
  "call_field k call =
     (case non_null (json_get call k) of
        Some v \<Rightarrow> Some v
      | None \<Rightarrow> non_null (Option.bind (json_get call ''function'') (\<lambda>f. json_get f k)))"

definition call_name :: "json \<Rightarrow> string" where
  "call_name call =
     (case Option.bind (call_field ''name'' call) as_str of Some s \<Rightarrow> s | None \<Rightarrow> [])"

definition call_arguments :: "(json \<Rightarrow> string) \<Rightarrow> json \<Rightarrow> string" where
  "call_arguments show call =
     (case call_field ''arguments'' call of
        Some (JString s) \<Rightarrow> s
      | Some other \<Rightarrow> show other
      | None \<Rightarrow> [])"

definition parse_arguments :: "(string \<Rightarrow> json option) \<Rightarrow> string \<Rightarrow> json" where
  "parse_arguments parse s =
     (if str_trim s = [] then jobj []
      else (case parse s of None \<Rightarrow> jobj [] | Some v \<Rightarrow> if v = JNull then jobj [] else v))"

text \<open>Which tool each call id names; a later call of the same id wins.\<close>

definition note_call :: "json \<Rightarrow> (string \<times> string) list \<Rightarrow> (string \<times> string) list" where
  "note_call c names =
     (case call_id c of Some i \<Rightarrow> map_insert i (call_name c) names | None \<Rightarrow> names)"

definition name_by_id :: "json list \<Rightarrow> (string \<times> string) list" where
  "name_by_id messages =
     fold (\<lambda>m names. case get_array m ''tool_calls'' of
                       Some tcs \<Rightarrow> fold note_call tcs names | None \<Rightarrow> names) messages []"

definition is_tool :: "json \<Rightarrow> bool" where
  "is_tool m \<longleftrightarrow> get_str m ''role'' = Some ''tool''"

text \<open>The block one tool message becomes.\<close>

definition result_block ::
  "(json \<Rightarrow> string) \<Rightarrow> (string \<times> string) list \<Rightarrow> json_map \<Rightarrow> json \<Rightarrow> template_error + json" where
  "result_block show names tool_result m =
     (let i = str_or_empty m ''tool_call_id'';
          text = (case json_get m ''content'' of Some c \<Rightarrow> text_of_content show c | None \<Rightarrow> [])
      in render_object tool_result
           (vals_of [(''id'', JString i),
              (''name'', JString (case map_get names i of Some n \<Rightarrow> n | None \<Rightarrow> [])),
              (''text'', JString text), (''response'', jobj [(''result'', JString text)])]))"

definition tool_message :: "json list \<Rightarrow> json" where
  "tool_message blocks = jobj [(''role'', JString ''tool''), (''content'', JArray blocks)]"

text \<open>Pass 1: the messages so far, and the index of the message a run of results folds into.\<close>

definition collapse_step ::
  "(json \<Rightarrow> string) \<Rightarrow> (string \<times> string) list \<Rightarrow> json_map option \<Rightarrow> json
     \<Rightarrow> json list \<times> nat option \<Rightarrow> template_error + json list \<times> nat option" where
  "collapse_step show names tool_result m st =
     (case st of (pass1, merged) \<Rightarrow>
        (case tool_result of
           Some tr \<Rightarrow>
             (if is_tool m then
                (case result_block show names tr m of
                   Inl e \<Rightarrow> Inl e
                 | Inr block \<Rightarrow>
                     (case merged of
                        Some idx \<Rightarrow>
                          Inr (pass1[idx := on_key ''content'' (on_array (\<lambda>xs. xs @ [block])) (pass1 ! idx)],
                               merged)
                      | None \<Rightarrow> Inr (pass1 @ [tool_message [block]], Some (length pass1))))
              else Inr (pass1 @ [m], None))
         | None \<Rightarrow> Inr (pass1 @ [m], None)))"

text \<open>Pass 2: the calls of an assistant turn become parts of its content.\<close>

definition call_block ::
  "(json \<Rightarrow> string) \<Rightarrow> (string \<Rightarrow> json option) \<Rightarrow> json_map \<Rightarrow> json \<Rightarrow> template_error + json" where
  "call_block show parse tool_call c =
     (let args_text = call_arguments show c
      in render_object tool_call
           (vals_of [(''id'', JString (case call_id c of Some i \<Rightarrow> i | None \<Rightarrow> [])),
              (''name'', JString (call_name c)), (''arguments'', JString args_text),
              (''argumentsObject'', parse_arguments parse args_text)]))"

definition replay_calls ::
  "(json \<Rightarrow> string) \<Rightarrow> (string \<Rightarrow> json option) \<Rightarrow> json_map option \<Rightarrow> json \<Rightarrow> template_error + json"
where
  "replay_calls show parse tool_call m =
     (case (m, get_array m ''tool_calls'', tool_call) of
        (JObject msg, Some (tc # tcs), Some template) \<Rightarrow>
          (case map_result (call_block show parse template) (tc # tcs) of
             Inl e \<Rightarrow> Inl e
           | Inr blocks \<Rightarrow>
               Inr (JObject (map_remove ''tool_calls''
                 (map_insert ''content''
                   (JArray (as_parts (case map_get msg ''content'' of Some c \<Rightarrow> c | None \<Rightarrow> JNull) @ blocks))
                   msg))))
      | _ \<Rightarrow> Inr m)"

definition attach_tool_parts ::
  "(json \<Rightarrow> string) \<Rightarrow> (string \<Rightarrow> json option) \<Rightarrow> json list \<Rightarrow> json_map option \<Rightarrow> json_map option
     \<Rightarrow> template_error + json list" where
  "attach_tool_parts show parse messages tool_call tool_result =
     (if tool_call = None \<and> tool_result = None then Inr messages
      else
        (case fold_result (collapse_step show (name_by_id messages) tool_result) messages ([], None) of
           Inl e \<Rightarrow> Inl e
         | Inr (pass1, _) \<Rightarrow> map_result (replay_calls show parse tool_call) pass1))"

subsection \<open>Finish reasons\<close>

definition translate_finish_reason :: "string \<Rightarrow> json_map option \<Rightarrow> string" where
  "translate_finish_reason reason m =
     (case Option.bind m (\<lambda>fm. Option.bind (map_get fm reason) as_str) of
        Some mapped \<Rightarrow> if mapped \<noteq> [] then mapped else reason
      | None \<Rightarrow> reason)"

subsection \<open>Replay, run by run\<close>

definition blocks_of :: "json \<Rightarrow> json list" where
  "blocks_of m = (case get_array m ''content'' of Some xs \<Rightarrow> xs | None \<Rightarrow> [])"

abbreviation no_tool_pair :: "json list \<Rightarrow> bool" where
  "no_tool_pair \<equiv> successively (\<lambda>a b. \<not> (is_tool a \<and> is_tool b))"

definition collapse_inv ::
  "(json \<Rightarrow> template_error + json) \<Rightarrow> json list \<Rightarrow> json list \<times> nat option \<Rightarrow> bool" where
  "collapse_inv render ms st \<longleftrightarrow>
     (case st of (out, merged) \<Rightarrow>
        no_tool_pair out
        \<and> (case merged of
             None \<Rightarrow> out = [] \<or> \<not> is_tool (last out)
           | Some i \<Rightarrow> Suc i = length out \<and> is_tool (last out))
        \<and> (\<forall>m \<in> set out. is_tool m \<longrightarrow> (\<exists>bs. m = tool_message bs))
        \<and> filter (\<lambda>m. \<not> is_tool m) out = filter (\<lambda>m. \<not> is_tool m) ms
        \<and> list_all2 (\<lambda>m b. render m = Inr b) (filter is_tool ms)
            (concat (map blocks_of (filter is_tool out))))"

lemma tool_message_simps [simp]:
  "is_tool (tool_message bs)"
  "blocks_of (tool_message bs) = bs"
  "get_array (tool_message bs) ''tool_calls'' = None"
  "on_key ''content'' (on_array f) (tool_message bs) = tool_message (f bs)"
  by (simp_all add: tool_message_def is_tool_def blocks_of_def get_str_def get_array_def jobj_def
      on_key_def)

lemma successively_snoc:
  "successively P (xs @ [x]) \<longleftrightarrow> successively P xs \<and> (xs = [] \<or> P (last xs) x)"
  by (auto simp: successively_append_iff)

text \<open>The three ways one step extends the messages.\<close>

lemma collapse_other:
  "collapse_inv render ms (out, merged) \<Longrightarrow> \<not> is_tool m \<Longrightarrow>
     collapse_inv render (ms @ [m]) (out @ [m], None)"
  by (auto simp: collapse_inv_def successively_snoc)

lemma collapse_first:
  assumes "collapse_inv render ms (out, None)" and "is_tool m" and "render m = Inr b"
  shows "collapse_inv render (ms @ [m]) (out @ [tool_message [b]], Some (length out))"
  using assms by (simp add: collapse_inv_def successively_snoc list_all2_appendI) blast

lemma collapse_next:
  assumes inv: "collapse_inv render ms (front @ [tool_message bs], Some i)"
    and "is_tool m" and "render m = Inr b"
  shows "collapse_inv render (ms @ [m]) (front @ [tool_message (bs @ [b])], Some i)"
proof -
  have "list_all2 (\<lambda>m b. render m = Inr b) (filter is_tool ms)
      (concat (map blocks_of (filter is_tool front)) @ bs)"
    using inv by (simp add: collapse_inv_def)
  then have "list_all2 (\<lambda>m b. render m = Inr b) (filter is_tool ms @ [m])
      ((concat (map blocks_of (filter is_tool front)) @ bs) @ [b])"
    using assms(3) by (intro list_all2_appendI) simp_all
  then show ?thesis
    using inv assms(2) by (simp add: collapse_inv_def successively_snoc) blast
qed

lemma collapse_inv_merged:
  assumes "collapse_inv render ms (out, Some i)"
  obtains front bs where "out = front @ [tool_message bs]" and "i = length front"
proof -
  from assms have i: "Suc i = length out" "is_tool (last out)"
    and ms: "\<forall>m \<in> set out. is_tool m \<longrightarrow> (\<exists>bs. m = tool_message bs)"
    by (simp_all add: collapse_inv_def)
  then have ne: "out \<noteq> []" by auto
  with i ms obtain bs where bs: "last out = tool_message bs" by (meson last_in_set)
  have "out = butlast out @ [tool_message bs]" using ne bs by (metis append_butlast_last_id)
  moreover have "i = length (butlast out)" using i(1) by simp
  ultimately show thesis by (rule that)
qed

lemma collapse_step_inv:
  assumes inv: "collapse_inv (result_block show names tr) ms st"
    and step: "collapse_step show names (Some tr) m st = Inr st'"
  shows "collapse_inv (result_block show names tr) (ms @ [m]) st'"
proof -
  obtain out merged where st: "st = (out, merged)" by (cases st)
  show ?thesis
  proof (cases "is_tool m")
    case False
    then have "st' = (out @ [m], None)" using step st by (simp add: collapse_step_def)
    with inv st False show ?thesis by (simp add: collapse_other)
  next
    case True
    then obtain b where b: "result_block show names tr m = Inr b"
      using step st by (auto simp: collapse_step_def split: sum.splits)
    show ?thesis
    proof (cases merged)
      case None
      then have "st' = (out @ [tool_message [b]], Some (length out))"
        using step st b True by (simp add: collapse_step_def)
      with inv st None True b show ?thesis by (simp add: collapse_first)
    next
      case (Some i)
      with inv st obtain front bs where out: "out = front @ [tool_message bs]" "i = length front"
        using collapse_inv_merged by blast
      then have "st' = (front @ [tool_message (bs @ [b])], Some i)"
        using step st b True Some by (simp add: collapse_step_def)
      with inv st Some out(1) True b show ?thesis by (simp add: collapse_next)
    qed
  qed
qed

lemma collapse_all:
  "fold_result (collapse_step show names (Some tr)) ms ([], None) = Inr st
     \<Longrightarrow> collapse_inv (result_block show names tr) ms st"
proof (induction ms arbitrary: st rule: rev_induct)
  case Nil
  then show ?case by (auto simp: collapse_inv_def)
next
  case (snoc m ms)
  then obtain st1 where "fold_result (collapse_step show names (Some tr)) ms ([], None) = Inr st1"
    and "collapse_step show names (Some tr) m st1 = Inr st"
    by (auto simp: fold_result_append split: sum.splits)
  with snoc.IH collapse_step_inv show ?case by blast
qed

lemma replay_keeps_role:
  "replay_calls show parse tc m = Inr m' \<Longrightarrow> is_tool m' = is_tool m"
  by (auto simp: replay_calls_def is_tool_def get_str_def split: json.splits option.splits
      list.splits sum.splits)

lemma replay_leaves_no_calls:
  "replay_calls show parse (Some tc) m = Inr m' \<Longrightarrow>
     get_array m' ''tool_calls'' = None \<or> get_array m' ''tool_calls'' = Some []"
  by (cases m) (auto simp: replay_calls_def get_array_def split: option.splits
      list.splits sum.splits)

lemma replay_tool_message [simp]:
  "replay_calls show parse tc (tool_message bs) = Inr (tool_message bs)"
  by (simp add: replay_calls_def split: json.split option.split list.split)

lemma list_all2_filter:
  assumes "list_all2 P xs ys" and "\<And>x y. P x y \<Longrightarrow> Q x = Q y"
  shows "list_all2 P (filter Q xs) (filter Q ys)"
  using assms by (induction rule: list_all2_induct) auto

lemma list_all2_same:
  "list_all2 P xs ys \<Longrightarrow> (\<And>x y. x \<in> set xs \<Longrightarrow> P x y \<Longrightarrow> x = y) \<Longrightarrow> xs = ys"
  by (induction rule: list_all2_induct) auto

lemma list_all2_successively:
  assumes "list_all2 (\<lambda>x y. f x = f y) xs ys"
  shows "successively (\<lambda>a b. \<not> (f a \<and> f b)) xs = successively (\<lambda>a b. \<not> (f a \<and> f b)) ys"
  using assms
proof (induction rule: list_all2_induct)
  case (Cons x xs y ys)
  then show ?case by (cases xs; cases ys) auto
qed simp

subsection \<open>Properties\<close>

text \<open>Replayed tool traffic reaches a dialect in its own shape and none of it is lost: if the
  dialect declares both templates, the messages that go out have no two adjacent tool messages,
  none carries a call beside its content, the blocks of the tool messages are the rendered results
  of the conversation, one each and in order, and every other message is replayed in its place. A
  dialect that declares neither gets the messages as they were.\<close>

theorem tool_traffic_is_replayed_run_by_run:
  "(attach_tool_parts show parse messages (Some tc) (Some tr) = Inr out \<longrightarrow>
      no_tool_pair out
      \<and> (\<forall>m \<in> set out. get_array m ''tool_calls'' = None \<or> get_array m ''tool_calls'' = Some [])
      \<and> list_all2 (\<lambda>m b. result_block show (name_by_id messages) tr m = Inr b)
          (filter is_tool messages) (concat (map blocks_of (filter is_tool out)))
      \<and> list_all2 (\<lambda>m m'. replay_calls show parse (Some tc) m = Inr m')
          (filter (\<lambda>m. \<not> is_tool m) messages) (filter (\<lambda>m. \<not> is_tool m) out))
   \<and> attach_tool_parts show parse messages None None = Inr messages"
proof (intro conjI impI)
  assume ok: "attach_tool_parts show parse messages (Some tc) (Some tr) = Inr out"
  let ?names = "name_by_id messages"
  obtain pass1 merged where
    fold: "fold_result (collapse_step show ?names (Some tr)) messages ([], None) = Inr (pass1, merged)"
    and pass2: "list_all2 (\<lambda>m m'. replay_calls show parse (Some tc) m = Inr m') pass1 out"
    using ok by (auto simp: attach_tool_parts_def map_result_Inr split: sum.splits)
  have inv: "collapse_inv (result_block show ?names tr) messages (pass1, merged)"
    using fold by (rule collapse_all)
  have "list_all2 (\<lambda>x y. is_tool x = is_tool y) pass1 out"
    using pass2 by (rule list_all2_mono) (simp add: replay_keeps_role)
  from list_all2_successively [OF this] show "no_tool_pair out"
    using inv by (simp add: collapse_inv_def)
  show "\<forall>m \<in> set out. get_array m ''tool_calls'' = None \<or> get_array m ''tool_calls'' = Some []"
    using pass2 replay_leaves_no_calls by (fastforce simp: list_all2_conv_all_nth in_set_conv_nth)
  have tools: "list_all2 (\<lambda>m m'. replay_calls show parse (Some tc) m = Inr m')
      (filter is_tool pass1) (filter is_tool out)"
    using pass2 by (rule list_all2_filter) (simp add: replay_keeps_role)
  have same: "x = y" if "x \<in> set (filter is_tool pass1)"
      and "replay_calls show parse (Some tc) x = Inr y" for x y
    using that inv by (auto simp: collapse_inv_def)
  have "filter is_tool pass1 = filter is_tool out"
    using tools same by (rule list_all2_same)
  then show "list_all2 (\<lambda>m b. result_block show ?names tr m = Inr b)
      (filter is_tool messages) (concat (map blocks_of (filter is_tool out)))"
    using inv by (simp add: collapse_inv_def)
  show "list_all2 (\<lambda>m m'. replay_calls show parse (Some tc) m = Inr m')
      (filter (\<lambda>m. \<not> is_tool m) messages) (filter (\<lambda>m. \<not> is_tool m) out)"
    using list_all2_filter [OF pass2, of "\<lambda>m. \<not> is_tool m"] inv
    by (simp add: collapse_inv_def replay_keeps_role)
qed (simp add: attach_tool_parts_def)

theorem tool_traffic_is_replayed_run_by_run_witness:
  "\<exists>out. attach_tool_parts (\<lambda>_. []) (\<lambda>_. None)
       [jobj [(''role'', JString ''tool''), (''tool_call_id'', JString ''c1''), (''content'', JString ''x'')],
        jobj [(''role'', JString ''tool''), (''tool_call_id'', JString ''c2''), (''content'', JString ''y'')]]
       (Some []) (Some [(''content'', JString ''{{text}}'')]) = Inr out
     \<and> no_tool_pair out
     \<and> out = [tool_message [JObject [(''content'', JString ''x'')], JObject [(''content'', JString ''y'')]]]"
proof -
  let ?ms = "[jobj [(''role'', JString ''tool''), (''tool_call_id'', JString ''c1''), (''content'', JString ''x'')],
        jobj [(''role'', JString ''tool''), (''tool_call_id'', JString ''c2''), (''content'', JString ''y'')]]"
  let ?out = "[tool_message [JObject [(''content'', JString ''x'')], JObject [(''content'', JString ''y'')]]]"
  have "attach_tool_parts (\<lambda>_. []) (\<lambda>_. None) ?ms (Some []) (Some [(''content'', JString ''{{text}}'')])
      = Inr ?out"
    by code_simp
  moreover from this have "no_tool_pair ?out"
    using tool_traffic_is_replayed_run_by_run [of "\<lambda>_. []" "\<lambda>_. None" ?ms "[]"
        "[(''content'', JString ''{{text}}'')]" ?out] by (rule_tac conjE) simp_all
  ultimately show ?thesis by blast
qed

end
