(* ===== verification/Json_Path.thy ===== *)
theory Json_Path
  imports Json
begin

text \<open>
  The JSONPath subset of provider manifests (\<open>core/jsonpath.rs\<close>): \<open>$\<close>, \<open>.field\<close>, \<open>["field"]\<close>,
  \<open>[0]\<close> and \<open>[*]\<close>. The scanner works on bytes; every byte it stops on is ASCII.
\<close>

datatype step = SField string | SIndex nat | SWildcard

datatype json_path_error =
    MustStartWithRoot string
  | EmptyStep string
  | UnclosedBracket string
  | UnexpectedChar string string
  | UnsupportedSelector string string

subsection \<open>Parsing\<close>

text \<open>\<open>inner.parse::<usize>().unwrap_or(usize::MAX)\<close> on a string of digits\<close>

definition parse_usize_or_max :: "string \<Rightarrow> nat" where
  "parse_usize_or_max s = min (digits_value s) u64_max"

definition LINE_SEPARATOR :: string where
  "LINE_SEPARATOR = [CHR 0xE2, CHR 0x80, CHR 0xA8]"

definition PARAGRAPH_SEPARATOR :: string where
  "PARAGRAPH_SEPARATOR = [CHR 0xE2, CHR 0x80, CHR 0xA9]"

definition has_line_terminator :: "string \<Rightarrow> bool" where
  "has_line_terminator s \<longleftrightarrow>
     CHR 0x0A \<in> set s \<or> CHR 0x0D \<in> set s
     \<or> contains s LINE_SEPARATOR \<or> contains s PARAGRAPH_SEPARATOR"

definition is_quoted :: "string \<Rightarrow> bool" where
  "is_quoted s \<longleftrightarrow>
     2 \<le> length s \<and> (hd s = CHR 0x22 \<or> hd s = CHR 0x27) \<and> last s = hd s"

definition parse_quoted :: "string \<Rightarrow> string \<Rightarrow> json_path_error + string" where
  "parse_quoted inner path =
     (if is_quoted inner \<and> \<not> has_line_terminator inner
      then Inr (take (length inner - 2) (drop 1 inner))
      else Inl (UnsupportedSelector inner path))"

definition parse_selector :: "string \<Rightarrow> string \<Rightarrow> json_path_error + step" where
  "parse_selector inner path =
     (if inner = ''*'' then Inr SWildcard
      else if inner \<noteq> [] \<and> list_all is_digit inner then Inr (SIndex (parse_usize_or_max inner))
      else case parse_quoted inner path of Inl e \<Rightarrow> Inl e | Inr name \<Rightarrow> Inr (SField name))"

definition is_name_char :: "char \<Rightarrow> bool" where
  "is_name_char c \<longleftrightarrow> c \<noteq> CHR ''.'' \<and> c \<noteq> CHR ''[''"

text \<open>The loop, on what is left of the path.\<close>

function parse_steps :: "string \<Rightarrow> string \<Rightarrow> json_path_error + step list" where
  "parse_steps path [] = Inr []"
| "parse_steps path (c # cs) =
     (if c = CHR ''.'' then
        if takeWhile is_name_char cs = [] then Inl (EmptyStep path)
        else (case parse_steps path (dropWhile is_name_char cs) of
                Inl e \<Rightarrow> Inl e
              | Inr steps \<Rightarrow> Inr (SField (takeWhile is_name_char cs) # steps))
      else if c = CHR ''['' then
        (case str_find (CHR '']'') cs of
           None \<Rightarrow> Inl (UnclosedBracket path)
         | Some k \<Rightarrow>
             (case parse_selector (take k cs) path of
                Inl e \<Rightarrow> Inl e
              | Inr s \<Rightarrow>
                  (case parse_steps path (drop (k + 1) cs) of
                     Inl e \<Rightarrow> Inl e
                   | Inr steps \<Rightarrow> Inr (s # steps))))
      else Inl (UnexpectedChar (hd (chars (c # cs))) path))"
  by pat_completeness auto
termination
  by (relation "measure (\<lambda>(_, s). length s)") (auto simp: less_Suc_eq_le length_dropWhile_le)

definition parse_path :: "string \<Rightarrow> json_path_error + step list" where
  "parse_path path =
     (case path of
        c # cs \<Rightarrow> if c = CHR ''$'' then parse_steps path cs else Inl (MustStartWithRoot path)
      | [] \<Rightarrow> Inl (MustStartWithRoot path))"

subsection \<open>Selecting\<close>

fun children :: "json \<Rightarrow> json list" where
  "children (JArray items) = items"
| "children (JObject m) = map snd m"
| "children _ = []"

fun item_at :: "json \<Rightarrow> nat \<Rightarrow> json option" where
  "item_at (JArray items) i = (if i < length items then Some (items ! i) else None)"
| "item_at _ i = None"

text \<open>\<open>out\<close> is the accumulator the code threads.\<close>

fun walk :: "json \<Rightarrow> step list \<Rightarrow> json list \<Rightarrow> json list" where
  "walk node [] out = out @ [node]"
| "walk node (SWildcard # rest) out = fold (\<lambda>child. walk child rest) (children node) out"
| "walk node (SIndex i # rest) out =
     (case item_at node i of Some child \<Rightarrow> walk child rest out | None \<Rightarrow> out)"
| "walk node (SField name # rest) out =
     (case json_get node name of Some child \<Rightarrow> walk child rest out | None \<Rightarrow> out)"

definition select_all :: "json \<Rightarrow> string \<Rightarrow> json_path_error + json list" where
  "select_all j path =
     (case parse_path path of Inl e \<Rightarrow> Inl e | Inr steps \<Rightarrow> Inr (walk j steps []))"

definition select_one :: "json \<Rightarrow> string \<Rightarrow> json_path_error + json option" where
  "select_one j path =
     (case select_all j path of
        Inl e \<Rightarrow> Inl e
      | Inr [] \<Rightarrow> Inr None
      | Inr (x # _) \<Rightarrow> Inr (Some x))"

subsection \<open>Printing a path\<close>

text \<open>How a step is spelled, the inverse of the parser: a name without \<open>.\<close> and \<open>[\<close> after a dot, any
  other one in quotes.\<close>

definition print_step :: "step \<Rightarrow> string" where
  "print_step s =
     (case s of
        SWildcard \<Rightarrow> ''[*]''
      | SIndex i \<Rightarrow> ''['' @ show_nat i @ '']''
      | SField name \<Rightarrow>
          (if name \<noteq> [] \<and> list_all is_name_char name then CHR ''.'' # name
           else [CHR ''['', CHR 0x22] @ name @ [CHR 0x22, CHR '']'']))"

definition print_path :: "step list \<Rightarrow> string" where
  "print_path steps = CHR ''$'' # concat (map print_step steps)"

text \<open>The steps a path can spell: an index is a \<open>usize\<close>; a name that needs quotes has no closing
  bracket and no line terminator.\<close>

fun can_spell :: "step \<Rightarrow> bool" where
  "can_spell SWildcard = True"
| "can_spell (SIndex i) = (i \<le> u64_max)"
| "can_spell (SField name) =
     ((name \<noteq> [] \<and> list_all is_name_char name)
      \<or> (CHR '']'' \<notin> set name \<and> \<not> has_line_terminator name))"

subsection \<open>Round trip\<close>

lemma digit_plain: "is_digit c \<Longrightarrow> c \<noteq> CHR '']'' \<and> c \<noteq> CHR ''*''"
  by (auto simp: is_digit_def)

lemma has_line_terminator_quoted:
  assumes "\<not> has_line_terminator name"
  shows "\<not> has_line_terminator (CHR 0x22 # name @ [CHR 0x22])"
proof -
  have no: "\<not> contains (CHR 0x22 # name @ [CHR 0x22]) u"
    if "\<not> contains name u" "CHR 0x22 \<notin> set u" "u \<noteq> []" for u
  proof
    assume "contains (CHR 0x22 # name @ [CHR 0x22]) u"
    then obtain p s where e: "CHR 0x22 # name @ [CHR 0x22] = p @ u @ s"
      by (auto simp: contains_iff)
    have p: "p \<noteq> []"
      using e that(2,3) by (cases u) auto
    have s: "s \<noteq> []"
    proof
      assume "s = []"
      with e have "last (CHR 0x22 # name @ [CHR 0x22]) = last (p @ u)" by simp
      then have "last u = CHR 0x22" using that(3) by simp
      with that(2,3) show False by (metis last_in_set)
    qed
    from p obtain p' where p': "p = CHR 0x22 # p'" using e by (cases p) auto
    from s obtain s' where s': "s = s' @ [last s]" by (metis append_butlast_last_id)
    from e p' s' have "name @ [CHR 0x22] = (p' @ u @ s') @ [last s]" by (metis append.assoc append_Cons list.inject)
    then have "name = p' @ u @ s'" by simp
    with that(1) show False by (auto simp: contains_iff)
  qed
  have q: "CHR 0x22 \<notin> set LINE_SEPARATOR" "CHR 0x22 \<notin> set PARAGRAPH_SEPARATOR"
    "LINE_SEPARATOR \<noteq> []" "PARAGRAPH_SEPARATOR \<noteq> []"
    by (simp_all add: LINE_SEPARATOR_def PARAGRAPH_SEPARATOR_def)
  from assms no [OF _ q(1,3)] no [OF _ q(2,4)] show ?thesis
    by (simp add: has_line_terminator_def)
qed

lemma parse_selector_index: "i \<le> u64_max \<Longrightarrow> parse_selector (show_nat i) path = Inr (SIndex i)"
proof -
  assume i: "i \<le> u64_max"
  have "show_nat i \<noteq> ''*''"
    using show_nat_digits [of i] by (auto simp: is_digit_def)
  with i show ?thesis
    using show_nat_digits [of i] by (simp add: parse_selector_def parse_usize_or_max_def)
qed

lemma parse_selector_name:
  assumes "\<not> has_line_terminator name"
  shows "parse_selector (CHR 0x22 # name @ [CHR 0x22]) path = Inr (SField name)"
  using has_line_terminator_quoted [OF assms]
  by (simp add: parse_selector_def parse_quoted_def is_quoted_def is_digit_def)

lemma parse_bracket:
  assumes "CHR '']'' \<notin> set inner"
  shows "parse_steps path (CHR ''['' # inner @ CHR '']'' # rest) =
    (case parse_selector inner path of
       Inl e \<Rightarrow> Inl e
     | Inr s \<Rightarrow> (case parse_steps path rest of Inl e \<Rightarrow> Inl e | Inr steps \<Rightarrow> Inr (s # steps)))"
proof -
  have "drop (length inner + 1) (inner @ CHR '']'' # rest) = rest" by simp
  with assms show ?thesis by (simp add: str_find_append split: sum.split)
qed

lemma print_step_simps:
  "print_step SWildcard = CHR ''['' # ''*'' @ '']''"
  "print_step (SIndex i) = CHR ''['' # show_nat i @ '']''"
  "name \<noteq> [] \<and> list_all is_name_char name \<Longrightarrow> print_step (SField name) = CHR ''.'' # name"
  "\<not> (name \<noteq> [] \<and> list_all is_name_char name) \<Longrightarrow>
     print_step (SField name) = CHR ''['' # (CHR 0x22 # name @ [CHR 0x22]) @ '']''"
  by (auto simp: print_step_def)

lemma starts_print: "steps = [] \<or> \<not> is_name_char (hd (concat (map print_step steps)))"
  by (cases steps) (auto simp: print_step_def is_name_char_def split: step.splits)

lemma concat_print_Nil: "concat (map print_step steps) = [] \<longleftrightarrow> steps = []"
  by (cases steps) (auto simp: print_step_def split: step.splits)

lemma parse_print_steps:
  "list_all can_spell steps \<Longrightarrow> parse_steps path (concat (map print_step steps)) = Inr steps"
proof (induction steps)
  case Nil
  then show ?case by simp
next
  case (Cons s steps)
  let ?rest = "concat (map print_step steps)"
  have ih: "parse_steps path ?rest = Inr steps" and ok: "can_spell s" using Cons by auto
  consider (wild) "s = SWildcard" | (index) i where "s = SIndex i"
    | (plain) name where "s = SField name" "name \<noteq> []" "list_all is_name_char name"
    | (quoted) name where "s = SField name" "\<not> (name \<noteq> [] \<and> list_all is_name_char name)"
    by (cases s) auto
  then show ?case
  proof cases
    case wild
    have "CHR '']'' \<notin> set ''*''" by simp
    from parse_bracket [OF this, of path ?rest] show ?thesis
      using wild ih by (simp add: print_step_simps parse_selector_def del: parse_steps.simps)
  next
    case index
    have "CHR '']'' \<notin> set (show_nat i)"
      using show_nat_digits [of i] digit_plain by (auto simp: list_all_iff)
    from parse_bracket [OF this, of path ?rest] show ?thesis
      using index ok ih by (simp add: print_step_simps parse_selector_index del: parse_steps.simps)
  next
    case plain
    have hd: "?rest = [] \<or> \<not> is_name_char (hd ?rest)"
      using starts_print [of steps] concat_print_Nil [of steps] by auto
    have "\<forall>x \<in> set name. is_name_char x" using plain by (simp add: list_all_iff)
    note split = span_append [OF this hd]
    show ?thesis using plain ih split by (simp add: print_step_simps)
  next
    case quoted
    with ok have n: "CHR '']'' \<notin> set name" "\<not> has_line_terminator name" by auto
    have "CHR '']'' \<notin> set (CHR 0x22 # name @ [CHR 0x22])" using n by simp
    from parse_bracket [OF this, of path ?rest] show ?thesis
      using quoted ih parse_selector_name [OF n(2)]
      by (simp add: print_step_simps del: parse_steps.simps)
  qed
qed

subsection \<open>Selection\<close>

text \<open>The accumulator is only a concatenation.\<close>

lemma fold_walk:
  assumes "\<And>child out. child \<in> set cs \<Longrightarrow> f child out = out @ g child"
  shows "fold f cs out = out @ concat (map g cs)"
  using assms by (induction cs arbitrary: out) simp_all

lemma walk_acc: "walk node steps out = out @ walk node steps []"
proof (induction steps arbitrary: node out)
  case Nil
  then show ?case by simp
next
  case (Cons s steps)
  show ?case
  proof (cases s)
    case SWildcard
    note f = fold_walk [where f = "\<lambda>child. walk child steps" and g = "\<lambda>c. walk c steps []",
        OF Cons.IH]
    show ?thesis by (simp only: SWildcard walk.simps f append_Nil)
  next
    case (SIndex i)
    show ?thesis
    proof (cases "item_at node i")
      case (Some c)
      with SIndex Cons.IH [of c out] show ?thesis by simp
    qed (simp add: SIndex)
  next
    case (SField name)
    show ?thesis
    proof (cases "json_get node name")
      case (Some c)
      with SField Cons.IH [of c out] show ?thesis by simp
    qed (simp add: SField)
  qed
qed

text \<open>One step as a function, and a path as its composition.\<close>

fun step_into :: "step \<Rightarrow> json \<Rightarrow> json list" where
  "step_into SWildcard j = children j"
| "step_into (SIndex i) j = (case item_at j i of Some c \<Rightarrow> [c] | None \<Rightarrow> [])"
| "step_into (SField name) j = (case json_get j name of Some c \<Rightarrow> [c] | None \<Rightarrow> [])"

lemma walk_Cons: "walk j (s # steps) [] = concat (map (\<lambda>c. walk c steps []) (step_into s j))"
proof (cases s)
  case SWildcard
  note f = fold_walk [where f = "\<lambda>child. walk child steps" and g = "\<lambda>c. walk c steps []",
      OF walk_acc]
  show ?thesis by (simp only: SWildcard walk.simps step_into.simps f append_Nil)
qed (auto split: option.split)

lemma walk_append: "walk j (p @ q) [] = concat (map (\<lambda>c. walk c q []) (walk j p []))"
proof (induction p arbitrary: j)
  case Nil
  then show ?case by simp
next
  case (Cons s p)
  have "concat (map (\<lambda>c. concat (map f (g c))) xs) = concat (map f (concat (map g xs)))"
    for f :: "json \<Rightarrow> json list" and g :: "json \<Rightarrow> json list" and xs
    by (induction xs) simp_all
  then show ?case by (simp add: walk_Cons Cons.IH del: walk.simps)
qed

text \<open>The values inside a document.\<close>

inductive inside :: "json \<Rightarrow> json \<Rightarrow> bool" where
  here: "inside j j"
| item: "x \<in> set items \<Longrightarrow> inside j x \<Longrightarrow> inside j (JArray items)"
| member: "(k, x) \<in> set m \<Longrightarrow> inside j x \<Longrightarrow> inside j (JObject m)"

lemma step_into_inside: "c \<in> set (step_into s j) \<Longrightarrow> inside x c \<Longrightarrow> inside x j"
  by (cases s; cases j)
    (auto intro!: inside.item inside.member dest: map_get_in_set [OF sym] split: option.splits if_splits)

lemma walk_inside: "x \<in> set (walk j steps []) \<Longrightarrow> inside x j"
proof (induction steps arbitrary: j)
  case Nil
  then show ?case by (simp add: here)
next
  case (Cons s steps)
  then show ?case by (auto simp: walk_Cons intro: step_into_inside simp del: walk.simps)
qed

lemma walk_single:
  "SWildcard \<notin> set steps \<Longrightarrow> length (walk j steps []) \<le> 1"
proof (induction steps arbitrary: j)
  case Nil
  then show ?case by simp
next
  case (Cons s steps)
  then show ?case by (cases s) (auto simp: walk_Cons simp del: walk.simps split: option.split)
qed

subsection \<open>Properties\<close>

text \<open>Parsing inverts printing: every list of steps a path can spell comes back from its own
  spelling, so two different selectors never share one; and appending selectors composes the
  selections.\<close>

theorem path_round_trip:
  assumes "list_all can_spell p" and "list_all can_spell q"
  shows "parse_path (print_path p) = Inr p
    \<and> (print_path p = print_path q \<longrightarrow> p = q)
    \<and> select_all j (print_path (p @ q)) =
        Inr (concat (map (\<lambda>c. walk c q []) (walk j p [])))"
proof -
  have r: "parse_path (print_path steps) = Inr steps" if "list_all can_spell steps" for steps
    using parse_print_steps [OF that] by (simp add: parse_path_def print_path_def)
  have "list_all can_spell (p @ q)" using assms by simp
  from r [OF this] have s: "select_all j (print_path (p @ q)) =
      Inr (concat (map (\<lambda>c. walk c q []) (walk j p [])))"
    by (simp add: select_all_def walk_append)
  have u: "p = q" if "print_path p = print_path q"
  proof -
    have "Inr p = (Inr q :: json_path_error + step list)"
      using r [OF assms(1)] r [OF assms(2)] unfolding that by (rule trans [OF sym])
    then show ?thesis by (rule sum.inject(2) [THEN iffD1])
  qed
  show ?thesis using r [OF assms(1)] s u by (intro conjI impI)
qed

theorem path_round_trip_witness:
  "parse_path (print_path [SField ''data'', SWildcard, SField ''a.b'', SIndex 7]) =
     Inr [SField ''data'', SWildcard, SField ''a.b'', SIndex 7]"
  using path_round_trip [of "[SField ''data'', SWildcard, SField ''a.b'', SIndex 7]" "[]" JNull]
  by (simp add: is_name_char_def u64_max_def has_line_terminator_def LINE_SEPARATOR_def
      PARAGRAPH_SEPARATOR_def)

text \<open>A selector reads and nothing else: whatever path a manifest holds, every match is a value
  inside the document, a path without a wildcard has at most one, and it selects the same first
  match \<open>select_one\<close> returns; only the syntax of a path is ever an error, whatever the document.\<close>

theorem selection_stays_inside:
  "(case select_all j path of
      Inl e \<Rightarrow> parse_path path = Inl e \<and> (\<forall>j'. select_all j' path = Inl e \<and> select_one j' path = Inl e)
    | Inr ms \<Rightarrow> (\<forall>x \<in> set ms. inside x j)
        \<and> (\<forall>steps. parse_path path = Inr steps \<longrightarrow> SWildcard \<notin> set steps \<longrightarrow> length ms \<le> 1)
        \<and> select_one j path = Inr (if ms = [] then None else Some (hd ms)))"
proof (cases "parse_path path")
  case (Inl e)
  then show ?thesis by (simp add: select_all_def select_one_def)
next
  case (Inr steps)
  have one: "select_one j path =
      Inr (if walk j steps [] = [] then None else Some (hd (walk j steps [])))"
    using Inr by (simp add: select_one_def select_all_def split: list.split)
  from Inr walk_inside [of _ j steps] walk_single [of steps j] one show ?thesis
    by (simp add: select_all_def)
qed

theorem selection_stays_inside_witness:
  "inside JNull (JObject [(''a'', JNull)])
     \<and> select_one (JObject [(''a'', JNull)]) ''$.a'' = Inr (Some JNull)"
  using selection_stays_inside [of "''$.a''" "JObject [(''a'', JNull)]"]
  by (simp add: select_all_def parse_path_def is_name_char_def)

end
