(* ===== verification/Answer_Text.thy ===== *)
theory Answer_Text
  imports Json_Path Manifest
begin

text \<open>
  The text of a provider's answer (\<open>interpreter.rs\<close>): a string, or an array of blocks whose text
  blocks are joined, or, from one provider, such an array serialised inside the string, sometimes as
  JSON that does not parse. A stream whose first piece looks like the last case is held back until
  it decodes. \<open>parse\<close> is \<open>serde_json::from_str\<close>.
\<close>

subsection \<open>Blocks\<close>

definition TEXT_BLOCK_TYPES :: "string list" where
  "TEXT_BLOCK_TYPES = [''text'', ''input_text'', ''output_text'']"

text \<open>The text one block adds.\<close>

definition block_text :: "json \<Rightarrow> string option" where
  "block_text item =
     (case item of
        JString s \<Rightarrow> Some s
      | JObject _ \<Rightarrow>
          (case get_str item ''type'' of
             Some t \<Rightarrow> if t \<in> set TEXT_BLOCK_TYPES then get_str item ''text'' else None
           | None \<Rightarrow> get_str item ''text'')
      | _ \<Rightarrow> None)"

definition join_text_blocks :: "json list \<Rightarrow> string option" where
  "join_text_blocks items =
     (let parts = List.map_filter block_text items
      in if parts = [] then None else Some (concat parts))"

subsection \<open>Salvage\<close>

definition quote :: char where
  "quote = CHR 0x22"

definition quoted :: "string \<Rightarrow> string" where
  "quoted s = [quote] @ s @ [quote]"

definition backslash :: string where
  "backslash = [CHR 0x5C]"

text \<open>The loop over the characters.\<close>

function unescape_chars :: "string list \<Rightarrow> string" where
  "unescape_chars [] = []"
| "unescape_chars (c # cs) =
     (if c \<noteq> backslash then c @ unescape_chars cs
      else
        (case cs of
           [] \<Rightarrow> backslash
         | d # ds \<Rightarrow>
             (if d = ''n'' then CHR 0x0A # unescape_chars ds
              else if d = ''t'' then CHR 0x09 # unescape_chars ds
              else if d = ''r'' then CHR 0x0D # unescape_chars ds
              else if d = ''b'' then CHR 0x08 # unescape_chars ds
              else if d = ''f'' then CHR 0x0C # unescape_chars ds
              else if d = ''u'' then
                (let hex = concat (take 4 ds)
                 in (case Option.bind (u32_from_hex hex) char_from_u32 of
                       Some u \<Rightarrow> u | None \<Rightarrow> backslash @ ''u'' @ hex)
                    @ unescape_chars (drop 4 ds))
              else d @ unescape_chars ds)))"
  by pat_completeness auto
termination
  by (relation "measure length") auto

definition unescape_json_fragment :: "string \<Rightarrow> string" where
  "unescape_json_fragment s = unescape_chars (chars s)"

text \<open>The value between its opening quote and the last quote before \<open>"type"\<close>, and what follows
  the key.\<close>

definition salvage_value :: "string \<Rightarrow> (string \<times> string) option" where
  "salvage_value body =
     Option.bind
       (case rfind_sub (quoted ''type'') body of
          Some i \<Rightarrow> Some (take i body, drop (i + length (quoted ''type'')) body)
        | None \<Rightarrow> map_option (\<lambda>v. (v, [])) (strip_suffix '']'' body))
       (\<lambda>(v, tail).
          let v1 = trim_end v;
              v2 = trim_end (case strip_suffix '','' v1 of Some w \<Rightarrow> w | None \<Rightarrow> v1)
          in map_option (\<lambda>w. (w, tail)) (strip_suffix [quote] v2))"

text \<open>The tail must declare a type of text block.\<close>

definition declares_text :: "string \<Rightarrow> bool" where
  "declares_text tail \<longleftrightarrow>
     tail = []
     \<or> (case strip_prefix [quote]
             (trim_start (trim_start_matches (\<lambda>u. u = '':'') (trim_start tail))) of
          None \<Rightarrow> False
        | Some r \<Rightarrow> takeWhile (\<lambda>c. c \<noteq> quote) r \<in> set TEXT_BLOCK_TYPES)"

definition salvage_serialized_parts :: "string \<Rightarrow> string option" where
  "salvage_serialized_parts s =
     Option.bind (find_sub (quoted ''text'') s) (\<lambda>k.
       let rest = drop (k + length (quoted ''text'')) s
       in Option.bind (str_find (CHR '':'') rest) (\<lambda>colon.
            Option.bind (strip_prefix [quote] (trim_start (drop (colon + 1) rest))) (\<lambda>body.
              Option.bind (salvage_value body) (\<lambda>(v, tail).
                if \<not> declares_text tail then None
                else (let text = unescape_json_fragment v
                      in if str_trim text = [] then None else Some text)))))"

subsection \<open>Serialised parts\<close>

definition is_text_part :: "json \<Rightarrow> bool" where
  "is_text_part it \<longleftrightarrow>
     (case it of
        JObject o' \<Rightarrow>
          (case map_get o' ''text'' of Some v \<Rightarrow> is_jstring v | None \<Rightarrow> False)
          \<and> list_all (\<lambda>(k, _). k = ''text'' \<or> k = ''type'') o'
          \<and> (case get_str it ''type'' of Some t \<Rightarrow> t \<in> set TEXT_BLOCK_TYPES | None \<Rightarrow> True)
      | _ \<Rightarrow> False)"

definition decode_serialized_parts :: "(string \<Rightarrow> json option) \<Rightarrow> string \<Rightarrow> string option" where
  "decode_serialized_parts parse s =
     (let trimmed = str_trim s
      in if \<not> starts_with trimmed ''[{'' \<or> \<not> ends_with trimmed '']'' then None
         else
           (case parse trimmed of
              Some (JArray items) \<Rightarrow>
                (if items \<noteq> [] \<and> list_all is_text_part items then join_text_blocks items else None)
            | _ \<Rightarrow> salvage_serialized_parts trimmed))"

definition select_text ::
  "(string \<Rightarrow> json option) \<Rightarrow> json \<Rightarrow> string \<Rightarrow> json_path_error + string option" where
  "select_text parse j path =
     (case select_one j path of
        Inl e \<Rightarrow> Inl e
      | Inr None \<Rightarrow> Inr None
      | Inr (Some (JString s)) \<Rightarrow>
          Inr (Some (case decode_serialized_parts parse s of Some d \<Rightarrow> d | None \<Rightarrow> s))
      | Inr (Some (JArray items)) \<Rightarrow> Inr (join_text_blocks items)
      | Inr (Some _) \<Rightarrow> Inr None)"

subsection \<open>Holding back\<close>

definition LADDERS :: "string list" where
  "LADDERS = [''[{'' @ quoted ''text'' @ '':'',
     ''[{'' @ quoted ''type'' @ '':'' @ [quote] @ ''text'']"

definition opens_parts_array :: "string \<Rightarrow> bool" where
  "opens_parts_array s =
     (let flat = concat (filter (\<lambda>u. \<not> is_rust_whitespace u) (chars s))
      in list_ex (\<lambda>ladder. (length flat \<le> length ladder \<and> starts_with ladder flat)
                    \<or> starts_with flat ladder) LADDERS)"

datatype parts_hold = Fresh | Holding string | Open

datatype line_step = LChunk string bool | LContinue | LEnd | LFail

definition decoded_or_raw :: "(string \<Rightarrow> json option) \<Rightarrow> string \<Rightarrow> string" where
  "decoded_or_raw parse buf =
     (case decode_serialized_parts parse buf of Some d \<Rightarrow> d | None \<Rightarrow> buf)"

text \<open>The decision on a buffer that may still grow.\<close>

definition try_decode ::
  "(string \<Rightarrow> json option) \<Rightarrow> string \<Rightarrow> bool \<Rightarrow> line_step \<times> parts_hold" where
  "try_decode parse buf fin =
     (case decode_serialized_parts parse buf of
        Some decoded \<Rightarrow> (LChunk decoded fin, Open)
      | None \<Rightarrow> if fin then (LChunk buf fin, Open) else (LContinue, Holding buf))"

fun hold_step ::
  "(string \<Rightarrow> json option) \<Rightarrow> parts_hold \<Rightarrow> string option \<Rightarrow> bool \<Rightarrow> line_step \<times> parts_hold"
where
  "hold_step parse h None fin =
     (if \<not> fin then (LContinue, h)
      else (case h of
              Holding buf \<Rightarrow> (LChunk (decoded_or_raw parse buf) True, Open)
            | _ \<Rightarrow> (LEnd, Open)))"
| "hold_step parse Open (Some text) fin = (LChunk text fin, Open)"
| "hold_step parse Fresh (Some text) fin =
     (if \<not> opens_parts_array text then (LChunk text fin, Open) else try_decode parse text fin)"
| "hold_step parse (Holding buf) (Some text) fin = try_decode parse (buf @ text) fin"

definition take_held :: "(string \<Rightarrow> json option) \<Rightarrow> parts_hold \<Rightarrow> string option \<times> parts_hold" where
  "take_held parse h =
     (case h of Holding buf \<Rightarrow> (Some (decoded_or_raw parse buf), Open) | _ \<Rightarrow> (None, Open))"

subsection \<open>What is salvaged\<close>

lemma trim_end_snoc:
  assumes "\<not> is_cont c" and "\<not> is_rust_whitespace [c]"
  shows "trim_end (s @ [c]) = s @ [c]"
proof -
  have "chars (s @ [c]) = chars s @ [[c]]"
    using chars_append [of "[c]" s] assms(1) by simp
  then show ?thesis using assms(2) by (simp add: trim_end_def trim_end_matches_def)
qed

lemma trim_start_quote: "trim_start (quote # s) = quote # s"
  by (simp add: trim_start_def trim_start_matches_def is_rust_whitespace_def quote_def)

lemma unescape_plain: "CHR 0x5C \<notin> set (concat cs) \<Longrightarrow> unescape_chars cs = concat cs"
proof (induction cs)
  case (Cons c cs)
  then have "c \<noteq> backslash" by (auto simp: backslash_def)
  with Cons show ?case by simp
qed simp

text \<open>The serialised form of one text block.\<close>

definition serialized_part :: "string \<Rightarrow> string" where
  "serialized_part t =
     ''[{'' @ quoted ''text'' @ '':'' @ [quote] @ t @ [quote] @ '','' @ quoted ''type''
       @ '':'' @ quoted ''text'' @ ''}]''"

lemma salvage_value_part:
  "salvage_value (t @ [quote] @ '','' @ quoted ''type'' @ '':'' @ quoted ''text'' @ ''}]'')
     = Some (t, '':'' @ quoted ''text'' @ ''}]'')"
proof -
  have "rfind_sub (quoted ''type'') (quoted ''type'' @ '':'' @ quoted ''text'' @ ''}]'') = Some 0"
    by code_simp
  from rfind_sub_append [OF this, of "t @ [quote] @ '',''"]
  have "rfind_sub (quoted ''type'')
      (t @ [quote] @ '','' @ quoted ''type'' @ '':'' @ quoted ''text'' @ ''}]'') = Some (length t + 2)"
    by simp
  moreover have "trim_end (t @ [quote] @ '','') = t @ [quote] @ '',''"
    using trim_end_snoc [of "CHR '',''" "t @ [quote]"]
    by (simp add: is_cont_def is_rust_whitespace_def)
  moreover have "trim_end (t @ [quote]) = t @ [quote]"
    by (rule trim_end_snoc) (simp_all add: is_cont_def is_rust_whitespace_def quote_def)
  moreover have "strip_suffix '','' (t @ [quote] @ '','') = Some (t @ [quote])"
    by (simp add: strip_suffix_Some)
  moreover have "strip_suffix [quote] (t @ [quote]) = Some t"
    by (simp add: strip_suffix_Some)
  ultimately show ?thesis
    by (simp add: salvage_value_def quoted_def)
qed

lemma salvage_part:
  assumes "CHR 0x5C \<notin> set t" and "str_trim t \<noteq> []"
  shows "salvage_serialized_parts (serialized_part t) = Some t"
proof -
  have key: "find_sub (quoted ''text'') (serialized_part t) = Some 2"
    by (simp add: serialized_part_def quoted_def quote_def)
  have tail: "declares_text ('':'' @ quoted ''text'' @ ''}]'')" by code_simp
  have "unescape_json_fragment t = t"
    using unescape_plain [of "chars t"] assms(1) by (simp add: unescape_json_fragment_def)
  then show ?thesis
    using assms(2) salvage_value_part [of t] tail trim_start_quote
    by (simp add: salvage_serialized_parts_def key) (simp add: serialized_part_def quoted_def
        strip_prefix_def)
qed

lemma str_trim_part: "str_trim (serialized_part t) = serialized_part t"
proof -
  have start: "trim_start_matches is_rust_whitespace (serialized_part t) = serialized_part t"
    by (simp add: trim_start_matches_def serialized_part_def is_rust_whitespace_def is_cont_def)
  have snoc: "serialized_part t = (''[{'' @ quoted ''text'' @ '':'' @ [quote] @ t @ [quote] @ '',''
      @ quoted ''type'' @ '':'' @ quoted ''text'' @ ''}'') @ [CHR '']'']"
    by (simp add: serialized_part_def)
  have "trim_end (serialized_part t) = serialized_part t"
    unfolding snoc by (rule trim_end_snoc) (simp_all add: is_cont_def is_rust_whitespace_def)
  with start show ?thesis by (simp add: str_trim_def trim_end_def)
qed

lemma serialized_part_ends: "ends_with (serialized_part t) '']''"
proof -
  have "serialized_part t = (''[{'' @ quoted ''text'' @ '':'' @ [quote] @ t @ [quote] @ '',''
      @ quoted ''type'' @ '':'' @ quoted ''text'' @ ''}'') @ '']''"
    by (simp add: serialized_part_def)
  then show ?thesis unfolding ends_with_def using strip_suffix_Some by blast
qed

lemma decode_prose:
  "\<not> starts_with (str_trim s) ''[{'' \<Longrightarrow> decode_serialized_parts parse s = None"
  by (simp add: decode_serialized_parts_def Let_def)

subsection \<open>What the hold shows\<close>

text \<open>A stream of pieces that is cut off without a sentinel: the pieces shown one by one, and what
  is still held at the end.\<close>

fun hold_feed ::
  "(string \<Rightarrow> json option) \<Rightarrow> parts_hold \<Rightarrow> string list \<Rightarrow> string list \<times> parts_hold" where
  "hold_feed parse h [] = ([], h)"
| "hold_feed parse h (d # ds) =
     (case hold_step parse h (Some d) False of
        (LChunk t _, h1) \<Rightarrow> (case hold_feed parse h1 ds of (shown, h2) \<Rightarrow> (t # shown, h2))
      | (_, h1) \<Rightarrow> hold_feed parse h1 ds)"

definition held_chunks :: "(string \<Rightarrow> json option) \<Rightarrow> parts_hold \<Rightarrow> string list \<Rightarrow> string list" where
  "held_chunks parse h ds =
     (case hold_feed parse h ds of
        (shown, h1) \<Rightarrow> shown @ (case fst (take_held parse h1) of Some t \<Rightarrow> [t] | None \<Rightarrow> []))"

text \<open>The first prefix of pieces that decodes, behind what is already held.\<close>

fun first_decoding :: "(string \<Rightarrow> json option) \<Rightarrow> string \<Rightarrow> string list \<Rightarrow> (string \<times> string list) option"
where
  "first_decoding parse buf [] = None"
| "first_decoding parse buf (d # ds) =
     (case decode_serialized_parts parse (buf @ d) of
        Some t \<Rightarrow> Some (t, ds)
      | None \<Rightarrow> first_decoding parse (buf @ d) ds)"

lemma hold_feed_Open: "hold_feed parse Open ds = (ds, Open)"
  by (induction ds) simp_all

lemma hold_feed_Holding:
  "decode_serialized_parts parse buf = None \<Longrightarrow>
     held_chunks parse (Holding buf) ds =
       (case first_decoding parse buf ds of
          Some (t, rest) \<Rightarrow> t # rest
        | None \<Rightarrow> [buf @ concat ds])"
proof (induction ds arbitrary: buf)
  case Nil
  then show ?case by (simp add: held_chunks_def take_held_def decoded_or_raw_def)
next
  case (Cons d ds)
  show ?case
  proof (cases "decode_serialized_parts parse (buf @ d)")
    case None
    from Cons.IH [OF this] show ?thesis
      by (simp add: held_chunks_def try_decode_def None cong: option.case_cong)
  next
    case (Some t)
    then show ?thesis
      by (simp add: held_chunks_def try_decode_def take_held_def hold_feed_Open)
  qed
qed

subsection \<open>Properties\<close>

text \<open>What a stream shows of its pieces: if the first piece cannot open a serialised array, every
  piece is shown as it came. Otherwise everything is held until the pieces so far decode; then
  their text is shown at once and what follows as it comes; if they never decode, one piece is
  shown at the end, all of them. So no text is lost and none is shown twice.\<close>

theorem held_stream_shows_everything:
  "held_chunks parse Fresh ds =
     (case ds of
        [] \<Rightarrow> []
      | d # _ \<Rightarrow>
          if \<not> opens_parts_array d then ds
          else (case first_decoding parse [] ds of
                  Some (t, rest) \<Rightarrow> t # rest
                | None \<Rightarrow> [concat ds]))"
proof (cases ds)
  case Nil
  then show ?thesis by (simp add: held_chunks_def take_held_def)
next
  case (Cons d rest)
  show ?thesis
  proof (cases "opens_parts_array d")
    case False
    with Cons show ?thesis by (simp add: held_chunks_def hold_feed_Open take_held_def)
  next
    case True
    show ?thesis
    proof (cases "decode_serialized_parts parse d")
      case None
      have "held_chunks parse Fresh ds = held_chunks parse (Holding d) rest"
        using Cons True None by (simp add: held_chunks_def try_decode_def)
      with Cons True None hold_feed_Holding [OF None] show ?thesis
        by (simp cong: option.case_cong)
    next
      case (Some t)
      with Cons True show ?thesis
        by (simp add: held_chunks_def try_decode_def hold_feed_Open take_held_def)
    qed
  qed
qed

text \<open>A serialised answer is read, ordinary text is left alone: text that does not begin with an
  array of objects never decodes, and one serialised block whose JSON is broken, because the text
  has unescaped quotes, decodes to exactly that text, whatever quotes, commas or keys it
  contains.\<close>

theorem broken_parts_are_salvaged:
  "(CHR 0x5C \<notin> set t \<longrightarrow> str_trim t \<noteq> [] \<longrightarrow> parse (serialized_part t) = None \<longrightarrow>
      decode_serialized_parts parse (serialized_part t) = Some t)
   \<and> (\<not> starts_with (str_trim s) ''[{'' \<longrightarrow> decode_serialized_parts parse s = None)"
proof (intro conjI impI)
  have "starts_with (serialized_part t) ''[{''"
    by (simp add: starts_with_def serialized_part_def)
  moreover assume "CHR 0x5C \<notin> set t" and "str_trim t \<noteq> []" and "parse (serialized_part t) = None"
  ultimately show "decode_serialized_parts parse (serialized_part t) = Some t"
    by (simp add: decode_serialized_parts_def str_trim_part serialized_part_ends salvage_part)
qed (rule decode_prose)

theorem broken_parts_are_salvaged_witness:
  "decode_serialized_parts (\<lambda>_. None) (serialized_part (''is '' @ quoted ''this'' @ '' ok?''))
     = Some (''is '' @ quoted ''this'' @ '' ok?'')"
proof -
  let ?t = "''is '' @ quoted ''this'' @ '' ok?''"
  have "CHR 0x5C \<notin> set ?t" and "str_trim ?t \<noteq> []" by code_simp+
  then show ?thesis
    using broken_parts_are_salvaged [of ?t "\<lambda>_. None" "[]"] by blast
qed

text \<open>The hold decides on the first piece only: behind a blank one ordinary text is held back, piece
  after piece, until the stream ends.\<close>

lemma prose_after_a_blank_piece_is_held:
  assumes "\<And>k. \<not> starts_with (str_trim ([CHR 0x0A] @ concat (take k ds))) ''[{''"
  shows "hold_feed parse Fresh ([CHR 0x0A] # ds) = ([], Holding ([CHR 0x0A] @ concat ds))"
proof -
  have held: "hold_feed parse (Holding buf) xs = ([], Holding (buf @ concat xs))"
    if "\<And>k. \<not> starts_with (str_trim (buf @ concat (take k xs))) ''[{''" for buf xs
    using that
  proof (induction xs arbitrary: buf)
    case (Cons x xs)
    have "\<not> starts_with (str_trim ((buf @ x) @ concat (take k xs))) ''[{''" for k
      using Cons.prems [of "Suc k"] by simp
    note ih = Cons.IH [OF this]
    have "decode_serialized_parts parse (buf @ x) = None"
      using Cons.prems [of "Suc 0"] by (intro decode_prose) simp
    with ih show ?case by (simp add: try_decode_def)
  qed simp
  have "opens_parts_array [CHR 0x0A]" by code_simp
  moreover have "decode_serialized_parts parse [CHR 0x0A] = None"
    using assms [of 0] by (intro decode_prose) simp
  ultimately show ?thesis
    using held [of "[CHR 0x0A]" ds] assms by (simp add: try_decode_def)
qed

end
