(* ===== verification/Interp_Request.thy ===== *)
theory Interp_Request
  imports Dialect Answer_Text
begin

text \<open>
  The request a declarative adapter sends for a call (\<open>interpreter.rs\<close>): the values a template is
  filled with, the thinking knob, the choice of tool, the headers, the cache marker and the body.
  \<open>show\<close> and \<open>parse\<close> are the printer and the parser of JSON; \<open>vars\<close> are the host's extra values.
\<close>

subsection \<open>Choice of tool\<close>

definition tool_choice_placeholder :: "string \<Rightarrow> string option" where
  "tool_choice_placeholder text =
     Option.bind (strip_prefix ''{{'' (str_trim text)) (\<lambda>t.
       Option.bind (strip_suffix ''}}'' t) (\<lambda>u.
         Option.bind (strip_prefix ''toolChoice.'' (str_trim u)) (\<lambda>path.
           if path = [] \<or> \<not> list_all (\<lambda>c. is_key_char c \<or> c = CHR ''.'') path then None
           else Some path)))"

definition get_dotted :: "json \<Rightarrow> string \<Rightarrow> json option" where
  "get_dotted value path =
     fold (\<lambda>seg cur. Option.bind cur (\<lambda>c. json_get c seg)) (split_on (CHR ''.'') path) (Some value)"

function render_tool_choice_value :: "json \<Rightarrow> json \<Rightarrow> json option" where
  "render_tool_choice_value mapped source =
     (case mapped of
        JString s \<Rightarrow>
          (case tool_choice_placeholder s of
             Some path \<Rightarrow>
               (case get_dotted source path of
                  None \<Rightarrow> None
                | Some v \<Rightarrow> if v = JNull then None else Some v)
           | None \<Rightarrow> Some (JString s))
      | JArray items \<Rightarrow>
          Some (JArray (map (\<lambda>it. case render_tool_choice_value it source of
                                     Some r \<Rightarrow> r | None \<Rightarrow> JNull) items))
      | JObject entries \<Rightarrow>
          Some (JObject (fold (\<lambda>(k, r). case r of Some v \<Rightarrow> map_insert k v | None \<Rightarrow> (\<lambda>out. out))
            (map (\<lambda>(k, v). (k, render_tool_choice_value v source)) entries) []))
      | other \<Rightarrow> Some other)"
  by pat_completeness auto
termination
proof (relation "measure (\<lambda>(m, _). size m)")
  fix mapped source :: json and items :: "json list" and it :: json
  assume "mapped = JArray items" and "it \<in> set items"
  then show "((it, source), mapped, source) \<in> measure (\<lambda>(m, _). size m)"
    using size_list_estimation' [of it items "size it" size] by simp
next
  fix mapped source :: json and entries :: json_map and kv :: "string \<times> json" and k v
  assume "mapped = JObject entries" and "kv \<in> set entries" and "(k, v) = kv"
  then show "((v, source), mapped, source) \<in> measure (\<lambda>(m, _). size m)"
    using size_list_estimation' [of kv entries "size_prod (\<lambda>_. 0) size kv"
        "size_prod (\<lambda>_. 0) size"] by auto
qed simp

definition translate_tool_choice :: "json \<Rightarrow> json_map option \<Rightarrow> json option" where
  "translate_tool_choice tool_choice m =
     (case m of
        None \<Rightarrow> Some tool_choice
      | Some cm \<Rightarrow>
          (case (case tool_choice of
                   JString s \<Rightarrow> map_get cm s
                 | JObject _ \<Rightarrow> map_get cm (str_or_empty tool_choice ''type'')
                 | _ \<Rightarrow> None) of
             None \<Rightarrow> None
           | Some mapped \<Rightarrow> render_tool_choice_value mapped tool_choice))"

subsection \<open>The thinking knob\<close>

definition MIN_ANSWER_TOKENS :: nat where
  "MIN_ANSWER_TOKENS = 2048"

definition thinking_budget :: "reasoning_effort \<Rightarrow> nat option \<Rightarrow> nat" where
  "thinking_budget effort max_tokens =
     (case budget_tokens effort of
        None \<Rightarrow> 0
      | Some b \<Rightarrow>
          (let wanted = max b 1024
           in case max_tokens of
                None \<Rightarrow> wanted
              | Some cap \<Rightarrow>
                  if cap \<le> 1024 then 0 else max (min wanted (cap - MIN_ANSWER_TOKENS)) 1024))"

definition reasoning_values :: "reasoning_effort \<Rightarrow> nat option \<Rightarrow> (string \<times> json) list" where
  "reasoning_values effort max_tokens =
     (let budget = thinking_budget effort max_tokens
      in if budget = 0 then [(''thinking'', jobj [(''type'', JString ''disabled'')])]
         else [(''thinking'', jobj [(''type'', JString ''enabled''),
                  (''budget_tokens'', JNumber (PosInt budget))]),
               (''reasoningEffort'', JString (effort_str effort)),
               (''thinkingConfig'', jobj [(''thinkingBudget'', JNumber (PosInt budget))])])"

text \<open>The template declares \<open>{{thinking?}}\<close> and the rendered knob turns thinking on.\<close>

definition thinking_on :: "text_endpoint \<Rightarrow> (string \<times> json) list \<Rightarrow> bool" where
  "thinking_on ep rendered \<longleftrightarrow>
     list_ex (\<lambda>(k, v). k = ''thinking'' \<and> get_str v ''type'' = Some ''enabled'') rendered
     \<and> list_ex (\<lambda>(_, v). case as_str v of Some s \<Rightarrow> contains s ''{{thinking?}}'' | None \<Rightarrow> False)
         (tx_request_template ep)"

subsection \<open>Headers\<close>

definition insert_all :: "(string \<times> 'v) list \<Rightarrow> (string \<times> 'v) list \<Rightarrow> (string \<times> 'v) list" where
  "insert_all kvs m = fold (\<lambda>(k, v). map_insert k v) kvs m"

definition json_headers ::
  "(json \<Rightarrow> string) \<Rightarrow> manifest_view \<Rightarrow> (string \<times> string) list \<Rightarrow> json_map \<Rightarrow> (string \<times> string) list"
where
  "json_headers show view endpoint vars =
     insert_all (render_headers show endpoint vars)
       (map_insert ''content-type'' ''application/json'' (auth_headers (pv_auth_headers (mv_provider view))))"

definition list_headers ::
  "(json \<Rightarrow> string) \<Rightarrow> manifest_view \<Rightarrow> (string \<times> string) list \<Rightarrow> json_map \<Rightarrow> (string \<times> string) list"
where
  "list_headers show view endpoint vars =
     insert_all (render_headers show endpoint vars) (auth_headers (pv_auth_headers (mv_provider view)))"

definition wants_usage :: "manifest_view \<Rightarrow> text_endpoint \<Rightarrow> bool" where
  "wants_usage view ep \<longleftrightarrow>
     (case Option.bind (tx_stream ep) ss_request_usage of
        Some flag \<Rightarrow> flag
      | None \<Rightarrow> mv_dialect view = OPENAI_CHAT_V1 \<and> rm_usage (tx_response_map ep) \<noteq> None)"

subsection \<open>The body of a text request\<close>

definition part_template :: "text_endpoint \<Rightarrow> string \<Rightarrow> json_map option" where
  "part_template ep k =
     Option.bind (tx_content_part_templates ep) (\<lambda>p. Option.bind (map_get p k) as_object)"

text \<open>The messages, the hoisted system text and the tools in the dialect's spelling.\<close>

definition dialect_shape ::
  "(json \<Rightarrow> string) \<Rightarrow> (string \<Rightarrow> json option) \<Rightarrow> text_endpoint \<Rightarrow> text_args
     \<Rightarrow> template_error + json list \<times> string option \<times> json option" where
  "dialect_shape show parse ep args =
     (case attach_tool_parts show parse (ta_messages args)
             (part_template ep ''toolCall'') (part_template ep ''toolResult'') of
        Inl e \<Rightarrow> Inl e
      | Inr shaped \<Rightarrow>
          (case normalize_dialect_messages show shaped (tx_messages_role_map ep) (tx_system_field ep) of
             (normalized, system) \<Rightarrow>
               (case shape_message_content normalized (tx_content_part_templates ep)
                       (tx_content_field ep) of
                  Inl e \<Rightarrow> Inl e
                | Inr messages \<Rightarrow>
                    (case shape_tool_declarations (ta_tools args) (tx_tool_declaration_templates ep)
                            (tx_tool_declaration_wrapper ep) of
                       Inl e \<Rightarrow> Inl e
                     | Inr tools \<Rightarrow> Inr (messages, system, tools)))))"

definition insert_some :: "string \<Rightarrow> json option \<Rightarrow> json_map \<Rightarrow> json_map" where
  "insert_some k v m = (case v of Some j \<Rightarrow> map_insert k j m | None \<Rightarrow> m)"

text \<open>\<open>args.max_tokens.or_else(|| limits.max_output_tokens)\<close>\<close>

definition effective_max_tokens :: "manifest_view \<Rightarrow> text_args \<Rightarrow> nat option" where
  "effective_max_tokens view args =
     (case ta_max_tokens args of
        Some n \<Rightarrow> Some n
      | None \<Rightarrow> Option.bind (mv_limits view) li_max_output_tokens)"

definition rendered_reasoning :: "manifest_view \<Rightarrow> text_args \<Rightarrow> (string \<times> json) list" where
  "rendered_reasoning view args =
     (case ta_reasoning args of
        Some effort \<Rightarrow> reasoning_values effort (effective_max_tokens view args)
      | None \<Rightarrow> [])"

text \<open>The values, in the order of their insertion: a later one of the same name wins.\<close>

definition text_values ::
  "manifest_view \<Rightarrow> text_endpoint \<Rightarrow> json_map \<Rightarrow> text_args \<Rightarrow> bool
     \<Rightarrow> json list \<times> string option \<times> json option \<Rightarrow> json_map" where
  "text_values view ep vars args streaming shaped =
     (case shaped of (messages, system, tools) \<Rightarrow>
        (let rendered = rendered_reasoning view args;
             thinking = thinking_on ep rendered;
             v1 = vals_of [(''model'', JString (ta_model args)), (''messages'', JArray messages),
                    (''stream'', JBool streaming)];
             v2 = insert_some ''system'' (map_option JString system) v1;
             v3 = insert_some ''maxTokens''
                    (map_option (\<lambda>n. JNumber (PosInt n)) (effective_max_tokens view args)) v2;
             v4 = insert_all rendered v3;
             v5 = (if thinking then v4
                   else insert_some ''temperature''
                          (map_option (\<lambda>t. JNumber (FloatNum t)) (ta_temperature args)) v4);
             v6 = insert_some ''tools'' tools v5;
             v7 = insert_some ''toolChoice''
                    (Option.bind (ta_tool_choice args) (\<lambda>v.
                       translate_tool_choice (if thinking then JString ''auto'' else v)
                         (tx_tool_choice_map ep))) v6;
             v8 = insert_some ''responseFormat'' (ta_response_format args) v7
         in insert_all vars v8))"

text \<open>The cache marker on the last system message. Indexing a JSON value by a key inserts a null
  under a missing key of an object and panics (\<open>None\<close>) on a value that is neither an object nor
  null.\<close>

definition CACHE_MARKER :: json where
  "CACHE_MARKER = jobj [(''type'', JString ''ephemeral'')]"

fun index_assign :: "string \<Rightarrow> json \<Rightarrow> json \<Rightarrow> json option" where
  "index_assign k v (JObject m) = Some (JObject (map_insert k v m))"
| "index_assign k v JNull = Some (JObject [(k, v)])"
| "index_assign k v _ = None"

definition mark_content :: "json \<Rightarrow> json option" where
  "mark_content content =
     (case content of
        JString text \<Rightarrow>
          Some (JArray [jobj [(''type'', JString ''text''), (''text'', JString text),
            (''cache_control'', CACHE_MARKER)]])
      | JArray blocks \<Rightarrow>
          (if blocks = [] then Some content
           else (case index_assign ''cache_control'' CACHE_MARKER (last blocks) of
                   None \<Rightarrow> None
                 | Some b \<Rightarrow> Some (JArray (butlast blocks @ [b]))))
      | other \<Rightarrow> Some other)"

definition mark_message :: "json \<Rightarrow> json option" where
  "mark_message m =
     (case m of
        JObject o' \<Rightarrow>
          (case mark_content (case map_get o' ''content'' of Some c \<Rightarrow> c | None \<Rightarrow> JNull) of
             None \<Rightarrow> None
           | Some c \<Rightarrow> Some (JObject (map_insert ''content'' c o')))
      | _ \<Rightarrow> None)"

definition is_system :: "json \<Rightarrow> bool" where
  "is_system m \<longleftrightarrow> get_str m ''role'' = Some ''system''"

text \<open>The index of the last message that satisfies a test (\<open>enumerate().rev().find()\<close>).\<close>

fun last_index :: "('a \<Rightarrow> bool) \<Rightarrow> 'a list \<Rightarrow> nat option" where
  "last_index P [] = None"
| "last_index P (x # xs) =
     (case last_index P xs of Some i \<Rightarrow> Some (Suc i) | None \<Rightarrow> if P x then Some 0 else None)"

definition mark_cache :: "json_map \<Rightarrow> json_map option" where
  "mark_cache body =
     (case map_get body ''messages'' of
        Some (JArray msgs) \<Rightarrow>
          (case last_index is_system msgs of
             None \<Rightarrow> Some body
           | Some idx \<Rightarrow>
               (case mark_message (msgs ! idx) of
                  None \<Rightarrow> None
                | Some m \<Rightarrow> Some (map_modify ''messages'' (\<lambda>_. JArray (msgs[idx := m])) body)))
      | _ \<Rightarrow> Some body)"

definition streams :: "text_endpoint \<Rightarrow> text_args \<Rightarrow> bool" where
  "streams ep args \<longleftrightarrow> ta_stream args \<and> tx_stream ep \<noteq> None"

definition request_body ::
  "(json \<Rightarrow> string) \<Rightarrow> (string \<Rightarrow> json option) \<Rightarrow> manifest_view \<Rightarrow> text_endpoint \<Rightarrow> json_map \<Rightarrow> text_args
     \<Rightarrow> template_error + json_map" where
  "request_body show parse view ep vars args =
     (case dialect_shape show parse ep args of
        Inl e \<Rightarrow> Inl e
      | Inr shaped \<Rightarrow>
          (case render_template (tx_request_template ep)
                  (text_values view ep vars args (streams ep args) shaped) of
             Inl e \<Rightarrow> Inl e
           | Inr body \<Rightarrow>
               Inr (if streams ep args \<and> wants_usage view ep
                    then map_insert ''stream_options'' (jobj [(''include_usage'', JBool True)]) body
                    else body)))"

definition dialed_path :: "text_endpoint \<Rightarrow> text_args \<Rightarrow> string" where
  "dialed_path ep args =
     (case tx_stream_path ep of
        Some p \<Rightarrow> if streams ep args then p else tx_path ep
      | None \<Rightarrow> tx_path ep)"

definition text_request_of ::
  "(json \<Rightarrow> string) \<Rightarrow> manifest_view \<Rightarrow> text_endpoint \<Rightarrow> json_map \<Rightarrow> string \<Rightarrow> text_args \<Rightarrow> json_map
     \<Rightarrow> http_request" where
  "text_request_of show view ep vars secret_ref args body =
     \<lparr>hq_url = join_url (pv_base_url (mv_provider view)) (render_path (dialed_path ep args) (ta_model args)),
      hq_method = Post, hq_headers = json_headers show view (tx_headers ep) vars,
      hq_body = Some (show (JObject body)), hq_secret_ref = Some secret_ref,
      hq_stream = streams ep args\<rparr>"

subsection \<open>Where the secret goes\<close>

lemma map_get_fold_other:
  "k \<notin> set (map fst kvs) \<Longrightarrow> map_get (insert_all kvs m) k = map_get m k"
  by (induction kvs arbitrary: m) (auto simp: insert_all_def)

lemma map_get_auth:
  assumes "distinct (map ah_name hs)" and "h \<in> set hs"
  shows "map_get (auth_headers hs) (ah_name h) = Some (auth_value h)"
proof -
  from assms show ?thesis
    unfolding auth_headers_def
  proof (induction hs arbitrary: h rule: rev_induct)
    case (snoc g gs)
    show ?case
    proof (cases "h \<in> set gs")
      case True
      then have "ah_name h \<in> ah_name ` set gs" by (rule imageI)
      with snoc.prems have "ah_name h \<noteq> ah_name g" by auto
      with True snoc show ?thesis by simp
    qed (use snoc.prems in simp)
  qed simp
qed

lemma map_get_map: "map_get (map (\<lambda>(k, v). (k, f v)) m) k = map_option f (map_get m k)"
  by (induction m) auto

lemma render_headers_keys [simp]: "map fst (render_headers show headers vars) = map fst headers"
  by (simp add: render_headers_def case_prod_beta comp_def)

lemma contains_append: "contains s p \<Longrightarrow> contains (a @ s) p"
  unfolding contains_iff by (metis append_assoc)

lemma auth_value_marked: "contains (auth_value h) SENTINEL"
proof -
  have "contains SENTINEL SENTINEL" by code_simp
  then show ?thesis by (auto simp: auth_value_def contains_append split: option.split)
qed

definition auth_prefix :: "auth_header \<Rightarrow> string" where
  "auth_prefix h = (case ah_prefix h of Some p \<Rightarrow> if p \<noteq> [] then p @ '' '' else [] | None \<Rightarrow> [])"

lemma auth_value_replaced:
  assumes "CHR ''{'' \<notin> set (auth_prefix h)"
  shows "str_replace SENTINEL s (auth_value h) = auth_prefix h @ s"
proof -
  have "auth_value h = auth_prefix h @ SENTINEL @ []"
    by (simp add: auth_value_def auth_prefix_def split: option.split)
  then show ?thesis
    using assms str_replace_after [of SENTINEL "auth_prefix h" s "SENTINEL @ []"]
      str_replace_here [of SENTINEL s "[]"] by (simp add: SENTINEL_def)
qed

text \<open>An auth header that the endpoint's static headers leave alone.\<close>

definition keeps_auth :: "manifest_view \<Rightarrow> (string \<times> string) list \<Rightarrow> auth_header \<Rightarrow> bool" where
  "keeps_auth view endpoint h \<longleftrightarrow>
     h \<in> set (pv_auth_headers (mv_provider view))
     \<and> distinct (map ah_name (pv_auth_headers (mv_provider view)))
     \<and> ah_name h \<noteq> ''content-type'' \<and> ah_name h \<notin> set (map fst endpoint)"

lemma json_headers_auth:
  assumes "keeps_auth view endpoint h"
  shows "map_get (json_headers show view endpoint vars) (ah_name h) = Some (auth_value h)"
  using assms map_get_auth [of "pv_auth_headers (mv_provider view)" h]
  by (simp add: keeps_auth_def json_headers_def map_get_fold_other)

subsection \<open>Properties\<close>

text \<open>(C13) The secret reaches the headers the manifest marks and no others: with a secret every auth
  header the endpoint does not override becomes its prefix and the secret, a header without the
  marker is sent as it is and no header is added or dropped; without a secret a request that
  authenticates is refused instead of being sent with the marker in it.\<close>

theorem secret_reaches_only_marked_headers:
  assumes "keeps_auth view endpoint h" and "CHR ''{'' \<notin> set (auth_prefix h)"
  shows "\<exists>out. inject_secret (json_headers show view endpoint vars) (Some s) = Inr out
    \<and> map_get out (ah_name h) = Some (auth_prefix h @ s)
    \<and> map fst out = map fst (json_headers show view endpoint vars)
    \<and> (\<forall>k v. map_get (json_headers show view endpoint vars) k = Some v \<longrightarrow> \<not> contains v SENTINEL
         \<longrightarrow> map_get out k = Some v)
    \<and> inject_secret (json_headers show view endpoint vars) None = Inl SentinelMissing"
proof -
  let ?hs = "json_headers show view endpoint vars"
  let ?f = "\<lambda>v. if contains v SENTINEL then str_replace SENTINEL s v else v"
  have auth: "map_get ?hs (ah_name h) = Some (auth_value h)"
    using assms(1) by (rule json_headers_auth)
  then have marked: "list_ex (\<lambda>(_, v). contains v SENTINEL) ?hs"
    using map_get_in_set [OF auth] auth_value_marked [of h] by (auto simp: list_ex_iff)
  then have "inject_secret ?hs (Some s) = Inr (map (\<lambda>(k, v). (k, ?f v)) ?hs)"
    and "inject_secret ?hs None = Inl SentinelMissing"
    by (simp_all add: inject_secret_def)
  moreover have "map_get (map (\<lambda>(k, v). (k, ?f v)) ?hs) (ah_name h) = Some (auth_prefix h @ s)"
    by (simp add: map_get_map auth auth_value_marked auth_value_replaced [OF assms(2)])
  moreover have "map_get (map (\<lambda>(k, v). (k, ?f v)) ?hs) k = Some v"
    if "map_get ?hs k = Some v" and "\<not> contains v SENTINEL" for k v
    using that by (simp add: map_get_map)
  moreover have "map fst (map (\<lambda>(k, v). (k, ?f v)) ?hs) = map fst ?hs"
    by (simp add: case_prod_beta comp_def)
  ultimately show ?thesis by blast
qed

definition bearer :: auth_header where
  "bearer = \<lparr>ah_name = ''authorization'', ah_prefix = Some ''Bearer''\<rparr>"

definition bearer_view :: manifest_view where
  "bearer_view =
     \<lparr>mv_dialect = OPENAI_CHAT_V1,
      mv_provider = \<lparr>pv_base_url = ''https://api.example.com'', pv_auth_headers = [bearer]\<rparr>,
      mv_endpoints = \<lparr>ep_list_models = None, ep_generate_text = None, ep_generate_image = None\<rparr>,
      mv_capabilities = \<lparr>cap_text = True, cap_image = False\<rparr>, mv_limits = None\<rparr>"

lemma secret_reaches_only_marked_headers_witness:
  "\<exists>out. inject_secret (json_headers (\<lambda>_. []) bearer_view [] []) (Some ''key'') = Inr out
     \<and> map_get out ''authorization'' = Some ''Bearer key''"
proof -
  have "keeps_auth bearer_view [] bearer" and "CHR ''{'' \<notin> set (auth_prefix bearer)"
    by (simp_all add: keeps_auth_def bearer_view_def bearer_def auth_prefix_def)
  from secret_reaches_only_marked_headers [OF this, of "\<lambda>_. []" "[]" "''key''"]
  show ?thesis by (auto simp: bearer_def auth_prefix_def)
qed

text \<open>The thinking budget is one a provider accepts: it is nothing when thinking is off or the cap
  is too small; otherwise it is at least the minimum of 1024, below the cap, at most the wanted
  budget, and it leaves the answer 2048 tokens whenever the cap has room for both. A larger cap
  never gives a smaller budget.\<close>

theorem thinking_budget_fits_the_cap:
  "(case budget_tokens effort of
      None \<Rightarrow> thinking_budget effort cap = 0
    | Some wanted \<Rightarrow>
        (case cap of
           None \<Rightarrow> thinking_budget effort cap = wanted
         | Some c \<Rightarrow>
             if c \<le> 1024 then thinking_budget effort cap = 0
             else 1024 \<le> thinking_budget effort cap \<and> thinking_budget effort cap < c
               \<and> thinking_budget effort cap \<le> wanted
               \<and> (3072 \<le> c \<longrightarrow> thinking_budget effort cap + MIN_ANSWER_TOKENS \<le> c)
               \<and> (wanted + MIN_ANSWER_TOKENS \<le> c \<longrightarrow> thinking_budget effort cap = wanted)))
   \<and> (c1 \<le> c2 \<longrightarrow> thinking_budget effort (Some c1) \<le> thinking_budget effort (Some c2))"
proof (intro conjI impI)
  show "thinking_budget effort (Some c1) \<le> thinking_budget effort (Some c2)" if "c1 \<le> c2"
    using that by (cases effort) (auto simp: thinking_budget_def Let_def max_def min_def)
qed (cases effort; auto simp: thinking_budget_def Let_def MIN_ANSWER_TOKENS_def split: option.split)

theorem thinking_budget_fits_the_cap_witness:
  "thinking_budget EffHigh (Some 8192) + MIN_ANSWER_TOKENS \<le> 8192"
  using thinking_budget_fits_the_cap [of EffHigh "Some 8192" 0 0]
  by (simp add: MIN_ANSWER_TOKENS_def)

end
