(* ===== verification/Text_Stream.thy ===== *)
theory Text_Stream
  imports Interp_Request Dial
begin

text \<open>
  The event stream of a text request (\<open>TextStream\<close> in \<open>interpreter.rs\<close>), as the ticks its consumer,
  the text loop, observes: callbacks, chunks and a break. Lines are handled one by one; the calls,
  the usage and the finish reason are reported when the stream ends. The cancel flag is a read of
  the world, \<open>cancelled\<close>; \<open>parse\<close> and \<open>show\<close> are the parser and the printer of JSON.
\<close>

subsection \<open>Plan and state\<close>

text \<open>Which of the optional callbacks the caller passed.\<close>

record sinks =
  sk_tool_call :: bool
  sk_usage :: bool
  sk_finish :: bool
  sk_reasoning :: bool
  sk_observation :: bool

record stream_plan =
  sp_delta :: string
  sp_chunk_tool_calls :: "string option"
  sp_tool_call_stream :: "tool_call_stream option"
  sp_error_paths :: "string list"
  sp_stop_when :: "condition option"
  sp_finish :: "string option"
  sp_usage_path :: "string option"
  sp_usage_keys :: "usage_keys option"
  sp_tool_call_shape :: "tool_call_shape option"
  sp_response_finish :: "string option"
  sp_response_finish_map :: "json_map option"
  sp_want_tool_calls :: bool
  sp_wants_usage :: bool

definition new_plan :: "stream_spec \<Rightarrow> text_endpoint \<Rightarrow> bool \<Rightarrow> bool \<Rightarrow> stream_plan" where
  "new_plan spec ep has_tool_sink wants =
     (let rm = tx_response_map ep in
     \<lparr>sp_delta = cm_delta (ss_chunk_map spec),
      sp_chunk_tool_calls = cm_tool_calls (ss_chunk_map spec),
      sp_tool_call_stream = ss_tool_call_stream spec,
      sp_error_paths = map fst (ss_error_map spec),
      sp_stop_when = ss_stop_when spec,
      sp_finish = ss_finish spec,
      sp_usage_path = rm_usage rm,
      sp_usage_keys = rm_usage_keys rm,
      sp_tool_call_shape = rm_tool_call_shape rm,
      sp_response_finish = tx_response_finish ep,
      sp_response_finish_map = tx_response_finish_map ep,
      sp_want_tool_calls = (has_tool_sink
        \<and> (cm_tool_calls (ss_chunk_map spec) \<noteq> None \<or> ss_tool_call_stream spec \<noteq> None)),
      sp_wants_usage = wants\<rparr>)"

record partial_usage =
  pu_prompt :: "nat option"
  pu_completion :: "nat option"
  pu_cached :: "nat option"

definition default_usage :: partial_usage where
  "default_usage = \<lparr>pu_prompt = None, pu_completion = None, pu_cached = None\<rparr>"

record stream_state =
  st_pending :: pending_calls
  st_last_usage :: "partial_usage option"
  st_finish_reason :: "string option"
  st_hold :: parts_hold

definition fresh_stream :: stream_state where
  "fresh_stream = \<lparr>st_pending = [], st_last_usage = None, st_finish_reason = None, st_hold = Fresh\<rparr>"

subsection \<open>Usage\<close>

definition resolved_usage :: "nat option \<Rightarrow> nat option \<Rightarrow> nat option \<Rightarrow> usage_tokens" where
  "resolved_usage p c cached =
     \<lparr>prompt_tokens =
        (case (p, cached) of
           (None, Some k) \<Rightarrow> if 0 < k then k else 0
         | (None, None) \<Rightarrow> 0
         | (Some n, _) \<Rightarrow> n),
      completion_tokens = (case c of Some n \<Rightarrow> n | None \<Rightarrow> 0),
      cached_tokens = cached\<rparr>"

text \<open>The three counts one usage block carries.\<close>

definition usage_fields :: "usage_keys option \<Rightarrow> json_map \<Rightarrow> partial_usage" where
  "usage_fields keys m =
     \<lparr>pu_prompt = Option.bind (map_get m (case keys of Some k \<Rightarrow> uk_prompt k | None \<Rightarrow> ''prompt_tokens'')) as_u64,
      pu_completion = Option.bind
        (map_get m (case keys of Some k \<Rightarrow> uk_completion k | None \<Rightarrow> ''completion_tokens'')) as_u64,
      pu_cached = (case Option.bind keys uk_cached of
                     Some name \<Rightarrow> Option.bind (map_get m name) as_u64
                   | None \<Rightarrow> read_cached_tokens m)\<rparr>"

definition says_nothing :: "partial_usage \<Rightarrow> bool" where
  "says_nothing u \<longleftrightarrow> pu_prompt u = None \<and> pu_completion u = None \<and> pu_cached u = None"

definition read_usage :: "json_map \<Rightarrow> usage_keys option \<Rightarrow> usage_tokens option" where
  "read_usage m keys =
     (let u = usage_fields keys m
      in if says_nothing u then None
         else Some (resolved_usage (pu_prompt u) (pu_completion u) (pu_cached u)))"

text \<open>A later block does not erase what an earlier one said.\<close>

definition merge_usage :: "partial_usage option \<Rightarrow> partial_usage \<Rightarrow> partial_usage option" where
  "merge_usage known new =
     (if says_nothing new then known
      else
        (let previous = (case known of Some p \<Rightarrow> p | None \<Rightarrow> default_usage)
         in Some \<lparr>pu_prompt = replace_by (pu_prompt previous) (pu_prompt new),
                  pu_completion = replace_by (pu_completion previous) (pu_completion new),
                  pu_cached = replace_by (pu_cached previous) (pu_cached new)\<rparr>))"

subsection \<open>What one event says\<close>

definition keep_object :: "json option \<Rightarrow> json option" where
  "keep_object v = (case v of Some d \<Rightarrow> if is_object d then Some d else None | None \<Rightarrow> None)"

fun first_text :: "json \<Rightarrow> string list \<Rightarrow> string option" where
  "first_text delta [] = None"
| "first_text delta (k # ks) =
     (case non_empty (get_str delta k) of Some s \<Rightarrow> Some s | None \<Rightarrow> first_text delta ks)"

definition reasoning_delta :: "json \<Rightarrow> string option" where
  "reasoning_delta j =
     Option.bind
       (or_else (keep_object (json_get j ''delta''))
         (keep_object (json_pointer j [''choices'', ''0'', ''delta''])))
       (\<lambda>delta. first_text delta [''thinking'', ''reasoning_content'', ''reasoning''])"

fun js_truthy :: "json \<Rightarrow> bool" where
  "js_truthy JNull = False"
| "js_truthy (JBool b) = b"
| "js_truthy (JNumber (PosInt n)) = (n \<noteq> 0)"
| "js_truthy (JNumber (NegInt i)) = (i \<noteq> 0)"
| "js_truthy (JNumber (FloatNum q)) = (q \<noteq> 0)"
| "js_truthy (JString s) = (s \<noteq> [])"
| "js_truthy (JArray _) = True"
| "js_truthy (JObject _) = True"

text \<open>Some declared error path does not parse or selects a truthy value.\<close>

definition error_hit :: "string list \<Rightarrow> json \<Rightarrow> bool" where
  "error_hit paths j \<longleftrightarrow>
     list_ex (\<lambda>p. case select_one j p of
                    Inl _ \<Rightarrow> True | Inr (Some err) \<Rightarrow> js_truthy err | Inr None \<Rightarrow> False) paths"

definition condition_matches :: "json \<Rightarrow> condition \<Rightarrow> json_path_error + bool" where
  "condition_matches j c =
     (case select_one j (cn_path c) of Inl e \<Rightarrow> Inl e | Inr v \<Rightarrow> Inr (v = Some (cn_equals c)))"

text \<open>An optional path that selects a string; \<open>select_str\<close> keeps it only if it is not empty.\<close>

definition select_opt :: "json \<Rightarrow> string option \<Rightarrow> json_path_error + json option" where
  "select_opt j path = (case path of None \<Rightarrow> Inr None | Some p \<Rightarrow> select_one j p)"

definition select_str :: "json \<Rightarrow> string option \<Rightarrow> json_path_error + string option" where
  "select_str j path =
     (case select_opt j path of Inl e \<Rightarrow> Inl e | Inr v \<Rightarrow> Inr (non_empty (Option.bind v as_str)))"

definition index_of :: "string option \<Rightarrow> json \<Rightarrow> json_path_error + int" where
  "index_of path j =
     (case select_opt j path of
        Inl e \<Rightarrow> Inl e
      | Inr v \<Rightarrow> Inr (case Option.bind v as_i64 of Some i \<Rightarrow> i | None \<Rightarrow> 0))"

definition on_entry ::
  "int \<Rightarrow> (pending_call \<Rightarrow> pending_call) \<Rightarrow> pending_calls \<Rightarrow> pending_calls" where
  "on_entry i f pending = map_insert i (f (entry_or_default pending i)) pending"

definition start_call ::
  "start_event \<Rightarrow> json \<Rightarrow> pending_calls \<Rightarrow> json_path_error + pending_calls" where
  "start_call se j pending =
     (case index_of (se_index se) j of
        Inl e \<Rightarrow> Inl e
      | Inr i \<Rightarrow>
          (case select_str j (se_id se) of
             Inl e \<Rightarrow> Inl e
           | Inr cid \<Rightarrow>
               (case select_str j (se_name se) of
                  Inl e \<Rightarrow> Inl e
                | Inr name \<Rightarrow>
                    Inr (on_entry i (\<lambda>p. p\<lparr>pc_id := replace_by (pc_id p) cid,
                                           pc_name := replace_by (pc_name p) name\<rparr>) pending))))"

definition extend_call ::
  "delta_event \<Rightarrow> json \<Rightarrow> pending_calls \<Rightarrow> json_path_error + pending_calls" where
  "extend_call de j pending =
     (case index_of (de_index de) j of
        Inl e \<Rightarrow> Inl e
      | Inr i \<Rightarrow>
          (case select_one j (de_partial de) of
             Inl e \<Rightarrow> Inl e
           | Inr v \<Rightarrow>
               Inr (on_entry i (\<lambda>p. p\<lparr>pc_args := pc_args p
                      @ (case Option.bind v as_str of Some s \<Rightarrow> s | None \<Rightarrow> [])\<rparr>) pending)))"

definition absorb_multi_event ::
  "tool_call_stream \<Rightarrow> json \<Rightarrow> pending_calls \<Rightarrow> json_path_error + pending_calls" where
  "absorb_multi_event tcs j pending =
     (case condition_matches j (se_when (mc_start tcs)) of
        Inl e \<Rightarrow> Inl e
      | Inr True \<Rightarrow> start_call (mc_start tcs) j pending
      | Inr False \<Rightarrow>
          (case condition_matches j (de_when (mc_delta tcs)) of
             Inl e \<Rightarrow> Inl e
           | Inr True \<Rightarrow> extend_call (mc_delta tcs) j pending
           | Inr False \<Rightarrow> Inr pending))"

text \<open>A whole call takes the number of calls so far as its index, an \<open>i64\<close>.\<close>

definition add_whole_call :: "tool_call \<Rightarrow> pending_calls \<Rightarrow> pending_calls" where
  "add_whole_call call pending =
     map_insert (int (length pending))
       \<lparr>pc_id = tc_id call, pc_name = tc_name call,
        pc_args = (case tc_arguments call of Some s \<Rightarrow> s | None \<Rightarrow> [])\<rparr> pending"

definition absorb_tool_calls ::
  "(json \<Rightarrow> string) \<Rightarrow> stream_plan \<Rightarrow> json \<Rightarrow> pending_calls \<Rightarrow> json_path_error + pending_calls" where
  "absorb_tool_calls show plan j pending =
     (if \<not> sp_want_tool_calls plan then Inr pending
      else
        (case (sp_tool_call_stream plan, sp_chunk_tool_calls plan) of
           (Some tcs, _) \<Rightarrow> absorb_multi_event tcs j pending
         | (None, None) \<Rightarrow> Inr pending
         | (None, Some path) \<Rightarrow>
             (case select_one j path of
                Inl e \<Rightarrow> Inl e
              | Inr v \<Rightarrow>
                  (let raw = (case v of Some r \<Rightarrow> r | None \<Rightarrow> JNull)
                   in case sp_tool_call_shape plan of
                        Some shape \<Rightarrow>
                          (if sh_streamed_as shape = Some ''whole''
                           then Inr (fold add_whole_call (read_tool_calls show shape raw) pending)
                           else Inr (collect_tool_call_deltas raw pending))
                      | None \<Rightarrow> Inr (collect_tool_call_deltas raw pending)))))"

definition absorb_usage ::
  "stream_plan \<Rightarrow> json \<Rightarrow> partial_usage option \<Rightarrow> json_path_error + partial_usage option" where
  "absorb_usage plan j known =
     (case select_opt j (sp_usage_path plan) of
        Inl e \<Rightarrow> Inl e
      | Inr (Some (JObject m)) \<Rightarrow> Inr (merge_usage known (usage_fields (sp_usage_keys plan) m))
      | Inr _ \<Rightarrow> Inr known)"

text \<open>\<open>stopWhen\<close>, the finish string, and whether the stream is over.\<close>

definition stop_hit :: "stream_plan \<Rightarrow> json \<Rightarrow> json_path_error + bool" where
  "stop_hit plan j =
     (case sp_stop_when plan of None \<Rightarrow> Inr False | Some c \<Rightarrow> condition_matches j c)"

definition finish_text :: "stream_plan \<Rightarrow> json \<Rightarrow> json_path_error + string option" where
  "finish_text plan j =
     (case select_opt j (sp_finish plan) of
        Inl e \<Rightarrow> Inl e | Inr v \<Rightarrow> Inr (Option.bind v as_str))"

definition is_over :: "stream_plan \<Rightarrow> bool \<Rightarrow> string option \<Rightarrow> bool" where
  "is_over plan stop finish \<longleftrightarrow>
     stop \<or> (finish \<noteq> None \<and> finish \<noteq> Some ''null'' \<and> \<not> sp_wants_usage plan)"

text \<open>A reason that is worth keeping.\<close>

definition real_reason :: "string option \<Rightarrow> string option" where
  "real_reason r = (if r = Some ''null'' then None else non_empty r)"

definition finish_reason ::
  "stream_plan \<Rightarrow> json \<Rightarrow> string option \<Rightarrow> string option \<Rightarrow> json_path_error + string option" where
  "finish_reason plan j finish old =
     (case select_opt j (sp_response_finish plan) of
        Inl e \<Rightarrow> Inl e
      | Inr v \<Rightarrow> Inr (replace_by (replace_by old (real_reason (Option.bind v as_str)))
                        (real_reason finish)))"

subsection \<open>One line\<close>

text \<open>What an event that parses does, in the order of the code: what was absorbed before a selector
  fails stays absorbed.\<close>

definition handle_event ::
  "(json \<Rightarrow> string) \<Rightarrow> (string \<Rightarrow> json option) \<Rightarrow> stream_plan \<Rightarrow> json \<Rightarrow> stream_state
     \<Rightarrow> line_step \<times> stream_state" where
  "handle_event show parse plan j st =
     (if error_hit (sp_error_paths plan) j then (LFail, st)
      else
        (case absorb_tool_calls show plan j (st_pending st) of
           Inl _ \<Rightarrow> (LFail, st)
         | Inr pending \<Rightarrow>
             (let st1 = st\<lparr>st_pending := pending\<rparr>
              in case select_text parse j (sp_delta plan) of
                   Inl _ \<Rightarrow> (LFail, st1)
                 | Inr d \<Rightarrow>
                     (case absorb_usage plan j (st_last_usage st1) of
                        Inl _ \<Rightarrow> (LFail, st1)
                      | Inr usage \<Rightarrow>
                          (let st2 = st1\<lparr>st_last_usage := usage\<rparr>
                           in case (stop_hit plan j, finish_text plan j) of
                                (Inl _, _) \<Rightarrow> (LFail, st2)
                              | (Inr _, Inl _) \<Rightarrow> (LFail, st2)
                              | (Inr stop, Inr finish) \<Rightarrow>
                                  (case finish_reason plan j finish (st_finish_reason st2) of
                                     Inl _ \<Rightarrow> (LFail, st2)
                                   | Inr reason \<Rightarrow>
                                       (case hold_step parse (st_hold st2) (non_empty d)
                                               (is_over plan stop finish) of
                                          (step, h) \<Rightarrow>
                                            (step, st2\<lparr>st_finish_reason := reason, st_hold := h\<rparr>))))))))"

definition payload_of :: "string \<Rightarrow> string option" where
  "payload_of line =
     map_option (trim_matches is_js_whitespace)
       (strip_prefix ''data:'' (trim_matches is_js_whitespace line))"

definition release_hold :: "(string \<Rightarrow> json option) \<Rightarrow> stream_state \<Rightarrow> string option \<times> stream_state" where
  "release_hold parse st =
     (case take_held parse (st_hold st) of (held, h) \<Rightarrow> (held, st\<lparr>st_hold := h\<rparr>))"

definition handle_line ::
  "(json \<Rightarrow> string) \<Rightarrow> (string \<Rightarrow> json option) \<Rightarrow> stream_plan \<Rightarrow> sinks \<Rightarrow> bool \<Rightarrow> string \<Rightarrow> stream_state
     \<Rightarrow> adapter_callback list \<times> line_step \<times> stream_state" where
  "handle_line show parse plan sk cancelled line st =
     (if cancelled then ([], LEnd, st)
      else
        (case payload_of line of
           None \<Rightarrow> ([], LContinue, st)
         | Some payload \<Rightarrow>
             (if payload = ''[DONE]'' then
                (case release_hold parse st of
                   (Some t, st1) \<Rightarrow> ([], LChunk t True, st1)
                 | (None, st1) \<Rightarrow> ([], LEnd, st1))
              else
                (let noted = (if sk_observation sk then [CbNote payload] else [])
                 in case parse payload of
                      None \<Rightarrow> (noted, LContinue, st)
                    | Some j \<Rightarrow>
                        (let reasons = (case reasoning_delta j of
                                          Some t \<Rightarrow> if sk_reasoning sk then [CbReason t] else []
                                        | None \<Rightarrow> [])
                         in case handle_event show parse plan j st of
                              (step, st1) \<Rightarrow> (noted @ reasons, step, st1))))))"

subsection \<open>The stream\<close>

definition reported_call :: "pending_call \<Rightarrow> tool_call" where
  "reported_call p =
     \<lparr>tc_id = pc_id p, tc_name = pc_name p, tc_arguments = Some (pc_args p), tc_raw = None\<rparr>"

text \<open>What the end of the stream reports.\<close>

definition reports :: "stream_plan \<Rightarrow> sinks \<Rightarrow> stream_state \<Rightarrow> adapter_callback list" where
  "reports plan sk st =
     (if sk_tool_call sk then map (\<lambda>(_, p). CbTool (reported_call p)) (st_pending st) else [])
     @ (case st_last_usage st of
          Some u \<Rightarrow> if sk_usage sk then [CbUsage (resolved_usage (pu_prompt u) (pu_completion u) (pu_cached u))]
                    else []
        | None \<Rightarrow> [])
     @ (if sk_finish sk
        then [CbFinish (map_option (\<lambda>r. translate_finish_reason r (sp_response_finish_map plan))
                (st_finish_reason st))]
        else [])"

definition flush ::
  "('w \<Rightarrow> bool \<times> 'w) \<Rightarrow> stream_plan \<Rightarrow> sinks \<Rightarrow> stream_state \<Rightarrow> 'w \<Rightarrow> tick list \<times> 'w" where
  "flush cancelled plan sk st w =
     (case cancelled w of (c, w1) \<Rightarrow> (if c then [] else map Cb (reports plan sk st), w1))"

text \<open>\<open>poll_next\<close> to exhaustion, over the items the line stream yields.\<close>

fun stream_ticks ::
  "(json \<Rightarrow> string) \<Rightarrow> (string \<Rightarrow> json option) \<Rightarrow> ('w \<Rightarrow> bool \<times> 'w) \<Rightarrow> stream_plan \<Rightarrow> sinks
     \<Rightarrow> (http_error + string) list \<Rightarrow> stream_state \<Rightarrow> 'w \<Rightarrow> tick list \<times> 'w" where
  "stream_ticks show parse cancelled plan sk [] st w =
     (case release_hold parse st of
        (held, st1) \<Rightarrow>
          (case flush cancelled plan sk st1 w of
             (ts, w1) \<Rightarrow> ((case held of Some t \<Rightarrow> [Chunk t] | None \<Rightarrow> []) @ ts, w1)))"
| "stream_ticks show parse cancelled plan sk (Inl e # ls) st w =
     (case flush cancelled plan sk st w of
        (ts, w1) \<Rightarrow> (ts @ [Break (Transport (Some (he_message e)))], w1))"
| "stream_ticks show parse cancelled plan sk (Inr line # ls) st w =
     (case cancelled w of
        (c, w1) \<Rightarrow>
          (case handle_line show parse plan sk c line st of
             (cbs, step, st1) \<Rightarrow>
               (case (case step of
                        LChunk t fin \<Rightarrow>
                          (case (if fin then flush cancelled plan sk st1 w1
                                 else stream_ticks show parse cancelled plan sk ls st1 w1) of
                             (ts, w2) \<Rightarrow> (Chunk t # ts, w2))
                      | LContinue \<Rightarrow> stream_ticks show parse cancelled plan sk ls st1 w1
                      | LEnd \<Rightarrow> flush cancelled plan sk st1 w1
                      | LFail \<Rightarrow>
                          (case flush cancelled plan sk st1 w1 of
                             (ts, w2) \<Rightarrow> (ts @ [Break (Http 200 MidStream None None)], w2))) of
                  (ts, w2) \<Rightarrow> (map Cb cbs @ ts, w2))))"

end
