(* ===== verification/Text_Stream_Laws.thy ===== *)
theory Text_Stream_Laws
  imports Text_Stream
begin

text \<open>What a text stream shows and reports, as a function of its lines.\<close>

subsection \<open>Lines without state\<close>

text \<open>What a line means whatever came before it: nothing, the sentinel, a failure, or an event with the
  piece of text it adds and whether it ends the stream.\<close>

datatype line_view = VSkip | VDone | VFail | VEvent json "string option" bool

definition event_view ::
  "(json \<Rightarrow> string) \<Rightarrow> (string \<Rightarrow> json option) \<Rightarrow> stream_plan \<Rightarrow> json \<Rightarrow> line_view" where
  "event_view show parse plan j =
     (if error_hit (sp_error_paths plan) j then VFail
      else
        (case (absorb_tool_calls show plan j [], select_text parse j (sp_delta plan),
               absorb_usage plan j None, stop_hit plan j, finish_text plan j,
               finish_reason plan j None None) of
           (Inr _, Inr d, Inr _, Inr stop, Inr finish, Inr _) \<Rightarrow>
             VEvent j (non_empty d) (is_over plan stop finish)
         | _ \<Rightarrow> VFail))"

definition view_of ::
  "(json \<Rightarrow> string) \<Rightarrow> (string \<Rightarrow> json option) \<Rightarrow> stream_plan \<Rightarrow> http_error + string \<Rightarrow> line_view" where
  "view_of show parse plan item =
     (case item of
        Inl _ \<Rightarrow> VFail
      | Inr line \<Rightarrow>
          (case payload_of line of
             None \<Rightarrow> VSkip
           | Some p \<Rightarrow>
               if p = ''[DONE]'' then VDone
               else (case parse p of None \<Rightarrow> VSkip | Some j \<Rightarrow> event_view show parse plan j)))"

text \<open>The events up to the end of the stream, their pieces of text, and whether it ended well.\<close>

definition piece :: "string option \<Rightarrow> string list" where
  "piece d = (case d of Some t \<Rightarrow> [t] | None \<Rightarrow> [])"

fun pieces :: "line_view list \<Rightarrow> json list \<times> string list \<times> bool" where
  "pieces [] = ([], [], True)"
| "pieces (VSkip # vs) = pieces vs"
| "pieces (VDone # vs) = ([], [], True)"
| "pieces (VFail # vs) = ([], [], False)"
| "pieces (VEvent j d True # vs) = ([j], piece d, True)"
| "pieces (VEvent j d False # vs) =
     (case pieces vs of (js, ds, ok) \<Rightarrow> (j # js, piece d @ ds, ok))"

text \<open>What the events leave in the buffer of calls, in the usage and in the finish reason.\<close>

definition or_keep :: "'s \<Rightarrow> 'e + 's \<Rightarrow> 's" where
  "or_keep s r = (case r of Inl _ \<Rightarrow> s | Inr s1 \<Rightarrow> s1)"

definition absorb_event ::
  "(json \<Rightarrow> string) \<Rightarrow> stream_plan \<Rightarrow> json \<Rightarrow> stream_state \<Rightarrow> stream_state" where
  "absorb_event show plan j st =
     st\<lparr>st_pending := or_keep (st_pending st) (absorb_tool_calls show plan j (st_pending st)),
        st_last_usage := or_keep (st_last_usage st) (absorb_usage plan j (st_last_usage st)),
        st_finish_reason := or_keep (st_finish_reason st)
          (finish_reason plan j (or_keep None (finish_text plan j)) (st_finish_reason st))\<rparr>"

definition chunk_texts :: "tick list \<Rightarrow> string list" where
  "chunk_texts ts = List.map_filter (\<lambda>t. case t of Chunk s \<Rightarrow> Some s | _ \<Rightarrow> None) ts"

lemma chunk_texts_simps [simp]:
  "chunk_texts [] = []"
  "chunk_texts (Chunk s # ts) = s # chunk_texts ts"
  "chunk_texts (Cb c # ts) = chunk_texts ts"
  "chunk_texts (Break e # ts) = chunk_texts ts"
  "chunk_texts (ts @ us) = chunk_texts ts @ chunk_texts us"
  "chunk_texts (map Cb cbs) = []"
  by (simp_all add: chunk_texts_def map_filter_def)

text \<open>A selector that fails does so whatever the state.\<close>

lemma absorb_tool_calls_fails:
  "(\<exists>e. absorb_tool_calls show plan j p = Inl e) \<longleftrightarrow> (\<exists>e. absorb_tool_calls show plan j [] = Inl e)"
  by (simp add: absorb_tool_calls_def absorb_multi_event_def start_call_def extend_call_def Let_def
      split: option.split sum.split bool.split)

lemma absorb_usage_fails:
  "(\<exists>e. absorb_usage plan j u = Inl e) \<longleftrightarrow> (\<exists>e. absorb_usage plan j None = Inl e)"
  by (simp add: absorb_usage_def split: option.split sum.split json.split)

lemma finish_reason_fails:
  "(\<exists>e. finish_reason plan j f r = Inl e) \<longleftrightarrow> (\<exists>e. finish_reason plan j None None = Inl e)"
  by (simp add: finish_reason_def split: sum.split)

lemma fails_same:
  "(\<exists>e. f = Inl e) \<longleftrightarrow> (\<exists>e. g = Inl e) \<Longrightarrow> g = Inr y \<Longrightarrow> \<exists>x. f = Inr x"
  by (cases f) auto

lemma handle_event_good:
  assumes "event_view show parse plan j = VEvent j' d over"
  shows "j' = j \<and> handle_event show parse plan j st =
     (case hold_step parse (st_hold st) d over of
        (step, h) \<Rightarrow> (step, (absorb_event show plan j st)\<lparr>st_hold := h\<rparr>))"
proof -
  have ok: "\<not> error_hit (sp_error_paths plan) j"
    using assms by (auto simp: event_view_def)
  then obtain p0 d0 u0 stop f r0 where v: "absorb_tool_calls show plan j [] = Inr p0"
      "select_text parse j (sp_delta plan) = Inr d0" "absorb_usage plan j None = Inr u0"
      "stop_hit plan j = Inr stop" "finish_text plan j = Inr f" "finish_reason plan j None None = Inr r0"
    and j: "j' = j" and d: "d = non_empty d0" and over: "over = is_over plan stop f"
    using assms by (auto simp: event_view_def split: sum.splits if_splits)
  obtain p1 where p1: "absorb_tool_calls show plan j (st_pending st) = Inr p1"
    using fails_same [OF absorb_tool_calls_fails v(1)] by blast
  obtain u1 where u1: "absorb_usage plan j (st_last_usage st) = Inr u1"
    using fails_same [OF absorb_usage_fails v(3)] by blast
  obtain r1 where r1: "finish_reason plan j f (st_finish_reason st) = Inr r1"
    using fails_same [OF finish_reason_fails v(6)] by blast
  show ?thesis
    using ok p1 u1 r1 v(2,4,5)
    by (cases "hold_step parse (st_hold st) d over")
      (simp add: handle_event_def Let_def j d over absorb_event_def or_keep_def)
qed

lemma handle_event_bad:
  assumes "event_view show parse plan j = VFail"
  shows "fst (handle_event show parse plan j st) = LFail"
proof (cases "error_hit (sp_error_paths plan) j")
  case True
  then show ?thesis by (simp add: handle_event_def)
next
  case False
  have "\<exists>e. absorb_tool_calls show plan j [] = Inl e \<or> select_text parse j (sp_delta plan) = Inl e
      \<or> absorb_usage plan j None = Inl e \<or> stop_hit plan j = Inl e \<or> finish_text plan j = Inl e
      \<or> finish_reason plan j None None = Inl e"
    using assms False by (auto simp: event_view_def split: sum.splits)
  then have "(\<exists>e. absorb_tool_calls show plan j (st_pending st) = Inl e)
      \<or> (\<exists>e. select_text parse j (sp_delta plan) = Inl e)
      \<or> (\<exists>e. absorb_usage plan j (st_last_usage st) = Inl e) \<or> (\<exists>e. stop_hit plan j = Inl e)
      \<or> (\<exists>e. finish_text plan j = Inl e)
      \<or> (\<forall>f. \<exists>e. finish_reason plan j f (st_finish_reason st) = Inl e)"
    using absorb_tool_calls_fails absorb_usage_fails finish_reason_fails by metis
  with False show ?thesis
    by (elim disjE exE) (auto simp: handle_event_def Let_def split: sum.split, metis sum.distinct(1))
qed

lemma event_view_not: "event_view show parse plan j \<noteq> VSkip" "event_view show parse plan j \<noteq> VDone"
  by (simp_all add: event_view_def split: sum.split)

text \<open>One line, by its view.\<close>

definition quiet :: "adapter_callback list \<Rightarrow> bool" where
  "quiet cbs \<longleftrightarrow> list_all (\<lambda>c. case c of CbNote _ \<Rightarrow> True | CbReason _ \<Rightarrow> True | _ \<Rightarrow> False) cbs"

lemma handle_line_quiet: "quiet (fst (handle_line show parse plan sk c line st))"
  by (auto simp: handle_line_def quiet_def Let_def split: option.split prod.split)

lemma handle_line_view:
  "snd (handle_line show parse plan sk False line st) =
     (case view_of show parse plan (Inr line) of
        VSkip \<Rightarrow> (LContinue, st)
      | VDone \<Rightarrow>
          (case release_hold parse st of
             (Some t, st1) \<Rightarrow> (LChunk t True, st1) | (None, st1) \<Rightarrow> (LEnd, st1))
      | VFail \<Rightarrow> (LFail, snd (snd (handle_line show parse plan sk False line st)))
      | VEvent j d over \<Rightarrow>
          (case hold_step parse (st_hold st) d over of
             (step, h) \<Rightarrow> (step, (absorb_event show plan j st)\<lparr>st_hold := h\<rparr>)))"
proof (cases "payload_of line")
  case None
  then show ?thesis by (simp add: handle_line_def view_of_def)
next
  case (Some p)
  show ?thesis
  proof (cases "p = ''[DONE]''")
    case True
    with Some show ?thesis
      by (simp add: handle_line_def view_of_def split: option.split prod.split)
  next
    case False
    show ?thesis
    proof (cases "parse p")
      case None
      with Some False show ?thesis by (simp add: handle_line_def view_of_def)
    next
      case (Some j)
      have line: "snd (handle_line show parse plan sk False line st) = handle_event show parse plan j st"
        using \<open>payload_of line = Some p\<close> False Some
        by (simp add: handle_line_def Let_def split: prod.split)
      have view: "view_of show parse plan (Inr line) = event_view show parse plan j"
        using \<open>payload_of line = Some p\<close> False Some by (simp add: view_of_def)
      show ?thesis
      proof (cases "event_view show parse plan j")
        case VFail
        with handle_event_bad [OF VFail, of st] show ?thesis
          unfolding line view by (simp add: prod_eq_iff)
      next
        case (VEvent j' d over)
        with handle_event_good [OF VEvent, of st] show ?thesis
          unfolding line view by simp
      qed (use event_view_not in blast)+
    qed
  qed
qed

subsection \<open>The whole stream\<close>

definition is_shown :: "tick \<Rightarrow> bool" where
  "is_shown t \<longleftrightarrow>
     (case t of Chunk _ \<Rightarrow> True | Cb (CbNote _) \<Rightarrow> True | Cb (CbReason _) \<Rightarrow> True | _ \<Rightarrow> False)"

lemma is_shown_simps [simp]:
  "is_shown (Chunk s)" "is_shown (Cb (CbNote s))" "is_shown (Cb (CbReason s))"
  "\<not> is_shown (Break e)" "\<not> is_shown (Cb (CbTool c))" "\<not> is_shown (Cb (CbUsage u))"
  "\<not> is_shown (Cb (CbFinish r))"
  by (simp_all add: is_shown_def)

lemma quiet_shown: "quiet cbs \<Longrightarrow> list_all is_shown (map Cb cbs)"
  by (induction cbs) (auto simp: quiet_def is_shown_def split: adapter_callback.splits)

lemma absorb_event_hold [simp]:
  "absorb_event show plan j (st\<lparr>st_hold := h\<rparr>) = (absorb_event show plan j st)\<lparr>st_hold := h\<rparr>"
  "st_hold (absorb_event show plan j st) = st_hold st"
  by (simp_all add: absorb_event_def)

lemma fold_absorb_hold [simp]:
  "fold (absorb_event show plan) js (st\<lparr>st_hold := h\<rparr>)
     = (fold (absorb_event show plan) js st)\<lparr>st_hold := h\<rparr>"
  by (induction js arbitrary: st) simp_all

lemma reports_hold [simp]: "reports plan sk (st\<lparr>st_hold := h\<rparr>) = reports plan sk st"
  by (simp add: reports_def)

definition step_texts :: "line_step \<Rightarrow> string list" where
  "step_texts s = (case s of LChunk t _ \<Rightarrow> [t] | _ \<Rightarrow> [])"

lemma hold_step_over:
  "(case hold_step parse h d True of (s, _) \<Rightarrow>
      step_texts s = held_chunks parse h (piece d) \<and> (s = LEnd \<or> (\<exists>t. s = LChunk t True)))"
  by (cases d; cases h)
    (simp_all add: held_chunks_def step_texts_def piece_def take_held_def try_decode_def
      decoded_or_raw_def split: option.split)

lemma hold_step_more:
  "(case hold_step parse h d False of (s, h1) \<Rightarrow>
      hold_feed parse h (piece d @ ds) =
        (step_texts s @ fst (hold_feed parse h1 ds), snd (hold_feed parse h1 ds))
      \<and> (s = LContinue \<or> (\<exists>t. s = LChunk t False)))"
  by (cases d; cases h)
    (simp_all add: step_texts_def piece_def try_decode_def split: option.split prod.split)

lemma held_chunks_step:
  assumes "hold_step parse h d False = (s, h1)"
  shows "held_chunks parse h (piece d @ ds) = step_texts s @ held_chunks parse h1 ds"
  using hold_step_more [of parse h d ds] assms
  by (simp add: held_chunks_def split: prod.split)

text \<open>The result of a run: the texts it shows, what it reports, and whether it breaks.\<close>

definition run_ok ::
  "(json \<Rightarrow> string) \<Rightarrow> (string \<Rightarrow> json option) \<Rightarrow> stream_plan \<Rightarrow> sinks \<Rightarrow> stream_state
     \<Rightarrow> json list \<times> string list \<times> bool \<Rightarrow> tick list \<Rightarrow> bool" where
  "run_ok show parse plan sk st r ts \<longleftrightarrow>
     (case r of (js, ds, ok) \<Rightarrow>
        if ok then
          chunk_texts ts = held_chunks parse (st_hold st) ds
          \<and> (\<exists>body. ts = body @ map Cb (reports plan sk (fold (absorb_event show plan) js st))
               \<and> list_all is_shown body)
        else
          chunk_texts ts = fst (hold_feed parse (st_hold st) ds)
          \<and> (\<exists>body reps e. ts = body @ map Cb reps @ [Break e] \<and> list_all is_shown body
               \<and> (\<exists>st'. reps = reports plan sk st')))"

lemma run_ok_cons:
  assumes "run_ok show parse plan sk st r ts" and "list_all is_shown pre" and "chunk_texts pre = []"
  shows "run_ok show parse plan sk st r (pre @ ts)"
proof -
  obtain js ds ok where r: "r = (js, ds, ok)" by (cases r)
  show ?thesis
  proof (cases ok)
    case True
    with assms r obtain body where "ts = body @ map Cb (reports plan sk (fold (absorb_event show plan) js st))"
      "list_all is_shown body" by (auto simp: run_ok_def)
    then have "pre @ ts = (pre @ body) @ map Cb (reports plan sk (fold (absorb_event show plan) js st))
        \<and> list_all is_shown (pre @ body)"
      using assms(2) by simp
    with assms r True show ?thesis unfolding run_ok_def by (simp only: prod.case if_True) (auto simp del: append_assoc)
  next
    case False
    with assms r obtain body reps e st' where "ts = body @ map Cb reps @ [Break e]"
      "list_all is_shown body" "reps = reports plan sk st'" by (auto simp: run_ok_def)
    then have "pre @ ts = (pre @ body) @ map Cb reps @ [Break e]
        \<and> list_all is_shown (pre @ body) \<and> (\<exists>st'. reps = reports plan sk st')"
      using assms(2) by auto
    moreover have "chunk_texts (pre @ ts) = fst (hold_feed parse (st_hold st) ds)"
      using assms r False by (simp add: run_ok_def)
    ultimately show ?thesis unfolding run_ok_def r using False by (simp only: prod.case if_False) blast
  qed
qed

lemma shown_chunks [simp]: "list_all is_shown (map Chunk xs)" "chunk_texts (map Chunk xs) = xs"
  by (induction xs) simp_all

lemma run_ok_event:
  assumes run: "run_ok show parse plan sk ((absorb_event show plan j st)\<lparr>st_hold := h1\<rparr>) (js, ds, ok) ts"
    and step: "hold_step parse (st_hold st) d False = (s, h1)"
  shows "run_ok show parse plan sk st (j # js, piece d @ ds, ok) (map Chunk (step_texts s) @ ts)"
proof (cases ok)
  case True
  let ?reps = "map Cb (reports plan sk (fold (absorb_event show plan) (j # js) st))"
  from run True obtain body where ts: "ts = body @ ?reps" and "list_all is_shown body"
    and texts: "chunk_texts ts = held_chunks parse h1 ds" by (auto simp: run_ok_def)
  then have "map Chunk (step_texts s) @ ts = (map Chunk (step_texts s) @ body) @ ?reps
      \<and> list_all is_shown (map Chunk (step_texts s) @ body)" by simp
  moreover have "chunk_texts (map Chunk (step_texts s) @ ts) = held_chunks parse (st_hold st) (piece d @ ds)"
    using texts held_chunks_step [OF step] by simp
  ultimately show ?thesis unfolding run_ok_def using True by (simp only: prod.case if_True) blast
next
  case False
  from run False obtain body reps e st' where ts: "ts = body @ map Cb reps @ [Break e]"
    "list_all is_shown body" "reps = reports plan sk st'"
    and texts: "chunk_texts ts = fst (hold_feed parse h1 ds)" by (auto simp: run_ok_def)
  then have "map Chunk (step_texts s) @ ts = (map Chunk (step_texts s) @ body) @ map Cb reps @ [Break e]
      \<and> list_all is_shown (map Chunk (step_texts s) @ body) \<and> (\<exists>st'. reps = reports plan sk st')" by auto
  moreover have "chunk_texts (map Chunk (step_texts s) @ ts) = fst (hold_feed parse (st_hold st) (piece d @ ds))"
    using texts hold_step_more [of parse "st_hold st" d ds] step by simp
  ultimately show ?thesis unfolding run_ok_def using False by (simp only: prod.case if_False) blast
qed

lemma flush_never:
  "(\<And>w. fst (cancelled w) = False) \<Longrightarrow>
     fst (flush cancelled plan sk st w) = map Cb (reports plan sk st)"
  by (simp add: flush_def split: prod.split) (metis fst_conv)

lemma run_ok_end:
  assumes "step_texts s = held_chunks parse (st_hold st) ds"
  shows "run_ok show parse plan sk st (js, ds, True)
    (map Chunk (step_texts s) @ map Cb (reports plan sk (fold (absorb_event show plan) js st)))"
proof -
  have "list_all is_shown (map Chunk (step_texts s))" by simp
  with assms show ?thesis unfolding run_ok_def by (simp only: prod.case if_True) (auto simp del: fold_simps)
qed

lemma run_ok_break:
  "run_ok show parse plan sk st ([], [], False) (map Cb (reports plan sk st') @ [Break e])"
  unfolding run_ok_def
  by (simp, intro exI [of _ "[]"] exI [of _ "reports plan sk st'"]) auto

lemma fst_case_pair: "fst (case x of (ts, w) \<Rightarrow> (f ts, w)) = f (fst x)"
  by (cases x) simp

lemma stream_run:
  assumes never: "\<And>w. fst (cancelled w) = False"
  shows "run_ok show parse plan sk st (pieces (map (view_of show parse plan) items))
    (fst (stream_ticks show parse cancelled plan sk items st w))"
proof -
  have flushed: "fst (flush cancelled plan sk st w) = map Cb (reports plan sk st)" for st w
    using never by (rule flush_never)
  show ?thesis
proof (induction items arbitrary: st w)
  case Nil
  define s where "s = (case st_hold st of Holding buf \<Rightarrow> LChunk (decoded_or_raw parse buf) True | _ \<Rightarrow> LEnd)"
  have texts: "step_texts s = held_chunks parse (st_hold st) []"
    by (cases "st_hold st") (simp_all add: s_def step_texts_def held_chunks_def take_held_def)
  have "fst (stream_ticks show parse cancelled plan sk [] st w)
      = map Chunk (step_texts s) @ map Cb (reports plan sk st)"
    using flushed
    by (cases "st_hold st")
      (auto simp: s_def step_texts_def release_hold_def take_held_def case_prod_unfold)
  with run_ok_end [OF texts, of "show" plan sk "[]"] show ?case by simp
next
  case (Cons item items)
  show ?case
  proof (cases item)
    case (Inl e)
    have "fst (stream_ticks show parse cancelled plan sk (Inl e # items) st w)
        = map Cb (reports plan sk st) @ [Break (Transport (Some (he_message e)))]"
      using flushed by (simp add: case_prod_unfold)
    with Inl run_ok_break show ?thesis by (simp add: view_of_def)
  next
    case (Inr line)
    obtain c w1 where c: "cancelled w = (c, w1)" by (cases "cancelled w")
    with never [of w] have f: "c = False" by simp
    obtain cbs step st1 where hl: "handle_line show parse plan sk False line st = (cbs, step, st1)"
      by (cases "handle_line show parse plan sk False line st")
    have q: "list_all is_shown (map Cb cbs)"
      using handle_line_quiet [of "show" parse plan sk False line st] hl by (simp add: quiet_shown)
    define rest where "rest = (case step of
                        LChunk t fin \<Rightarrow>
                          (case (if fin then flush cancelled plan sk st1 w1
                                 else stream_ticks show parse cancelled plan sk items st1 w1) of
                             (ts, w2) \<Rightarrow> (Chunk t # ts, w2))
                      | LContinue \<Rightarrow> stream_ticks show parse cancelled plan sk items st1 w1
                      | LEnd \<Rightarrow> flush cancelled plan sk st1 w1
                      | LFail \<Rightarrow>
                          (case flush cancelled plan sk st1 w1 of
                             (ts, w2) \<Rightarrow> (ts @ [Break (Http 200 MidStream None None)], w2)))"
    have ticks: "fst (stream_ticks show parse cancelled plan sk (item # items) st w)
        = map Cb cbs @ fst rest"
      by (simp add: Inr c f hl rest_def fst_case_pair)
    have view: "(step, st1) = snd (handle_line show parse plan sk False line st)" by (simp add: hl)
    have "run_ok show parse plan sk st (pieces (map (view_of show parse plan) (item # items))) (fst rest)"
    proof (cases "view_of show parse plan (Inr line)")
      case VSkip
      then have "step = LContinue" "st1 = st" using view by (simp_all add: handle_line_view)
      with VSkip Cons.IH [of st w1] show ?thesis by (simp add: Inr rest_def)
    next
      case VDone
      define s where "s = (case st_hold st of Holding buf \<Rightarrow> LChunk (decoded_or_raw parse buf) True | _ \<Rightarrow> LEnd)"
      have texts: "step_texts s = held_chunks parse (st_hold st) []"
        by (cases "st_hold st") (simp_all add: s_def step_texts_def held_chunks_def take_held_def)
      have "step = s \<and> (\<exists>h. st1 = st\<lparr>st_hold := h\<rparr>)"
        using view VDone by (cases "st_hold st")
          (auto simp: handle_line_view release_hold_def take_held_def s_def)
      then have "fst rest = map Chunk (step_texts s) @ map Cb (reports plan sk st)"
        using flushed
        by (cases "st_hold st") (auto simp: rest_def s_def step_texts_def case_prod_unfold)
      with run_ok_end [OF texts, of "show" plan sk "[]"] VDone show ?thesis by (simp add: Inr)
    next
      case VFail
      then have "snd (handle_line show parse plan sk False line st)
          = (LFail, snd (snd (handle_line show parse plan sk False line st)))"
        using handle_line_view [of "show" parse plan sk line st] by simp
      then have "step = LFail" unfolding view [symmetric] by simp
      then have "fst rest = map Cb (reports plan sk st1) @ [Break (Http 200 MidStream None None)]"
        using flushed by (simp add: rest_def case_prod_unfold)
      with VFail run_ok_break show ?thesis by (simp add: Inr)
    next
      case (VEvent j d over)
      obtain h1 where h1: "hold_step parse (st_hold st) d over = (step, h1)"
        and st1: "st1 = (absorb_event show plan j st)\<lparr>st_hold := h1\<rparr>"
        using view VEvent by (auto simp: handle_line_view split: prod.splits)
      show ?thesis
      proof (cases over)
        case True
        have texts: "step_texts step = held_chunks parse (st_hold st) (piece d)"
          and over: "step = LEnd \<or> (\<exists>t. step = LChunk t True)"
          using hold_step_over [of parse "st_hold st" d] h1 True by simp_all
        have "fst rest = map Chunk (step_texts step) @ map Cb (reports plan sk (absorb_event show plan j st))"
          using over flushed
          by (auto simp: rest_def st1 step_texts_def case_prod_unfold)
        with run_ok_end [OF texts, of "show" plan sk "[j]"] VEvent True show ?thesis by (simp add: Inr)
      next
        case False
        have more: "step = LContinue \<or> (\<exists>t. step = LChunk t False)"
          using hold_step_more [of parse "st_hold st" d "[]"] h1 False by simp
        obtain js ds ok where ps: "pieces (map (view_of show parse plan) items) = (js, ds, ok)"
          by (cases "pieces (map (view_of show parse plan) items)")
        have "fst rest = map Chunk (step_texts step)
            @ fst (stream_ticks show parse cancelled plan sk items st1 w1)"
          using more by (auto simp: rest_def step_texts_def case_prod_unfold)
        moreover have "run_ok show parse plan sk ((absorb_event show plan j st)\<lparr>st_hold := h1\<rparr>) (js, ds, ok)
            (fst (stream_ticks show parse cancelled plan sk items st1 w1))"
          using Cons.IH [of st1 w1] ps st1 by simp
        moreover have "hold_step parse (st_hold st) d False = (step, h1)" using h1 False by simp
        ultimately have "run_ok show parse plan sk st (j # js, piece d @ ds, ok) (fst rest)"
          using run_ok_event by metis
        with VEvent False ps show ?thesis by (simp add: Inr)
      qed
    qed
    with run_ok_cons [OF _ q, of "show" parse plan sk st _ "fst rest"] ticks show ?thesis by simp
  qed
qed
qed

lemma stream_shape:
  "\<exists>body st' w' tail.
     fst (stream_ticks show parse cancelled plan sk items st w)
       = body @ fst (flush cancelled plan sk st' w') @ tail
     \<and> list_all is_shown body \<and> (tail = [] \<or> (\<exists>e. tail = [Break e]))"
  (is "\<exists>body st' w' tail. ?shape (fst (?ticks items st w)) body st' w' tail")
proof (induction items arbitrary: st w)
  case Nil
  obtain held st1 where h: "release_hold parse st = (held, st1)" by (cases "release_hold parse st")
  have "?shape (fst (?ticks [] st w)) (map Chunk (piece held)) st1 w []"
    by (simp add: h piece_def fst_case_pair split: option.split)
  then show ?case by blast
next
  case (Cons item items)
  show ?case
  proof (cases item)
    case (Inl e)
    have "?shape (fst (?ticks (item # items) st w)) [] st w [Break (Transport (Some (he_message e)))]"
      by (simp add: Inl fst_case_pair)
    then show ?thesis by blast
  next
    case (Inr line)
    obtain c w1 where c: "cancelled w = (c, w1)" by (cases "cancelled w")
    obtain cbs step st1 where hl: "handle_line show parse plan sk c line st = (cbs, step, st1)"
      by (cases "handle_line show parse plan sk c line st")
    have q: "list_all is_shown (map Cb cbs)"
      using handle_line_quiet [of "show" parse plan sk c line st] hl by (simp add: quiet_shown)
    obtain body st' w' tail where ih: "?shape (fst (?ticks items st1 w1)) body st' w' tail"
      using Cons.IH by blast
    show ?thesis
    proof (cases step)
      case (LChunk t fin)
      show ?thesis
      proof (cases fin)
        case True
        have "?shape (fst (?ticks (item # items) st w)) (map Cb cbs @ [Chunk t]) st1 w1 []"
          using q by (simp add: Inr c hl LChunk True fst_case_pair)
        then show ?thesis by blast
      next
        case False
        have "?shape (fst (?ticks (item # items) st w)) (map Cb cbs @ [Chunk t] @ body) st' w' tail"
          using q ih by (simp add: Inr c hl LChunk False fst_case_pair)
        then show ?thesis by blast
      qed
    next
      case LContinue
      have "?shape (fst (?ticks (item # items) st w)) (map Cb cbs @ body) st' w' tail"
        using q ih by (simp add: Inr c hl LContinue fst_case_pair)
      then show ?thesis by blast
    next
      case LEnd
      have "?shape (fst (?ticks (item # items) st w)) (map Cb cbs) st1 w1 []"
        using q by (simp add: Inr c hl LEnd fst_case_pair)
      then show ?thesis by blast
    next
      case LFail
      have "?shape (fst (?ticks (item # items) st w)) (map Cb cbs) st1 w1 [Break (Http 200 MidStream None None)]"
        using q by (simp add: Inr c hl LFail fst_case_pair)
      then show ?thesis by blast
    qed
  qed
qed

text \<open>The calls a stream of fragments reports.\<close>

definition selected_calls :: "string \<Rightarrow> json \<Rightarrow> json" where
  "selected_calls path j = (case select_one j path of Inr (Some r) \<Rightarrow> r | _ \<Rightarrow> JNull)"

definition streams_fragments :: "stream_plan \<Rightarrow> string \<Rightarrow> bool" where
  "streams_fragments plan path \<longleftrightarrow>
     sp_want_tool_calls plan \<and> sp_tool_call_stream plan = None \<and> sp_chunk_tool_calls plan = Some path
     \<and> (case sp_tool_call_shape plan of Some s \<Rightarrow> sh_streamed_as s \<noteq> Some ''whole'' | None \<Rightarrow> True)"

lemma collect_null [simp]: "collect_tool_call_deltas JNull p = p"
  by (simp add: collect_is_fold is_js_object_def)

lemma absorbed_fragments:
  assumes "streams_fragments plan path"
  shows "st_pending (fold (absorb_event show plan) js st)
    = fold collect_tool_call_deltas (map (selected_calls path) js) (st_pending st)"
proof (induction js arbitrary: st)
  case (Cons j js)
  have "or_keep p (absorb_tool_calls show plan j p) = collect_tool_call_deltas (selected_calls path j) p" for p
    using assms
    by (auto simp: streams_fragments_def absorb_tool_calls_def selected_calls_def or_keep_def Let_def
        split: sum.split option.splits)
  with Cons show ?case by (simp add: absorb_event_def)
qed simp

definition reported_calls :: "tick list \<Rightarrow> tool_call list" where
  "reported_calls ts = List.map_filter (\<lambda>t. case t of Cb (CbTool c) \<Rightarrow> Some c | _ \<Rightarrow> None) ts"

lemma reported_calls_shown: "list_all is_shown body \<Longrightarrow> reported_calls (body @ ts) = reported_calls ts"
  by (induction body)
    (auto simp: reported_calls_def map_filter_simps is_shown_def split: tick.splits adapter_callback.splits)

lemma reported_calls_reports:
  "sk_tool_call sk \<Longrightarrow>
     reported_calls (map Cb (reports plan sk st)) = map (\<lambda>(_, p). reported_call p) (st_pending st)"
proof -
  have "List.map_filter (\<lambda>t. case t of Cb (CbTool c) \<Rightarrow> Some c | _ \<Rightarrow> None)
      (map (Cb \<circ> (\<lambda>(_, p). CbTool (reported_call p))) xs) = map (\<lambda>(_, p). reported_call p) xs"
    for xs :: "('x \<times> pending_call) list"
    by (induction xs) (auto simp: map_filter_simps)
  then show "sk_tool_call sk \<Longrightarrow> ?thesis"
    by (auto simp: reported_calls_def reports_def map_filter_def split: option.split)
qed

subsection \<open>Properties\<close>

text \<open>A text stream reports once, at its end: whatever the lines, the manifest and the cancel
  flag, the chunks, the reasoning and the notes come first, then, unless the flag is set by then,
  one report of the calls, the usage and the finish reason, then at most one break.\<close>

theorem stream_reports_once_at_its_end:
  "\<exists>body st' w' tail.
     fst (stream_ticks show parse cancelled plan sk items st w)
       = body @ (if fst (cancelled w') then [] else map Cb (reports plan sk st')) @ tail
     \<and> list_all is_shown body \<and> (tail = [] \<or> (\<exists>e. tail = [Break e]))"
proof -
  have "fst (flush cancelled plan sk st' w') = (if fst (cancelled w') then [] else map Cb (reports plan sk st'))"
    for st' w'
    by (simp add: flush_def split: prod.split)
  with stream_shape [of "show" parse cancelled plan sk items st w] show ?thesis by simp
qed

text \<open>(C11) A text stream is a function of its lines: if it is not cancelled, the text it shows is what
  the hold makes of the pieces of its events up to the one that ends it, and it reports what those
  events say. If it breaks, the text still held is not shown.\<close>

theorem stream_is_its_lines:
  assumes "\<And>w. fst (cancelled w) = False"
    and "pieces (map (view_of show parse plan) items) = (js, ds, ok)"
  shows "let ts = fst (stream_ticks show parse cancelled plan sk items fresh_stream w)
    in if ok then
         chunk_texts ts = held_chunks parse Fresh ds
         \<and> (\<exists>body. ts = body @ map Cb (reports plan sk (fold (absorb_event show plan) js fresh_stream))
              \<and> list_all is_shown body)
       else chunk_texts ts = fst (hold_feed parse Fresh ds) \<and> (\<exists>pre e. ts = pre @ [Break e])"
proof -
  have "run_ok show parse plan sk fresh_stream (pieces (map (view_of show parse plan) items))
      (fst (stream_ticks show parse cancelled plan sk items fresh_stream w))"
    using assms(1) by (rule stream_run)
  then have "run_ok show parse plan sk fresh_stream (js, ds, ok)
      (fst (stream_ticks show parse cancelled plan sk items fresh_stream w))"
    by (simp add: assms(2))
  moreover have "st_hold fresh_stream = Fresh" by (simp add: fresh_stream_def)
  ultimately show ?thesis
  proof (cases ok)
    case False
    with \<open>run_ok show parse plan sk fresh_stream (js, ds, ok) _\<close> obtain body reps e where
      "fst (stream_ticks show parse cancelled plan sk items fresh_stream w)
         = (body @ map Cb reps) @ [Break e]"
      by (auto simp: run_ok_def)
    then show ?thesis
      using False \<open>run_ok show parse plan sk fresh_stream (js, ds, ok) _\<close>
      by (simp add: run_ok_def Let_def fresh_stream_def)
  qed (simp add: run_ok_def Let_def)
qed

text \<open>(C12) Streamed tool calls reach the caller whole: a stream of fragments that ends well reports
  one call per index some fragment names, in the order of the indices. Its arguments are the
  fragments addressed to that index, concatenated in the order they arrived, and its id and name
  the last ones that were not empty, so how the fragments of different calls interleave does not
  matter.\<close>

theorem streamed_calls_are_reassembled:
  assumes never: "\<And>w. fst (cancelled w) = False"
    and ends: "pieces (map (view_of show parse plan) items) = (js, ds, True)"
    and plan: "streams_fragments plan path" and sink: "sk_tool_call sk"
  shows "\<exists>m. reported_calls (fst (stream_ticks show parse cancelled plan sk items fresh_stream w))
        = map (\<lambda>(_, p). reported_call p) m
      \<and> map_ok m
      \<and> (\<forall>i. map_get m i =
           (let fragments = addressed i (map (selected_calls path) js)
            in if fragments = [] then None else Some (assembled fragments)))"
proof -
  let ?st = "fold (absorb_event show plan) js fresh_stream"
  have "run_ok show parse plan sk fresh_stream (pieces (map (view_of show parse plan) items))
      (fst (stream_ticks show parse cancelled plan sk items fresh_stream w))"
    using never by (rule stream_run)
  then obtain body where "fst (stream_ticks show parse cancelled plan sk items fresh_stream w)
      = body @ map Cb (reports plan sk ?st)" and "list_all is_shown body"
    unfolding run_ok_def ends by auto
  then have "reported_calls (fst (stream_ticks show parse cancelled plan sk items fresh_stream w))
      = map (\<lambda>(_, p). reported_call p) (st_pending ?st)"
    by (simp add: reported_calls_shown reported_calls_reports [OF sink])
  moreover have "st_pending ?st = collect_all (map (selected_calls path) js)"
    using absorbed_fragments [OF plan, of "show" js fresh_stream]
    by (simp add: fresh_stream_def collect_all_def)
  ultimately show ?thesis
    using collect_all_ok collect_all_get unfolding Let_def by metis
qed

text \<open>A stream of two events and its end.\<close>

definition demo_plan_of :: "string option \<Rightarrow> stream_plan" where
  "demo_plan_of calls =
     \<lparr>sp_delta = ''$.d'', sp_chunk_tool_calls = calls, sp_tool_call_stream = None, sp_error_paths = [],
      sp_stop_when = None, sp_finish = None, sp_usage_path = None, sp_usage_keys = None,
      sp_tool_call_shape = None, sp_response_finish = None, sp_response_finish_map = None,
      sp_want_tool_calls = (calls \<noteq> None), sp_wants_usage = False\<rparr>"

definition demo_parse :: "string \<Rightarrow> json option" where
  "demo_parse s =
     (if s = ''1'' then Some (jobj [(''d'', JString ''hi''), (''t'', JArray
         [jobj [(''id'', JString ''c''), (''function'', jobj [(''name'', JString ''f''), (''arguments'', JString ''{'')])]])])
      else if s = ''2'' then Some (jobj [(''t'', JArray
         [jobj [(''function'', jobj [(''arguments'', JString ''}'')])]])])
      else None)"

definition demo_items :: "(http_error + string) list" where
  "demo_items = [Inr ''data: 1'', Inr ''data: 2'', Inr ''data: [DONE]'']"

definition all_sinks :: sinks where
  "all_sinks = \<lparr>sk_tool_call = True, sk_usage = True, sk_finish = True, sk_reasoning = True,
     sk_observation = True\<rparr>"

lemma demo_pieces:
  "pieces (map (view_of (\<lambda>_. []) demo_parse (demo_plan_of (Some ''$.t''))) demo_items)
     = (map (the \<circ> demo_parse) [''1'', ''2''], [''hi''], True)"
  by code_simp

theorem stream_is_its_lines_witness:
  "chunk_texts (fst (stream_ticks (\<lambda>_. []) demo_parse (\<lambda>u :: unit. (False, u))
     (demo_plan_of (Some ''$.t'')) all_sinks demo_items fresh_stream ())) = [''hi'']"
proof -
  have "held_chunks demo_parse Fresh [''hi''] = [''hi'']" by code_simp
  with stream_is_its_lines [OF _ demo_pieces, of "\<lambda>u. (False, u)" all_sinks "()"]
  show ?thesis by (simp add: Let_def)
qed

theorem streamed_calls_are_reassembled_witness:
  "reported_calls (fst (stream_ticks (\<lambda>_. []) demo_parse (\<lambda>u :: unit. (False, u))
       (demo_plan_of (Some ''$.t'')) all_sinks demo_items fresh_stream ()))
     = [\<lparr>tc_id = Some ''c'', tc_name = Some ''f'', tc_arguments = Some ''{}'', tc_raw = None\<rparr>]"
proof -
  let ?js = "map (the \<circ> demo_parse) [''1'', ''2'']"
  have "streams_fragments (demo_plan_of (Some ''$.t'')) ''$.t''" and "sk_tool_call all_sinks"
    by code_simp+
  from streamed_calls_are_reassembled [OF _ demo_pieces this, of "\<lambda>u. (False, u)" "()"]
  obtain m where ts: "reported_calls (fst (stream_ticks (\<lambda>_. []) demo_parse (\<lambda>u :: unit. (False, u))
       (demo_plan_of (Some ''$.t'')) all_sinks demo_items fresh_stream ()))
        = map (\<lambda>(_, p). reported_call p) m" and m: "map_ok m"
    and get: "\<And>i. map_get m i = (let fragments = addressed i (map (selected_calls ''$.t'') ?js)
            in if fragments = [] then None else Some (assembled fragments))"
    by auto
  define fragments where "fragments i = addressed i (map (selected_calls ''$.t'') ?js)" for i
  have "list_all (\<lambda>d. delta_index d = 0) (concat (map deltas_of (map (selected_calls ''$.t'') ?js)))"
    by code_simp
  then have others: "fragments i = []" if "i \<noteq> 0" for i
    using that by (auto simp: fragments_def addressed_def list_all_iff filter_empty_conv)
  have zero: "fragments 0 \<noteq> []"
      "assembled (fragments 0) = \<lparr>pc_id = Some ''c'', pc_name = Some ''f'', pc_args = ''{}''\<rparr>"
    unfolding fragments_def by code_simp+
  have "map_get m k = map_get [(0, \<lparr>pc_id = Some ''c'', pc_name = Some ''f'', pc_args = ''{}''\<rparr>)] k" for k
    unfolding get fragments_def [symmetric] Let_def using others [of k] zero by (cases "k = 0") simp_all
  then have "m = [(0, \<lparr>pc_id = Some ''c'', pc_name = Some ''f'', pc_args = ''{}''\<rparr>)]"
    using m by (intro map_ok_ext) (simp_all add: map_ok_def)
  then show ?thesis by (simp add: ts reported_call_def)
qed

end
