(* ===== verification/Interpreter.thy ===== *)
theory Interpreter
  imports Text_Stream_Laws
begin

text \<open>
  The declarative adapter (\<open>ManifestInterpreter\<close> in \<open>interpreter.rs\<close>): catalogue, ping, images and
  text against an HTTP port. The port is the argument \<open>http\<close>, a function of the world; \<open>show\<close> and
  \<open>parse\<close> print and parse JSON, \<open>wait_of\<close> reads \<open>Retry-After\<close> from the headers of a response
  (\<open>retry_after_from\<close> at the conversions of the standard library). A manifest without a modelled
  part (modality rules) is not affected by it.
\<close>

subsection \<open>Errors\<close>

datatype interpreter_error = IHttp manifest_http_error | IFailed string

definition interpreter_message :: "interpreter_error \<Rightarrow> string" where
  "interpreter_message e =
     (case e of IHttp h \<Rightarrow> http_error_message h | IFailed m \<Rightarrow> m)"

definition to_attempt :: "interpreter_error \<Rightarrow> attempt_error" where
  "to_attempt e = (case e of IHttp h \<Rightarrow> to_attempt_error h | IFailed _ \<Rightarrow> Transport None)"

definition attempt_error_from :: "http_error \<Rightarrow> attempt_error" where
  "attempt_error_from e =
     (if he_kind e = HttpDenied then Blocked (he_message e) else Transport (Some (he_message e)))"

definition refusal_of :: "('h \<Rightarrow> nat option) \<Rightarrow> nat \<Rightarrow> string \<Rightarrow> 'h \<Rightarrow> manifest_http_error" where
  "refusal_of wait_of status body headers =
     \<lparr>mh_status = status, mh_body = body, mh_kind = Response, mh_retry_after_ms = wait_of headers\<rparr>"

type_synonym ('w) port = "http_request \<Rightarrow> 'w \<Rightarrow> (http_error + http_response) \<times> 'w"

subsection \<open>Catalogue and ping\<close>

record model_entry =
  me_native_id :: string
  me_raw :: json

record ping_result =
  pg_ok :: bool
  pg_status :: nat
  pg_rate_limited :: bool
  pg_message :: "string option"

definition PING_MESSAGE_LIMIT :: nat where
  "PING_MESSAGE_LIMIT = 300"

definition entry_id :: "(json \<Rightarrow> string) \<Rightarrow> json \<Rightarrow> string" where
  "entry_id show item =
     (case item of JString s \<Rightarrow> s | other \<Rightarrow> js_string_coerce show (json_get other ''id''))"

text \<open>The entries of the catalogue; \<open>raws\<close> is used only if it has one value per item.\<close>

definition model_entries :: "(json \<Rightarrow> string) \<Rightarrow> json list \<Rightarrow> json list \<Rightarrow> model_entry list" where
  "model_entries show items raws =
     map (\<lambda>(item, raw). \<lparr>me_native_id = entry_id show item, me_raw = raw\<rparr>)
       (filter (\<lambda>(item, _). entry_id show item \<noteq> [])
         (zip items (if length raws = length items then raws else items)))"

definition read_models ::
  "(json \<Rightarrow> string) \<Rightarrow> (json_path_error \<Rightarrow> string) \<Rightarrow> model_map \<Rightarrow> json \<Rightarrow> interpreter_error + model_entry list"
where
  "read_models show path_message m j =
     (case (case mm_raw m of Some selector \<Rightarrow> select_all j selector | None \<Rightarrow> Inr []) of
        Inl e \<Rightarrow> Inl (IFailed (path_message e))
      | Inr raws \<Rightarrow>
          (case select_all j (mm_models m) of
             Inl e \<Rightarrow> Inl (IFailed (path_message e))
           | Inr items \<Rightarrow> Inr (model_entries show items raws)))"

definition catalogue_request ::
  "(json \<Rightarrow> string) \<Rightarrow> manifest_view \<Rightarrow> list_models_endpoint \<Rightarrow> json_map \<Rightarrow> string \<Rightarrow> http_request" where
  "catalogue_request show view ep vars secret_ref =
     \<lparr>hq_url = join_url (pv_base_url (mv_provider view)) (lm_path ep), hq_method = Get,
      hq_headers = list_headers show view (lm_headers ep) vars, hq_body = None,
      hq_secret_ref = Some secret_ref, hq_stream = False\<rparr>"

definition interp_list_models ::
  "(json \<Rightarrow> string) \<Rightarrow> (string \<Rightarrow> string + json) \<Rightarrow> (json_path_error \<Rightarrow> string)
     \<Rightarrow> ((string \<times> string) list \<Rightarrow> nat option) \<Rightarrow> 'w port \<Rightarrow> manifest_view \<Rightarrow> json_map \<Rightarrow> string \<Rightarrow> 'w
     \<Rightarrow> (interpreter_error + model_entry list) \<times> 'w" where
  "interp_list_models show parse_or_say path_message wait_of http view vars secret_ref w =
     (case ep_list_models (mv_endpoints view) of
        None \<Rightarrow> (Inr [], w)
      | Some ep \<Rightarrow>
          (case http (catalogue_request show view ep vars secret_ref) w of
             (Inl e, w1) \<Rightarrow> (Inl (IFailed (he_message e)), w1)
           | (Inr res, w1) \<Rightarrow>
               (if 400 \<le> hr_status res
                then (Inl (IHttp (refusal_of wait_of (hr_status res) (hr_body res) (hr_headers res))), w1)
                else
                  (case parse_or_say (hr_body res) of
                     Inl m \<Rightarrow> (Inl (IFailed m), w1)
                   | Inr j \<Rightarrow> (read_models show path_message (lm_map ep) j, w1)))))"

definition ping_message :: "interpreter_error \<Rightarrow> string" where
  "ping_message e =
     (case e of
        IHttp h \<Rightarrow> ''HTTP '' @ show_nat (mh_status h) @ '': '' @ mh_body h
      | IFailed m \<Rightarrow> m)"

definition ping_failure :: "interpreter_error \<Rightarrow> ping_result" where
  "ping_failure e =
     (let status = (case e of IHttp h \<Rightarrow> mh_status h | IFailed _ \<Rightarrow> 0)
      in \<lparr>pg_ok = False, pg_status = status, pg_rate_limited = (status = 429),
          pg_message = Some (truncate_utf16 (ping_message e) PING_MESSAGE_LIMIT)\<rparr>)"

definition interp_ping_key ::
  "(json \<Rightarrow> string) \<Rightarrow> (string \<Rightarrow> string + json) \<Rightarrow> (json_path_error \<Rightarrow> string)
     \<Rightarrow> ((string \<times> string) list \<Rightarrow> nat option) \<Rightarrow> 'w port \<Rightarrow> manifest_view \<Rightarrow> json_map \<Rightarrow> string \<Rightarrow> 'w
     \<Rightarrow> ping_result \<times> 'w" where
  "interp_ping_key show parse_or_say path_message wait_of http view vars secret_ref w =
     (if ep_list_models (mv_endpoints view) = None
      then (\<lparr>pg_ok = False, pg_status = 0, pg_rate_limited = False,
              pg_message = Some ''provider has no listModels endpoint''\<rparr>, w)
      else
        (case interp_list_models show parse_or_say path_message wait_of http view vars secret_ref w of
           (Inr _, w1) \<Rightarrow>
             (\<lparr>pg_ok = True, pg_status = 200, pg_rate_limited = False, pg_message = None\<rparr>, w1)
         | (Inl e, w1) \<Rightarrow> (ping_failure e, w1)))"

subsection \<open>Images\<close>

definition image_values :: "image_args \<Rightarrow> json_map \<Rightarrow> json_map" where
  "image_values args vars =
     insert_all vars
       (insert_some ''size'' (map_option JString (ia_size args))
         (vals_of [(''model'', JString (ia_model args)), (''prompt'', JString (ia_prompt args))]))"

text \<open>\<open>select_string\<close>: a selector that finds no string is absent.\<close>

definition select_string :: "json \<Rightarrow> string option \<Rightarrow> attempt_error + string option" where
  "select_string j path =
     (case select_opt j path of
        Inl _ \<Rightarrow> Inl (Transport None) | Inr v \<Rightarrow> Inr (Option.bind v as_str))"

definition image_answer ::
  "(string \<Rightarrow> json option) \<Rightarrow> image_response_map \<Rightarrow> http_response \<Rightarrow> attempt_error + image_reply" where
  "image_answer parse m res =
     (if 400 \<le> hr_status res
      then Inr \<lparr>ir_ok = False, ir_status = hr_status res, ir_base64 = None, ir_url = None,
                ir_error_body = Some (hr_body res)\<rparr>
      else
        (case parse (hr_body res) of
           None \<Rightarrow> Inl (Transport None)
         | Some j \<Rightarrow>
             (case (select_string j (im_image_b64 m), select_string j (im_image_url m)) of
                (Inl e, _) \<Rightarrow> Inl e
              | (Inr _, Inl e) \<Rightarrow> Inl e
              | (Inr b64, Inr url) \<Rightarrow>
                  Inr \<lparr>ir_ok = True, ir_status = hr_status res, ir_base64 = b64, ir_url = url,
                       ir_error_body = None\<rparr>)))"

definition run_image ::
  "(json \<Rightarrow> string) \<Rightarrow> (string \<Rightarrow> json option) \<Rightarrow> 'w port \<Rightarrow> manifest_view \<Rightarrow> json_map \<Rightarrow> string
     \<Rightarrow> image_args \<Rightarrow> 'w \<Rightarrow> (attempt_error + image_reply) \<times> 'w" where
  "run_image show parse http view vars secret_ref args w =
     (case ep_generate_image (mv_endpoints view) of
        None \<Rightarrow> (Inl (Transport None), w)
      | Some ep \<Rightarrow>
          (case render_template (ie_request_template ep) (image_values args vars) of
             Inl _ \<Rightarrow> (Inl (Transport None), w)
           | Inr body \<Rightarrow>
               (case http
                   \<lparr>hq_url = join_url (pv_base_url (mv_provider view)) (render_path (ie_path ep) (ia_model args)),
                    hq_method = Post, hq_headers = json_headers show view (ie_headers ep) vars,
                    hq_body = Some (show (JObject body)), hq_secret_ref = Some secret_ref,
                    hq_stream = False\<rparr> w of
                  (Inl e, w1) \<Rightarrow> (Inl (attempt_error_from e), w1)
                | (Inr res, w1) \<Rightarrow> (image_answer parse (ie_response_map ep) res, w1))))"

subsection \<open>Text in one piece\<close>

definition thinking_text :: "json \<Rightarrow> string" where
  "thinking_text selected =
     (case selected of
        JArray blocks \<Rightarrow>
          concat (List.map_filter
            (\<lambda>b. if get_str b ''type'' = Some ''thinking'' then get_str b ''thinking'' else None) blocks)
      | _ \<Rightarrow> [])"

definition unary_reasoning :: "response_map \<Rightarrow> sinks \<Rightarrow> json \<Rightarrow> json_path_error + string option" where
  "unary_reasoning rm sk j =
     (if sk_reasoning sk then
        (case select_one j (rm_text rm) of
           Inl e \<Rightarrow> Inl e
         | Inr v \<Rightarrow> Inr (non_empty (map_option thinking_text v)))
      else Inr None)"

definition unary_tool_calls ::
  "(json \<Rightarrow> string) \<Rightarrow> response_map \<Rightarrow> sinks \<Rightarrow> json \<Rightarrow> json_path_error + tool_call list" where
  "unary_tool_calls show rm sk j =
     (case rm_tool_calls rm of
        None \<Rightarrow> Inr []
      | Some path \<Rightarrow>
          (case select_one j path of
             Inl e \<Rightarrow> Inl e
           | Inr v \<Rightarrow>
               Inr (if sk_tool_call sk
                    then emit_tool_calls show (case v of Some r \<Rightarrow> r | None \<Rightarrow> JNull) (rm_tool_call_shape rm)
                    else [])))"

definition unary_usage :: "response_map \<Rightarrow> sinks \<Rightarrow> json \<Rightarrow> json_path_error + usage_tokens option" where
  "unary_usage rm sk j =
     (case rm_usage rm of
        Some path \<Rightarrow>
          (if \<not> sk_usage sk then Inr None
           else
             (case select_one j path of
                Inl e \<Rightarrow> Inl e
              | Inr (Some (JObject m)) \<Rightarrow> Inr (read_usage m (rm_usage_keys rm))
              | Inr _ \<Rightarrow> Inr None))
      | None \<Rightarrow> Inr None)"

definition unary_finish :: "text_endpoint \<Rightarrow> sinks \<Rightarrow> json \<Rightarrow> json_path_error + string option" where
  "unary_finish ep sk j =
     (case tx_response_finish ep of
        Some path \<Rightarrow>
          (if \<not> sk_finish sk then Inr None
           else
             (case select_one j path of
                Inl e \<Rightarrow> Inl e
              | Inr v \<Rightarrow>
                  Inr (map_option (\<lambda>s. translate_finish_reason s (tx_response_finish_map ep))
                         (real_reason (Option.bind v as_str)))))
      | None \<Rightarrow> Inr None)"

definition opt_list :: "'a option \<Rightarrow> 'a list" where
  "opt_list x = (case x of Some a \<Rightarrow> [a] | None \<Rightarrow> [])"

text \<open>The one-chunk stream: reasoning and text on the first poll, the reports on the second.\<close>

definition unary_text ::
  "(json \<Rightarrow> string) \<Rightarrow> (string \<Rightarrow> json option) \<Rightarrow> text_endpoint \<Rightarrow> sinks \<Rightarrow> string
     \<Rightarrow> attempt_error + tick list" where
  "unary_text show parse ep sk body =
     (let rm = tx_response_map ep in
      case parse body of
        None \<Rightarrow> Inl (Transport None)
      | Some j \<Rightarrow>
          (case (select_text parse j (rm_text rm), unary_reasoning rm sk j,
                 unary_tool_calls show rm sk j, unary_usage rm sk j, unary_finish ep sk j) of
             (Inr chunk, Inr reasoning, Inr calls, Inr usage, Inr finish) \<Rightarrow>
               Inr (map (\<lambda>t. Cb (CbReason t)) (opt_list reasoning)
                 @ map Chunk (opt_list chunk)
                 @ map (\<lambda>c. Cb (CbTool c)) calls
                 @ map (\<lambda>u. Cb (CbUsage u)) (opt_list usage)
                 @ (if sk_finish sk then [Cb (CbFinish finish)] else []))
           | _ \<Rightarrow> Inl (Transport None)))"

subsection \<open>Text\<close>

definition refused :: "attempt_error \<Rightarrow> dial" where
  "refused e = \<lparr>d_callbacks = [], d_refused = Some e, d_ticks = []\<rparr>"

definition answered :: "tick list \<Rightarrow> dial" where
  "answered ts = \<lparr>d_callbacks = [], d_refused = None, d_ticks = ts\<rparr>"

text \<open>What is read from a response below 400.\<close>

definition read_answer ::
  "(json \<Rightarrow> string) \<Rightarrow> (string \<Rightarrow> json option) \<Rightarrow> ('w \<Rightarrow> bool \<times> 'w) \<Rightarrow> manifest_view \<Rightarrow> text_endpoint
     \<Rightarrow> sinks \<Rightarrow> text_args \<Rightarrow> http_response \<Rightarrow> 'w \<Rightarrow> dial \<times> 'w" where
  "read_answer show parse cancelled view ep sk args res w =
     (case (if streams ep args then tx_stream ep else None) of
        None \<Rightarrow>
          (case unary_text show parse ep sk (hr_body res) of
             Inl e \<Rightarrow> (refused e, w) | Inr ts \<Rightarrow> (answered ts, w))
      | Some spec \<Rightarrow>
          (case hr_lines res of
             None \<Rightarrow> (refused (Transport None), w)
           | Some items \<Rightarrow>
               (case stream_ticks show parse cancelled
                       (new_plan spec ep (sk_tool_call sk) (wants_usage view ep)) sk items
                       fresh_stream w of
                  (ts, w1) \<Rightarrow> (answered ts, w1))))"

text \<open>\<open>run_text\<close>; \<open>None\<close> is a panic, which only the cache marker can cause.\<close>

definition interp_text ::
  "(json \<Rightarrow> string) \<Rightarrow> (string \<Rightarrow> json option) \<Rightarrow> ((string \<times> string) list \<Rightarrow> nat option) \<Rightarrow> 'w port
     \<Rightarrow> ('w \<Rightarrow> bool \<times> 'w) \<Rightarrow> manifest_view \<Rightarrow> json_map \<Rightarrow> sinks \<Rightarrow> string \<Rightarrow> text_args \<Rightarrow> 'w
     \<Rightarrow> (dial \<times> 'w) option" where
  "interp_text show parse wait_of http cancelled view vars sk secret_ref args w =
     (case ep_generate_text (mv_endpoints view) of
        None \<Rightarrow> Some (refused (Transport None), w)
      | Some ep \<Rightarrow>
          (case request_body show parse view ep vars args of
             Inl _ \<Rightarrow> Some (refused (Transport None), w)
           | Inr plain \<Rightarrow>
               (case (if ta_prompt_cache_enabled args then mark_cache plain else Some plain) of
                  None \<Rightarrow> None
                | Some body \<Rightarrow>
                    Some
                      (case http (text_request_of show view ep vars secret_ref args body) w of
                         (Inl e, w1) \<Rightarrow> (refused (attempt_error_from e), w1)
                       | (Inr res, w1) \<Rightarrow>
                           (if 400 \<le> hr_status res
                            then (refused (to_attempt_error
                                    (refusal_of wait_of (hr_status res) (hr_body res) (hr_headers res))), w1)
                            else read_answer show parse cancelled view ep sk args res w1)))))"

end
