(* ===== verification/Compress.thy ===== *)
theory Compress
  imports Json "HOL-Library.Sublist"
begin

text \<open>
  Fitting a conversation into a context window (\<open>compress.rs\<close>, with the token constants of
  \<open>context_scope.rs\<close>): the estimate, the budget, dropping the oldest whole turns, and replacing
  what was dropped by a summary. \<open>show\<close> prints a JSON value; the summarizer, a model call, is an
  argument that may fail (\<open>None\<close>). The quotients by the \<open>f64\<close> constants 4.0 and 0.25 are exact for
  lengths and windows below \<open>2\<^sup>5\<^sup>3\<close>.
\<close>

subsection \<open>The estimate\<close>

definition MESSAGE_OVERHEAD_TOKENS :: nat where
  "MESSAGE_OVERHEAD_TOKENS = 4"

definition SUMMARY_LABEL :: string where
  "SUMMARY_LABEL = ''Summary of the earlier part of this conversation:''"

definition msg_role :: "json \<Rightarrow> string option" where
  "msg_role m = get_str m ''role''"

definition compress_part_text :: "(json \<Rightarrow> string) \<Rightarrow> json \<Rightarrow> string" where
  "compress_part_text show part =
     (case part of
        JString s \<Rightarrow> s
      | JNull \<Rightarrow> show (JString [])
      | _ \<Rightarrow> (case json_get part ''text'' of Some (JString t) \<Rightarrow> t | _ \<Rightarrow> show part))"

definition content_text :: "(json \<Rightarrow> string) \<Rightarrow> json \<Rightarrow> string" where
  "content_text show m =
     (case json_get m ''content'' of
        None \<Rightarrow> []
      | Some JNull \<Rightarrow> []
      | Some (JString s) \<Rightarrow> s
      | Some (JArray parts) \<Rightarrow> join '' '' (map (compress_part_text show) parts)
      | Some other \<Rightarrow> show other)"

definition estimate_message_tokens :: "(json \<Rightarrow> string) \<Rightarrow> json \<Rightarrow> nat" where
  "estimate_message_tokens show m =
     (sum_list (map len_utf16 (chars (content_text show m))) + 3) div 4 + MESSAGE_OVERHEAD_TOKENS"

definition estimate_tokens :: "(json \<Rightarrow> string) \<Rightarrow> json list \<Rightarrow> nat" where
  "estimate_tokens show messages = sum_list (map (estimate_message_tokens show) messages)"

definition prompt_budget :: "nat \<Rightarrow> nat option \<Rightarrow> nat" where
  "prompt_budget window max_tokens =
     (let declared = (case max_tokens of Some v \<Rightarrow> v | None \<Rightarrow> 0);
          reserve = (if declared > 0 then declared else window div 4)
      in window - reserve)"

subsection \<open>Turns\<close>

definition is_system_msg :: "json \<Rightarrow> bool" where
  "is_system_msg m \<longleftrightarrow> msg_role m = Some ''system''"

definition is_user_msg :: "json \<Rightarrow> bool" where
  "is_user_msg m \<longleftrightarrow> msg_role m = Some ''user''"

definition split_system :: "json list \<Rightarrow> json list \<times> json list" where
  "split_system messages = (takeWhile is_system_msg messages, dropWhile is_system_msg messages)"

definition add_to_turns :: "json list list \<Rightarrow> json \<Rightarrow> json list list" where
  "add_to_turns turns m =
     (if is_user_msg m \<or> turns = [] then turns @ [[m]]
      else butlast turns @ [last turns @ [m]])"

definition to_turns :: "json list \<Rightarrow> json list list" where
  "to_turns rest = foldl add_to_turns [] rest"

text \<open>The loop over the turns: how many of the oldest go. The newest is never reached.\<close>

fun turns_to_drop :: "nat list \<Rightarrow> nat \<Rightarrow> nat \<Rightarrow> nat" where
  "turns_to_drop (t # u # ts) total_tokens budget =
     (if budget < total_tokens then Suc (turns_to_drop (u # ts) (total_tokens - t) budget) else 0)"
| "turns_to_drop _ total_tokens budget = 0"

subsection \<open>Compression\<close>

record compress_result =
  cr_messages :: "json list"
  cr_dropped :: nat
  cr_dropped_messages :: "json list"
  cr_before_tokens :: nat
  cr_after_tokens :: nat
  cr_budget :: nat
  cr_compressed :: bool

definition compress_unchanged :: "(json \<Rightarrow> string) \<Rightarrow> json list \<Rightarrow> nat \<Rightarrow> compress_result" where
  "compress_unchanged show messages budget_tokens =
     \<lparr>cr_messages = messages, cr_dropped = 0, cr_dropped_messages = [],
      cr_before_tokens = estimate_tokens show messages,
      cr_after_tokens = estimate_tokens show messages, cr_budget = budget_tokens,
      cr_compressed = False\<rparr>"

definition compress_messages :: "(json \<Rightarrow> string) \<Rightarrow> json list \<Rightarrow> nat \<Rightarrow> compress_result" where
  "compress_messages show messages budget_tokens =
     (if messages = [] \<or> estimate_tokens show messages \<le> budget_tokens
      then compress_unchanged show messages budget_tokens
      else
        (case split_system messages of
           (system_prefix, rest) \<Rightarrow>
             (if rest = [] then compress_unchanged show messages budget_tokens
              else
                (let turns = to_turns rest;
                     turn_tokens = map (estimate_tokens show) turns;
                     start = turns_to_drop turn_tokens
                               (estimate_tokens show system_prefix + sum_list turn_tokens) budget_tokens;
                     kept = system_prefix @ concat (drop start turns)
                 in \<lparr>cr_messages = kept, cr_dropped = length messages - length kept,
                     cr_dropped_messages = concat (take start turns),
                     cr_before_tokens = estimate_tokens show messages,
                     cr_after_tokens = estimate_tokens show kept, cr_budget = budget_tokens,
                     cr_compressed = (length kept < length messages)\<rparr>))))"

text \<open>What of the original is not in the kept list, counting copies.\<close>

definition allowance_of :: "(json \<Rightarrow> string) \<Rightarrow> json list \<Rightarrow> (string \<times> nat) list" where
  "allowance_of show kept =
     fold (\<lambda>m a. map_insert (show m) (Suc (case map_get a (show m) of Some n \<Rightarrow> n | None \<Rightarrow> 0)) a) kept []"

fun spend_allowance :: "(json \<Rightarrow> string) \<Rightarrow> json list \<Rightarrow> (string \<times> nat) list \<Rightarrow> json list" where
  "spend_allowance show [] a = []"
| "spend_allowance show (m # ms) a =
     (case map_get a (show m) of
        Some (Suc n) \<Rightarrow> spend_allowance show ms (map_modify (show m) (\<lambda>_. n) a)
      | _ \<Rightarrow> m # spend_allowance show ms a)"

definition dropped_against :: "(json \<Rightarrow> string) \<Rightarrow> json list \<Rightarrow> json list \<Rightarrow> json list" where
  "dropped_against show original kept = spend_allowance show original (allowance_of show kept)"

definition summary_message :: "string \<Rightarrow> json" where
  "summary_message txt =
     jobj [(''role'', JString ''system''), (''content'', JString (SUMMARY_LABEL @ [CHR 0x0A] @ txt))]"

definition compress_with_summary ::
  "(json \<Rightarrow> string) \<Rightarrow> (json list \<Rightarrow> string option) \<Rightarrow> json list \<Rightarrow> nat \<Rightarrow> compress_result" where
  "compress_with_summary show summarize messages budget_tokens =
     (let base = compress_messages show messages budget_tokens in
      if \<not> cr_compressed base \<or> cr_dropped_messages base = [] then base
      else
        (case summarize (cr_dropped_messages base) of
           None \<Rightarrow> base
         | Some summary \<Rightarrow>
             (let txt = str_trim summary in
              if txt = [] then base
              else
                (let with_summary = takeWhile is_system_msg (cr_messages base) @ [summary_message txt]
                       @ dropWhile is_system_msg (cr_messages base);
                     final = compress_messages show with_summary budget_tokens;
                     dropped = dropped_against show messages (cr_messages final)
                 in \<lparr>cr_messages = cr_messages final, cr_dropped = length dropped,
                     cr_dropped_messages = dropped, cr_before_tokens = cr_before_tokens base,
                     cr_after_tokens = cr_after_tokens final, cr_budget = budget_tokens,
                     cr_compressed = True\<rparr>))))"

subsection \<open>Turns hold the conversation\<close>

lemma to_turns_Nil [simp]: "to_turns [] = []"
  by (simp add: to_turns_def)

lemma to_turns_snoc: "to_turns (xs @ [m]) = add_to_turns (to_turns xs) m"
  by (simp add: to_turns_def)

lemma concat_add_to_turns: "concat (add_to_turns ts m) = concat ts @ [m]"
proof (cases ts rule: rev_cases)
  case (snoc us u)
  then show ?thesis by (simp add: add_to_turns_def)
qed (simp add: add_to_turns_def)

lemma concat_to_turns [simp]: "concat (to_turns xs) = xs"
  by (induction xs rule: rev_induct) (simp_all add: to_turns_snoc concat_add_to_turns)

lemma to_turns_eq_Nil [simp]: "to_turns xs = [] \<longleftrightarrow> xs = []"
  by (metis concat_to_turns to_turns_Nil concat.simps(1))

text \<open>A turn: not empty, and no user message behind its first message.\<close>

definition is_turn :: "json list \<Rightarrow> bool" where
  "is_turn t \<longleftrightarrow> t \<noteq> [] \<and> list_all (\<lambda>m. \<not> is_user_msg m) (tl t)"

lemma turns_are_turns: "t \<in> set (to_turns xs) \<Longrightarrow> is_turn t"
proof (induction xs arbitrary: t rule: rev_induct)
  case (snoc m xs)
  show ?case
  proof (cases "is_user_msg m \<or> to_turns xs = []")
    case True
    with snoc show ?thesis by (auto simp: to_turns_snoc add_to_turns_def is_turn_def)
  next
    case False
    then have "is_turn (last (to_turns xs))" using snoc.IH by simp
    then have "is_turn (last (to_turns xs) @ [m])"
      using False by (cases "last (to_turns xs)") (simp_all add: is_turn_def)
    then show ?thesis
      using snoc False by (auto simp: to_turns_snoc add_to_turns_def dest: in_set_butlastD)
  qed
qed simp

lemma later_turns_are_asked:
  "t \<in> set (tl (to_turns xs)) \<Longrightarrow> t \<noteq> [] \<and> is_user_msg (hd t)"
proof (induction xs arbitrary: t rule: rev_induct)
  case (snoc m xs)
  show ?case
  proof (cases "is_user_msg m \<or> to_turns xs = []")
    case True
    with snoc show ?thesis
      by (cases "to_turns xs") (auto simp: to_turns_snoc add_to_turns_def)
  next
    case False
    then obtain us u where us: "to_turns xs = us @ [u]" by (metis rev_exhaust)
    show ?thesis
    proof (cases us)
      case Nil
      with snoc.prems us False show ?thesis by (simp add: to_turns_snoc add_to_turns_def)
    next
      case (Cons v vs)
      then have tl: "tl (to_turns (xs @ [m])) = vs @ [u @ [m]]" and "u \<in> set (tl (to_turns xs))"
        using us False by (simp_all add: to_turns_snoc add_to_turns_def)
      then have "u \<noteq> [] \<and> is_user_msg (hd u)" by (intro snoc.IH)
      with tl snoc us Cons show ?thesis by auto
    qed
  qed
qed simp

lemma to_turns_is_turn:
  assumes "is_turn t"
  shows "to_turns t = [t]"
  using assms
proof (induction t rule: rev_induct)
  case (snoc m ms)
  show ?case
  proof (cases ms)
    case Nil
    then show ?thesis by (simp add: to_turns_def add_to_turns_def)
  next
    case (Cons x xs)
    with snoc show ?thesis
      using to_turns_snoc [of "x # xs" m] by (simp add: is_turn_def add_to_turns_def)
  qed
qed (simp add: is_turn_def)

subsection \<open>The loop\<close>

lemma turns_to_drop_less: "ts \<noteq> [] \<Longrightarrow> turns_to_drop ts w b < length ts"
  by (induction ts w b rule: turns_to_drop.induct) auto

lemma turns_to_drop_fits:
  assumes "ts \<noteq> []"
  shows "s + sum_list (drop (turns_to_drop ts (s + sum_list ts) b) ts) \<le> b
    \<or> Suc (turns_to_drop ts (s + sum_list ts) b) = length ts"
  using assms
proof (induction ts)
  case (Cons t ts)
  show ?case
  proof (cases ts)
    case (Cons u us)
    with Cons.IH show ?thesis by (simp add: add.left_commute [of s t])
  qed simp
qed simp

lemma turns_to_drop_needed:
  assumes "i < turns_to_drop ts (s + sum_list ts) b"
  shows "b < s + sum_list (drop i ts)"
  using assms
proof (induction ts arbitrary: i)
  case (Cons t ts)
  show ?case
  proof (cases ts)
    case Nil
    with Cons.prems show ?thesis by simp
  next
    case (Cons u us)
    then show ?thesis
      using Cons.IH [of "i - 1"] Cons.prems
      by (cases i) (auto simp: add.left_commute [of s t] split: if_splits)
  qed
qed simp

lemma estimate_tokens_append [simp]:
  "estimate_tokens show (xs @ ys) = estimate_tokens show xs + estimate_tokens show ys"
  by (simp add: estimate_tokens_def)

lemma estimate_tokens_concat:
  "estimate_tokens show (concat ts) = sum_list (map (estimate_tokens show) ts)"
  by (induction ts) (simp_all add: estimate_tokens_def)

subsection \<open>What compression does\<close>

text \<open>Either nothing is dropped, or there are turns before the ones that stay, the first of the ones
  that stay is asked by a user, and what stays fits or is the newest turn alone.\<close>

definition cut_at :: "(json \<Rightarrow> string) \<Rightarrow> nat \<Rightarrow> json list \<Rightarrow> json list \<Rightarrow> json list \<Rightarrow> bool" where
  "cut_at show b sys dropped kept \<longleftrightarrow>
     dropped \<noteq> [] \<and> kept \<noteq> [] \<and> is_user_msg (hd kept)
     \<and> (estimate_tokens show (sys @ kept) \<le> b \<or> is_turn kept)
     \<and> (\<exists>older newest. dropped = older @ newest \<and> is_turn newest
          \<and> b < estimate_tokens show (sys @ newest @ kept))"

lemma split_turns:
  assumes "n < length ts"
  shows "concat (drop n ts) = ts ! n @ concat (drop (Suc n) ts)"
  using assms by (simp add: Cons_nth_drop_Suc [symmetric])

lemma compress_cut:
  fixes messages :: "json list"
  defines "sys \<equiv> takeWhile is_system_msg messages"
    and "rest \<equiv> dropWhile is_system_msg messages"
  shows "\<exists>dropped kept. rest = dropped @ kept
    \<and> cr_messages (compress_messages show messages b) = sys @ kept
    \<and> cr_dropped_messages (compress_messages show messages b) = dropped
    \<and> cr_dropped (compress_messages show messages b) = length dropped
    \<and> cr_compressed (compress_messages show messages b) = (dropped \<noteq> [])
    \<and> cr_after_tokens (compress_messages show messages b) = estimate_tokens show (sys @ kept)
    \<and> (dropped = [] \<and> (estimate_tokens show (sys @ kept) \<le> b \<or> kept = [] \<or> is_turn kept)
       \<or> cut_at show b sys dropped kept)"
proof -
  have all: "messages = sys @ rest" by (simp add: sys_def rest_def)
  show ?thesis
  proof (cases "messages = [] \<or> estimate_tokens show messages \<le> b \<or> rest = []")
    case True
    then have "compress_messages show messages b = compress_unchanged show messages b"
      by (auto simp: compress_messages_def split_system_def rest_def [symmetric])
    moreover have "estimate_tokens show (sys @ rest) \<le> b \<or> rest = []"
      using True all by auto
    ultimately show ?thesis
      using all by (intro exI [of _ "[]"] exI [of _ rest]) (auto simp: compress_unchanged_def)
  next
    case False
    define ts where "ts = to_turns rest"
    define s where "s = estimate_tokens show sys"
    define toks where "toks = map (estimate_tokens show) ts"
    define n where "n = turns_to_drop toks (s + sum_list toks) b"
    have ts: "ts \<noteq> []" and toks: "toks \<noteq> []" using False by (simp_all add: ts_def toks_def)
    have n: "n < length ts" using turns_to_drop_less [OF toks] by (simp add: n_def toks_def)
    let ?d = "concat (take n ts)" and ?k = "concat (drop n ts)"
    have rest: "rest = ?d @ ?k" by (metis ts_def concat_to_turns concat_append append_take_drop_id)
    have est: "estimate_tokens show (sys @ concat (drop i ts)) = s + sum_list (drop i toks)" for i
      by (simp add: s_def toks_def estimate_tokens_concat drop_map)
    have fits: "estimate_tokens show (sys @ ?k) \<le> b \<or> is_turn ?k"
    proof (cases "Suc n = length ts")
      case True
      then have "?k = ts ! n" using split_turns [OF n] by simp
      then show ?thesis using turns_are_turns [of "ts ! n" rest] n by (simp add: ts_def)
    next
      case False
      then show ?thesis
        using turns_to_drop_fits [OF toks, of s b] est [of n] by (simp add: n_def toks_def)
    qed
    have cut: "cut_at show b sys ?d ?k" if "n \<noteq> 0"
    proof -
      from that obtain k where k: "n = Suc k" by (cases n) auto
      have "ts ! n \<in> set (tl ts)" using n k by (metis nth_tl length_tl nth_mem less_diff_conv Suc_eq_plus1)
      then have hd: "ts ! n \<noteq> [] \<and> is_user_msg (hd (ts ! n))"
        unfolding ts_def by (rule later_turns_are_asked)
      have turn: "is_turn (ts ! k)" using turns_are_turns [of "ts ! k" rest] n k by (simp add: ts_def)
      have "b < s + sum_list (drop k toks)"
        using turns_to_drop_needed [of k toks s b] k by (simp add: n_def)
      then have over: "b < estimate_tokens show (sys @ ts ! k @ ?k)"
        using est [of k] split_turns [of k ts] n k by simp
      have d: "?d = concat (take k ts) @ ts ! k" using n k by (simp add: take_Suc_conv_app_nth)
      have "?d \<noteq> []" using d turn by (simp add: is_turn_def)
      moreover have "?k \<noteq> [] \<and> is_user_msg (hd ?k)" using hd split_turns [OF n] by simp
      ultimately show ?thesis using fits over turn d unfolding cut_at_def by blast
    qed
    have result: "compress_messages show messages b =
        \<lparr>cr_messages = sys @ ?k, cr_dropped = length messages - length (sys @ ?k),
         cr_dropped_messages = ?d, cr_before_tokens = estimate_tokens show messages,
         cr_after_tokens = estimate_tokens show (sys @ ?k), cr_budget = b,
         cr_compressed = (length (sys @ ?k) < length messages)\<rparr>"
      using False unfolding compress_messages_def split_system_def sys_def rest_def ts_def s_def
        toks_def n_def Let_def prod.case by (simp only: de_Morgan_disj if_False simp_thms)
    have len: "length messages = length sys + length ?d + length ?k"
      using all rest by (metis length_append add.assoc)
    have "n = 0 \<Longrightarrow> ?d = []" by simp
    with rest result len fits cut show ?thesis
      by - (rule exI [of _ ?d], rule exI [of _ ?k], cases "n = 0", auto simp: cut_at_def)
  qed
qed

text \<open>What fits or is one turn stays as it is.\<close>

lemma compress_stable:
  assumes "\<forall>m \<in> set sys. is_system_msg m" and "kept = [] \<or> \<not> is_system_msg (hd kept)"
    and "estimate_tokens show (sys @ kept) \<le> b \<or> kept = [] \<or> is_turn kept"
  shows "cr_messages (compress_messages show (sys @ kept) b) = sys @ kept"
proof -
  have take: "takeWhile is_system_msg (sys @ kept) = sys"
    and drop: "dropWhile is_system_msg (sys @ kept) = kept"
    using assms(1,2) by (cases kept; simp add: takeWhile_append dropWhile_append)+
  show ?thesis
  proof (cases "is_turn kept")
    case True
    then show ?thesis
      using take drop
      by (simp add: compress_messages_def split_system_def to_turns_is_turn Let_def
          compress_unchanged_def)
  next
    case False
    with assms(3) drop show ?thesis
      by (auto simp: compress_messages_def split_system_def compress_unchanged_def)
  qed
qed

lemma hd_dropWhile_not: "dropWhile P xs = [] \<or> \<not> P (hd (dropWhile P xs))"
  using hd_dropWhile by blast

lemma user_not_system: "is_user_msg m \<Longrightarrow> \<not> is_system_msg m"
  by (simp add: is_user_msg_def is_system_msg_def)

subsection \<open>What was dropped, counting copies\<close>

definition allowed :: "(string \<times> nat) list \<Rightarrow> string \<Rightarrow> nat" where
  "allowed a k = (case map_get a k of Some n \<Rightarrow> n | None \<Rightarrow> 0)"

lemma allowed_allowance_of: "allowed (allowance_of show kept) k = count (image_mset show (mset kept)) k"
proof (induction kept rule: rev_induct)
  case (snoc m ms)
  have "allowance_of show (ms @ [m]) =
      map_insert (show m) (Suc (allowed (allowance_of show ms) (show m))) (allowance_of show ms)"
    by (simp add: allowance_of_def allowed_def)
  with snoc show ?case by (simp add: allowed_def)
qed (simp add: allowed_def allowance_of_def)

lemma spend_allowance_subseq: "subseq (spend_allowance show ms a) ms"
  by (induction "show" ms a rule: spend_allowance.induct) (auto split: option.split nat.split)

lemma notin_set_subseq: "subseq xs ys \<Longrightarrow> x \<notin> set ys \<Longrightarrow> x \<notin> set xs"
  by (induction rule: list_emb.induct) auto

lemma count_spend_allowance:
  assumes "inj_on show (insert x (set ms))"
  shows "count (mset (spend_allowance show ms a)) x = count (mset ms) x - allowed a (show x)"
  using assms
proof (induction ms arbitrary: a)
  case (Cons m ms)
  have "inj_on show (insert x (set ms))" by (rule inj_on_subset [OF Cons.prems]) auto
  then have IH: "count (mset (spend_allowance show ms a)) x = count (mset ms) x - allowed a (show x)" for a
    by (rule Cons.IH)
  have eq: "show m = show x \<Longrightarrow> m = x" by (rule inj_onD [OF Cons.prems]) auto
  consider (spent) n where "map_get a (show m) = Some (Suc n)"
    | (not) "map_get a (show m) = None \<or> map_get a (show m) = Some 0"
    by (metis nat.exhaust option.exhaust)
  then show ?case
  proof cases
    case (spent n)
    then have "allowed (map_modify (show m) (\<lambda>_. n) a) (show x)
        = (if m = x then n else allowed a (show x))" and "m = x \<Longrightarrow> allowed a (show x) = Suc n"
      using eq by (auto simp: allowed_def)
    with spent IH show ?thesis by simp
  next
    case not
    then have "m = x \<Longrightarrow> allowed a (show x) = 0" by (auto simp: allowed_def)
    moreover have "spend_allowance show (m # ms) a = m # spend_allowance show ms a"
      using not by auto
    ultimately show ?thesis by (simp add: IH)
  qed
qed simp

lemma count_image_inj:
  assumes "inj_on f (insert x (set xs))"
  shows "count (image_mset f (mset xs)) (f x) = count (mset xs) x"
  using assms
proof (induction xs)
  case (Cons y ys)
  have "inj_on f (insert x (set ys))" by (rule inj_on_subset [OF Cons.prems]) auto
  moreover have "f y = f x \<Longrightarrow> y = x" by (rule inj_onD [OF Cons.prems]) auto
  ultimately show ?case using Cons.IH by auto
qed simp

lemma mset_dropped_against:
  assumes "inj_on show (set original \<union> set kept)"
  shows "mset (dropped_against show original kept) = mset original - mset kept"
proof (rule multiset_eqI)
  fix x
  show "count (mset (dropped_against show original kept)) x = count (mset original - mset kept) x"
  proof (cases "x \<in> set original")
    case True
    then have "inj_on show (insert x (set original))" and "inj_on show (insert x (set kept))"
      using True by - (rule inj_on_subset [OF assms], blast)+
    moreover from this(2) have "count (image_mset show (mset kept)) (show x) = count (mset kept) x"
      by (rule count_image_inj)
    ultimately show ?thesis
      by (simp add: dropped_against_def count_spend_allowance allowed_allowance_of)
  next
    case False
    then have "x \<notin> set (dropped_against show original kept)"
      using notin_set_subseq [OF spend_allowance_subseq] by (simp add: dropped_against_def)
    then have "count (mset (dropped_against show original kept)) x = 0"
      by (simp only: count_mset_0_iff not_False_eq_True)
    moreover have "count (mset original) x = 0" using False by (simp only: count_mset_0_iff not_False_eq_True)
    ultimately show ?thesis by (simp only: count_diff diff_0_eq_0)
  qed
qed

subsection \<open>Properties\<close>

text \<open>Compression drops the oldest whole turns and nothing else: the system prefix stays, what goes
  is the part of the conversation right behind it, what stays begins with a user message, so that no
  tool result is parted from its call, and fits the budget unless it is the newest turn alone; the
  newest turn that went would not have fitted. The counts say what happened, and compressing the
  result again changes nothing.\<close>

theorem oldest_turns_go_first:
  "\<exists>dropped kept.
     messages = takeWhile is_system_msg messages @ dropped @ kept
     \<and> cr_messages (compress_messages show messages b) = takeWhile is_system_msg messages @ kept
     \<and> cr_dropped_messages (compress_messages show messages b) = dropped
     \<and> cr_dropped (compress_messages show messages b) = length dropped
     \<and> cr_compressed (compress_messages show messages b) = (dropped \<noteq> [])
     \<and> cr_after_tokens (compress_messages show messages b)
         = estimate_tokens show (takeWhile is_system_msg messages @ kept)
     \<and> (dropped = []
          \<and> (estimate_tokens show messages \<le> b \<or> kept = [] \<or> is_turn kept)
        \<or> cut_at show b (takeWhile is_system_msg messages) dropped kept)
     \<and> cr_messages (compress_messages show (cr_messages (compress_messages show messages b)) b)
         = cr_messages (compress_messages show messages b)"
proof -
  let ?r = "compress_messages show messages b" and ?sys = "takeWhile is_system_msg messages"
  obtain dropped kept where *: "dropWhile is_system_msg messages = dropped @ kept"
      "cr_messages ?r = ?sys @ kept" "cr_dropped_messages ?r = dropped"
      "cr_dropped ?r = length dropped" "cr_compressed ?r = (dropped \<noteq> [])"
      "cr_after_tokens ?r = estimate_tokens show (?sys @ kept)"
      "dropped = [] \<and> (estimate_tokens show (?sys @ kept) \<le> b \<or> kept = [] \<or> is_turn kept)
       \<or> cut_at show b ?sys dropped kept"
    using compress_cut [of messages "show" b] by blast
  have all: "messages = ?sys @ dropped @ kept"
    by (metis *(1) takeWhile_dropWhile_id)
  have "kept = [] \<or> \<not> is_system_msg (hd kept)"
    using *(1,7) hd_dropWhile_not [of is_system_msg messages] user_not_system
    by (auto simp: cut_at_def)
  moreover have "\<forall>m \<in> set ?sys. is_system_msg m" by (auto dest: set_takeWhileD)
  moreover have "estimate_tokens show (?sys @ kept) \<le> b \<or> kept = [] \<or> is_turn kept"
    using *(7) by (auto simp: cut_at_def)
  ultimately have "cr_messages (compress_messages show (?sys @ kept) b) = ?sys @ kept"
    by (intro compress_stable)
  moreover have "dropped = [] \<Longrightarrow> messages = ?sys @ kept" using all by simp
  ultimately show ?thesis
    using all * by (metis (no_types, lifting))
qed

text \<open>A summary takes the place of what was dropped: the request is the one plain compression gives
  when nothing was dropped or the summarizer gave nothing usable; otherwise the system prefix, the
  summary and a user-led end of the conversation that fits the budget unless it is one turn. What is
  reported as dropped is the original conversation without what is sent, every copy counted, in the
  original order.\<close>

theorem summary_replaces_what_went:
  assumes "inj_on show (set messages
    \<union> set (cr_messages (compress_with_summary show summarize messages b)))"
  shows "(compress_with_summary show summarize messages b = compress_messages show messages b
       \<and> (cr_dropped_messages (compress_messages show messages b) = []
          \<or> map_option str_trim (summarize (cr_dropped_messages (compress_messages show messages b)))
              \<in> {None, Some []}))
    \<or> (\<exists>s kept.
         summarize (cr_dropped_messages (compress_messages show messages b)) = Some s
         \<and> str_trim s \<noteq> []
         \<and> cr_messages (compress_with_summary show summarize messages b)
             = takeWhile is_system_msg messages @ [summary_message (str_trim s)] @ kept
         \<and> suffix kept (cr_messages (compress_messages show messages b))
         \<and> kept \<noteq> [] \<and> is_user_msg (hd kept)
         \<and> (cr_after_tokens (compress_with_summary show summarize messages b) \<le> b \<or> is_turn kept)
         \<and> mset (cr_dropped_messages (compress_with_summary show summarize messages b))
             = mset messages - mset (cr_messages (compress_with_summary show summarize messages b))
         \<and> subseq (cr_dropped_messages (compress_with_summary show summarize messages b)) messages
         \<and> cr_dropped (compress_with_summary show summarize messages b)
             = length (cr_dropped_messages (compress_with_summary show summarize messages b)))"
proof -
  let ?base = "compress_messages show messages b"
  let ?r = "compress_with_summary show summarize messages b"
  let ?sys = "takeWhile is_system_msg messages"
  let ?s = "summarize (cr_dropped_messages ?base)"
  obtain dropped kept where *: "dropWhile is_system_msg messages = dropped @ kept"
      "cr_messages ?base = ?sys @ kept" "cr_dropped_messages ?base = dropped"
      "cr_compressed ?base = (dropped \<noteq> [])"
      "dropped = [] \<and> (estimate_tokens show (?sys @ kept) \<le> b \<or> kept = [] \<or> is_turn kept)
       \<or> cut_at show b ?sys dropped kept"
    using compress_cut [of messages "show" b] by blast
  show ?thesis
  proof (cases "dropped = [] \<or> map_option str_trim ?s \<in> {None, Some []}")
    case True
    then have "?r = ?base"
      using *(3,4) by (auto simp: compress_with_summary_def Let_def split: option.split)
    with True *(3) show ?thesis by simp
  next
    case False
    then obtain s where s: "?s = Some s" "str_trim s \<noteq> []" by auto
    let ?m = "summary_message (str_trim s)"
    have "cut_at show b ?sys dropped kept" using False *(5) by blast
    then have kept: "kept \<noteq> []" "is_user_msg (hd kept)" by (auto simp: cut_at_def)
    have sys: "takeWhile is_system_msg (?sys @ kept) = ?sys" "dropWhile is_system_msg (?sys @ kept) = kept"
      using kept user_not_system by (cases kept; auto simp: takeWhile_append dropWhile_append dest: set_takeWhileD)+
    have m: "is_system_msg ?m"
      by (simp add: is_system_msg_def msg_role_def summary_message_def jobj_def get_str_def)
    let ?with = "?sys @ [?m] @ kept"
    have with_sys: "takeWhile is_system_msg ?with = ?sys @ [?m]" "dropWhile is_system_msg ?with = kept"
      using kept user_not_system m
      by (cases kept; auto simp: takeWhile_append dropWhile_append dest: set_takeWhileD)+
    obtain dropped' kept' where **: "kept = dropped' @ kept'"
        "cr_messages (compress_messages show ?with b) = (?sys @ [?m]) @ kept'"
        "cr_after_tokens (compress_messages show ?with b) = estimate_tokens show ((?sys @ [?m]) @ kept')"
        "dropped' = [] \<and> (estimate_tokens show ((?sys @ [?m]) @ kept') \<le> b \<or> kept' = [] \<or> is_turn kept')
         \<or> cut_at show b (?sys @ [?m]) dropped' kept'"
      using compress_cut [of ?with "show" b] unfolding with_sys by blast
    have kept': "kept' \<noteq> []" "is_user_msg (hd kept')"
        "estimate_tokens show ((?sys @ [?m]) @ kept') \<le> b \<or> is_turn kept'"
      using kept **(1,4) by (auto simp: cut_at_def)
    let ?d = "dropped_against show messages (cr_messages (compress_messages show ?with b))"
    have r: "cr_messages ?r = cr_messages (compress_messages show ?with b)"
        "cr_after_tokens ?r = cr_after_tokens (compress_messages show ?with b)"
        "cr_dropped_messages ?r = ?d" "cr_dropped ?r = length ?d"
      using s False *(2,3,4) sys by (simp_all add: compress_with_summary_def Let_def)
    have "mset ?d = mset messages - mset (cr_messages ?r)"
      using assms r(1) by (simp add: mset_dropped_against)
    moreover have "subseq ?d messages"
      unfolding dropped_against_def by (rule spend_allowance_subseq)
    moreover have "suffix kept' (cr_messages ?base)"
      unfolding *(2) **(1) by (metis append_assoc suffixI)
    moreover have "cr_messages ?r = ?sys @ [?m] @ kept'" using r(1) **(2) by simp
    moreover have "cr_after_tokens ?r \<le> b \<or> is_turn kept'" using r(2) **(3) kept'(3) by simp
    ultimately show ?thesis using s kept' r(3,4) by (intro disjI2) metis
  qed
qed

definition demo_conversation :: "json list" where
  "demo_conversation =
     [jobj [(''role'', JString ''user''), (''content'', JString ''aaaaaaaa'')],
      jobj [(''role'', JString ''user''), (''content'', JString ''bbbbbbbbbbbbbbbb'')]]"

definition demo_show :: "json \<Rightarrow> string" where
  "demo_show m = (case get_str m ''content'' of Some s \<Rightarrow> s | None \<Rightarrow> [])"

lemma summary_replaces_what_went_witness:
  "cr_dropped_messages (compress_messages demo_show demo_conversation 10) = [hd demo_conversation]
   \<and> (\<exists>kept. cr_messages (compress_with_summary demo_show (\<lambda>_. Some ''s'') demo_conversation 10)
        = summary_message ''s'' # kept)"
proof -
  have trim: "str_trim ''s'' = ''s''" by code_simp
  have d: "cr_dropped_messages (compress_messages demo_show demo_conversation 10) = [hd demo_conversation]"
    by code_simp
  have sys: "takeWhile is_system_msg demo_conversation = []" by code_simp
  have "inj_on demo_show (set demo_conversation
      \<union> set (cr_messages (compress_with_summary demo_show (\<lambda>_. Some ''s'') demo_conversation 10)))"
    unfolding inj_on_def by code_simp
  from summary_replaces_what_went [OF this] show ?thesis
    unfolding d sys by (auto simp: trim)
qed

end
