(* ===== verification/Bridge_Policy.thy ===== *)
theory Bridge_Policy
  imports Attempt Adapter Normalizer
begin

text \<open>
  The decisions of the bridge between the gateway and the router (\<open>bridge_policy.rs\<close>) and the shape
  tool calls take on the wire (\<open>tool_wire.rs\<close>). The process-wide counter of synthesized ids is a
  number passed and returned.
\<close>

subsection \<open>Kinds and statuses\<close>

datatype bridge_kind = KChat | KResponses | KModels | KImage

definition bridge_kind_parse :: "string \<Rightarrow> bridge_kind option" where
  "bridge_kind_parse kind =
     (if kind = ''chat'' then Some KChat
      else if kind = ''responses'' then Some KResponses
      else if kind = ''models'' then Some KModels
      else if kind = ''image'' then Some KImage
      else None)"

definition MAX_TOOL_ITERATIONS :: nat where
  "MAX_TOOL_ITERATIONS = 40"

definition CLIENT_ATTRIBUTABLE_STATUS :: "nat list" where
  "CLIENT_ATTRIBUTABLE_STATUS = [400, 404, 413, 422, 429]"

definition client_attributable :: "nat \<Rightarrow> bool" where
  "client_attributable status \<longleftrightarrow> status \<in> set CLIENT_ATTRIBUTABLE_STATUS"

text \<open>Some window of the haystack equals the needle but for ASCII case.\<close>

fun windows_any :: "string \<Rightarrow> string \<Rightarrow> bool" where
  "windows_any n [] \<longleftrightarrow> False"
| "windows_any n (c # cs) \<longleftrightarrow>
     (length n \<le> length (c # cs)
      \<and> map ascii_lower (take (length n) (c # cs)) = map ascii_lower n)
     \<or> windows_any n cs"

definition contains_ci :: "string \<Rightarrow> string \<Rightarrow> bool" where
  "contains_ci haystack needle \<longleftrightarrow>
     (if needle = [] then True
      else if length haystack < length needle then False
      else windows_any needle haystack)"

definition message_says_no_route :: "string \<Rightarrow> bool" where
  "message_says_no_route msg \<longleftrightarrow> contains_ci msg ''no route'' \<or> contains_ci msg ''not found''"

definition gateway_status :: "nat option \<Rightarrow> string \<Rightarrow> nat" where
  "gateway_status last_attempt_status msg =
     (case last_attempt_status of
        Some status \<Rightarrow>
          (if client_attributable status then status
           else if message_says_no_route msg then 404 else 502)
      | None \<Rightarrow> if message_says_no_route msg then 404 else 502)"

definition gateway_status_for_attempts :: "outcome list \<Rightarrow> string \<Rightarrow> nat" where
  "gateway_status_for_attempts attempts msg =
     gateway_status (if attempts = [] then None else Some (o_status (last attempts))) msg"

definition retry_after_hint :: "outcome list \<Rightarrow> nat option" where
  "retry_after_hint attempts =
     (let ms = min_retry_after_ms attempts in if ms = 0 then None else Some ms)"

subsection \<open>Who owns the tools\<close>

datatype tool_ownership = OwnClient | OwnGateway | OwnNone

definition decide_tool_ownership :: "nat \<Rightarrow> bool \<Rightarrow> tool_ownership" where
  "decide_tool_ownership client_tool_count gateway_tools_enabled =
     (if client_tool_count > 0 then OwnClient
      else if gateway_tools_enabled then OwnGateway
      else OwnNone)"

definition tool_choice_for :: "tool_ownership \<Rightarrow> json option \<Rightarrow> json option" where
  "tool_choice_for ownership client_choice =
     (case ownership of OwnGateway \<Rightarrow> Some (JString ''auto'') | _ \<Rightarrow> client_choice)"

datatype turn_outcome = SandboxMercury | SandboxCollected | PassThrough | FinishTurn

definition decide_turn :: "nat \<Rightarrow> nat \<Rightarrow> tool_ownership \<Rightarrow> turn_outcome" where
  "decide_turn mercury_calls collected_calls ownership =
     (if mercury_calls > 0 then SandboxMercury
      else if collected_calls = 0 then FinishTurn
      else if ownership = OwnGateway then SandboxCollected
      else PassThrough)"

subsection \<open>Held prose\<close>

record prose_gate =
  pg_hold :: bool
  pg_held :: string

definition new_gate :: "tool_ownership \<Rightarrow> prose_gate" where
  "new_gate ownership = \<lparr>pg_hold = (ownership = OwnGateway), pg_held = []\<rparr>"

definition gate_offer :: "string \<Rightarrow> prose_gate \<Rightarrow> string option \<times> prose_gate" where
  "gate_offer visible g =
     (if visible = [] then (None, g)
      else if pg_hold g then (None, g\<lparr>pg_held := pg_held g @ visible\<rparr>)
      else (Some visible, g))"

definition gate_discard :: "prose_gate \<Rightarrow> prose_gate" where
  "gate_discard g = g\<lparr>pg_held := []\<rparr>"

definition gate_release :: "prose_gate \<Rightarrow> string option \<times> prose_gate" where
  "gate_release g = (if pg_held g = [] then (None, g) else (Some (pg_held g), g\<lparr>pg_held := []\<rparr>))"

subsection \<open>Collected calls and the wire\<close>

definition push_tool_call :: "tool_call list \<Rightarrow> tool_call \<Rightarrow> tool_call list" where
  "push_tool_call collected call =
     (case tc_id call of
        Some i \<Rightarrow>
          (if i \<noteq> [] \<and> list_ex (\<lambda>c. tc_id c = Some i) collected then collected else collected @ [call])
      | None \<Rightarrow> collected @ [call])"

record wire_tool_call =
  wc_id :: string
  wc_name :: string
  wc_arguments :: string

definition wire_json :: "wire_tool_call \<Rightarrow> json" where
  "wire_json c =
     jobj [(''id'', JString (wc_id c)), (''type'', JString ''function''),
       (''function'', jobj [(''name'', JString (wc_name c)), (''arguments'', JString (wc_arguments c))])]"

text \<open>\<open>SEQ\<close> counts the ids handed out; the value before an increment is returned by \<open>fetch_add\<close>.\<close>

definition synthesized_id :: "nat \<Rightarrow> string \<times> nat" where
  "synthesized_id seq = (''call_'' @ to_base36 (seq + 1), seq + 1)"

definition wire_call :: "tool_call \<Rightarrow> nat \<Rightarrow> wire_tool_call \<times> nat" where
  "wire_call call seq =
     (case (case tc_id call of
              Some existing \<Rightarrow> if existing \<noteq> [] then (existing, seq) else synthesized_id seq
            | None \<Rightarrow> synthesized_id seq) of
        (ident, seq') \<Rightarrow>
          (\<lparr>wc_id = ident, wc_name = (case tc_name call of Some n \<Rightarrow> n | None \<Rightarrow> []),
            wc_arguments = (case tc_arguments call of Some a \<Rightarrow> a | None \<Rightarrow> ''{}'')\<rparr>, seq'))"

definition to_wire_tool_calls :: "tool_call list \<Rightarrow> nat \<Rightarrow> wire_tool_call list \<times> nat" where
  "to_wire_tool_calls calls seq = map_state wire_call calls seq"

definition tool_call_name :: "json \<Rightarrow> string" where
  "tool_call_name call =
     (case get_str call ''name'' of
        Some (c # cs) \<Rightarrow> c # cs
      | _ \<Rightarrow>
          (case Option.bind (json_get call ''function'') (\<lambda>f. get_str f ''name'') of
             Some (c # cs) \<Rightarrow> c # cs
           | _ \<Rightarrow> ''tool''))"

end
