(* ===== verification/Assistant_Stream.thy ===== *)
theory Assistant_Stream
  imports Json "HOL-Library.Sublist"
begin

text \<open>
  The parser of tool calls written into the prose of an answer (\<open>assistant_stream.rs\<close>). It works on
  the scalar values of the text; the cursor of the code is the list of the scalars still to read.
\<close>

subsection \<open>Markers and searching\<close>

definition MARKERS :: "(string \<times> string) list" where
  "MARKERS =
     [(''<|tool_call_start|>'', ''<|tool_call_end|>''),
      (''<|tool_calls_section_start|>'', ''<|tool_calls_section_end|>''),
      (''<|tool_call|>'', ''</|tool_call|>''),
      (''<tool_call>'', ''</tool_call>''),
      (''<|function_call|>'', ''</|function_call|>''),
      (''<function_call>'', ''</function_call>''),
      (''<|tool_call_begin|>'', ''<|tool_call_end|>'')]"

definition is_js_space :: "string \<Rightarrow> bool" where
  "is_js_space u \<longleftrightarrow> u \<in> set
     ([[CHR 0x20], [CHR 0x09], [CHR 0x0A], [CHR 0x0D], [CHR 0x0B], [CHR 0x0C], [CHR 0xC2, CHR 0xA0],
       [CHR 0xE1, CHR 0x9A, CHR 0x80], [CHR 0xE2, CHR 0x80, CHR 0xA8], [CHR 0xE2, CHR 0x80, CHR 0xA9],
       [CHR 0xE2, CHR 0x80, CHR 0xAF], [CHR 0xE2, CHR 0x81, CHR 0x9F], [CHR 0xE3, CHR 0x80, CHR 0x80],
       [CHR 0xEF, CHR 0xBB, CHR 0xBF]]
      @ map (\<lambda>b. [CHR 0xE2, CHR 0x80, b])
          [CHR 0x80, CHR 0x81, CHR 0x82, CHR 0x83, CHR 0x84, CHR 0x85, CHR 0x86, CHR 0x87, CHR 0x88,
           CHR 0x89, CHR 0x8A])"

fun literal_index_of :: "'a list \<Rightarrow> 'a list \<Rightarrow> nat option" where
  "literal_index_of needle [] = None"
| "literal_index_of needle (x # xs) =
     (if needle = [] then None
      else if take (length needle) (x # xs) = needle then Some 0
      else map_option Suc (literal_index_of needle xs))"

subsection \<open>The tags inside a block\<close>

fun strip_keyword :: "string \<Rightarrow> string list \<Rightarrow> string list option" where
  "strip_keyword [] cs = Some cs"
| "strip_keyword (k # ks) [] = None"
| "strip_keyword (k # ks) (c # cs) =
     (if map ascii_lower c = [ascii_lower k] then strip_keyword ks cs else None)"

fun skip_one :: "string \<Rightarrow> string list \<Rightarrow> string list" where
  "skip_one u (c # cs) = (if c = u then cs else c # cs)"
| "skip_one u [] = []"

fun expect_one :: "string \<Rightarrow> string list \<Rightarrow> string list option" where
  "expect_one u (c # cs) = (if c = u then Some cs else None)"
| "expect_one u [] = None"

definition is_name_char :: "string \<Rightarrow> bool" where
  "is_name_char c \<longleftrightarrow> \<not> is_js_space c \<and> c \<noteq> ''>'' \<and> c \<noteq> ''|''"

text \<open>How many scalars the tag takes, and its name.\<close>

definition match_marker_at :: "string list \<Rightarrow> string \<Rightarrow> (nat \<times> string) option" where
  "match_marker_at cs keyword =
     Option.bind (expect_one ''<'' cs) (\<lambda>s1.
       Option.bind (strip_keyword keyword (dropWhile is_js_space (skip_one ''|'' s1))) (\<lambda>s2.
         Option.bind (expect_one ''='' (dropWhile is_js_space s2)) (\<lambda>s3.
           (let s4 = dropWhile is_js_space s3;
                name = takeWhile is_name_char s4
            in if name = [] then None
               else
                 Option.bind
                   (expect_one ''>'' (skip_one ''|'' (dropWhile is_js_space (dropWhile is_name_char s4))))
                   (\<lambda>s5. Some (length cs - length s5, concat name))))))"

text \<open>Start, end and name of every parameter tag; \<open>i\<close> is where the rest begins.\<close>

function find_all_param_opens :: "nat \<Rightarrow> string list \<Rightarrow> (nat \<times> nat \<times> string) list" where
  "find_all_param_opens i [] = []"
| "find_all_param_opens i (c # cs) =
     (case match_marker_at (c # cs) ''parameter'' of
        None \<Rightarrow> find_all_param_opens (Suc i) cs
      | Some (n, name) \<Rightarrow> (i, i + n, name) # find_all_param_opens (i + n) (drop (n - 1) cs))"
  by pat_completeness auto
termination by (relation "measure (length \<circ> snd)") auto

definition match_param_close_to_end :: "string list \<Rightarrow> bool" where
  "match_param_close_to_end cs \<longleftrightarrow>
     Option.bind (expect_one ''<'' cs) (\<lambda>s1.
       Option.bind (expect_one ''/'' s1) (\<lambda>s2.
         Option.bind (strip_keyword ''parameter'' (dropWhile is_js_space s2)) (\<lambda>s3.
           Option.bind (expect_one ''>'' (dropWhile is_js_space s3)) (\<lambda>s4.
             Some (dropWhile is_js_space s4))))) = Some []"

fun strip_close :: "string list \<Rightarrow> string list" where
  "strip_close [] = []"
| "strip_close (c # cs) = (if match_param_close_to_end (c # cs) then [] else c # strip_close cs)"

definition strip_trailing_param_close :: "string \<Rightarrow> string" where
  "strip_trailing_param_close s = concat (strip_close (chars s))"

fun find_function_name :: "string list \<Rightarrow> string option" where
  "find_function_name [] = None"
| "find_function_name (c # cs) =
     (case match_marker_at (c # cs) ''function'' of
        Some (_, name) \<Rightarrow> Some name
      | None \<Rightarrow> find_function_name cs)"

text \<open>The value of each parameter ends where the next tag starts.\<close>

fun param_values :: "string list \<Rightarrow> (nat \<times> nat \<times> string) list \<Rightarrow> (string \<times> string) list" where
  "param_values body [] = []"
| "param_values body ((_, e, name) # opens) =
     (let value_end = (case opens of (s, _, _) # _ \<Rightarrow> s | [] \<Rightarrow> length body);
          val = concat (take (value_end - e) (drop e body))
      in (name, str_trim (strip_trailing_param_close val)) # param_values body opens)"

definition parse_block :: "string list \<Rightarrow> string option \<times> (string \<times> string) list" where
  "parse_block body =
     (find_function_name body,
      fold (\<lambda>(k, v). map_insert k v) (param_values body (find_all_param_opens 0 body)) [])"

subsection \<open>Segments\<close>

record tool_segment =
  tg_name :: "string option"
  tg_params :: "(string \<times> string) list"
  tg_complete :: bool
  tg_raw :: string

datatype segment = SText string | STool tool_segment

definition tool_block :: "string list \<Rightarrow> bool \<Rightarrow> segment" where
  "tool_block body whole =
     STool \<lparr>tg_name = fst (parse_block body), tg_params = snd (parse_block body),
            tg_complete = whole, tg_raw = concat body\<rparr>"

definition text_piece :: "string list \<Rightarrow> segment list" where
  "text_piece cs = (if cs = [] then [] else [SText (concat cs)])"

text \<open>The earliest start marker: where it is, its length, and the end marker that goes with it.\<close>

definition nearer ::
  "string list \<Rightarrow> string \<times> string \<Rightarrow> (nat \<times> nat \<times> string) option \<Rightarrow> (nat \<times> nat \<times> string) option"
where
  "nearer cs marker found =
     (case literal_index_of (chars (fst marker)) cs of
        None \<Rightarrow> found
      | Some i \<Rightarrow>
          (case found of
             None \<Rightarrow> Some (i, length (chars (fst marker)), snd marker)
           | Some (j, _, _) \<Rightarrow>
               if i < j then Some (i, length (chars (fst marker)), snd marker) else found))"

definition earliest_marker :: "string list \<Rightarrow> (nat \<times> nat \<times> string) option" where
  "earliest_marker cs = fold (nearer cs) MARKERS None"

text \<open>What a marker found in \<open>cs\<close> among \<open>ms\<close> is.\<close>

fun found_in :: "string list \<Rightarrow> (string \<times> string) set \<Rightarrow> (nat \<times> nat \<times> string) option \<Rightarrow> bool" where
  "found_in cs ms None \<longleftrightarrow> (\<forall>(s, e) \<in> ms. literal_index_of (chars s) cs = None)"
| "found_in cs ms (Some (i, n, e)) \<longleftrightarrow>
     (\<exists>s. (s, e) \<in> ms \<and> literal_index_of (chars s) cs = Some i \<and> n = length (chars s))
     \<and> (\<forall>(s, e) \<in> ms. \<forall>j. literal_index_of (chars s) cs = Some j \<longrightarrow> i \<le> j)"

lemma nearer_found: "found_in cs ms f \<Longrightarrow> found_in cs (insert m ms) (nearer cs m f)"
proof -
  assume f: "found_in cs ms f"
  obtain s e where m: "m = (s, e)" by force
  show ?thesis
  proof (cases "literal_index_of (chars s) cs")
    case None
    with f m show ?thesis by (cases f) (auto simp: nearer_def)
  next
    case (Some i)
    show ?thesis
    proof (cases f)
      case None
      with f m Some show ?thesis by (auto simp: nearer_def)
    next
      case f': (Some p)
      obtain j n e' where p: "p = (j, n, e')" by (metis prod_cases3)
      show ?thesis
      proof (cases "i < j")
        case True
        have "\<forall>(s, e) \<in> ms. \<forall>k. literal_index_of (chars s) cs = Some k \<longrightarrow> i \<le> k"
          using f True by (force simp: f' p)
        with True m Some show ?thesis by (auto simp: nearer_def f' p)
      next
        case False
        with f m Some show ?thesis by (auto simp: nearer_def f' p)
      qed
    qed
  qed
qed

lemma earliest_marker_found: "found_in cs (set MARKERS) (earliest_marker cs)"
proof -
  have "found_in cs (set ms \<union> ns) (fold (nearer cs) ms f)" if "found_in cs ns f" for ms ns f
    using that
  proof (induction ms arbitrary: ns f)
    case (Cons m ms)
    then show ?case using Cons.IH [OF nearer_found [OF Cons.prems, of m]] by simp
  qed simp
  from this [of "{}" None MARKERS] show ?thesis by (simp add: earliest_marker_def)
qed

lemma earliest_marker_SomeD:
  assumes "earliest_marker cs = Some (i, n, e)"
  shows "\<exists>s. (s, e) \<in> set MARKERS \<and> literal_index_of (chars s) cs = Some i \<and> n = length (chars s)"
  using earliest_marker_found [of cs] by (simp add: assms)

lemma chars_MARKERS: "(s, e) \<in> set MARKERS \<Longrightarrow> chars s \<noteq> [] \<and> chars e \<noteq> []"
  by (auto simp: MARKERS_def)

lemma earliest_marker_advances:
  assumes "earliest_marker cs = Some (i, n, e)" and "cs \<noteq> []"
  shows "length (drop k (drop (i + n) cs)) < length cs"
proof -
  from assms(1) obtain s where "(s, e) \<in> set MARKERS" and "n = length (chars s)"
    using earliest_marker_SomeD by blast
  then have "0 < n" using chars_MARKERS by auto
  with assms(2) show ?thesis by (cases cs) simp_all
qed

function segments_of :: "string list \<Rightarrow> segment list" where
  "segments_of cs =
     (if cs = [] then []
      else
        (case earliest_marker cs of
           None \<Rightarrow> [SText (concat cs)]
         | Some (start_idx, start_len, end_token) \<Rightarrow>
             (let body = drop (start_idx + start_len) cs in
              text_piece (take start_idx cs)
              @ (case literal_index_of (chars end_token) body of
                   None \<Rightarrow> [tool_block body False]
                 | Some end_idx \<Rightarrow>
                     tool_block (take end_idx body) True
                     # segments_of (drop (end_idx + length (chars end_token)) body)))))"
  by pat_completeness auto
termination
  by (relation "measure length") (auto dest: earliest_marker_advances simp del: length_drop)

declare segments_of.simps [simp del]

text \<open>The longest proper beginning of a marker the text ends with, from two characters on.\<close>

fun longest_tail :: "string list \<Rightarrow> string list \<Rightarrow> nat \<Rightarrow> nat" where
  "longest_tail token cs 0 = 0"
| "longest_tail token cs (Suc n) =
     (if Suc n < 2 then 0
      else if Suc n \<le> length cs \<and> drop (length cs - Suc n) cs = take (Suc n) token then Suc n
      else longest_tail token cs n)"

definition partial_marker_tail_length :: "string list \<Rightarrow> nat" where
  "partial_marker_tail_length cs =
     fold (\<lambda>(s, _) best.
         max best (longest_tail (chars s) cs (min (length (chars s) - 1) (length cs)))) MARKERS 0"

definition hold_back :: "segment list \<Rightarrow> segment list" where
  "hold_back out =
     (if out = [] then []
      else
        (case last out of
           STool _ \<Rightarrow> out
         | SText t \<Rightarrow>
             (let tail = chars t;
                  n = partial_marker_tail_length tail
              in if n = 0 then out
                 else butlast out @ text_piece (take (length tail - n) tail))))"

definition parse_assistant_stream :: "string \<Rightarrow> segment list" where
  "parse_assistant_stream src = hold_back (segments_of (chars src))"

fun segment_text :: "segment \<Rightarrow> string" where
  "segment_text (SText t) = t"
| "segment_text (STool _) = []"

definition visible_text :: "string \<Rightarrow> string" where
  "visible_text src = str_trim (concat (map segment_text (parse_assistant_stream src)))"

fun segment_tool :: "segment \<Rightarrow> tool_segment option" where
  "segment_tool (STool g) = Some g"
| "segment_tool (SText _) = None"

definition tool_segments :: "string \<Rightarrow> tool_segment list" where
  "tool_segments src = List.map_filter segment_tool (parse_assistant_stream src)"

subsection \<open>Searching is searching\<close>

lemma literal_index_of_None: "needle \<noteq> [] \<Longrightarrow> literal_index_of needle cs = None \<longleftrightarrow> \<not> sublist needle cs"
proof (induction needle cs rule: literal_index_of.induct)
  case (2 needle x xs)
  have "take (length needle) (x # xs) = needle \<longleftrightarrow> prefix needle (x # xs)"
    by (metis append_eq_conv_conj prefix_def take_is_prefix)
  with 2 show ?case by (simp add: sublist_Cons_right)
qed simp

lemma literal_index_of_Some:
  "literal_index_of needle cs = Some i \<Longrightarrow>
     cs = take i cs @ needle @ drop (i + length needle) cs \<and> \<not> sublist needle (take i cs)"
proof (induction needle cs arbitrary: i rule: literal_index_of.induct)
  case (2 needle x xs)
  show ?case
  proof (cases "take (length needle) (x # xs) = needle")
    case True
    then have "i = 0" using "2.prems" by (simp split: if_splits)
    moreover have "x # xs = needle @ drop (length needle) (x # xs)"
      using True by (metis append_take_drop_id)
    moreover have "needle \<noteq> []" using "2.prems" by (auto split: if_splits)
    ultimately show ?thesis by simp
  next
    case False
    then obtain j where j: "literal_index_of needle xs = Some j" "i = Suc j" "needle \<noteq> []"
      using "2.prems" by (auto split: if_splits)
    then have IH: "xs = take j xs @ needle @ drop (j + length needle) xs" "\<not> sublist needle (take j xs)"
      using "2.IH" False by blast+
    have "\<not> prefix needle (take i (x # xs))"
    proof
      assume "prefix needle (take i (x # xs))"
      then have "prefix needle (x # xs)" by (metis prefix_order.trans take_is_prefix)
      with False show False by (metis append_eq_conv_conj prefix_def)
    qed
    with IH j show ?thesis by (simp add: sublist_Cons_right)
  qed
qed simp

lemma no_marker_before:
  assumes "earliest_marker cs = Some (i, n, e)" and "(s', e') \<in> set MARKERS"
  shows "\<not> sublist (chars s') (take i cs)"
proof (cases "literal_index_of (chars s') cs")
  case None
  then have "\<not> sublist (chars s') cs" using literal_index_of_None chars_MARKERS assms(2) by blast
  then show ?thesis using sublist_order.order.trans [OF _ sublist_take] by blast
next
  case (Some j)
  then have "i \<le> j" using earliest_marker_found [of cs] assms by (auto simp: assms(1))
  then have "take i cs = take i (take j cs)" by simp
  then have "sublist (take i cs) (take j cs)" by (metis sublist_take)
  moreover have "\<not> sublist (chars s') (take j cs)" using literal_index_of_Some [OF Some] by blast
  ultimately show ?thesis using sublist_order.order.trans by blast
qed

lemma no_marker_at_all:
  assumes "earliest_marker cs = None" and "(s', e') \<in> set MARKERS"
  shows "\<not> sublist (chars s') cs"
  using earliest_marker_found [of cs] assms literal_index_of_None [of "chars s'" cs]
    chars_MARKERS [of s' e'] by auto

subsection \<open>The parse spells the text\<close>

text \<open>Scalars as \<open>chars\<close> gives them.\<close>

definition scalars :: "string list \<Rightarrow> bool" where
  "scalars cs \<longleftrightarrow> chars (concat cs) = cs"

lemma scalars_chars [simp]: "scalars (chars s)"
  by (simp add: scalars_def)

lemma scalars_take: "scalars cs \<Longrightarrow> scalars (take n cs)"
  unfolding scalars_def by (metis chars_concat_take)

lemma scalars_Cons: "scalars (c # cs) \<Longrightarrow> scalars cs"
proof -
  assume *: "scalars (c # cs)"
  show ?thesis
  proof (cases "c @ concat cs")
    case Nil
    with * show ?thesis by (simp add: scalars_def)
  next
    case (Cons x xs)
    with * have "chars (dropWhile is_cont xs) = cs" by (simp add: scalars_def)
    then show ?thesis by (metis scalars_chars)
  qed
qed

lemma scalars_drop: "scalars cs \<Longrightarrow> scalars (drop n cs)"
proof (induction n arbitrary: cs)
  case (Suc n)
  then show ?case by (cases cs) (auto dest: scalars_Cons)
qed simp

text \<open>The segments of a parse, and the text they were read from: prose without a start marker, and
  blocks between the markers of one family whose body does not hold the end marker.\<close>

fun spells :: "segment list \<Rightarrow> string list \<Rightarrow> bool" where
  "spells [] cs \<longleftrightarrow> cs = []"
| "spells (SText t # segs) cs \<longleftrightarrow>
     t \<noteq> [] \<and> list_all (\<lambda>(s, _). \<not> sublist (chars s) (chars t)) MARKERS
     \<and> (\<exists>r. cs = chars t @ r \<and> spells segs r)"
| "spells (STool g # segs) cs \<longleftrightarrow>
     (\<exists>(s, e) \<in> set MARKERS.
        \<not> sublist (chars e) (chars (tg_raw g))
        \<and> (if tg_complete g then \<exists>r. cs = chars s @ chars (tg_raw g) @ chars e @ r \<and> spells segs r
           else segs = [] \<and> cs = chars s @ chars (tg_raw g)))"

lemma scalars_eq: "scalars cs \<Longrightarrow> chars (concat cs) = cs"
  by (simp add: scalars_def)

lemma text_piece_spells:
  assumes "scalars cs" and "\<And>s e. (s, e) \<in> set MARKERS \<Longrightarrow> \<not> sublist (chars s) cs"
    and "spells segs r"
  shows "spells (text_piece cs @ segs) (cs @ r)"
proof (cases "cs = []")
  case False
  then have "concat cs \<noteq> []" using scalars_eq [OF assms(1)] by fastforce
  with False assms show ?thesis by (auto simp: text_piece_def scalars_eq list_all_iff)
qed (use assms in \<open>simp add: text_piece_def\<close>)

lemma segments_of_spells: "scalars cs \<Longrightarrow> spells (segments_of cs) cs"
proof (induction cs rule: segments_of.induct)
  case (1 cs)
  show ?case
  proof (cases "cs = []")
    case True
    then show ?thesis by (simp add: segments_of.simps)
  next
    case ne: False
    show ?thesis
    proof (cases "earliest_marker cs")
      case None
      then have "spells (text_piece cs @ []) (cs @ [])"
        using "1.prems" no_marker_at_all by (intro text_piece_spells) auto
      with None ne show ?thesis by (simp add: segments_of.simps text_piece_def scalars_eq [OF "1.prems"])
    next
      case (Some p)
      obtain i n e where p: "p = (i, n, e)" by (metis prod_cases3)
      define body where "body = drop (i + n) cs"
      obtain s where s: "(s, e) \<in> set MARKERS" "literal_index_of (chars s) cs = Some i" "n = length (chars s)"
        using earliest_marker_SomeD [of cs i n e] Some p by blast
      have cs: "cs = take i cs @ chars s @ body"
        using literal_index_of_Some [OF s(2)] s(3) by (simp add: body_def)
      have body: "scalars body" unfolding body_def using "1.prems" by (rule scalars_drop)
      have rest: "spells (case literal_index_of (chars e) body of
            None \<Rightarrow> [tool_block body False]
          | Some k \<Rightarrow> tool_block (take k body) True # segments_of (drop (k + length (chars e)) body))
          (chars s @ body)"
      proof (cases "literal_index_of (chars e) body")
        case None
        then have "\<not> sublist (chars e) body"
          using literal_index_of_None chars_MARKERS [OF s(1)] by blast
        with None s(1) show ?thesis by (auto simp: tool_block_def scalars_eq [OF body])
      next
        case k: (Some k)
        have "spells (segments_of (drop (k + length (chars e)) body)) (drop (k + length (chars e)) body)"
          by (rule "1.IH" [OF ne Some _ _ body_def k]) (simp_all add: p body scalars_drop)
        with k s(1) literal_index_of_Some [OF k] show ?thesis
          by (auto simp: tool_block_def scalars_eq [OF scalars_take [OF body]])
      qed
      have "spells (text_piece (take i cs) @ (case literal_index_of (chars e) body of
            None \<Rightarrow> [tool_block body False]
          | Some k \<Rightarrow> tool_block (take k body) True # segments_of (drop (k + length (chars e)) body)))
          (take i cs @ chars s @ body)"
        using "1.prems" no_marker_before [of cs i n e] Some p rest
        by (intro text_piece_spells scalars_take) auto
      moreover have "segments_of cs = text_piece (take i cs) @ (case literal_index_of (chars e) body of
            None \<Rightarrow> [tool_block body False]
          | Some k \<Rightarrow> tool_block (take k body) True # segments_of (drop (k + length (chars e)) body))"
        using ne Some p unfolding body_def by (subst segments_of.simps) (simp add: Let_def)
      ultimately show ?thesis using cs by simp
    qed
  qed
qed

text \<open>What is held back begins a marker.\<close>

lemma longest_tail_spec:
  assumes "longest_tail token cs m = n" and "n \<noteq> 0"
  shows "2 \<le> n \<and> n \<le> m \<and> n \<le> length cs \<and> drop (length cs - n) cs = take n token"
  using assms by (induction token cs m rule: longest_tail.induct) (auto split: if_splits)

lemma partial_marker_tail_length_spec:
  assumes "partial_marker_tail_length cs \<noteq> 0"
  shows "\<exists>(s, e) \<in> set MARKERS. strict_prefix (drop (length cs - partial_marker_tail_length cs) cs) (chars s)
    \<and> 2 \<le> partial_marker_tail_length cs \<and> partial_marker_tail_length cs \<le> length cs"
proof -
  let ?ok = "\<lambda>n. n = 0 \<or> (\<exists>(s, e) \<in> set MARKERS. strict_prefix (drop (length cs - n) cs) (chars s) \<and> 2 \<le> n \<and> n \<le> length cs)"
  let ?f = "\<lambda>(s, _) best. max best (longest_tail (chars s) cs (min (length (chars s) - 1) (length cs)))"
  have step: "?ok (longest_tail (chars s) cs (min (length (chars s) - 1) (length cs)))"
    if "(s, e) \<in> set MARKERS" for s e
  proof (cases "longest_tail (chars s) cs (min (length (chars s) - 1) (length cs)) = 0")
    case False
    define n where "n = longest_tail (chars s) cs (min (length (chars s) - 1) (length cs))"
    have n: "2 \<le> n" "n \<le> length (chars s) - 1" "n \<le> length cs"
        "drop (length cs - n) cs = take n (chars s)"
      using longest_tail_spec [OF n_def [symmetric]] False by (simp_all add: n_def)
    then have "strict_prefix (take n (chars s)) (chars s)"
      by (metis One_nat_def Suc_1 Suc_le_lessD Suc_pred diff_le_self le_less_trans length_take less_le_trans
          min.absorb2 not_less_eq_eq order_refl strict_prefix_def take_is_prefix zero_less_diff le_zero_eq diff_is_0_eq' nat_le_linear)
    with n that show ?thesis unfolding n_def [symmetric] by auto
  qed simp
  have "?ok (fold ?f ms b)" if "set ms \<subseteq> set MARKERS" and "?ok b" for ms b
    using that
  proof (induction ms arbitrary: b)
    case (Cons m ms)
    obtain s e where m: "m = (s, e)" by force
    with Cons.prems have "?ok (longest_tail (chars s) cs (min (length (chars s) - 1) (length cs)))"
      by (intro step [of s e]) simp
    then have "?ok (?f m b)"
      using Cons.prems(2) m by (simp only: case_prod_conv) (metis max_absorb1 max_absorb2 nle_le)
    then show ?case using Cons by simp
  qed simp
  from this [of MARKERS 0] assms show ?thesis by (simp add: partial_marker_tail_length_def)
qed

subsection \<open>Properties\<close>

text \<open>(C21) The parse of an answer loses nothing but a marker that has only begun: the segments spell the
  text, prose between the markers without a start marker in it and each block between the two markers
  of one family up to the first end marker (the last block may lack it); what is held back at the end
  is two or more characters that begin a marker and do not finish it, and nothing else is changed.\<close>

theorem parse_spells_the_text:
  "\<exists>segs held. spells segs (chars src)
     \<and> (held = [] \<or> 2 \<le> length held \<and> (\<exists>(s, e) \<in> set MARKERS. strict_prefix held (chars s)))
     \<and> (held = [] \<and> parse_assistant_stream src = segs
        \<or> (\<exists>before shown. segs = before @ [SText (concat (shown @ held))]
             \<and> parse_assistant_stream src = before @ text_piece shown))"
proof -
  let ?segs = "segments_of (chars src)"
  have spells: "spells ?segs (chars src)" by (simp add: segments_of_spells)
  show ?thesis
  proof (cases "hold_back ?segs = ?segs")
    case True
    with spells show ?thesis
      by (intro exI [of _ ?segs] exI [of _ "[]"]) (simp add: parse_assistant_stream_def)
  next
    case False
    then obtain t where t: "?segs \<noteq> []" "last ?segs = SText t" "partial_marker_tail_length (chars t) \<noteq> 0"
      by (auto simp: hold_back_def Let_def split: if_splits segment.splits)
    define n where "n = partial_marker_tail_length (chars t)"
    let ?shown = "take (length (chars t) - n) (chars t)"
    let ?held = "drop (length (chars t) - n) (chars t)"
    have held: "\<exists>(s, e) \<in> set MARKERS. strict_prefix ?held (chars s)" "2 \<le> n" "n \<le> length (chars t)"
      using partial_marker_tail_length_spec [of "chars t"] t(3) unfolding n_def by auto
    have "?segs = butlast ?segs @ [SText (concat (?shown @ ?held))]"
      using t(1,2) by (metis append_butlast_last_id append_take_drop_id concat_chars)
    moreover have "parse_assistant_stream src = butlast ?segs @ text_piece ?shown"
      using t by (simp add: parse_assistant_stream_def hold_back_def Let_def n_def)
    moreover have "2 \<le> length ?held" using held(2,3) by simp
    ultimately show ?thesis
      using spells held(1) by (intro exI [of _ ?segs] exI [of _ ?held]) blast
  qed
qed

text \<open>What the consumer of a stream shows: the prose of each chunk, parsed by itself.\<close>

definition chunk_text_shown :: "string \<Rightarrow> string" where
  "chunk_text_shown chunk = concat (map segment_text (parse_assistant_stream chunk))"

lemma plain_prose:
  assumes "earliest_marker (chars src) = None" and "src \<noteq> []"
  shows "parse_assistant_stream src
    = text_piece (take (length (chars src) - partial_marker_tail_length (chars src)) (chars src))"
  using assms by (simp add: parse_assistant_stream_def segments_of.simps hold_back_def text_piece_def Let_def)

end
