(* ===== verification/Tool_Registry.thy ===== *)
theory Tool_Registry
  imports Json
begin

text \<open>
  The registry of sandboxed tools (\<open>tool_registry.rs\<close>) and the gate the gateway puts before the ones
  that write or send data out (\<open>MUTATING_TOOLS\<close>, \<open>gateway_tool_refusal\<close> in \<open>gateway.rs\<close>).
\<close>

subsection \<open>The registry\<close>

record tool_spec =
  to_name :: string
  to_description :: string
  to_properties :: json
  to_required :: "string list"

definition read_file_tool :: tool_spec where
  "read_file_tool =
     \<lparr>to_name = ''read_file'',
      to_description =
      ''Read a UTF-8 text file from the workspace. Use offset/limit to read part of a large file instead of the whole thing.'',
      to_properties = jobj [(''path'', jobj [(''type'', JString ''string''), (''description'',
      JString
      ''Workspace-relative path, e.g. \"src/main.rs\". Cannot be absolute or escape the root.'')]),
      (''offset'', jobj [(''type'', JString ''number''), (''description'', JString
      ''Optional first line to return, 1-based. Omit to start at the top.'')]), (''limit'', jobj
      [(''type'', JString ''number''), (''description'', JString
      ''Optional number of lines to return. Omit to read to the end.'')])],
      to_required = [''path'']\<rparr>"

definition write_file_tool :: tool_spec where
  "write_file_tool =
     \<lparr>to_name = ''write_file'',
      to_description =
      ''Write UTF-8 text to a workspace file, creating parent directories. Overwrites; prefer edit_file to change part of a file you have read.'',
      to_properties = jobj [(''path'', jobj [(''type'', JString ''string''), (''description'',
      JString ''Workspace-relative path.'')]), (''content'', jobj [(''type'', JString ''string''),
      (''description'', JString ''Full text content to write.'')])],
      to_required = [''path'', ''content'']\<rparr>"

definition list_dir_tool :: tool_spec where
  "list_dir_tool =
     \<lparr>to_name = ''list_dir'',
      to_description =
      ''List the entries of a workspace directory. Defaults to the workspace root.'',
      to_properties = jobj [(''path'', jobj [(''type'', JString ''string''), (''description'',
      JString ''Workspace-relative directory path. Optional; defaults to \".\".'')]),
      (''recursive'', jobj [(''type'', JString ''boolean''), (''description'', JString
      ''Optional. true to include subdirectories instead of just one level.'')])],
      to_required = []\<rparr>"

definition search_files_tool :: tool_spec where
  "search_files_tool =
     \<lparr>to_name = ''search_files'',
      to_description =
      ''Search the workspace for a literal string, returning matching lines as path:line: text. Case-insensitive by default.'',
      to_properties = jobj [(''pattern'', jobj [(''type'', JString ''string''), (''description'',
      JString ''Literal text to find. Not a regex.'')]), (''path'', jobj [(''type'', JString
      ''string''), (''description'', JString
      ''Optional workspace-relative file or directory to search. Defaults to \".\".'')]),
      (''case_sensitive'', jobj [(''type'', JString ''boolean''), (''description'', JString
      ''Optional. true to match case exactly (default is case-insensitive).'')])],
      to_required = [''pattern'']\<rparr>"

definition file_info_tool :: tool_spec where
  "file_info_tool =
     \<lparr>to_name = ''file_info'',
      to_description =
      ''Report whether a workspace path exists: kind, size, last-modified. A missing path is a normal result, not an error.'',
      to_properties = jobj [(''path'', jobj [(''type'', JString ''string''), (''description'',
      JString ''Workspace-relative path.'')])],
      to_required = [''path'']\<rparr>"

definition edit_file_tool :: tool_spec where
  "edit_file_tool =
     \<lparr>to_name = ''edit_file'',
      to_description =
      ''Replace an exact snippet in a file. It must match exactly, indentation included, and occur once unless replace_all is true.'',
      to_properties = jobj [(''path'', jobj [(''type'', JString ''string''), (''description'',
      JString ''Workspace-relative path of the file to edit.'')]), (''old'', jobj [(''type'',
      JString ''string''), (''description'', JString
      ''Exact text to find. Quote enough surrounding lines to make it unique.'')]), (''new'', jobj
      [(''type'', JString ''string''), (''description'', JString
      ''Replacement text. May be empty to delete the snippet.'')]), (''replace_all'', jobj
      [(''type'', JString ''boolean''), (''description'', JString
      ''Optional. true to replace every occurrence instead of refusing an ambiguous match.'')])],
      to_required = [''path'', ''old'', ''new'']\<rparr>"

definition mkdir_tool :: tool_spec where
  "mkdir_tool =
     \<lparr>to_name = ''mkdir'',
      to_description =
      ''Create a directory inside the workspace, including any missing parents.'',
      to_properties = jobj [(''path'', jobj [(''type'', JString ''string''), (''description'',
      JString ''Workspace-relative directory path.'')])],
      to_required = [''path'']\<rparr>"

definition run_command_tool :: tool_spec where
  "run_command_tool =
     \<lparr>to_name = ''run_command'',
      to_description =
      ''Run one allowlisted command in the workspace. No shell, so ; | && are inert literals. git may clone, fetch, pull and push; gh is gated.'',
      to_properties = jobj [(''program'', jobj [(''type'', JString ''string''), (''description'',
      JString
      (''Executable from the allowlist: ls, cat, grep, rg, find, git (listed subcommands only '' @
      [CHR 0xE2] @ [CHR 0x80] @ [CHR 0x94] @
      '' clone/fetch/pull/push included), gh (GitHub: repos, PRs, issues, gists, releases, workflow runs, gh api ''
      @ [CHR 0xE2] @ [CHR 0x80] @ [CHR 0x94] @
      '' gh auth and gh repo delete refused), node, npm, npx, pnpm, python3, make, tar, sed, awk, ''
      @ [CHR 0xE2] @ [CHR 0x80] @ [CHR 0xA6]))]), (''args'', jobj [(''type'', JString ''array''),
      (''items'', jobj [(''type'', JString ''string'')]), (''description'', JString
      ''Positional arguments, each a literal string.'')]), (''timeout_ms'', jobj [(''type'',
      JString ''number''), (''description'', JString
      ''Optional wall-clock timeout in ms (enforced upper bound is 60 000).'')])],
      to_required = [''program'']\<rparr>"

definition glob_tool :: tool_spec where
  "glob_tool =
     \<lparr>to_name = ''glob'',
      to_description =
      ''List workspace paths matching a glob pattern: ** spans directories, * and ? stay in one segment. Capped at 500 entries.'',
      to_properties = jobj [(''pattern'', jobj [(''type'', JString ''string''), (''description'',
      JString
      ''Glob relative to the workspace root, e.g. \"src/**/*.rs\". May not contain \"..\".'')]),
      (''path'', jobj [(''type'', JString ''string''), (''description'', JString
      ''Optional workspace-relative base directory to match within. Defaults to \".\".'')])],
      to_required = [''pattern'']\<rparr>"

definition read_document_tool :: tool_spec where
  "read_document_tool =
     \<lparr>to_name = ''read_document'',
      to_description = ''Read text from a PDF or Word (.docx) document in the workspace '' @ [CHR
      0xE2] @ [CHR 0x80] @ [CHR 0x94] @
      '' the binary documents read_file cannot serve. Text is capped.'',
      to_properties = jobj [(''path'', jobj [(''type'', JString ''string''), (''description'',
      JString ''Workspace-relative path of the .pdf or .docx.'')])],
      to_required = [''path'']\<rparr>"

definition read_image_tool :: tool_spec where
  "read_image_tool =
     \<lparr>to_name = ''read_image'',
      to_description =
      ''Read a workspace image (png/jpg/gif/webp, 4 MB cap) so a vision-capable model can see it in the next turn.'',
      to_properties = jobj [(''path'', jobj [(''type'', JString ''string''), (''description'',
      JString ''Workspace-relative path of the image.'')])],
      to_required = [''path'']\<rparr>"

definition http_request_tool :: tool_spec where
  "http_request_tool =
     \<lparr>to_name = ''http_request'',
      to_description =
      ''Run one HTTP request against a public URL: method, headers, body; returns the response. It sends data out, so it is always confirmed; private hosts are refused.'',
      to_properties = jobj [(''url'', jobj [(''type'', JString ''string''), (''description'',
      JString ''Public http(s) URL. Redirects are reported, not followed.'')]), (''method'', jobj
      [(''type'', JString ''string''), (''description'', JString
      ''Optional: GET (default), POST, PUT, PATCH, DELETE, HEAD, OPTIONS.'')]), (''headers'', jobj
      [(''type'', JString ''object''), (''description'', JString
      ''Optional request headers as name/value strings.'')]), (''body'', jobj [(''type'', JString
      ''string''), (''description'', JString ''Optional request body (POST/PUT/PATCH only).'')])],
      to_required = [''url'']\<rparr>"

definition apply_patch_tool :: tool_spec where
  "apply_patch_tool =
     \<lparr>to_name = ''apply_patch'',
      to_description =
      ''Write a unified diff (multi-hunk, multi-file) into workspace files: context must match exactly; a mismatch fails the whole patch.'',
      to_properties = jobj [(''patch'', jobj [(''type'', JString ''string''), (''description'',
      JString
      ''The full unified diff, ---/+++ and @@ hunks included. New files start from /dev/null.'')])],
      to_required = [''patch'']\<rparr>"

definition todo_write_tool :: tool_spec where
  "todo_write_tool =
     \<lparr>to_name = ''todo_write'',
      to_description =
      ''Write the task list for the current run: replace it wholesale with every task and its status. Keep at most one task in_progress.'',
      to_properties = jobj [(''todos'', jobj [(''type'', JString ''array''), (''description'',
      JString ''The full task list, in order.''), (''items'', jobj [(''type'', JString
      ''object''), (''properties'', jobj [(''content'', jobj [(''type'', JString ''string''),
      (''description'', JString ''The task, one sentence.'')]), (''status'', jobj [(''type'',
      JString ''string''), (''enum'', JArray [JString ''pending'', JString ''in_progress'',
      JString ''completed''])])]), (''required'', JArray [JString ''content'', JString
      ''status'']), (''additionalProperties'', JBool False)])])],
      to_required = [''todos'']\<rparr>"

definition web_fetch_tool :: tool_spec where
  "web_fetch_tool =
     \<lparr>to_name = ''web_fetch'',
      to_description =
      ''Read a public web page from the internet: fetched over http(s), HTML stripped, text capped at 32 KB. Private, loopback and non-http(s) URLs are refused.'',
      to_properties = jobj [(''url'', jobj [(''type'', JString ''string''), (''description'',
      JString (''The page's public http(s) URL. Redirects are reported, not followed '' @ [CHR
      0xE2] @ [CHR 0x80] @ [CHR 0x94] @ '' call again on the Location.''))])],
      to_required = [''url'']\<rparr>"

definition web_search_tool :: tool_spec where
  "web_search_tool =
     \<lparr>to_name = ''web_search'',
      to_description =
      ''Search the public web (keyless, automatic fallback between backends) and get the top results: title, URL and snippet. Follow up with web_fetch to read a result.'',
      to_properties = jobj [(''query'', jobj [(''type'', JString ''string''), (''description'',
      JString ''What to search for, in the user's terms.'')])],
      to_required = [''query'']\<rparr>"

definition agent_tools :: "tool_spec list" where
  "agent_tools =
     [read_file_tool,
      write_file_tool,
      list_dir_tool,
      search_files_tool,
      file_info_tool,
      edit_file_tool,
      mkdir_tool,
      run_command_tool,
      glob_tool,
      read_document_tool,
      read_image_tool,
      http_request_tool,
      apply_patch_tool,
      todo_write_tool,
      web_fetch_tool,
      web_search_tool]"

definition is_registered_tool :: "string \<Rightarrow> bool" where
  "is_registered_tool name \<longleftrightarrow> list_ex (\<lambda>t. to_name t = name) agent_tools"

subsection \<open>The gate\<close>

definition MUTATING_TOOLS :: "string list" where
  "MUTATING_TOOLS =
     [''write_file'', ''edit_file'', ''mkdir'', ''run_command'', ''http_request'', ''apply_patch'',
      ''web_fetch'', ''web_search'']"

definition gateway_tool_refusal :: "string \<Rightarrow> bool \<Rightarrow> string option" where
  "gateway_tool_refusal tool mutation_enabled =
     (if tool \<in> set MUTATING_TOOLS \<and> \<not> mutation_enabled
      then Some (''\"'' @ tool @ ''\" is disabled on the gateway. The gateway executes tools with no user ''
        @ ''confirmation, so tools that write or send data out are off by default. Enable it in ''
        @ ''Gateway settings, or use the Assistant, which asks before every call.'')
      else None)"

definition gateway_tool_set :: "bool \<Rightarrow> tool_spec list" where
  "gateway_tool_set mutation_enabled =
     filter (\<lambda>t. mutation_enabled \<or> to_name t \<notin> set MUTATING_TOOLS) agent_tools"

definition tool_declaration :: "tool_spec \<Rightarrow> json" where
  "tool_declaration t =
     jobj [(''type'', JString ''function''),
       (''function'', jobj [(''name'', JString (to_name t)),
          (''description'', JString (to_description t)),
          (''parameters'', jobj [(''type'', JString ''object''), (''properties'', to_properties t),
             (''required'', JArray (map JString (to_required t))),
             (''additionalProperties'', JBool False)])])]"

definition registry_to_openai :: "tool_spec list \<Rightarrow> json option" where
  "registry_to_openai registry =
     (if registry = [] then None else Some (JArray (map tool_declaration registry)))"

subsection \<open>The invariants of the registry\<close>

lemma tool_names:
  "map to_name agent_tools =
     [''read_file'', ''write_file'', ''list_dir'', ''search_files'', ''file_info'', ''edit_file'',
      ''mkdir'', ''run_command'', ''glob'', ''read_document'', ''read_image'', ''http_request'',
      ''apply_patch'', ''todo_write'', ''web_fetch'', ''web_search'']"
  by code_simp

definition satisfiable :: "tool_spec \<Rightarrow> bool" where
  "satisfiable t \<longleftrightarrow> list_all (\<lambda>k. json_get (to_properties t) k \<noteq> None) (to_required t)"

lemma tools_satisfiable: "list_all satisfiable agent_tools"
  by code_simp

lemma registered_iff: "is_registered_tool name \<longleftrightarrow> name \<in> set (map to_name agent_tools)"
  by (auto simp: is_registered_tool_def list_ex_iff)

lemma registry_nonempty: "gateway_tool_set mutation_enabled \<noteq> []"
proof -
  have "hd agent_tools \<in> set (gateway_tool_set mutation_enabled)"
    by (simp add: gateway_tool_set_def agent_tools_def read_file_tool_def MUTATING_TOOLS_def)
  then show ?thesis by auto
qed

subsection \<open>Properties\<close>

definition declaration_name :: "json \<Rightarrow> string option" where
  "declaration_name j = Option.bind (json_get j ''function'') (\<lambda>f. get_str f ''name'')"

lemma declaration_name_tool [simp]: "declaration_name (tool_declaration t) = Some (to_name t)"
  by (simp add: declaration_name_def tool_declaration_def jobj_def get_str_def)

text \<open>The gateway advertises exactly the registered tools it would not refuse: every tool it names is
  registered under one name, asks only for properties its schema has, and passes the gate. With
  mutation off the tools that write or send data out, reading the web included, are registered, not
  advertised and refused; with mutation on nothing is refused. The declarations sent name the tools
  of the set in its order.\<close>

theorem advertised_tools_pass_the_gate:
  "distinct (map to_name agent_tools)
   \<and> list_all satisfiable agent_tools
   \<and> set (map to_name (gateway_tool_set enabled))
       = {name. is_registered_tool name \<and> gateway_tool_refusal name enabled = None}
   \<and> list_all is_registered_tool MUTATING_TOOLS
   \<and> list_all (\<lambda>name. (gateway_tool_refusal name enabled = None) = enabled) MUTATING_TOOLS
   \<and> (\<exists>decls. registry_to_openai (gateway_tool_set enabled) = Some (JArray decls)
        \<and> map declaration_name decls = map (Some \<circ> to_name) (gateway_tool_set enabled))"
proof -
  have "distinct (map to_name agent_tools)" unfolding tool_names by code_simp
  moreover have "set (map to_name (gateway_tool_set enabled))
      = {name. is_registered_tool name \<and> gateway_tool_refusal name enabled = None}"
    by (auto simp: gateway_tool_set_def registered_iff gateway_tool_refusal_def)
  moreover have "list_all is_registered_tool MUTATING_TOOLS"
    by (simp add: registered_iff tool_names MUTATING_TOOLS_def)
  moreover have "list_all (\<lambda>name. (gateway_tool_refusal name enabled = None) = enabled) MUTATING_TOOLS"
    by (simp add: list_all_iff gateway_tool_refusal_def)
  moreover have "registry_to_openai (gateway_tool_set enabled)
      = Some (JArray (map tool_declaration (gateway_tool_set enabled)))"
    by (simp add: registry_to_openai_def registry_nonempty)
  moreover have "map declaration_name (map tool_declaration (gateway_tool_set enabled))
      = map (Some \<circ> to_name) (gateway_tool_set enabled)"
    by simp
  ultimately show ?thesis using tools_satisfiable by blast
qed

end
