(* ===== verification/Router_Bridge.thy ===== *)
theory Router_Bridge
  imports Router_Laws Bridge_Policy Assistant_Stream Tool_Registry Manifest
begin

text \<open>
  The bridge that answers a gateway request with the router (\<open>router_bridge.rs\<close>; the messages are
  those of \<open>gateway.rs\<close>): the loop of turns in which a model may call the gateway's own tools. A
  reply goes to a channel; the replies of a request are the list of what was sent. That nobody
  listens any more raises the request's cancel flag, one of the ways the flag of the world can be
  raised between two reads. The sandbox (\<open>tool_run\<close>) is a function of the world.
\<close>

subsection \<open>Messages and the host\<close>

datatype bridge_msg =
    BDelta string
  | BLiveness
  | BReasoning string
  | BRetry retry_notice
  | BToolCalls json
  | BResult json
  | BUsage nat nat
  | BServed string string string "json list"
  | BFinish string
  | BDone
  | BError nat string "nat option"

record bridge_request =
  bq_kind :: string
  bq_body :: json
  bq_headers :: "string \<Rightarrow> string option"
  bq_app_key_id :: "string option"

text \<open>What a run of the sandbox ended with: output, an error or none, or a task that did not join.\<close>

datatype tool_run_end = ToolOutput string | ToolError "string option" | ToolJoin string

text \<open>The settings behind atomics are read where they are used, so they are functions of the world;
  the last fields are conversions of the standard library and the clock in seconds.\<close>

record 'w bridge_host =
  bh_settings :: "'w \<Rightarrow> router_settings"
  bh_tools_enabled :: "'w \<Rightarrow> bool"
  bh_mutation_enabled :: "'w \<Rightarrow> bool"
  bh_workspace_root :: "'w \<Rightarrow> string option"
  bh_tool_run :: "string \<Rightarrow> json \<Rightarrow> string \<Rightarrow> 'w \<Rightarrow> tool_run_end \<times> 'w"
  bh_as_f64 :: "jnum \<Rightarrow> rat"
  bh_show_f64 :: "rat \<Rightarrow> string"
  bh_unix_seconds :: "'w \<Rightarrow> nat"

definition LEDGER_SOURCE :: string where
  "LEDGER_SOURCE = ''gateway''"

text \<open>The state of a request; \<open>bs_ran\<close> records the tools that were run
  and the world each was run in.\<close>

record ('w, 's) bridge_state =
  bs_router :: "('w, 's) router_state"
  bs_messages :: "json list"
  bs_replies :: "bridge_msg list"
  bs_gate :: prose_gate
  bs_served :: "(string \<times> string \<times> string) option"
  bs_fallbacks :: "json list"
  bs_seq :: nat
  bs_ran :: "(string \<times> 'w) list"

definition reply :: "bridge_msg \<Rightarrow> ('w, 's) bridge_state \<Rightarrow> ('w, 's) bridge_state" where
  "reply msg st = st\<lparr>bs_replies := bs_replies st @ [msg]\<rparr>"

definition replies :: "bridge_msg list \<Rightarrow> ('w, 's) bridge_state \<Rightarrow> ('w, 's) bridge_state" where
  "replies msgs st = st\<lparr>bs_replies := bs_replies st @ msgs\<rparr>"

abbreviation world_of :: "('w, 's) bridge_state \<Rightarrow> 'w" where
  "world_of st \<equiv> ro_world (bs_router st)"

definition bridge_cancelled ::
  "('a, 'w, 's) model_router \<Rightarrow> ('w, 's) bridge_state \<Rightarrow> bool \<times> ('w, 's) bridge_state" where
  "bridge_cancelled m st =
     (case router_cancelled m (bs_router st) of (b, ro) \<Rightarrow> (b, st\<lparr>bs_router := ro\<rparr>))"

text \<open>A router for this request: the settings of the moment.\<close>

definition request_router ::
  "('a, 'w, 's) model_router \<Rightarrow> 'w bridge_host \<Rightarrow> 'w \<Rightarrow> ('a, 'w, 's) model_router" where
  "request_router m host w = m\<lparr>mo_settings := bh_settings host w\<rparr>"

subsection \<open>One turn\<close>

record turn_state =
  tn_gate :: prose_gate
  tn_collected :: "tool_call list"
  tn_mercury :: "tool_call list"
  tn_text :: string
  tn_finish :: "string option"
  tn_replies :: "bridge_msg list"

definition mercury_call :: "(json \<Rightarrow> string) \<Rightarrow> tool_segment \<Rightarrow> tool_call" where
  "mercury_call render g =
     \<lparr>tc_id = None, tc_name = tg_name g,
      tc_arguments = Some (render (JObject (map (\<lambda>(k, v). (k, JString v)) (tg_params g)))),
      tc_raw = Some (JString (tg_raw g))\<rparr>"

definition complete_calls :: "(json \<Rightarrow> string) \<Rightarrow> segment list \<Rightarrow> tool_call list" where
  "complete_calls render segs =
     map (mercury_call render) (filter tg_complete (List.map_filter segment_tool segs))"

text \<open>\<open>on_chunk\<close>: every chunk is parsed by itself.\<close>

definition on_chunk :: "(json \<Rightarrow> string) \<Rightarrow> string \<Rightarrow> turn_state \<Rightarrow> turn_state" where
  "on_chunk render chunk tn =
     (let segs = parse_assistant_stream chunk;
          visible = concat (map segment_text segs);
          tn1 = tn\<lparr>tn_mercury := tn_mercury tn @ complete_calls render segs\<rparr>
      in if visible = [] then tn1
         else
           (case gate_offer visible (tn_gate tn1) of
              (out, gate) \<Rightarrow>
                tn1\<lparr>tn_text := tn_text tn1 @ visible, tn_gate := gate,
                    tn_replies := tn_replies tn1
                      @ [case out of Some shown \<Rightarrow> BDelta shown | None \<Rightarrow> BLiveness]\<rparr>))"

fun on_delivery :: "(json \<Rightarrow> string) \<Rightarrow> delivery \<Rightarrow> turn_state \<Rightarrow> turn_state" where
  "on_delivery render (DChunk chunk) tn = on_chunk render chunk tn"
| "on_delivery render (DTool call) tn = tn\<lparr>tn_collected := push_tool_call (tn_collected tn) call\<rparr>"
| "on_delivery render (DUsage u) tn =
     tn\<lparr>tn_replies := tn_replies tn @ [BUsage (prompt_tokens u) (completion_tokens u)]\<rparr>"
| "on_delivery render (DFinish reason) tn =
     (case reason of Some r \<Rightarrow> tn\<lparr>tn_finish := Some r\<rparr> | None \<Rightarrow> tn)"
| "on_delivery render (DReason t) tn = tn\<lparr>tn_replies := tn_replies tn @ [BReasoning t]\<rparr>"
| "on_delivery render (DRetry n) tn = tn\<lparr>tn_replies := tn_replies tn @ [BRetry n]\<rparr>"

definition fresh_turn :: "prose_gate \<Rightarrow> turn_state" where
  "fresh_turn gate =
     \<lparr>tn_gate = gate, tn_collected = [], tn_mercury = [], tn_text = [], tn_finish = None,
      tn_replies = []\<rparr>"

text \<open>The client's thinking knob, the canonical spelling first.\<close>

definition client_effort :: "json \<Rightarrow> reasoning_effort option" where
  "client_effort body =
     Option.bind
       (or_else (Option.bind (json_pointer body [''reasoning'', ''effort'']) as_str)
         (get_str body ''reasoning_effort''))
       effort_parse"

record turn_request =
  tq_body :: json
  tq_ownership :: tool_ownership
  tq_tools :: "json option"
  tq_tool_choice :: "json option"
  tq_opts :: call_options

definition turn_text_request ::
  "'w bridge_host \<Rightarrow> turn_request \<Rightarrow> json list \<Rightarrow> 'w \<Rightarrow> text_request" where
  "turn_text_request host tq messages w =
     (let body = tq_body tq in
      \<lparr>tr_model = (case get_str body ''model'' of Some s \<Rightarrow> s | None \<Rightarrow> []),
       tr_messages = messages,
       tr_max_tokens = Option.bind (json_get body ''max_tokens'') as_u64,
       tr_temperature =
         map_option (bh_as_f64 host) (Option.bind (json_get body ''temperature'') as_number),
       tr_reasoning = client_effort body, tr_tools = tq_tools tq, tr_tool_choice = tq_tool_choice tq,
       tr_response_format = json_get body ''response_format'',
       tr_on_tool_call = True, tr_on_usage = True, tr_on_finish = True, tr_on_reasoning = True,
       tr_on_retry = True, tr_max_attempts = None,
       tr_prompt_cache_enabled = st_prompt_cache_enabled (bh_settings host w)\<rparr>)"

subsection \<open>The sandbox turn\<close>

definition run_tool ::
  "(string \<Rightarrow> json option) \<Rightarrow> 'w bridge_host \<Rightarrow> string \<Rightarrow> string option \<Rightarrow> string option \<Rightarrow> 'w \<Rightarrow> string \<times> 'w"
where
  "run_tool parse host name arguments ws_root w =
     (let args = (case arguments of
                    Some raw \<Rightarrow>
                      (if raw \<noteq> [] then (case parse raw of Some j \<Rightarrow> j | None \<Rightarrow> JString raw) else jobj [])
                  | None \<Rightarrow> jobj [])
      in case bh_tool_run host name args (case ws_root of Some r \<Rightarrow> r | None \<Rightarrow> []) w of
           (ToolOutput out, w1) \<Rightarrow> (out, w1)
         | (ToolError (Some e), w1) \<Rightarrow> (e, w1)
         | (ToolError None, w1) \<Rightarrow> (''tool execution failed'', w1)
         | (ToolJoin e, w1) \<Rightarrow> (''Tool execution error: '' @ e, w1))"

definition MERCURY_REFUSAL :: string where
  "MERCURY_REFUSAL =
     ''In-band tool calls are not executed for this client: it did not grant ''
       @ ''host-side tool use. Use the tool interface this client declared, or ''
       @ ''answer without tools.''"

definition unregistered_message :: "string \<Rightarrow> string" where
  "unregistered_message name =
     ''\"'' @ name @ ''\" is not a tool the gateway advertises; it cannot be called from ''
       @ ''inline tool syntax.''"

text \<open>The result of one call, and what was run for it.\<close>

definition call_result ::
  "(string \<Rightarrow> json option) \<Rightarrow> 'w bridge_host \<Rightarrow> string option \<Rightarrow> string option \<Rightarrow> tool_call \<Rightarrow> 'w
     \<Rightarrow> string \<times> (string \<times> 'w) list \<times> 'w" where
  "call_result parse host refusal ws_root call w =
     (let name = (case tc_name call of Some n \<Rightarrow> n | None \<Rightarrow> []) in
      case refusal of
        Some reason \<Rightarrow> (reason, [], w)
      | None \<Rightarrow>
          (if \<not> is_registered_tool name then (unregistered_message name, [], w)
           else
             (case gateway_tool_refusal name (bh_mutation_enabled host w) of
                Some reason \<Rightarrow> (reason, [], w)
              | None \<Rightarrow>
                  (case run_tool parse host name (tc_arguments call) ws_root w of
                     (out, w1) \<Rightarrow> (out, [(name, w)], w1)))))"

definition tool_result_message :: "string \<Rightarrow> string \<Rightarrow> json" where
  "tool_result_message ident txt =
     jobj [(''role'', JString ''tool''), (''content'', JString txt), (''tool_call_id'', JString ident)]"

definition set_world :: "'w \<Rightarrow> ('w, 's) bridge_state \<Rightarrow> ('w, 's) bridge_state" where
  "set_world w st = st\<lparr>bs_router := (bs_router st)\<lparr>ro_world := w\<rparr>\<rparr>"

fun sandbox_results ::
  "('a, 'w, 's) model_router \<Rightarrow> 'w bridge_host \<Rightarrow> string option \<Rightarrow> string option
     \<Rightarrow> (tool_call \<times> string) list \<Rightarrow> ('w, 's) bridge_state \<Rightarrow> ('w, 's) bridge_state" where
  "sandbox_results m host refusal ws_root [] st = st"
| "sandbox_results m host refusal ws_root ((call, ident) # calls) st =
     (case bridge_cancelled m st of
        (True, st1) \<Rightarrow> st1
      | (False, st1) \<Rightarrow>
          (case call_result (sv_parse m) host refusal ws_root call (world_of st1) of
             (txt, used, w) \<Rightarrow>
               sandbox_results m host refusal ws_root calls
                 ((set_world w st1)\<lparr>bs_messages := bs_messages st1 @ [tool_result_message ident txt],
                    bs_ran := bs_ran st1 @ used\<rparr>)))"

definition assistant_turn :: "string \<Rightarrow> wire_tool_call list \<Rightarrow> json" where
  "assistant_turn txt wire =
     jobj [(''role'', JString ''assistant''), (''content'', JString txt),
       (''tool_calls'', JArray (map wire_json wire))]"

definition sandbox_turn ::
  "('a, 'w, 's) model_router \<Rightarrow> 'w bridge_host \<Rightarrow> string \<Rightarrow> tool_call list \<Rightarrow> string option
     \<Rightarrow> ('w, 's) bridge_state \<Rightarrow> ('w, 's) bridge_state" where
  "sandbox_turn m host turn_text calls refusal st =
     (case to_wire_tool_calls calls (bs_seq st) of
        (wire, seq) \<Rightarrow>
          sandbox_results m host refusal (bh_workspace_root host (world_of st))
            (zip calls (map wc_id wire))
            (st\<lparr>bs_seq := seq, bs_messages := bs_messages st @ [assistant_turn turn_text wire]\<rparr>))"

subsection \<open>The loop of turns\<close>

definition served_messages :: "('w, 's) bridge_state \<Rightarrow> bridge_msg list" where
  "served_messages st =
     (case bs_served st of
        Some (provider, model, key) \<Rightarrow> [BServed provider model key (bs_fallbacks st)]
      | None \<Rightarrow> [])"

definition note_served :: "text_success \<Rightarrow> ('w, 's) bridge_state \<Rightarrow> ('w, 's) bridge_state" where
  "note_served s st =
     (let c = sx_candidate s in
      st\<lparr>bs_served := Some (pr_id (c_provider c), mr_native_id (c_model c), ak_label (c_key c)),
         bs_fallbacks := bs_fallbacks st @ (case as_array (chain_value (sx_attempts s)) of
           Some entries \<Rightarrow> entries | None \<Rightarrow> [])\<rparr>)"

definition release_messages :: "prose_gate \<Rightarrow> bridge_msg list" where
  "release_messages gate = (case fst (gate_release gate) of Some shown \<Rightarrow> [BDelta shown] | None \<Rightarrow> [])"

definition finish_messages :: "string option \<Rightarrow> bridge_msg list" where
  "finish_messages reason = (case reason of Some r \<Rightarrow> [BFinish r] | None \<Rightarrow> [])"

definition finish_turn :: "string option \<Rightarrow> ('w, 's) bridge_state \<Rightarrow> ('w, 's) bridge_state" where
  "finish_turn reason st =
     replies (release_messages (bs_gate st) @ finish_messages reason @ served_messages st @ [BDone])
       (st\<lparr>bs_gate := snd (gate_release (bs_gate st))\<rparr>)"

definition pass_through :: "tool_call list \<Rightarrow> ('w, 's) bridge_state \<Rightarrow> ('w, 's) bridge_state" where
  "pass_through collected st =
     (case to_wire_tool_calls collected (bs_seq st) of
        (wire, seq) \<Rightarrow>
          replies ([BToolCalls (JArray (map wire_json wire))] @ served_messages st @ [BDone])
            (st\<lparr>bs_seq := seq\<rparr>))"

text \<open>The turn's view of the deliveries, put back into the state.\<close>

definition after_deliveries ::
  "(json \<Rightarrow> string) \<Rightarrow> delivery list \<Rightarrow> ('w, 's) bridge_state \<Rightarrow> turn_state \<times> ('w, 's) bridge_state" where
  "after_deliveries render ds st =
     (let tn = fold (on_delivery render) ds (fresh_turn (bs_gate st))
      in (tn, replies (tn_replies tn) (st\<lparr>bs_gate := tn_gate tn\<rparr>)))"

text \<open>A turn ends the request, with an error or without one, or another turn follows.\<close>

datatype turn_end = Ended "router_error option" | Again

definition sandbox_mercury ::
  "('a, 'w, 's) model_router \<Rightarrow> 'w bridge_host \<Rightarrow> turn_request \<Rightarrow> turn_state \<Rightarrow> ('w, 's) bridge_state
     \<Rightarrow> ('w, 's) bridge_state" where
  "sandbox_mercury m host tq tn st =
     sandbox_turn m host (tn_text tn) (tn_mercury tn)
       (if tq_ownership tq \<noteq> OwnGateway then Some MERCURY_REFUSAL else None) st"

text \<open>What follows an answer of the router.\<close>

definition act_on_turn ::
  "('a, 'w, 's) model_router \<Rightarrow> 'w bridge_host \<Rightarrow> turn_request \<Rightarrow> turn_state
     \<Rightarrow> router_error + text_success \<Rightarrow> ('w, 's) bridge_state \<Rightarrow> turn_end \<times> ('w, 's) bridge_state" where
  "act_on_turn m host tq tn result st =
     (case result of
        Inl (RText (FCancelled _ _)) \<Rightarrow> (Ended None, st)
      | Inl e \<Rightarrow> (Ended (Some e), st)
      | Inr success \<Rightarrow>
          (let st1 = note_served success st in
           case decide_turn (length (tn_mercury tn)) (length (tn_collected tn)) (tq_ownership tq) of
             FinishTurn \<Rightarrow> (Ended None, finish_turn (tn_finish tn) st1)
           | PassThrough \<Rightarrow> (Ended None, pass_through (tn_collected tn) st1)
           | SandboxMercury \<Rightarrow> (Again, sandbox_mercury m host tq tn st1)
           | SandboxCollected \<Rightarrow>
               (Again, sandbox_turn m host (tn_text tn) (tn_collected tn) None st1)))"

definition run_turn ::
  "('a, 'w, 's) model_router \<Rightarrow> 'w bridge_host \<Rightarrow> turn_request \<Rightarrow> ('w, 's) bridge_state
     \<Rightarrow> (turn_end \<times> ('w, 's) bridge_state) option" where
  "run_turn m host tq st =
     (case bridge_cancelled m st of
        (True, st1) \<Rightarrow> Some (Ended None, st1)
      | (False, st1) \<Rightarrow>
          (case generate_text (request_router m host (world_of st1))
                  (turn_text_request host tq (bs_messages st1) (world_of st1)) (tq_opts tq)
                  ((bs_router st1)\<lparr>ro_log := []\<rparr>) of
             None \<Rightarrow> None
           | Some (result, ro) \<Rightarrow>
               (case after_deliveries (sv_render m) (ro_log ro)
                       (st1\<lparr>bs_gate := gate_discard (bs_gate st1), bs_router := ro\<rparr>) of
                  (tn, st2) \<Rightarrow>
                    (case bridge_cancelled m st2 of
                       (True, st3) \<Rightarrow> Some (Ended None, st3)
                     | (False, st3) \<Rightarrow> Some (act_on_turn m host tq tn result st3)))))"

fun serve_turns ::
  "('a, 'w, 's) model_router \<Rightarrow> 'w bridge_host \<Rightarrow> turn_request \<Rightarrow> nat \<Rightarrow> ('w, 's) bridge_state
     \<Rightarrow> (router_error option \<times> ('w, 's) bridge_state) option" where
  "serve_turns m host tq 0 st = Some (None, finish_turn (Some ''length'') st)"
| "serve_turns m host tq (Suc n) st =
     (case run_turn m host tq st of
        None \<Rightarrow> None
      | Some (Ended err, st1) \<Rightarrow> Some (err, st1)
      | Some (Again, st1) \<Rightarrow> serve_turns m host tq n st1)"

text \<open>What the normalized body asks of the turns.\<close>

definition client_tools :: "json \<Rightarrow> json option" where
  "client_tools body =
     (case get_array body ''tools'' of
        Some (t # ts) \<Rightarrow> Some (JArray (t # ts))
      | _ \<Rightarrow> None)"

definition request_ownership :: "'w bridge_host \<Rightarrow> json \<Rightarrow> 'w \<Rightarrow> tool_ownership" where
  "request_ownership host body w =
     decide_tool_ownership
       (case Option.bind (client_tools body) as_array of Some ts \<Rightarrow> length ts | None \<Rightarrow> 0)
       (bh_tools_enabled host w)"

definition turn_request_of :: "'w bridge_host \<Rightarrow> bridge_request \<Rightarrow> 'w \<Rightarrow> turn_request" where
  "turn_request_of host rq w =
     (let hint = detect_client (bq_headers rq);
          body = nr_body (normalize_gateway_request (bh_show_f64 host) (bq_body rq)
            \<lparr>no_client_hint = Some hint, no_target_provider = None, no_target_model = None,
             no_preserve_developer_role = None, no_preserve_cache_control = None\<rparr>);
          ownership = request_ownership host body w
      in \<lparr>tq_body = body, tq_ownership = ownership,
          tq_tools = (if ownership = OwnGateway
            then registry_to_openai (gateway_tool_set (bh_mutation_enabled host w))
            else client_tools body),
          tq_tool_choice = tool_choice_for ownership (json_get body ''tool_choice''),
          tq_opts = \<lparr>op_source = Some LEDGER_SOURCE, op_app_key_id = bq_app_key_id rq\<rparr>\<rparr>)"

definition first_messages :: "json \<Rightarrow> json list" where
  "first_messages body = (case get_array body ''messages'' of Some ms \<Rightarrow> ms | None \<Rightarrow> [])"

definition serve_text ::
  "('a, 'w, 's) model_router \<Rightarrow> 'w bridge_host \<Rightarrow> bridge_request \<Rightarrow> ('w, 's) bridge_state
     \<Rightarrow> (router_error option \<times> ('w, 's) bridge_state) option" where
  "serve_text m host rq st =
     (let tq = turn_request_of host rq (world_of st)
      in serve_turns m host tq MAX_TOOL_ITERATIONS
           (st\<lparr>bs_messages := first_messages (tq_body tq), bs_gate := new_gate (tq_ownership tq)\<rparr>))"

subsection \<open>Catalogue, images and failures\<close>

definition model_json :: "model_info \<Rightarrow> json" where
  "model_json i =
     jobj [(''id'', JString (mi_id i)), (''object'', JString ''model''),
       (''owned_by'', JString (mi_provider_id i))]"

definition serve_models ::
  "('a, 'w, 's) model_router \<Rightarrow> ('w, 's) bridge_state \<Rightarrow> ('w, 's) bridge_state" where
  "serve_models m st =
     replies [BResult (jobj [(''object'', JString ''list''),
         (''data'', JArray (map model_json (list_models (mo_store m) None)))]), BDone] st"

definition str_or_blank :: "json \<Rightarrow> string \<Rightarrow> string" where
  "str_or_blank j k = (case get_str j k of Some s \<Rightarrow> s | None \<Rightarrow> [])"

definition image_entry :: "image_result \<Rightarrow> json" where
  "image_entry r =
     (case ires_url r of
        Some url \<Rightarrow> jobj [(''url'', JString url)]
      | None \<Rightarrow> jobj [(''b64_json'', JString (case ires_base64 r of Some b \<Rightarrow> b | None \<Rightarrow> []))])"

definition serve_image ::
  "('a, 'w, 's) model_router \<Rightarrow> 'w bridge_host \<Rightarrow> bridge_request \<Rightarrow> ('w, 's) bridge_state
     \<Rightarrow> (router_error option \<times> ('w, 's) bridge_state) option" where
  "serve_image m host rq st =
     (case generate_image (request_router m host (world_of st))
             \<lparr>iq_model = str_or_blank (bq_body rq) ''model'',
              iq_prompt = str_or_blank (bq_body rq) ''prompt''\<rparr>
             \<lparr>op_source = Some LEDGER_SOURCE, op_app_key_id = bq_app_key_id rq\<rparr> (bs_router st) of
        None \<Rightarrow> None
      | Some (Inl e, ro) \<Rightarrow> Some (Some e, st\<lparr>bs_router := ro\<rparr>)
      | Some (Inr r, ro) \<Rightarrow>
          Some (None, replies
            [BResult (jobj [(''created'', JNumber (PosInt (bh_unix_seconds host (ro_world ro)))),
               (''data'', JArray [image_entry r])]), BDone]
            (st\<lparr>bs_router := ro\<rparr>)))"

fun failure_status :: "router_error \<Rightarrow> nat" where
  "failure_status (RNoRoute model modality reason) =
     gateway_status None (router_message (RNoRoute model modality reason))"
| "failure_status (RText (FAllAttemptsFailed f u)) =
     gateway_status_for_attempts (af_chain f) (router_message (RText (FAllAttemptsFailed f u)))"
| "failure_status (RText (FMidStream e c attempts u)) =
     gateway_status_for_attempts attempts (router_message (RText (FMidStream e c attempts u)))"
| "failure_status (RText (FCancelled _ _)) = 502"
| "failure_status (RImage f) = gateway_status_for_attempts (af_chain f) (router_message (RImage f))"
| "failure_status RSystemAiUnavailable = 500"
| "failure_status (RLedger _) = 502"

fun failure_retry_hint :: "router_error \<Rightarrow> nat option" where
  "failure_retry_hint (RText (FAllAttemptsFailed f _)) = retry_after_hint (af_chain f)"
| "failure_retry_hint (RText (FMidStream _ _ attempts _)) = retry_after_hint attempts"
| "failure_retry_hint (RImage f) = retry_after_hint (af_chain f)"
| "failure_retry_hint _ = None"

definition report_failure ::
  "('a, 'w, 's) model_router \<Rightarrow> router_error option \<times> ('w, 's) bridge_state \<Rightarrow> ('w, 's) bridge_state" where
  "report_failure m out =
     (case out of
        (None, st) \<Rightarrow> st
      | (Some e, st) \<Rightarrow>
          (case bridge_cancelled m st of
             (True, st1) \<Rightarrow> st1
           | (False, st1) \<Rightarrow>
               reply (BError (failure_status e) (router_message e) (failure_retry_hint e)) st1))"

definition serve ::
  "('a, 'w, 's) model_router \<Rightarrow> 'w bridge_host \<Rightarrow> bridge_request \<Rightarrow> ('w, 's) bridge_state
     \<Rightarrow> ('w, 's) bridge_state option" where
  "serve m host rq st =
     (case bridge_kind_parse (bq_kind rq) of
        None \<Rightarrow> Some (reply (BError 400 (''unknown bridge kind '' @ bq_kind rq) None) st)
      | Some KChat \<Rightarrow> map_option (report_failure m) (serve_text m host rq st)
      | Some KResponses \<Rightarrow> map_option (report_failure m) (serve_text m host rq st)
      | Some KModels \<Rightarrow> Some (serve_models (request_router m host (world_of st)) st)
      | Some KImage \<Rightarrow> map_option (report_failure m) (serve_image m host rq st))"

subsection \<open>What a turn replies\<close>

fun is_delta :: "bridge_msg \<Rightarrow> bool" where
  "is_delta (BDelta _) = True"
| "is_delta _ = False"

text \<open>What may be sent while an answer is under way; held prose is not.\<close>

fun is_progress :: "bool \<Rightarrow> bridge_msg \<Rightarrow> bool" where
  "is_progress hold (BDelta _) = (\<not> hold)"
| "is_progress hold BLiveness = hold"
| "is_progress hold (BReasoning _) = True"
| "is_progress hold (BRetry _) = True"
| "is_progress hold (BUsage _ _) = True"
| "is_progress hold _ = False"

lemma gate_offer_hold: "gate_offer v g = (out, g') \<Longrightarrow> pg_hold g' = pg_hold g"
  by (auto simp: gate_offer_def split: if_splits)

lemma gate_offer_out: "v \<noteq> [] \<Longrightarrow> gate_offer v g = (out, g') \<Longrightarrow> (out = None) = pg_hold g"
  by (auto simp: gate_offer_def split: if_splits)

lemma on_chunk_keeps:
  "pg_hold (tn_gate (on_chunk render chunk tn)) = pg_hold (tn_gate tn)
   \<and> (\<exists>ms. tn_replies (on_chunk render chunk tn) = tn_replies tn @ ms
        \<and> list_all (is_progress (pg_hold (tn_gate tn))) ms)"
proof -
  let ?v = "concat (map segment_text (parse_assistant_stream chunk))"
  show ?thesis
  proof (cases "?v = []")
    case True
    then show ?thesis by (simp only: on_chunk_def Let_def if_True) simp
  next
    case False
    obtain out g' where g: "gate_offer ?v (tn_gate tn) = (out, g')" by force
    have "list_all (is_progress (pg_hold (tn_gate tn)))
        [case out of Some shown \<Rightarrow> BDelta shown | None \<Rightarrow> BLiveness]"
      using gate_offer_out [OF False g] by (cases out) auto
    then show ?thesis
      using False gate_offer_hold [OF g] g by (simp only: on_chunk_def Let_def if_False) simp
  qed
qed

lemma on_delivery_keeps:
  "pg_hold (tn_gate (on_delivery render d tn)) = pg_hold (tn_gate tn)
   \<and> (\<exists>ms. tn_replies (on_delivery render d tn) = tn_replies tn @ ms
        \<and> list_all (is_progress (pg_hold (tn_gate tn))) ms)"
  by (cases d) (simp_all add: on_chunk_keeps split: option.split)

lemma deliveries_keep:
  "pg_hold (tn_gate (fold (on_delivery render) ds tn)) = pg_hold (tn_gate tn)
   \<and> (\<exists>ms. tn_replies (fold (on_delivery render) ds tn) = tn_replies tn @ ms
        \<and> list_all (is_progress (pg_hold (tn_gate tn))) ms)"
proof (induction ds arbitrary: tn)
  case (Cons d ds)
  obtain ms where 1: "pg_hold (tn_gate (on_delivery render d tn)) = pg_hold (tn_gate tn)"
      "tn_replies (on_delivery render d tn) = tn_replies tn @ ms"
      "list_all (is_progress (pg_hold (tn_gate tn))) ms"
    using on_delivery_keeps by blast
  obtain ms' where 2: "pg_hold (tn_gate (fold (on_delivery render) ds (on_delivery render d tn)))
        = pg_hold (tn_gate tn)"
      "tn_replies (fold (on_delivery render) ds (on_delivery render d tn)) = (tn_replies tn @ ms) @ ms'"
      "list_all (is_progress (pg_hold (tn_gate tn))) ms'"
    using Cons.IH [of "on_delivery render d tn"] unfolding 1(1,2) by blast
  then have "tn_replies (fold (on_delivery render) (d # ds) tn) = tn_replies tn @ (ms @ ms')"
    and "list_all (is_progress (pg_hold (tn_gate tn))) (ms @ ms')"
    using 1(3) by simp_all
  with 2(1) show ?case by (metis fold_simps(2))
qed simp

text \<open>How an answer ends.\<close>

definition is_ending :: "bridge_msg list \<Rightarrow> bool" where
  "is_ending ms \<longleftrightarrow>
     (\<exists>text_ms finish served.
        ms = text_ms @ finish @ served @ [BDone]
        \<and> text_ms \<in> insert [] (range (\<lambda>t. [BDelta t]))
        \<and> finish \<in> insert [] (range (\<lambda>r. [BFinish r]))
        \<and> served \<in> insert [] (range (\<lambda>(p, m, k, f). [BServed p m k f])))
     \<or> (\<exists>calls served.
        ms = BToolCalls (JArray calls) # served @ [BDone]
        \<and> served \<in> insert [] (range (\<lambda>(p, m, k, f). [BServed p m k f])))"

lemma served_messages_shape:
  "served_messages st \<in> insert [] (range (\<lambda>(p, m, k, f). [BServed p m k f]))"
  by (auto simp: served_messages_def image_iff split: option.split)

lemma finish_turn_replies:
  "\<exists>ms. bs_replies (finish_turn reason st) = bs_replies st @ ms \<and> is_ending ms"
proof -
  let ?ms = "release_messages (bs_gate st) @ finish_messages reason @ served_messages st @ [BDone]"
  have "bs_replies (finish_turn reason st) = bs_replies st @ ?ms"
    by (simp add: finish_turn_def replies_def served_messages_def)
  moreover have "release_messages (bs_gate st) \<in> insert [] (range (\<lambda>t. [BDelta t]))"
    by (auto simp: release_messages_def split: option.split)
  moreover have "finish_messages reason \<in> insert [] (range (\<lambda>r. [BFinish r]))"
    by (auto simp: finish_messages_def split: option.split)
  ultimately show ?thesis using served_messages_shape [of st] unfolding is_ending_def by blast
qed

lemma pass_through_replies:
  "\<exists>ms. bs_replies (pass_through collected st) = bs_replies st @ ms \<and> is_ending ms"
proof -
  obtain wire seq where w: "to_wire_tool_calls collected (bs_seq st) = (wire, seq)" by force
  let ?ms = "BToolCalls (JArray (map wire_json wire)) # served_messages st @ [BDone]"
  have "bs_replies (pass_through collected st) = bs_replies st @ ?ms"
    by (simp add: pass_through_def w replies_def served_messages_def)
  then show ?thesis using served_messages_shape [of st] unfolding is_ending_def by blast
qed

text \<open>Parts of the state the sandbox leaves alone.\<close>

lemma bridge_cancelled_keeps:
  assumes "bridge_cancelled m st = (b, st')"
  shows "bs_replies st' = bs_replies st" and "bs_gate st' = bs_gate st"
    and "bs_messages st' = bs_messages st" and "bs_ran st' = bs_ran st"
    and "bs_served st' = bs_served st" and "bs_fallbacks st' = bs_fallbacks st"
  using assms by (auto simp: bridge_cancelled_def split: prod.splits)

lemma sandbox_results_keeps:
  "bs_replies (sandbox_results m host refusal r calls st) = bs_replies st
   \<and> bs_gate (sandbox_results m host refusal r calls st) = bs_gate st"
proof (induction m host refusal r calls st rule: sandbox_results.induct)
  case (2 m host refusal r call ident calls st)
  obtain b st1 where b: "bridge_cancelled m st = (b, st1)" by fastforce
  note kept = bridge_cancelled_keeps [OF b]
  show ?case
  proof (cases b)
    case True
    with b kept show ?thesis by simp
  next
    case False
    obtain out used w where c: "call_result (sv_parse m) host refusal r call (world_of st1) = (out, used, w)"
      by (metis prod_cases3)
    show ?thesis
      using "2.IH" [OF b [symmetric] _ c [symmetric] refl] False b c kept by (simp add: set_world_def)
  qed
qed simp

lemma sandbox_turn_keeps:
  "bs_replies (sandbox_turn m host txt calls refusal st) = bs_replies st
   \<and> bs_gate (sandbox_turn m host txt calls refusal st) = bs_gate st"
  by (auto simp: sandbox_turn_def sandbox_results_keeps split: prod.split)

subsection \<open>The replies of a request\<close>

definition answer_shape :: "bool \<Rightarrow> bridge_msg list \<Rightarrow> bool" where
  "answer_shape hold ms \<longleftrightarrow>
     (\<exists>progress ending. ms = progress @ ending \<and> list_all (is_progress hold) progress
        \<and> (ending = [] \<or> is_ending ending))"

lemma answer_shape_append: "list_all (is_progress hold) ms \<Longrightarrow> answer_shape hold ms' \<Longrightarrow> answer_shape hold (ms @ ms')"
  unfolding answer_shape_def by (metis append_assoc list_all_append)

lemma answer_shape_progress: "list_all (is_progress hold) ms \<Longrightarrow> answer_shape hold ms"
  unfolding answer_shape_def by blast

lemma answer_shape_ending: "is_ending ms \<Longrightarrow> answer_shape hold ms"
  unfolding answer_shape_def by (metis append_Nil list.pred_inject(1))

lemma after_deliveries_keeps:
  assumes "after_deliveries render ds st = (tn, st')"
  shows "pg_hold (bs_gate st') = pg_hold (bs_gate st)
    \<and> (\<exists>ms. bs_replies st' = bs_replies st @ ms \<and> list_all (is_progress (pg_hold (bs_gate st))) ms)"
  using deliveries_keep [of render ds "fresh_turn (bs_gate st)"] assms
  by (auto simp: after_deliveries_def Let_def replies_def fresh_turn_def)

lemma note_served_keeps:
  "bs_replies (note_served s st) = bs_replies st \<and> bs_gate (note_served s st) = bs_gate st"
  by (simp add: note_served_def Let_def)

text \<open>How a turn ends, by cases.\<close>

lemma act_on_turn_cases:
  assumes "act_on_turn m host tq tn result st = (fin, st')"
  obtains (quiet) "st' = st" "fin \<noteq> Again"
  | (finished) s where "st' = finish_turn (tn_finish tn) (note_served s st)" "fin = Ended None"
      "tn_mercury tn = []" "tn_collected tn = []"
  | (passed) s where "st' = pass_through (tn_collected tn) (note_served s st)" "fin = Ended None"
      "tq_ownership tq \<noteq> OwnGateway"
  | (ran_tools) s calls refusal where
      "st' = sandbox_turn m host (tn_text tn) calls refusal (note_served s st)" "fin = Again"
      "tq_ownership tq = OwnGateway \<or> refusal \<noteq> None"
proof (cases result)
  case (Inl e)
  then show ?thesis
    using assms quiet by (auto simp: act_on_turn_def split: router_error.splits text_failure.splits)
next
  case (Inr s)
  show ?thesis
  proof (cases "decide_turn (length (tn_mercury tn)) (length (tn_collected tn)) (tq_ownership tq)")
    case SandboxMercury
    then have "fin = Again" "st' = sandbox_turn m host (tn_text tn) (tn_mercury tn)
        (if tq_ownership tq \<noteq> OwnGateway then Some MERCURY_REFUSAL else None) (note_served s st)"
      using assms Inr by (simp_all add: act_on_turn_def sandbox_mercury_def)
    then show ?thesis by (intro ran_tools) auto
  next
    case SandboxCollected
    then have "fin = Again" "st' = sandbox_turn m host (tn_text tn) (tn_collected tn) None (note_served s st)"
      using assms Inr by (simp_all add: act_on_turn_def)
    moreover have "tq_ownership tq = OwnGateway"
      using SandboxCollected by (auto simp: decide_turn_def split: if_splits)
    ultimately show ?thesis by (intro ran_tools) auto
  next
    case PassThrough
    then show ?thesis
      using assms Inr by (intro passed) (auto simp: act_on_turn_def decide_turn_def split: if_splits)
  next
    case FinishTurn
    then show ?thesis
      using assms Inr by (intro finished) (auto simp: act_on_turn_def decide_turn_def split: if_splits)
  qed
qed

lemma run_turn_cases:
  assumes "run_turn m host tq st = Some (fin, st')"
  obtains (at_once) "bridge_cancelled m st = (True, st')" "fin = Ended None"
  | (turned) st1 result ro tn st2 b st3 where
      "bridge_cancelled m st = (False, st1)"
      "generate_text (request_router m host (world_of st1))
         (turn_text_request host tq (bs_messages st1) (world_of st1)) (tq_opts tq)
         ((bs_router st1)\<lparr>ro_log := []\<rparr>) = Some (result, ro)"
      "after_deliveries (sv_render m) (ro_log ro)
         (st1\<lparr>bs_gate := gate_discard (bs_gate st1), bs_router := ro\<rparr>) = (tn, st2)"
      "bridge_cancelled m st2 = (b, st3)"
      "if b then (fin, st') = (Ended None, st3) else act_on_turn m host tq tn result st3 = (fin, st')"
proof -
  obtain c st1 where c: "bridge_cancelled m st = (c, st1)" by fastforce
  show ?thesis
  proof (cases c)
    case True
    with assms c at_once show ?thesis by (simp add: run_turn_def)
  next
    case False
    with c have c': "bridge_cancelled m st = (False, st1)" by simp
    let ?g = "generate_text (request_router m host (world_of st1))
         (turn_text_request host tq (bs_messages st1) (world_of st1)) (tq_opts tq)
         ((bs_router st1)\<lparr>ro_log := []\<rparr>)"
    obtain result ro where g: "?g = Some (result, ro)"
      using assms c' by (cases ?g) (auto simp: run_turn_def)
    obtain tn st2 where d: "after_deliveries (sv_render m) (ro_log ro)
         (st1\<lparr>bs_gate := gate_discard (bs_gate st1), bs_router := ro\<rparr>) = (tn, st2)" by fastforce
    obtain b st3 where b: "bridge_cancelled m st2 = (b, st3)" by fastforce
    show ?thesis
      using assms by (intro turned [OF c' g d b]) (auto simp: run_turn_def c' g d b split: bool.splits)
  qed
qed

lemma turn_ends_keep_hold:
  "pg_hold (bs_gate (finish_turn reason st)) = pg_hold (bs_gate st)"
  "pg_hold (bs_gate (pass_through calls st)) = pg_hold (bs_gate st)"
  by (simp_all add: finish_turn_def pass_through_def replies_def gate_release_def split: prod.split)

lemma run_turn_replies:
  assumes "run_turn m host tq st = Some (fin, st')"
  shows "pg_hold (bs_gate st') = pg_hold (bs_gate st)
    \<and> (\<exists>ms. bs_replies st' = bs_replies st @ ms
         \<and> (if fin = Ended None then answer_shape (pg_hold (bs_gate st)) ms
            else list_all (is_progress (pg_hold (bs_gate st))) ms))"
  using assms
proof (cases rule: run_turn_cases)
  case at_once
  then show ?thesis
    using bridge_cancelled_keeps [of m st] answer_shape_progress [of _ "[]"] by fastforce
next
  case (turned st1 result ro tn st2 b st3)
  note kept1 = bridge_cancelled_keeps [OF turned(1)] and kept2 = bridge_cancelled_keeps [OF turned(4)]
  obtain ms where ms: "bs_replies st3 = bs_replies st @ ms" "list_all (is_progress (pg_hold (bs_gate st))) ms"
      "pg_hold (bs_gate st3) = pg_hold (bs_gate st)"
    using after_deliveries_keeps [OF turned(3)] kept1(1,2) kept2(1,2) by (auto simp: gate_discard_def)
  show ?thesis
  proof (cases b)
    case True
    with turned(5) ms show ?thesis by (auto intro: answer_shape_progress)
  next
    case False
    with turned(5) have act: "act_on_turn m host tq tn result st3 = (fin, st')" by simp
    then show ?thesis
    proof (cases rule: act_on_turn_cases)
      case quiet
      with ms show ?thesis by (auto intro: answer_shape_progress)
    next
      case (finished s)
      then obtain e where "bs_replies st' = bs_replies st3 @ e" "is_ending e"
        using finish_turn_replies [of "tn_finish tn" "note_served s st3"] by (auto simp: note_served_keeps)
      then have "bs_replies st' = bs_replies st @ (ms @ e)"
        and "answer_shape (pg_hold (bs_gate st)) (ms @ e)"
        using ms(1) answer_shape_append [OF ms(2) answer_shape_ending] by simp_all
      with finished ms(3) show ?thesis by (auto simp: turn_ends_keep_hold note_served_keeps)
    next
      case (passed s)
      then obtain e where "bs_replies st' = bs_replies st3 @ e" "is_ending e"
        using pass_through_replies [of "tn_collected tn" "note_served s st3"] by (auto simp: note_served_keeps)
      then have "bs_replies st' = bs_replies st @ (ms @ e)"
        and "answer_shape (pg_hold (bs_gate st)) (ms @ e)"
        using ms(1) answer_shape_append [OF ms(2) answer_shape_ending] by simp_all
      with passed ms(3) show ?thesis by (auto simp: turn_ends_keep_hold note_served_keeps)
    next
      case (ran_tools s calls refusal)
      with ms show ?thesis by (simp add: sandbox_turn_keeps note_served_keeps)
    qed
  qed
qed

lemma serve_turns_replies:
  assumes "serve_turns m host tq n st = Some (err, st')"
  shows "\<exists>ms. bs_replies st' = bs_replies st @ ms
    \<and> (if err = None then answer_shape (pg_hold (bs_gate st)) ms
       else list_all (is_progress (pg_hold (bs_gate st))) ms)"
  using assms
proof (induction n arbitrary: st)
  case 0
  then show ?case using finish_turn_replies [of "Some ''length''" st] by (auto intro: answer_shape_ending)
next
  case (Suc n)
  then obtain fin st1 where turn: "run_turn m host tq st = Some (fin, st1)"
    by (auto split: option.splits prod.splits)
  obtain ms where ms: "pg_hold (bs_gate st1) = pg_hold (bs_gate st)" "bs_replies st1 = bs_replies st @ ms"
      "if fin = Ended None then answer_shape (pg_hold (bs_gate st)) ms
       else list_all (is_progress (pg_hold (bs_gate st))) ms"
    using run_turn_replies [OF turn] by blast
  show ?case
  proof (cases fin)
    case (Ended e)
    with Suc.prems turn ms show ?thesis by auto
  next
    case Again
    then have "serve_turns m host tq n st1 = Some (err, st')" using Suc.prems turn by simp
    from Suc.IH [OF this] ms Again show ?thesis by (auto intro: answer_shape_append split: if_splits)
  qed
qed

subsection \<open>When a request ends unanswered\<close>

definition never_cancelled :: "('a, 'w, 's) model_router \<Rightarrow> bool" where
  "never_cancelled m \<longleftrightarrow> (\<forall>w. \<not> fst (te_cancelled (mo_text m) w))"

lemma never_cancelled_read:
  assumes "never_cancelled m"
  shows "\<not> fst (read_cancelled (mo_text m) ts)" and "\<not> fst (bridge_cancelled m st)"
    and "\<not> fst (router_cancelled m ro)"
  using assms
  by (auto simp: never_cancelled_def read_cancelled_def bridge_cancelled_def router_cancelled_def
      split: prod.splits) (metis fst_conv)+

lemma after_failure_not_cancelled:
  assumes "\<not> fst (read_cancelled env st)" and "after_failure parse env args started c r e d st = (res, st')"
  shows "res \<noteq> Some ECancelled"
  using assms
  by (auto simp: after_failure_def Let_def attempt_disposition_def split: prod.splits if_splits
      disposition.splits)

lemma text_body_not_cancelled:
  assumes nc: "\<And>ts. \<not> fst (read_cancelled env ts)"
    and "text_body parse env args started c r st = (res, st')"
  shows "res \<noteq> Some ECancelled"
proof -
  have dial: "fst (dial_candidate parse env args started c r a ts) \<noteq> Some ECancelled" for a ts
    using after_failure_not_cancelled [OF nc]
    by (auto simp: dial_candidate_def Let_def after_stream_def split: prod.splits option.splits if_splits)
      (metis prod.collapse)+
  have held: "fst (held_body parse env args started c r ts) \<noteq> Some ECancelled" for ts
    using dial nc
    by (auto simp: held_body_def Let_def split: prod.splits option.splits if_splits) (metis fst_conv)+
  show ?thesis
    using assms(2) held nc
    by (auto simp: text_body_def split: prod.splits option.splits bool.splits) (metis fst_conv)+
qed

lemma execute_text_not_cancelled:
  assumes nc: "\<And>ts. \<not> fst (read_cancelled env ts)"
    and "execute_text parse env args health lmt w = (Inl (FCancelled as u), st')"
  shows False
proof -
  have never: "e \<noteq> ECancelled" if "text_loop parse env args started st = (e, st1)" for e started st st1
    by (rule text_loop_rule [OF that, of "\<lambda>_. True" "\<lambda>e _. e \<noteq> ECancelled"])
      (auto dest: text_body_not_cancelled [OF nc])
  from assms(2) show False
    by (auto simp: execute_text_def Let_def split: prod.splits ended.splits dest: never)
qed

lemma router_append_not_text: "router_append m row st = (Some e, st') \<Longrightarrow> e \<noteq> RText f"
  by (auto simp: router_append_def split: prod.splits option.splits sum.splits if_splits)

lemma ledger_writes_not_text:
  "write_text_ledger m req opts t0 result d c st = (Some e, st') \<Longrightarrow> e \<noteq> RText f"
  "record_no_route m req modality opts t0 st = (Some e, st') \<Longrightarrow> e \<noteq> RText f"
  by (auto simp: write_text_ledger_def record_no_route_def dest: router_append_not_text
      split: prod.splits option.splits sum.splits bool.splits)

lemma generate_text_not_cancelled:
  assumes "never_cancelled m"
    and "generate_text (request_router m host w) req opts ro = Some (result, ro')"
  shows "result \<noteq> Inl (RText (FCancelled as u))"
proof -
  have nc: "\<not> fst (read_cancelled (mo_text (request_router m host w)) x)" for x
    using never_cancelled_read(1) [OF assms(1)] by (simp add: request_router_def)
  from assms(2) show ?thesis
    by (auto simp: generate_text_def run_planned_text_def run_text_def
        split: prod.splits option.splits if_splits sum.splits dest: execute_text_not_cancelled [OF nc] ledger_writes_not_text)
qed

lemma is_ending_not_Nil: "is_ending ms \<Longrightarrow> ms \<noteq> []"
  by (auto simp: is_ending_def)

text \<open>An answer, or an error, when nobody cancels.\<close>

definition answered_by :: "bool \<Rightarrow> bridge_msg list \<Rightarrow> bool" where
  "answered_by hold ms \<longleftrightarrow>
     (\<exists>progress ending. ms = progress @ ending \<and> list_all (is_progress hold) progress \<and> is_ending ending)"

lemma answered_by_append: "list_all (is_progress hold) ms \<Longrightarrow> answered_by hold ms' \<Longrightarrow> answered_by hold (ms @ ms')"
  unfolding answered_by_def by (metis append_assoc list_all_append)

lemma run_turn_answers:
  assumes "never_cancelled m" and "run_turn m host tq st = Some (Ended None, st')"
  shows "\<exists>ms. bs_replies st' = bs_replies st @ ms \<and> answered_by (pg_hold (bs_gate st)) ms"
  using assms(2)
proof (cases rule: run_turn_cases)
  case at_once
  then show ?thesis using never_cancelled_read(2) [OF assms(1), of st] by simp
next
  case (turned st1 result ro tn st2 b st3)
  note kept1 = bridge_cancelled_keeps [OF turned(1)] and kept2 = bridge_cancelled_keeps [OF turned(4)]
  obtain ms where ms: "bs_replies st3 = bs_replies st @ ms" "list_all (is_progress (pg_hold (bs_gate st))) ms"
    using after_deliveries_keeps [OF turned(3)] kept1(1,2) kept2(1,2) by (auto simp: gate_discard_def)
  have "\<not> b" using never_cancelled_read(2) [OF assms(1), of st2] turned(4) by simp
  with turned(5) have act: "act_on_turn m host tq tn result st3 = (Ended None, st')" by simp
  have ok: "\<nexists>as u. result = Inl (RText (FCancelled as u))"
    using generate_text_not_cancelled [OF assms(1) turned(2)] by blast
  from act show ?thesis
  proof (cases rule: act_on_turn_cases)
    case quiet
    have False
    proof (cases result)
      case (Inl e)
      then show ?thesis
        using act ok by (auto simp: act_on_turn_def split: router_error.splits text_failure.splits)
    next
      case (Inr s)
      have "bs_replies (finish_turn (tn_finish tn) (note_served s st3)) \<noteq> bs_replies st3"
        and "bs_replies (pass_through (tn_collected tn) (note_served s st3)) \<noteq> bs_replies st3"
        using finish_turn_replies [of "tn_finish tn" "note_served s st3"]
          pass_through_replies [of "tn_collected tn" "note_served s st3"] is_ending_not_Nil
        by (auto simp: note_served_keeps)
      then show ?thesis
        using act Inr quiet
        by (auto simp: act_on_turn_def Let_def split: turn_outcome.splits)
    qed
    then show ?thesis ..
  next
    case (finished s)
    then obtain e where "bs_replies st' = bs_replies st3 @ e" "is_ending e"
      using finish_turn_replies [of "tn_finish tn" "note_served s st3"] by (auto simp: note_served_keeps)
    with ms show ?thesis unfolding answered_by_def by auto
  next
    case (passed s)
    then obtain e where "bs_replies st' = bs_replies st3 @ e" "is_ending e"
      using pass_through_replies [of "tn_collected tn" "note_served s st3"] by (auto simp: note_served_keeps)
    with ms show ?thesis unfolding answered_by_def by auto
  next
    case (ran_tools s calls refusal)
    then show ?thesis by simp
  qed
qed

lemma serve_turns_answers:
  assumes "never_cancelled m" and "serve_turns m host tq n st = Some (None, st')"
  shows "\<exists>ms. bs_replies st' = bs_replies st @ ms \<and> answered_by (pg_hold (bs_gate st)) ms"
  using assms(2)
proof (induction n arbitrary: st)
  case 0
  then show ?case
    using finish_turn_replies [of "Some ''length''" st] unfolding answered_by_def
    by (metis append_Nil list.pred_inject(1) option.inject prod.inject serve_turns.simps(1))
next
  case (Suc n)
  then obtain fin st1 where turn: "run_turn m host tq st = Some (fin, st1)"
    by (auto split: option.splits prod.splits)
  show ?case
  proof (cases fin)
    case (Ended e)
    with Suc.prems turn have "e = None" "st1 = st'" by simp_all
    with run_turn_answers [OF assms(1)] turn Ended show ?thesis by simp
  next
    case Again
    then have go: "serve_turns m host tq n st1 = Some (None, st')" using Suc.prems turn by simp
    obtain ms where ms: "pg_hold (bs_gate st1) = pg_hold (bs_gate st)" "bs_replies st1 = bs_replies st @ ms"
        "list_all (is_progress (pg_hold (bs_gate st))) ms"
      using run_turn_replies [OF turn] Again by auto
    from Suc.IH [OF go] ms show ?thesis by (auto intro: answered_by_append)
  qed
qed

subsection \<open>Every request is answered once\<close>

text \<open>
  The only way a request hangs: a plan that waits out a cooldown in rounds without end, in each of
  which the clock it reads still has the whole positive sleep of that round left to the deadline,
  which was fixed five seconds after the instant read before the first. A clock that moves on by
  what is slept reaches it.
\<close>

definition round_waits ::
  "('a, 'w, 's) model_router \<Rightarrow> string \<Rightarrow> string \<Rightarrow> int \<Rightarrow> ('w, 's) router_state \<Rightarrow> bool" where
  "round_waits m model modality deadline st \<longleftrightarrow>
     (\<exists>free st1 now st2 again st3.
        cooldown_retry_at m model modality st = (Some free, st1)
        \<and> router_now m st1 = (now, st2) \<and> router_now m st2 = (again, st3)
        \<and> 0 < wrap_i64 (free - now) \<and> wrap_i64 (free - now) \<le> wrap_i64 (deadline - again))"

definition waits_forever ::
  "('a, 'w, 's) model_router \<Rightarrow> string \<Rightarrow> string \<Rightarrow> int \<Rightarrow> ('w, 's) router_state \<Rightarrow> bool" where
  "waits_forever m model modality deadline st \<longleftrightarrow>
     (\<exists>rounds. rounds 0 = st \<and> (\<forall>i :: nat. round_waits m model modality deadline (rounds i)
        \<and> wait_round m model modality deadline (rounds i) = Inr (rounds (Suc i))))"

definition planning_hangs :: "('a, 'w, 's) model_router \<Rightarrow> 'w bridge_host \<Rightarrow> bool" where
  "planning_hangs m host \<longleftrightarrow>
     (\<exists>w model modality st now st1. router_now (request_router m host w) st = (now, st1)
        \<and> waits_forever (request_router m host w) model modality
            (wrap_i64 (now + COOLDOWN_WAIT_BUDGET_MS)) st1)"

lemma wait_round_Inr:
  "wait_round m model modality deadline st = Inr st' \<Longrightarrow> round_waits m model modality deadline st"
  by (auto simp: wait_round_def gives_up_def round_waits_def
      split: prod.splits option.splits bool.splits if_splits)

lemma wait_loop_None:
  assumes "wait_loop m model modality deadline st = None"
  shows "waits_forever m model modality deadline st"
proof -
  let ?round = "wait_round m model modality deadline"
  define rounds where "rounds = rec_nat st (\<lambda>_ s. projr (?round s))"
  have step: "\<exists>s'. ?round s = Inr s' \<and> wait_loop m model modality deadline s' = None"
    if "wait_loop m model modality deadline s = None" for s
    using that wait_loop.simps [of m model modality deadline s] by (cases "?round s") simp_all
  have on: "wait_loop m model modality deadline (rounds i) = None" for i
  proof (induction i)
    case 0
    show ?case by (simp add: rounds_def assms)
  next
    case (Suc i)
    from step [OF Suc.IH] show ?case by (auto simp: rounds_def)
  qed
  have "?round (rounds i) = Inr (rounds (Suc i))" for i
    using step [OF on [of i]] by (auto simp: rounds_def)
  then show ?thesis
    unfolding waits_forever_def
    by (intro exI [where x = rounds]) (auto simp: rounds_def dest: wait_round_Inr)
qed

lemma plan_waiting_None:
  assumes "plan_waiting_out_cooldown m model modality st = None"
  shows "\<exists>st1 now st2. router_now m st1 = (now, st2)
    \<and> waits_forever m model modality (wrap_i64 (now + COOLDOWN_WAIT_BUDGET_MS)) st2"
  using assms
  by (auto simp: plan_waiting_out_cooldown_def split: prod.splits if_splits dest!: wait_loop_None)

lemma generate_hangs:
  "generate_text (request_router m host w) req opts ro = None \<Longrightarrow> planning_hangs m host"
  "generate_image (request_router m host w) ireq opts ro = None \<Longrightarrow> planning_hangs m host"
  unfolding planning_hangs_def
  by (auto simp: generate_text_def generate_image_def
      split: prod.splits option.splits if_splits dest!: plan_waiting_None) blast+

lemma run_turn_hangs: "run_turn m host tq st = None \<Longrightarrow> planning_hangs m host"
  by (auto simp: run_turn_def split: prod.splits bool.splits option.splits dest: generate_hangs)

lemma serve_turns_hangs: "serve_turns m host tq n st = None \<Longrightarrow> planning_hangs m host"
  by (induction n arbitrary: st)
    (auto split: option.splits prod.splits turn_end.splits dest: run_turn_hangs)

lemma serve_hangs: "serve m host rq st = None \<Longrightarrow> planning_hangs m host"
  by (auto simp: serve_def serve_text_def serve_image_def Let_def
      split: option.splits bridge_kind.splits prod.splits sum.splits
      dest: serve_turns_hangs generate_hangs)

text \<open>A request is answered in one of four ways: progress and one ending, progress and one error, a
  result, or, only when it was cancelled, progress alone.\<close>

definition answered ::
  "('a, 'w, 's) model_router \<Rightarrow> bool \<Rightarrow> bridge_msg list \<Rightarrow> bool" where
  "answered m hold ms \<longleftrightarrow>
     (\<exists>progress ending. ms = progress @ ending \<and> list_all (is_progress hold) progress
        \<and> ((ending = [] \<and> \<not> never_cancelled m) \<or> is_ending ending
           \<or> (\<exists>status message hint. ending = [BError status message hint])
           \<or> (\<exists>j. ending = [BResult j, BDone])))"

lemma report_failure_keeps:
  "bs_replies (report_failure m (err, st)) = bs_replies st
   \<or> (\<exists>s t h. bs_replies (report_failure m (err, st)) = bs_replies st @ [BError s t h])"
  by (auto simp: report_failure_def reply_def split: option.splits prod.splits bool.splits
      dest: bridge_cancelled_keeps)

lemma serve_text_replies:
  assumes "serve_text m host rq st = Some out"
  shows "\<exists>ms. bs_replies (report_failure m out) = bs_replies st @ ms
    \<and> answered m (tq_ownership (turn_request_of host rq (world_of st)) = OwnGateway) ms"
proof -
  let ?tq = "turn_request_of host rq (world_of st)"
  let ?hold = "tq_ownership ?tq = OwnGateway"
  let ?st0 = "st\<lparr>bs_messages := first_messages (tq_body ?tq), bs_gate := new_gate (tq_ownership ?tq)\<rparr>"
  have hold: "pg_hold (bs_gate ?st0) = ?hold" by (simp add: new_gate_def)
  obtain err st' where out: "out = (err, st')" by fastforce
  with assms have turns: "serve_turns m host ?tq MAX_TOOL_ITERATIONS ?st0 = Some (err, st')"
    by (simp add: serve_text_def Let_def)
  obtain ms where ms: "bs_replies st' = bs_replies st @ ms"
      "if err = None then answer_shape ?hold ms else list_all (is_progress ?hold) ms"
    using serve_turns_replies [OF turns] unfolding hold by auto
  show ?thesis
  proof (cases err)
    case None
    have "answered m ?hold ms"
    proof (cases "never_cancelled m")
      case True
      from turns None have "serve_turns m host ?tq MAX_TOOL_ITERATIONS ?st0 = Some (None, st')" by simp
      from serve_turns_answers [OF True this] ms(1) hold have "answered_by ?hold ms" by auto
      then show ?thesis unfolding answered_by_def answered_def by blast
    next
      case False
      with ms(2) None show ?thesis unfolding answer_shape_def answered_def by auto
    qed
    with ms(1) out None show ?thesis by (auto simp: report_failure_def)
  next
    case (Some e)
    with ms(2) have progress: "list_all (is_progress ?hold) ms" by simp
    obtain b st1 where b: "bridge_cancelled m st' = (b, st1)" by fastforce
    note kept = bridge_cancelled_keeps(1) [OF b]
    show ?thesis
    proof (cases b)
      case True
      then have "\<not> never_cancelled m" using never_cancelled_read(2) [of m st'] b by auto
      with progress have "answered m ?hold (ms @ [])" unfolding answered_def by blast
      with True b kept out Some ms(1) show ?thesis by (auto simp: report_failure_def)
    next
      case False
      let ?e = "BError (failure_status e) (router_message e) (failure_retry_hint e)"
      have "answered m ?hold (ms @ [?e])" using progress unfolding answered_def by blast
      with False b kept out Some ms(1) show ?thesis by (auto simp: report_failure_def reply_def)
    qed
  qed
qed

lemma answered_at_once:
  "answered m hold [BError s t h]"
  "answered m hold [BResult j, BDone]"
  unfolding answered_def by (rule exI [where x = "[]"], simp)+

lemma serve_image_replies:
  assumes "serve_image m host rq st = Some out"
  shows "\<exists>ms. bs_replies (report_failure m out) = bs_replies st @ ms \<and> answered m hold ms"
proof -
  have none: "answered m hold []" if "\<not> never_cancelled m"
    using that unfolding answered_def by auto
  have err: "\<exists>ms. bs_replies (report_failure m (Some e, st\<lparr>bs_router := ro\<rparr>)) = bs_replies st @ ms
      \<and> answered m hold ms" for e ro
  proof -
    obtain b st1 where b: "bridge_cancelled m (st\<lparr>bs_router := ro\<rparr>) = (b, st1)" by fastforce
    note kept = bridge_cancelled_keeps(1) [OF b]
    have "b \<longrightarrow> \<not> never_cancelled m" using never_cancelled_read(2) [of m "st\<lparr>bs_router := ro\<rparr>"] b by auto
    then show ?thesis
      using b kept none answered_at_once by (cases b) (auto simp: report_failure_def reply_def)
  qed
  from assms show ?thesis
    by (auto simp: serve_image_def report_failure_def [of _ "(None, _)"] replies_def
        split: option.splits sum.splits) (rule err, rule answered_at_once)
qed


lemma serve_replies:
  assumes "serve m host rq st = Some st'"
  shows "\<exists>ms. bs_replies st' = bs_replies st @ ms
    \<and> answered m (tq_ownership (turn_request_of host rq (world_of st)) = OwnGateway) ms"
  using assms serve_text_replies [of m host rq st] serve_image_replies [of m host rq st]
  by (auto simp: serve_def serve_models_def reply_def replies_def answered_at_once
      split: option.splits bridge_kind.splits)

text \<open>The same router with a cancel flag that is never raised, and an ending that may be missing only
  in a run that \<open>stopped\<close> says was cut short.\<close>

definition uncancelled :: "('a, 'w, 's) model_router \<Rightarrow> ('a, 'w, 's) model_router" where
  "uncancelled m = m\<lparr>mo_text := (mo_text m)\<lparr>te_cancelled :=
     (\<lambda>w. (False, snd (te_cancelled (mo_text m) w)))\<rparr>\<rparr>"

definition answered_unless :: "bool \<Rightarrow> bool \<Rightarrow> bridge_msg list \<Rightarrow> bool" where
  "answered_unless stopped hold ms \<longleftrightarrow>
     (\<exists>progress ending. ms = progress @ ending \<and> list_all (is_progress hold) progress
        \<and> ((ending = [] \<and> stopped) \<or> is_ending ending
           \<or> (\<exists>status message hint. ending = [BError status message hint])
           \<or> (\<exists>j. ending = [BResult j, BDone])))"

lemma never_cancelled_uncancelled: "never_cancelled (uncancelled m)"
  by (simp add: never_cancelled_def uncancelled_def)

lemma answered_weaken:
  "answered m hold ms \<Longrightarrow> never_cancelled m \<or> stopped \<Longrightarrow> answered_unless stopped hold ms"
  unfolding answered_def answered_unless_def by blast

text \<open>(C19) A request the bridge takes is answered once and in order: the messages it adds are progress
  (deltas only when prose is not held back, liveness notes only when it is, reasoning, retry notes,
  usage) and then one ending, which is a finished text or calls handed to the client and then who
  served it and \<open>BDone\<close>, or one error, or one result and \<open>BDone\<close>. An ending is missing only where the
  cancel flag cut this very run short: where the same request, from the same state, with the flag
  always down, would have ended otherwise. A request hangs only when a wait for a cooling key goes
  round for ever on a clock that never comes within the next sleep of its deadline.\<close>

theorem request_is_answered_once:
  "case serve m host rq st of
     None \<Rightarrow> planning_hangs m host
   | Some st' \<Rightarrow>
       (\<exists>ms. bs_replies st' = bs_replies st @ ms
          \<and> answered_unless (serve (uncancelled m) host rq st \<noteq> Some st')
              (tq_ownership (turn_request_of host rq (world_of st)) = OwnGateway) ms)"
proof (cases "serve m host rq st")
  case None
  then show ?thesis using serve_hangs by simp
next
  case (Some st')
  let ?hold = "tq_ownership (turn_request_of host rq (world_of st)) = OwnGateway"
  show ?thesis
  proof (cases "serve (uncancelled m) host rq st = Some st'")
    case True
    from serve_replies [OF True] Some show ?thesis
      using answered_weaken never_cancelled_uncancelled by (fastforce simp: True)
  next
    case False
    from serve_replies [OF Some] Some False show ?thesis
      using answered_weaken by fastforce
  qed
qed

end
