(* ===== verification/Bridge_Laws.thy ===== *)
theory Bridge_Laws
  imports Router_Bridge
begin

text \<open>
  Laws of the bridge that span its turns: which tools a request may run, how the results of a
  sandbox turn pair with the calls they answer, and what the parsing of one chunk at a time shows.
\<close>

subsection \<open>Which tools are run\<close>

text \<open>A tool run in a world was registered, and let through by the gate of that world.\<close>

definition granted :: "'w bridge_host \<Rightarrow> string \<times> 'w \<Rightarrow> bool" where
  "granted host run \<longleftrightarrow>
     (case run of (name, w) \<Rightarrow>
        is_registered_tool name \<and> gateway_tool_refusal name (bh_mutation_enabled host w) = None)"

lemma call_result_granted:
  assumes "call_result parse host refusal r call w = (txt, used, w')"
  shows "list_all (granted host) used" and "refusal \<noteq> None \<Longrightarrow> used = []"
  using assms by (auto simp: call_result_def granted_def Let_def split: option.splits if_splits prod.splits)

lemma sandbox_results_ran:
  "\<exists>used. bs_ran (sandbox_results m host refusal r calls st) = bs_ran st @ used
     \<and> list_all (granted host) used \<and> (refusal \<noteq> None \<longrightarrow> used = [])"
proof (induction m host refusal r calls st rule: sandbox_results.induct)
  case (2 m host refusal r call ident calls st)
  obtain b st1 where b: "bridge_cancelled m st = (b, st1)" by fastforce
  note kept = bridge_cancelled_keeps(4) [OF b]
  show ?case
  proof (cases b)
    case True
    with b kept show ?thesis by simp
  next
    case False
    obtain out used w where c: "call_result (sv_parse m) host refusal r call (world_of st1) = (out, used, w)"
      by (metis prod_cases3)
    note g = call_result_granted [OF c]
    let ?st2 = "(set_world w st1)\<lparr>bs_messages := bs_messages st1 @ [tool_result_message ident out],
                    bs_ran := bs_ran st1 @ used\<rparr>"
    obtain more where more:
        "bs_ran (sandbox_results m host refusal r calls ?st2) = bs_ran ?st2 @ more"
        "list_all (granted host) more" "refusal \<noteq> None \<longrightarrow> more = []"
      using "2.IH" [OF b [symmetric] _ c [symmetric] refl] False by blast
    have "bs_ran (sandbox_results m host refusal r ((call, ident) # calls) st) = bs_ran st @ (used @ more)"
      using False b c kept more(1) by simp
    moreover have "list_all (granted host) (used @ more)" using g(1) more(2) by simp
    moreover have "refusal \<noteq> None \<longrightarrow> used @ more = []" using g(2) more(3) by simp
    ultimately show ?thesis by blast
  qed
qed simp

lemma sandbox_turn_ran:
  "\<exists>used. bs_ran (sandbox_turn m host txt calls refusal st) = bs_ran st @ used
     \<and> list_all (granted host) used \<and> (refusal \<noteq> None \<longrightarrow> used = [])"
proof -
  obtain wire seq where w: "to_wire_tool_calls calls (bs_seq st) = (wire, seq)" by fastforce
  show ?thesis
    using sandbox_results_ran [of m host refusal _ "zip calls (map wc_id wire)"
      "st\<lparr>bs_seq := seq, bs_messages := bs_messages st @ [assistant_turn txt wire]\<rparr>"]
    by (simp add: sandbox_turn_def w)
qed

lemma others_ran:
  "bs_ran (finish_turn reason st) = bs_ran st"
  "bs_ran (pass_through calls st) = bs_ran st"
  "bs_ran (note_served s st) = bs_ran st"
  "bs_ran (reply msg st) = bs_ran st"
  "after_deliveries render ds st = (tn, st') \<Longrightarrow> bs_ran st' = bs_ran st"
  by (auto simp: finish_turn_def pass_through_def replies_def reply_def note_served_def Let_def
      after_deliveries_def split: prod.split)

lemma run_turn_ran:
  assumes "run_turn m host tq st = Some (fin, st')"
  shows "\<exists>used. bs_ran st' = bs_ran st @ used \<and> list_all (granted host) used
    \<and> (used = [] \<or> tq_ownership tq = OwnGateway)"
  using assms
proof (cases rule: run_turn_cases)
  case at_once
  then show ?thesis using bridge_cancelled_keeps(4) by fastforce
next
  case (turned st1 result ro tn st2 b st3)
  have st3: "bs_ran st3 = bs_ran st"
    using others_ran(5) [OF turned(3)] bridge_cancelled_keeps(4) [OF turned(1)]
      bridge_cancelled_keeps(4) [OF turned(4)] by simp
  show ?thesis
  proof (cases b)
    case True
    with turned(5) st3 show ?thesis by auto
  next
    case False
    with turned(5) have act: "act_on_turn m host tq tn result st3 = (fin, st')" by simp
    then show ?thesis
    proof (cases rule: act_on_turn_cases)
      case (ran_tools s calls refusal)
      then show ?thesis
        using sandbox_turn_ran [of m host "tn_text tn" calls refusal "note_served s st3"] st3
        by (auto simp: others_ran)
    qed (simp_all add: others_ran st3)
  qed
qed

lemma serve_turns_ran:
  assumes "serve_turns m host tq n st = Some (err, st')"
  shows "\<exists>used. bs_ran st' = bs_ran st @ used \<and> list_all (granted host) used
    \<and> (used = [] \<or> tq_ownership tq = OwnGateway)"
  using assms
proof (induction n arbitrary: st)
  case 0
  then show ?case by (auto simp: others_ran)
next
  case (Suc n)
  then obtain fin st1 where turn: "run_turn m host tq st = Some (fin, st1)"
    by (auto split: option.splits prod.splits)
  obtain used where used: "bs_ran st1 = bs_ran st @ used" "list_all (granted host) used"
      "used = [] \<or> tq_ownership tq = OwnGateway"
    using run_turn_ran [OF turn] by blast
  show ?case
  proof (cases fin)
    case (Ended e)
    with Suc.prems turn used show ?thesis by auto
  next
    case Again
    then have "serve_turns m host tq n st1 = Some (err, st')" using Suc.prems turn by simp
    from Suc.IH [OF this] obtain more where "bs_ran st' = bs_ran st1 @ more"
        "list_all (granted host) more" "more = [] \<or> tq_ownership tq = OwnGateway" by blast
    with used have "bs_ran st' = bs_ran st @ (used @ more)" "list_all (granted host) (used @ more)"
        "used @ more = [] \<or> tq_ownership tq = OwnGateway" by auto
    then show ?thesis by blast
  qed
qed

lemma report_failure_ran: "bs_ran (report_failure m (err, st)) = bs_ran st"
  by (auto simp: report_failure_def others_ran split: option.splits prod.splits bool.splits
      dest: bridge_cancelled_keeps(4))

text \<open>(C20) The only tools a request runs on the host are tools the registry advertises, each let
  through by the gate of the world it was run in (a writing or sending tool only while mutation is
  enabled), and none at all when the request brought its own tools or the gateway's tools are off.\<close>

theorem bridge_runs_only_granted_tools:
  "case serve m host rq st of
     None \<Rightarrow> planning_hangs m host
   | Some st' \<Rightarrow>
       (\<exists>used. bs_ran st' = bs_ran st @ used
          \<and> list_all (\<lambda>(name, w). is_registered_tool name
               \<and> gateway_tool_refusal name (bh_mutation_enabled host w) = None) used
          \<and> (used = [] \<or> tq_ownership (turn_request_of host rq (world_of st)) = OwnGateway))"
proof (cases "serve m host rq st")
  case None
  then show ?thesis using serve_hangs by simp
next
  case (Some st')
  let ?own = "tq_ownership (turn_request_of host rq (world_of st))"
  have chat: "\<exists>used. bs_ran st'' = bs_ran st @ used \<and> list_all (granted host) used
      \<and> (used = [] \<or> ?own = OwnGateway)"
    if "serve_text m host rq st = Some (err, st'')" for err st''
    using that serve_turns_ran by (fastforce simp: serve_text_def Let_def)
  have image: "bs_ran st'' = bs_ran st" if "serve_image m host rq st = Some (err, st'')" for err st''
    using that by (auto simp: serve_image_def replies_def split: option.splits sum.splits)
  have "\<exists>used. bs_ran st' = bs_ran st @ used \<and> list_all (granted host) used
      \<and> (used = [] \<or> ?own = OwnGateway)"
    using Some chat image
    by (auto simp: serve_def serve_models_def replies_def others_ran report_failure_ran
        split: option.splits bridge_kind.splits)
  moreover have "granted host = (\<lambda>(name, w). is_registered_tool name
      \<and> gateway_tool_refusal name (bh_mutation_enabled host w) = None)"
    by (auto simp: granted_def fun_eq_iff)
  ultimately show ?thesis using Some by simp
qed

subsection \<open>A sandbox turn answers the calls it declares\<close>

lemma map_state_length: "map_state f xs s = (ys, s') \<Longrightarrow> length ys = length xs"
  by (induction f xs s arbitrary: ys s' rule: map_state.induct) (auto split: prod.splits)

lemma sandbox_results_messages:
  "\<exists>txts. length txts \<le> length calls
     \<and> bs_messages (sandbox_results m host refusal r calls st)
         = bs_messages st @ map2 tool_result_message (take (length txts) (map snd calls)) txts
     \<and> (length txts = length calls \<or> \<not> never_cancelled m)"
proof (induction m host refusal r calls st rule: sandbox_results.induct)
  case (2 m host refusal r call ident calls st)
  obtain b st1 where b: "bridge_cancelled m st = (b, st1)" by fastforce
  note kept = bridge_cancelled_keeps(3) [OF b]
  show ?case
  proof (cases b)
    case True
    then have "\<not> never_cancelled m" using never_cancelled_read(2) [of m st] b by auto
    with True b kept show ?thesis by (intro exI [of _ "[]"]) simp
  next
    case False
    obtain out used w where c: "call_result (sv_parse m) host refusal r call (world_of st1) = (out, used, w)"
      by (metis prod_cases3)
    let ?st2 = "(set_world w st1)\<lparr>bs_messages := bs_messages st1 @ [tool_result_message ident out],
                    bs_ran := bs_ran st1 @ used\<rparr>"
    obtain txts where txts: "length txts \<le> length calls"
        "bs_messages (sandbox_results m host refusal r calls ?st2)
         = bs_messages ?st2 @ map2 tool_result_message (take (length txts) (map snd calls)) txts"
        "length txts = length calls \<or> \<not> never_cancelled m"
      using "2.IH" [OF b [symmetric] _ c [symmetric] refl] False by blast
    then show ?thesis
      using False b c kept by (intro exI [of _ "out # txts"]) simp
  qed
qed simp

text \<open>A sandbox turn appends to the conversation one assistant turn that declares every call of the
  turn under its wire id, and after it one result per declared id, in the order they were declared;
  only a raised cancel flag leaves the last ones out.\<close>

theorem sandbox_turn_answers_declared_calls:
  "\<exists>wire seq txts. to_wire_tool_calls calls (bs_seq st) = (wire, seq) \<and> length wire = length calls
     \<and> bs_messages (sandbox_turn m host txt calls refusal st)
         = bs_messages st @ assistant_turn txt wire
             # map2 tool_result_message (take (length txts) (map wc_id wire)) txts
     \<and> (length txts = length calls \<or> length txts < length calls \<and> \<not> never_cancelled m)"
proof -
  obtain wire seq where w: "to_wire_tool_calls calls (bs_seq st) = (wire, seq)" by fastforce
  then have len: "length wire = length calls" unfolding to_wire_tool_calls_def by (rule map_state_length)
  let ?st = "st\<lparr>bs_seq := seq, bs_messages := bs_messages st @ [assistant_turn txt wire]\<rparr>"
  obtain txts where txts: "length txts \<le> length calls"
      "bs_messages (sandbox_turn m host txt calls refusal st)
         = bs_messages ?st @ map2 tool_result_message (take (length txts) (map wc_id wire)) txts"
      "length txts = length calls \<or> \<not> never_cancelled m"
    using sandbox_results_messages [of "zip calls (map wc_id wire)" m host refusal
        "bh_workspace_root host (world_of st)" ?st] len
    by (auto simp: sandbox_turn_def w)
  from txts(1,3) have "length txts = length calls \<or> length txts < length calls \<and> \<not> never_cancelled m"
    by linarith
  with w len txts(2) show ?thesis by (intro exI [of _ wire] exI [of _ seq] exI [of _ txts]) simp
qed

subsection \<open>One chunk at a time\<close>

definition demo_call_chunk :: string where
  "demo_call_chunk = ''<tool_call><function=ls></function></tool_call>''"

lemma demo_parse_prose: "parse_assistant_stream ''see <t'' = [SText ''see '']"
  by code_simp

lemma demo_parse_rest: "parse_assistant_stream ''able>'' = [SText ''able>'']"
  by code_simp

lemma demo_parse_first:
  "parse_assistant_stream (take 20 demo_call_chunk)
     = [STool \<lparr>tg_name = None, tg_params = [], tg_complete = False, tg_raw = ''<function''\<rparr>]"
  by code_simp

lemma demo_parse_second:
  "parse_assistant_stream ''=ls></function></tool_call>'' = [SText ''=ls></function></tool_call>'']"
  by code_simp

lemma demo_parse_whole:
  "parse_assistant_stream demo_call_chunk
     = [STool \<lparr>tg_name = Some ''ls'', tg_params = [], tg_complete = True,
          tg_raw = ''<function=ls></function>''\<rparr>]"
  by code_simp

lemmas demo_parses = demo_parse_prose demo_parse_rest demo_parse_first demo_parse_second demo_parse_whole

lemma demo_cut: "drop 20 demo_call_chunk = ''=ls></function></tool_call>''"
  by code_simp

text \<open>Chunks are parsed one by one and nothing is carried over: prose cut inside what could begin a
  marker loses the cut end, and a tool call that arrives in two chunks is neither run nor hidden, its
  second half is shown as prose, while the same call in one chunk is run.\<close>

theorem split_chunks_lose_prose_and_calls:
  "tn_text (fold (on_chunk render) [''see <t'', ''able>''] (fresh_turn g)) = ''see able>''
   \<and> tn_mercury (fold (on_chunk render) [take 20 demo_call_chunk, drop 20 demo_call_chunk] (fresh_turn g)) = []
   \<and> tn_text (fold (on_chunk render) [take 20 demo_call_chunk, drop 20 demo_call_chunk] (fresh_turn g))
       = ''=ls></function></tool_call>''
   \<and> map tc_name (tn_mercury (on_chunk render demo_call_chunk (fresh_turn g))) = [Some ''ls'']"
  by (simp add: on_chunk_def demo_parses demo_cut fresh_turn_def complete_calls_def List.map_filter_def
      mercury_call_def Let_def split: prod.split)

end
