(* ===== verification/Gateway_Wire.thy ===== *)
theory Gateway_Wire
  imports Router_Bridge
begin

text \<open>
  What the ingress dialects of the gateway share (\<open>gateway.rs\<close>): statuses, error envelopes, the frame
  of a refusal, the text and the calls of an answer, and the interface of a streaming dialect.
\<close>

subsection \<open>Responses\<close>

record http_answer =
  ha_status :: nat
  ha_retry_after :: "string option"
  ha_body :: json

text \<open>A server-sent event: with a name, without one, or with text that is not JSON.\<close>

datatype sse_event = SseNamed string json | SseData json | SseRaw string

fun sse_data :: "sse_event \<Rightarrow> json" where
  "sse_data (SseNamed _ j) = j"
| "sse_data (SseData j) = j"
| "sse_data (SseRaw s) = JString s"

definition jnat :: "nat \<Rightarrow> json" where
  "jnat n = JNumber (PosInt n)"

fun jopt_str :: "string option \<Rightarrow> json" where
  "jopt_str None = JNull"
| "jopt_str (Some s) = JString s"

definition u64_add :: "nat \<Rightarrow> nat \<Rightarrow> nat" where
  "u64_add a b = (a + b) mod 2 ^ 64"

definition openai_error :: "string \<Rightarrow> string \<Rightarrow> string option \<Rightarrow> json" where
  "openai_error message kind code =
     jobj [(''error'', jobj [(''message'', JString message), (''type'', JString kind),
       (''code'', jopt_str code)])]"

definition anthropic_error :: "string \<Rightarrow> string \<Rightarrow> json" where
  "anthropic_error message kind =
     jobj [(''type'', JString ''error''),
       (''error'', jobj [(''type'', JString kind), (''message'', JString message)])]"

text \<open>A status the bridge decided is answered as it is when it is an HTTP error, else as 502.\<close>

definition worker_status :: "nat \<Rightarrow> nat" where
  "worker_status status = (if 400 \<le> status \<and> status < 600 then status else 502)"

definition anthropic_error_kind :: "nat \<Rightarrow> string" where
  "anthropic_error_kind status =
     (if status = 400 then ''invalid_request_error''
      else if status = 401 then ''authentication_error''
      else if status = 403 then ''permission_error''
      else if status = 404 then ''not_found_error''
      else if status = 413 then ''request_too_large''
      else if status = 429 then ''rate_limit_error''
      else if status = 503 \<or> status = 529 then ''overloaded_error''
      else ''api_error'')"

definition gemini_error_body :: "string \<Rightarrow> nat \<Rightarrow> json" where
  "gemini_error_body message status =
     jobj [(''error'', jobj [(''code'', jnat status), (''message'', JString message),
       (''status'', JString
         (if status = 400 then ''INVALID_ARGUMENT''
          else if status = 401 then ''UNAUTHENTICATED''
          else if status = 403 then ''PERMISSION_DENIED''
          else if status = 404 then ''NOT_FOUND''
          else if status = 429 then ''RESOURCE_EXHAUSTED''
          else if status = 503 then ''UNAVAILABLE''
          else ''INTERNAL''))])]"

definition http_err :: "nat \<Rightarrow> json \<Rightarrow> http_answer" where
  "http_err status body = \<lparr>ha_status = status, ha_retry_after = None, ha_body = body\<rparr>"

definition err_ra :: "nat \<Rightarrow> string \<Rightarrow> json \<Rightarrow> http_answer" where
  "err_ra status retry body = \<lparr>ha_status = status, ha_retry_after = Some retry, ha_body = body\<rparr>"

text \<open>Whole seconds, rounded up, and none for no wait.\<close>

definition cooldown_secs :: "nat option \<Rightarrow> string option" where
  "cooldown_secs retry_after_ms =
     (case retry_after_ms of
        Some ms \<Rightarrow> if ms > 0 then Some (show_nat (max ((ms + 999) div 1000) 1)) else None
      | None \<Rightarrow> None)"

definition err_with_cooldown :: "nat \<Rightarrow> nat option \<Rightarrow> json \<Rightarrow> http_answer" where
  "err_with_cooldown status retry_after_ms body =
     (if status = 429
      then (case cooldown_secs retry_after_ms of
              Some secs \<Rightarrow> err_ra status secs body
            | None \<Rightarrow> http_err status body)
      else http_err status body)"

subsection \<open>Refusals of the gate\<close>

record gate_refusal =
  gr_status :: nat
  gr_message :: string
  gr_retry_after :: "string option"
  gr_openai_type :: string
  gr_openai_code :: "string option"

definition frame_refusal :: "gate_refusal \<Rightarrow> json \<Rightarrow> http_answer" where
  "frame_refusal r body =
     \<lparr>ha_status = gr_status r, ha_retry_after = gr_retry_after r, ha_body = body\<rparr>"

definition refusal_openai :: "gate_refusal \<Rightarrow> http_answer" where
  "refusal_openai r =
     frame_refusal r (openai_error (gr_message r) (gr_openai_type r) (gr_openai_code r))"

definition refusal_anthropic :: "gate_refusal \<Rightarrow> http_answer" where
  "refusal_anthropic r =
     frame_refusal r (anthropic_error (gr_message r) (anthropic_error_kind (gr_status r)))"

definition refusal_gemini :: "gate_refusal \<Rightarrow> http_answer" where
  "refusal_gemini r = frame_refusal r (gemini_error_body (gr_message r) (gr_status r))"

subsection \<open>Headers\<close>

definition FORWARDED_HEADERS :: "string list" where
  "FORWARDED_HEADERS =
     [''user-agent'', ''x-client-name'', ''x-codex-client'', ''accept'', ''x-api-key'',
      ''anthropic-version'']"

definition forwarded_headers :: "(string \<Rightarrow> string option) \<Rightarrow> string \<Rightarrow> string option" where
  "forwarded_headers headers k = (if k \<in> set FORWARDED_HEADERS then headers k else None)"

definition presented_key :: "(string \<Rightarrow> string option) \<Rightarrow> string" where
  "presented_key headers =
     (case or_else (Option.bind (headers ''authorization'') (strip_prefix ''Bearer ''))
             (or_else (headers ''x-api-key'') (headers ''x-goog-api-key'')) of
        Some k \<Rightarrow> k
      | None \<Rightarrow> [])"

subsection \<open>Text and calls of an answer\<close>

definition SENTINELS :: "string list" where
  "SENTINELS = [''<|im_end|>'', ''<|im_start|>'', ''<|endoftext|>'', ''<|end|>'']"

definition clean_assistant_text :: "string \<Rightarrow> string" where
  "clean_assistant_text raw = fold (\<lambda>tok out. str_replace tok [] out) SENTINELS raw"

definition normalize_call :: "nat \<Rightarrow> json \<Rightarrow> json" where
  "normalize_call i tc =
     (if json_get tc ''function'' \<noteq> None
      then on_object (\<lambda>m.
             let m1 = (if contains_key m ''index'' then m else map_insert ''index'' (jnat i) m)
             in if contains_key m1 ''type'' then m1
                else map_insert ''type'' (JString ''function'') m1) tc
      else jobj
        [(''index'', jnat i),
         (''id'', case json_get tc ''id'' of Some v \<Rightarrow> v | None \<Rightarrow> JString (''call_'' @ show_nat i)),
         (''type'', JString ''function''),
         (''function'', jobj
           [(''name'', case json_get tc ''name'' of Some v \<Rightarrow> v | None \<Rightarrow> JNull),
            (''arguments'', case json_get tc ''arguments'' of Some v \<Rightarrow> v | None \<Rightarrow> JString ''{}'')])])"

definition normalize_tool_calls :: "json \<Rightarrow> json" where
  "normalize_tool_calls calls =
     (case calls of
        JArray xs \<Rightarrow> JArray (map (\<lambda>(i, tc). normalize_call i tc) (enumerate 0 xs))
      | _ \<Rightarrow> calls)"

text \<open>How the dialects read a call of the OpenAI shape: its id, its name and its arguments as text.\<close>

definition or_blank :: "string option \<Rightarrow> string" where
  "or_blank s = (case s of Some t \<Rightarrow> t | None \<Rightarrow> [])"

definition call_name_of :: "json \<Rightarrow> string" where
  "call_name_of tc = or_blank (Option.bind (json_get tc ''function'') (\<lambda>f. get_str f ''name''))"

definition call_args_raw :: "json \<Rightarrow> json" where
  "call_args_raw tc =
     (case Option.bind (json_get tc ''function'') (\<lambda>f. json_get f ''arguments'') of
        Some v \<Rightarrow> v
      | None \<Rightarrow> JNull)"

definition call_args_text :: "(json \<Rightarrow> string) \<Rightarrow> json \<Rightarrow> string" where
  "call_args_text render tc =
     (case as_str (call_args_raw tc) of Some s \<Rightarrow> s | None \<Rightarrow> render (call_args_raw tc))"

definition calls_of :: "json \<Rightarrow> json list" where
  "calls_of calls = (case as_array calls of Some xs \<Rightarrow> xs | None \<Rightarrow> [])"

subsection \<open>Messages of an answer\<close>

text \<open>The text a list of messages carries.\<close>

fun delta_text :: "bridge_msg \<Rightarrow> string" where
  "delta_text (BDelta t) = t"
| "delta_text _ = []"

definition text_of :: "bridge_msg list \<Rightarrow> string" where
  "text_of ms = concat (map delta_text ms)"

text \<open>What a request is answered with, whatever was held back: progress, then an ending or an error
  or a result, or nothing more when the channel closed early.\<close>

fun is_note :: "bridge_msg \<Rightarrow> bool" where
  "is_note (BDelta _) = True"
| "is_note BLiveness = True"
| "is_note (BReasoning _) = True"
| "is_note (BRetry _) = True"
| "is_note (BUsage _ _) = True"
| "is_note _ = False"

definition is_close :: "bridge_msg list \<Rightarrow> bool" where
  "is_close ms \<longleftrightarrow>
     ms = [] \<or> is_ending ms \<or> (\<exists>s t h. ms = [BError s t h]) \<or> (\<exists>j. ms = [BResult j, BDone])"

lemma progress_notes: "list_all (is_progress hold) ms \<Longrightarrow> list_all is_note ms"
proof (erule list.pred_mono_strong)
  fix msg
  assume "is_progress hold msg"
  then show "is_note msg" by (cases msg) simp_all
qed

text \<open>Messages that are neither calls nor an end.\<close>

fun is_quiet :: "bridge_msg \<Rightarrow> bool" where
  "is_quiet (BFinish _) = True"
| "is_quiet (BServed _ _ _ _) = True"
| "is_quiet (BResult _) = True"
| "is_quiet m = is_note m"

lemma notes_quiet: "list_all is_note ms \<Longrightarrow> list_all is_quiet ms"
proof (erule list.pred_mono_strong)
  fix m
  assume "is_note m"
  then show "is_quiet m" by (cases m) simp_all
qed

text \<open>How a list of messages a request is answered with falls apart.\<close>

lemma is_close_cases:
  assumes "is_close close"
  obtains (cut) "close = []"
  | (failed) status message hint where "close = [BError status message hint]"
  | (said) ms where "list_all is_quiet ms" "close = ms @ [BDone]"
  | (called) calls ms where "list_all is_quiet ms" "filter is_delta ms = []"
      "close = BToolCalls (JArray calls) # ms @ [BDone]"
proof -
  consider "close = []" | status message hint where "close = [BError status message hint]"
    | j where "close = [BResult j, BDone]" | "is_ending close"
    using assms unfolding is_close_def by blast
  then show ?thesis
  proof cases
    case 3
    then show ?thesis by (intro said [of "[BResult j]"]) simp_all
  next
    case 4
    then show ?thesis
      unfolding is_ending_def
    proof (elim disjE exE conjE)
      fix x f served
      assume *: "close = x @ f @ served @ [BDone]" "x \<in> insert [] (range (\<lambda>t. [BDelta t]))"
        "f \<in> insert [] (range (\<lambda>r. [BFinish r]))"
        "served \<in> insert [] (range (\<lambda>(p, m, k, f). [BServed p m k f]))"
      then have "list_all is_quiet (x @ f @ served)" by auto
      with *(1) show ?thesis by (intro said [of "x @ f @ served"]) simp_all
    next
      fix calls served
      assume *: "close = BToolCalls (JArray calls) # served @ [BDone]"
        "served \<in> insert [] (range (\<lambda>(p, m, k, f). [BServed p m k f]))"
      then have "list_all is_quiet served" "filter is_delta served = []" by auto
      with *(1) show ?thesis by (intro called)
    qed
  qed (use cut failed in auto)
qed

lemma text_of_append [simp]: "text_of (xs @ ys) = text_of xs @ text_of ys"
  by (simp add: text_of_def)

lemma text_of_others [simp]:
  "text_of [] = []" "text_of [BDone] = []" "text_of [BError s m h] = []"
  "text_of (BToolCalls c # ms) = text_of ms"
  by (simp_all add: text_of_def)

lemma no_delta_text: "filter is_delta ms = [] \<Longrightarrow> text_of ms = []"
proof (induction ms)
  case (Cons m ms)
  then show ?case by (cases m) (auto simp: text_of_def)
qed simp

subsection \<open>A streaming dialect\<close>

text \<open>Whether a stream has to be complete: it may break off only when the request can be cancelled.\<close>

definition may_end :: "('a, 'w, 's) model_router \<Rightarrow> bool \<Rightarrow> bool" where
  "may_end m whole \<longleftrightarrow> whole \<or> \<not> never_cancelled m"

lemma answered_notes:
  assumes "answered m hold ms"
  shows "\<exists>notes close. ms = notes @ close \<and> list_all is_note notes \<and> is_close close
    \<and> may_end m (close \<noteq> [])"
proof -
  obtain progress ending where *: "ms = progress @ ending" "list_all (is_progress hold) progress"
      "(ending = [] \<and> \<not> never_cancelled m) \<or> is_ending ending
       \<or> (\<exists>status message hint. ending = [BError status message hint]) \<or> (\<exists>j. ending = [BResult j, BDone])"
    using assms unfolding answered_def by blast
  have "is_close ending" using *(3) unfolding is_close_def by metis
  moreover have "may_end m (ending \<noteq> [])" using *(3) is_ending_not_Nil unfolding may_end_def by auto
  ultimately show ?thesis using *(1) progress_notes [OF *(2)] by blast
qed

text \<open>A dialect frames the messages of a request as events. The contract: whatever answer arrives,
  the frame is a well-formed stream of the dialect (complete when the answer is) and spells the text
  of the answer.\<close>

locale dialect_stream =
  fixes frame :: "bridge_msg list \<Rightarrow> sse_event list"
    and well_formed :: "bool \<Rightarrow> sse_event list \<Rightarrow> bool"
    and spelled :: "sse_event list \<Rightarrow> string"
  assumes frame_ok: "list_all is_note ms \<Longrightarrow> is_close close
      \<Longrightarrow> well_formed (close \<noteq> []) (frame (ms @ close))"
    and frame_text: "list_all is_note ms \<Longrightarrow> is_close close
      \<Longrightarrow> spelled (frame (ms @ close)) = text_of (ms @ close)"
begin

lemma answer_framed:
  "answered m hold ms \<Longrightarrow>
     \<exists>whole. may_end m whole \<and> well_formed whole (frame ms) \<and> spelled (frame ms) = text_of ms"
  using answered_notes frame_ok frame_text by blast

lemma served_stream:
  "case serve m host rq (st\<lparr>bs_replies := []\<rparr>) of
     None \<Rightarrow> planning_hangs m host
   | Some st' \<Rightarrow>
       (\<exists>whole. may_end m whole \<and> well_formed whole (frame (bs_replies st')))
       \<and> spelled (frame (bs_replies st')) = text_of (bs_replies st')"
proof (cases "serve m host rq (st\<lparr>bs_replies := []\<rparr>)")
  case None
  then show ?thesis using serve_hangs by simp
next
  case (Some st')
  then obtain ms hold where "bs_replies st' = [] @ ms" "answered m hold ms"
    using serve_replies by fastforce
  with Some answer_framed show ?thesis by fastforce
qed

end

end
