(* ===== verification/Ingress_Anthropic.thy ===== *)
theory Ingress_Anthropic
  imports Gateway_Wire
begin

text \<open>
  The Anthropic Messages ingress (\<open>gateway_anthropic.rs\<close>): a request translated to the chat call of the
  router, and the answer framed as Anthropic events or as one message. \<open>render\<close> prints a JSON value,
  \<open>parse\<close> reads one. What the memory path adds to a request or keeps of an answer is not part of it.
\<close>

subsection \<open>The request\<close>

definition concat_texts :: "json list \<Rightarrow> string" where
  "concat_texts parts = concat (List.map_filter (\<lambda>p. get_str p ''text'') parts)"

definition tool_result_text :: "(json \<Rightarrow> string) \<Rightarrow> json \<Rightarrow> string" where
  "tool_result_text render block =
     (case json_get block ''content'' of
        Some (JString s) \<Rightarrow> s
      | Some (JArray parts) \<Rightarrow> concat_texts parts
      | Some JNull \<Rightarrow> []
      | Some v \<Rightarrow> render v
      | None \<Rightarrow> [])"

definition block_type :: "json \<Rightarrow> string" where
  "block_type b = or_blank (get_str b ''type'')"

definition call_of_block :: "(json \<Rightarrow> string) \<Rightarrow> json \<Rightarrow> json" where
  "call_of_block render b =
     jobj [(''id'', JString (or_blank (get_str b ''id''))), (''type'', JString ''function''),
       (''function'', jobj
         [(''name'', JString (or_blank (get_str b ''name''))),
          (''arguments'', JString (render
            (case json_get b ''input'' of Some v \<Rightarrow> v | None \<Rightarrow> jobj [])))])]"

definition result_of_block :: "(json \<Rightarrow> string) \<Rightarrow> json \<Rightarrow> json" where
  "result_of_block render b =
     jobj [(''role'', JString ''tool''),
       (''tool_call_id'', JString (or_blank (get_str b ''tool_use_id''))),
       (''content'', JString (tool_result_text render b))]"

definition text_message :: "string \<Rightarrow> string \<Rightarrow> json" where
  "text_message role txt = jobj [(''role'', JString role), (''content'', JString txt)]"

definition calls_message :: "string \<Rightarrow> string \<Rightarrow> json list \<Rightarrow> json" where
  "calls_message role txt calls =
     jobj [(''role'', JString role), (''content'', JString txt), (''tool_calls'', JArray calls)]"

text \<open>The walk over the blocks of one message.\<close>

record block_walk =
  bw_out :: "json list"
  bw_text :: string
  bw_calls :: "json list"
  bw_answered :: bool

definition walk_block :: "(json \<Rightarrow> string) \<Rightarrow> string \<Rightarrow> json \<Rightarrow> block_walk \<Rightarrow> block_walk" where
  "walk_block render role b w =
     (if block_type b = ''text''
      then w\<lparr>bw_text := bw_text w @ or_blank (get_str b ''text'')\<rparr>
      else if block_type b = ''tool_use''
      then w\<lparr>bw_calls := bw_calls w @ [call_of_block render b]\<rparr>
      else if block_type b = ''tool_result''
      then w\<lparr>bw_out := bw_out w @ (if bw_text w = [] then [] else [text_message role (bw_text w)])
               @ [result_of_block render b],
             bw_text := [], bw_answered := True\<rparr>
      else w)"

definition close_walk :: "string \<Rightarrow> block_walk \<Rightarrow> json list" where
  "close_walk role w =
     bw_out w
     @ (if bw_calls w \<noteq> [] then [calls_message role (bw_text w) (bw_calls w)]
        else if bw_text w \<noteq> [] \<or> \<not> bw_answered w then [text_message role (bw_text w)]
        else [])"

definition message_to_openai :: "(json \<Rightarrow> string) \<Rightarrow> json \<Rightarrow> json list" where
  "message_to_openai render m =
     (let role = (case get_str m ''role'' of Some r \<Rightarrow> r | None \<Rightarrow> ''user'') in
      case json_get m ''content'' of
        Some (JString t) \<Rightarrow> [text_message role t]
      | Some (JArray blocks) \<Rightarrow>
          close_walk role (fold (walk_block render role) blocks
            \<lparr>bw_out = [], bw_text = [], bw_calls = [], bw_answered = False\<rparr>)
      | _ \<Rightarrow> [text_message role []])"

definition request_messages :: "json \<Rightarrow> json list" where
  "request_messages req = (case get_array req ''messages'' of Some ms \<Rightarrow> ms | None \<Rightarrow> [])"

definition messages_to_openai :: "(json \<Rightarrow> string) \<Rightarrow> json \<Rightarrow> json list" where
  "messages_to_openai render req = concat (map (message_to_openai render) (request_messages req))"

definition system_messages :: "json \<Rightarrow> json list" where
  "system_messages req =
     (case json_get req ''system'' of
        Some (JString s) \<Rightarrow> [text_message ''system'' s]
      | Some (JArray blocks) \<Rightarrow>
          (if concat_texts blocks = [] then [] else [text_message ''system'' (concat_texts blocks)])
      | _ \<Rightarrow> [])"

definition empty_parameters :: json where
  "empty_parameters = jobj [(''type'', JString ''object''), (''properties'', jobj [])]"

text \<open>A declaration with its schema under one key or another.\<close>

definition declaration_of :: "string \<Rightarrow> json \<Rightarrow> json option" where
  "declaration_of schema_key t =
     (case get_str t ''name'' of
        None \<Rightarrow> None
      | Some name \<Rightarrow>
          Some (jobj [(''type'', JString ''function''),
            (''function'', jobj
              ([(''name'', JString name),
                (''parameters'', case json_get t schema_key of Some s \<Rightarrow> s | None \<Rightarrow> empty_parameters)]
               @ (case get_str t ''description'' of
                    Some d \<Rightarrow> [(''description'', JString d)]
                  | None \<Rightarrow> [])))]))"

definition nonempty_array :: "json list \<Rightarrow> json option" where
  "nonempty_array xs = (if xs = [] then None else Some (JArray xs))"

definition anthropic_tools :: "json \<Rightarrow> json option" where
  "anthropic_tools tools =
     Option.bind (as_array tools)
       (\<lambda>ts. nonempty_array (List.map_filter (declaration_of ''input_schema'') ts))"

definition forced_tool :: "string \<Rightarrow> json" where
  "forced_tool n =
     jobj [(''type'', JString ''function''), (''function'', jobj [(''name'', JString n)])]"

definition anthropic_tool_choice :: "json \<Rightarrow> json option" where
  "anthropic_tool_choice tc =
     (let kind = (case get_str tc ''type'' of Some t \<Rightarrow> t | None \<Rightarrow> ''auto'') in
      if kind = ''tool'' then map_option forced_tool (get_str tc ''name'')
      else if kind = ''any'' then Some (JString ''required'')
      else if kind = ''none'' then Some (JString ''none'')
      else Some (JString ''auto''))"

definition opt_entry :: "string \<Rightarrow> json option \<Rightarrow> (string \<times> json) list" where
  "opt_entry k v = (case v of Some x \<Rightarrow> [(k, x)] | None \<Rightarrow> [])"

definition jint :: "int \<Rightarrow> json" where
  "jint i = JNumber (if 0 \<le> i then PosInt (nat i) else NegInt i)"

definition wants_stream :: "json \<Rightarrow> bool" where
  "wants_stream req = (Option.bind (json_get req ''stream'') as_boolean = Some True)"

definition max_tokens_or_default :: "json option \<Rightarrow> json" where
  "max_tokens_or_default v = jint (case Option.bind v as_i64 of Some n \<Rightarrow> n | None \<Rightarrow> 1024)"

definition to_chat_body :: "(json \<Rightarrow> string) \<Rightarrow> json \<Rightarrow> json option" where
  "to_chat_body render req =
     (case (get_str req ''model'', get_array req ''messages'') of
        (Some model, Some _) \<Rightarrow>
          Some (jobj
            ([(''model'', JString model),
              (''messages'', JArray (system_messages req @ messages_to_openai render req)),
              (''stream'', JBool (wants_stream req)),
              (''max_tokens'', max_tokens_or_default (json_get req ''max_tokens''))]
             @ opt_entry ''tools'' (Option.bind (json_get req ''tools'') anthropic_tools)
             @ opt_entry ''tool_choice'' (Option.bind (json_get req ''tool_choice'') anthropic_tool_choice)
             @ opt_entry ''response_format'' (json_get req ''response_format'')))
      | _ \<Rightarrow> None)"

text \<open>The tools toggle: what the handlers take out of a body.\<close>

definition strip_tool_fields :: "bool \<Rightarrow> json \<Rightarrow> json" where
  "strip_tool_fields enabled body =
     (if enabled then body
      else on_object (map_remove ''response_format'' \<circ> map_remove ''tool_choice'' \<circ> map_remove ''tools'') body)"

subsection \<open>The estimate of a prompt\<close>

definition IMAGE_TOKENS :: nat where
  "IMAGE_TOKENS = 1024"

definition count_block :: "(json \<Rightarrow> string) \<Rightarrow> json \<Rightarrow> nat" where
  "count_block render b =
     (if block_type b = ''text'' then length (or_blank (get_str b ''text''))
      else if block_type b = ''tool_use''
      then length (or_blank (get_str b ''name''))
           + (case json_get b ''input'' of Some v \<Rightarrow> length (render v) | None \<Rightarrow> 0)
      else if block_type b = ''tool_result'' then length (tool_result_text render b)
      else if block_type b = ''image'' then IMAGE_TOKENS * 4
      else 0)"

definition count_content :: "(json \<Rightarrow> string) \<Rightarrow> json \<Rightarrow> nat" where
  "count_content render m =
     (case json_get m ''content'' of
        Some (JString t) \<Rightarrow> length t
      | Some (JArray blocks) \<Rightarrow> sum_list (map (count_block render) blocks)
      | _ \<Rightarrow> 0)"

definition count_system :: "json \<Rightarrow> nat" where
  "count_system req =
     (case json_get req ''system'' of
        Some (JString s) \<Rightarrow> length s
      | Some (JArray blocks) \<Rightarrow> sum_list (map (\<lambda>b. length (or_blank (get_str b ''text''))) blocks)
      | _ \<Rightarrow> 0)"

definition count_text_chars :: "(json \<Rightarrow> string) \<Rightarrow> json \<Rightarrow> nat" where
  "count_text_chars render req =
     count_system req + sum_list (map (count_content render) (request_messages req))
     + (case json_get req ''tools'' of Some t \<Rightarrow> length (render t) | None \<Rightarrow> 0)"

definition count_tokens_answer :: "(json \<Rightarrow> string) \<Rightarrow> json option \<Rightarrow> http_answer" where
  "count_tokens_answer render body =
     (case body of
        None \<Rightarrow> http_err 400 (anthropic_error ''invalid JSON body'' ''invalid_request_error'')
      | Some req \<Rightarrow>
          \<lparr>ha_status = 200, ha_retry_after = None,
           ha_body = jobj [(''input_tokens'', jnat (count_text_chars render req div 4))]\<rparr>)"

subsection \<open>The event stream\<close>

definition anthropic_stop_reason :: "string option \<Rightarrow> string" where
  "anthropic_stop_reason cls =
     (if cls = Some ''length'' then ''max_tokens''
      else if cls = Some ''tool_use'' \<or> cls = Some ''tool_calls'' then ''tool_use''
      else if cls = Some ''content_filter'' then ''refusal''
      else ''end_turn'')"

definition typed :: "string \<Rightarrow> (string \<times> json) list \<Rightarrow> sse_event" where
  "typed name kvs = SseNamed name (jobj ((''type'', JString name) # kvs))"

definition block_start :: "nat \<Rightarrow> json \<Rightarrow> sse_event" where
  "block_start i block = typed ''content_block_start'' [(''index'', jnat i), (''content_block'', block)]"

definition block_delta :: "nat \<Rightarrow> json \<Rightarrow> sse_event" where
  "block_delta i delta = typed ''content_block_delta'' [(''index'', jnat i), (''delta'', delta)]"

definition block_stop :: "nat \<Rightarrow> sse_event" where
  "block_stop i = typed ''content_block_stop'' [(''index'', jnat i)]"

definition text_delta :: "string \<Rightarrow> json" where
  "text_delta t = jobj [(''type'', JString ''text_delta''), (''text'', JString t)]"

definition token_usage :: "nat \<times> nat \<Rightarrow> json" where
  "token_usage u = jobj [(''input_tokens'', jnat (fst u)), (''output_tokens'', jnat (snd u))]"

definition anthropic_opening :: "string \<Rightarrow> string \<Rightarrow> sse_event list" where
  "anthropic_opening mid model =
     [typed ''message_start''
        [(''message'', jobj
          [(''id'', JString mid), (''type'', JString ''message''), (''role'', JString ''assistant''),
           (''content'', JArray []), (''model'', JString model), (''stop_reason'', JNull),
           (''usage'', token_usage (0, 0))])],
      block_start 0 (jobj [(''type'', JString ''text''), (''text'', JString [])])]"

text \<open>The three events of a call.\<close>

definition call_events :: "(json \<Rightarrow> string) \<Rightarrow> nat \<times> json \<Rightarrow> sse_event list" where
  "call_events render itc =
     (case itc of
        (i, tc) \<Rightarrow>
          [block_start (1 + i) (jobj
             [(''type'', JString ''tool_use''), (''id'', JString (or_blank (get_str tc ''id''))),
              (''name'', JString (call_name_of tc))]),
           block_delta (1 + i) (jobj
             [(''type'', JString ''input_json_delta''),
              (''partial_json'', JString (call_args_text render tc))]),
           block_stop (1 + i)])"

record anthropic_turn =
  at_events :: "sse_event list"
  at_tools :: bool
  at_finish :: "string option"
  at_usage :: "(nat \<times> nat) option"
  at_failed :: bool

definition emit :: "sse_event list \<Rightarrow> anthropic_turn \<Rightarrow> anthropic_turn" where
  "emit es t = t\<lparr>at_events := at_events t @ es\<rparr>"

text \<open>The loop over the messages until \<open>Done\<close>, an error, or the channel closes.\<close>

fun anthropic_loop :: "(json \<Rightarrow> string) \<Rightarrow> bridge_msg list \<Rightarrow> anthropic_turn \<Rightarrow> anthropic_turn" where
  "anthropic_loop render [] t = t"
| "anthropic_loop render (BDone # ms) t = t"
| "anthropic_loop render (BError status message _ # ms) t =
     (emit [SseNamed ''error'' (anthropic_error message (anthropic_error_kind (worker_status status)))] t)
       \<lparr>at_failed := True\<rparr>"
| "anthropic_loop render (BDelta x # ms) t =
     anthropic_loop render ms (emit [block_delta 0 (text_delta x)] t)"
| "anthropic_loop render (BFinish reason # ms) t =
     anthropic_loop render ms (t\<lparr>at_finish := Some reason\<rparr>)"
| "anthropic_loop render (BToolCalls calls # ms) t =
     anthropic_loop render ms
       ((emit (block_stop 0 # concat (map (call_events render) (enumerate 0 (calls_of calls)))) t)
          \<lparr>at_tools := True\<rparr>)"
| "anthropic_loop render (BUsage pt ct # ms) t =
     anthropic_loop render ms (t\<lparr>at_usage := Some (pt, ct)\<rparr>)"
| "anthropic_loop render (_ # ms) t = anthropic_loop render ms t"

definition anthropic_closing :: "anthropic_turn \<Rightarrow> sse_event list" where
  "anthropic_closing t =
     (if at_tools t then [] else [block_stop 0])
     @ [typed ''message_delta''
          [(''delta'', jobj
             [(''stop_reason'', JString (if at_tools t then ''tool_use'' else anthropic_stop_reason (at_finish t))),
              (''stop_sequence'', JNull)]),
           (''usage'', token_usage (case at_usage t of Some u \<Rightarrow> u | None \<Rightarrow> (0, 0)))],
        typed ''message_stop'' []]"

definition anthropic_stream :: "(json \<Rightarrow> string) \<Rightarrow> string \<Rightarrow> string \<Rightarrow> bridge_msg list \<Rightarrow> sse_event list" where
  "anthropic_stream render mid model ms =
     (let t = anthropic_loop render ms
            \<lparr>at_events = anthropic_opening mid model, at_tools = False, at_finish = None,
             at_usage = None, at_failed = False\<rparr>
      in at_events t @ (if at_failed t then [] else anthropic_closing t))"

subsection \<open>One message\<close>

record anthropic_answer =
  aa_full :: string
  aa_blocks :: "json list"
  aa_tools :: bool
  aa_finish :: "string option"
  aa_usage :: "(nat \<times> nat) option"
  aa_error :: "(nat \<times> string \<times> nat option) option"

definition tool_use_block :: "(json \<Rightarrow> string) \<Rightarrow> (string \<Rightarrow> json option) \<Rightarrow> json \<Rightarrow> json" where
  "tool_use_block render parse tc =
     (let args = call_args_text render tc in
      jobj [(''type'', JString ''tool_use''), (''id'', JString (or_blank (get_str tc ''id''))),
        (''name'', JString (call_name_of tc)),
        (''input'', case parse args of Some v \<Rightarrow> v | None \<Rightarrow> JString args)])"

fun anthropic_collect ::
  "(json \<Rightarrow> string) \<Rightarrow> (string \<Rightarrow> json option) \<Rightarrow> bridge_msg list \<Rightarrow> anthropic_answer \<Rightarrow> anthropic_answer"
where
  "anthropic_collect render parse [] a = a"
| "anthropic_collect render parse (BDone # ms) a = a"
| "anthropic_collect render parse (BError status message hint # ms) a =
     a\<lparr>aa_error := Some (status, message, hint)\<rparr>"
| "anthropic_collect render parse (BToolCalls calls # ms) a =
     a\<lparr>aa_tools := True,
       aa_blocks := aa_blocks a @ map (tool_use_block render parse) (calls_of calls)\<rparr>"
| "anthropic_collect render parse (BDelta x # ms) a =
     anthropic_collect render parse ms (a\<lparr>aa_full := aa_full a @ x\<rparr>)"
| "anthropic_collect render parse (BFinish reason # ms) a =
     anthropic_collect render parse ms (a\<lparr>aa_finish := Some reason\<rparr>)"
| "anthropic_collect render parse (BUsage pt ct # ms) a =
     anthropic_collect render parse ms (a\<lparr>aa_usage := Some (pt, ct)\<rparr>)"
| "anthropic_collect render parse (_ # ms) a = anthropic_collect render parse ms a"

definition anthropic_content :: "anthropic_answer \<Rightarrow> json list" where
  "anthropic_content a =
     (let txt = clean_assistant_text (aa_full a) in
      (if str_trim txt \<noteq> [] \<or> aa_blocks a = []
       then [jobj [(''type'', JString ''text''), (''text'', JString txt)]] else [])
      @ aa_blocks a)"

definition anthropic_reply ::
  "(json \<Rightarrow> string) \<Rightarrow> (string \<Rightarrow> json option) \<Rightarrow> string \<Rightarrow> string \<Rightarrow> bridge_msg list \<Rightarrow> http_answer"
where
  "anthropic_reply render parse mid model ms =
     (let a = anthropic_collect render parse ms
            \<lparr>aa_full = [], aa_blocks = [], aa_tools = False, aa_finish = None, aa_usage = None,
             aa_error = None\<rparr>
      in case aa_error a of
           Some (status, message, hint) \<Rightarrow>
             err_with_cooldown (worker_status status) hint
               (anthropic_error message (anthropic_error_kind (worker_status status)))
         | None \<Rightarrow>
             \<lparr>ha_status = 200, ha_retry_after = None,
              ha_body = jobj
                [(''id'', JString mid), (''type'', JString ''message''), (''role'', JString ''assistant''),
                 (''content'', JArray (anthropic_content a)), (''model'', JString model),
                 (''stop_reason'', JString
                   (if aa_tools a then ''tool_use'' else anthropic_stop_reason (aa_finish a))),
                 (''stop_sequence'', JNull),
                 (''usage'', token_usage (case aa_usage a of Some u \<Rightarrow> u | None \<Rightarrow> (0, 0)))]\<rparr>)"

end
