(* ===== verification/Ingress_Openai.thy ===== *)
theory Ingress_Openai
  imports Ingress_Anthropic
begin

text \<open>
  The OpenAI-compatible routes (\<open>gateway_handlers.rs\<close>) and the replay cache behind their idempotency
  keys (\<open>persist.rs\<close>): chat completions as a stream of chunks or one object, models and images. What
  the gate, the slot and the memory path decide is given; the bridge is a function from the dispatched
  request to the messages the handler receives.
\<close>

subsection \<open>The replay cache\<close>

text \<open>
  A row is the raw body of the first request, the answer once there is one, and when it was made. The
  operations hold the connection of this process; the database is shared with the other process that
  serves the same store, so what is between the statements of a claim is an argument, as are the
  statements that fail: \<open>io_between\<close> and \<open>io_before_reread\<close> are what the other process does to the table
  before the insertion and before the row of a lost race is read again.
\<close>

record idem_slot =
  is_fingerprint :: string
  is_response :: "(nat \<times> string) option"
  is_created :: int

type_synonym idem_table = "string \<times> string \<Rightarrow> idem_slot option"

record idem_outside =
  io_read_fails :: bool
  io_between :: "idem_table \<Rightarrow> idem_table"
  io_insert_fails :: bool
  io_before_reread :: "idem_table \<Rightarrow> idem_table"
  io_reread_fails :: bool
  io_complete_fails :: bool

definition working_idem :: idem_outside where
  "working_idem =
     \<lparr>io_read_fails = False, io_between = (\<lambda>t. t), io_insert_fails = False,
      io_before_reread = (\<lambda>t. t), io_reread_fails = False, io_complete_fails = False\<rparr>"

datatype idem_begin = IdemReserved | IdemReplay nat string | IdemConflict bool

text \<open>What a row that is there says to a claim.\<close>

definition claim_taken :: "string \<Rightarrow> idem_slot \<Rightarrow> idem_begin" where
  "claim_taken fingerprint slot =
     (if is_fingerprint slot \<noteq> fingerprint then IdemConflict False
      else case is_response slot of
             Some (status, body) \<Rightarrow> IdemReplay status body
           | None \<Rightarrow> IdemConflict True)"

text \<open>\<open>None\<close> is the error of a statement that failed.\<close>

definition idempotency_begin ::
  "idem_outside \<Rightarrow> int \<Rightarrow> string \<Rightarrow> string \<Rightarrow> string \<Rightarrow> idem_table \<Rightarrow> idem_begin option \<times> idem_table" where
  "idempotency_begin io now key scope fingerprint table =
     (if io_read_fails io then (None, table)
      else case table (key, scope) of
        Some slot \<Rightarrow> (Some (claim_taken fingerprint slot), table)
      | None \<Rightarrow>
          (let table1 = io_between io table in
           if io_insert_fails io then (None, table1)
           else if table1 (key, scope) = None
           then (Some IdemReserved,
                 table1((key, scope) \<mapsto> \<lparr>is_fingerprint = fingerprint, is_response = None, is_created = now\<rparr>))
           else
             (let table2 = io_before_reread io table1 in
              if io_reread_fails io then (None, table2)
              else (Some (case table2 (key, scope) of
                            Some slot \<Rightarrow> claim_taken fingerprint slot
                          | None \<Rightarrow> IdemConflict True), table2))))"

definition idempotency_complete ::
  "idem_outside \<Rightarrow> string \<Rightarrow> string \<Rightarrow> nat \<Rightarrow> string \<Rightarrow> idem_table \<Rightarrow> idem_table" where
  "idempotency_complete io key scope status body table =
     (if io_complete_fails io then table
      else case table (key, scope) of
        Some slot \<Rightarrow> table((key, scope) \<mapsto> slot\<lparr>is_response := Some (status, body)\<rparr>)
      | None \<Rightarrow> table)"

definition IDEMPOTENCY_TTL_MS :: int where
  "IDEMPOTENCY_TTL_MS = 24 * 60 * 60 * 1000"

definition idempotency_prune :: "int \<Rightarrow> idem_table \<Rightarrow> idem_table" where
  "idempotency_prune now table k =
     (case table k of
        Some slot \<Rightarrow> if is_created slot < now - IDEMPOTENCY_TTL_MS then None else Some slot
      | None \<Rightarrow> None)"

subsection \<open>The stream of chunks\<close>

definition gw_id :: "nat \<Rightarrow> json" where
  "gw_id n = JString (''gw-'' @ show_nat n)"

definition chunk_event :: "nat \<Rightarrow> string \<Rightarrow> (string \<times> json) list \<Rightarrow> (string \<times> json) list \<Rightarrow> sse_event" where
  "chunk_event n model choice extra =
     SseData (jobj ([(''id'', gw_id n), (''object'', JString ''chat.completion.chunk''),
       (''model'', JString model), (''choices'', JArray [jobj ((''index'', jnat 0) # choice)])] @ extra))"

definition served_json :: "string \<Rightarrow> string \<Rightarrow> string \<Rightarrow> json list \<Rightarrow> json" where
  "served_json provider model key fallbacks =
     jobj [(''provider'', JString provider), (''model'', JString model), (''key'', JString key),
       (''fallbacks'', JArray fallbacks)]"

definition retry_json :: "retry_notice \<Rightarrow> json" where
  "retry_json n =
     jobj [(''provider'', JString (n_provider n)), (''key'', JString (n_key n)),
       (''attempt'', jnat (n_attempt n)), (''max'', jnat (n_max n)),
       (''delay_ms'', jnat (n_delay_ms n)), (''reason'', JString (n_reason n))]"

definition full_usage :: "nat \<times> nat \<Rightarrow> json" where
  "full_usage u =
     jobj [(''prompt_tokens'', jnat (fst u)), (''completion_tokens'', jnat (snd u)),
       (''total_tokens'', jnat (u64_add (fst u) (snd u)))]"

record openai_turn =
  ot_events :: "sse_event list"
  ot_started :: bool
  ot_tools :: bool
  ot_served :: "json option"
  ot_finish :: "string option"
  ot_usage :: "(nat \<times> nat) option"

definition send :: "sse_event \<Rightarrow> openai_turn \<Rightarrow> openai_turn" where
  "send e t = t\<lparr>ot_events := ot_events t @ [e]\<rparr>"

text \<open>A piece of text or reasoning; the first of the stream announces the role.\<close>

definition send_piece :: "nat \<Rightarrow> string \<Rightarrow> string \<Rightarrow> string \<Rightarrow> openai_turn \<Rightarrow> openai_turn" where
  "send_piece n model key x t =
     (if x = [] then t
      else send (chunk_event n model
             [(''delta'', jobj ((if ot_started t then [] else [(''role'', JString ''assistant'')])
                @ [(key, JString x)]))] []) (t\<lparr>ot_started := True\<rparr>))"

definition terminal_chunk :: "nat \<Rightarrow> string \<Rightarrow> openai_turn \<Rightarrow> sse_event" where
  "terminal_chunk n model t =
     chunk_event n model
       ([(''delta'', jobj []),
         (''finish_reason'', JString (case ot_finish t of
            Some r \<Rightarrow> r
          | None \<Rightarrow> if ot_tools t then ''tool_calls'' else ''stop'')),
         (''usage'', full_usage (case ot_usage t of Some u \<Rightarrow> u | None \<Rightarrow> (0, 0)))]
        @ opt_entry ''served_by'' (ot_served t))
       (opt_entry ''usage'' (map_option full_usage (ot_usage t)))"

definition openai_stream_error :: "nat \<Rightarrow> string \<Rightarrow> sse_event" where
  "openai_stream_error status message =
     SseData (on_key ''error'' (set_key ''status'' (jnat (worker_status status)))
       (openai_error message ''upstream_error'' None))"

fun openai_loop :: "nat \<Rightarrow> string \<Rightarrow> bridge_msg list \<Rightarrow> openai_turn \<Rightarrow> openai_turn" where
  "openai_loop n model [] t = t"
| "openai_loop n model (BDone # ms) t = send (SseRaw ''[DONE]'') (send (terminal_chunk n model t) t)"
| "openai_loop n model (BError status message hint # ms) t = send (openai_stream_error status message) t"
| "openai_loop n model (BDelta x # ms) t = openai_loop n model ms (send_piece n model ''content'' x t)"
| "openai_loop n model (BReasoning x # ms) t =
     openai_loop n model ms (send_piece n model ''reasoning_content'' x t)"
| "openai_loop n model (BRetry r # ms) t =
     openai_loop n model ms
       (send (chunk_event n model [(''delta'', jobj []), (''aip_retry'', retry_json r)] []) t)"
| "openai_loop n model (BFinish reason # ms) t = openai_loop n model ms (t\<lparr>ot_finish := Some reason\<rparr>)"
| "openai_loop n model (BToolCalls calls # ms) t =
     openai_loop n model ms
       (send (chunk_event n model [(''delta'', jobj [(''tool_calls'', calls)])] []) (t\<lparr>ot_tools := True\<rparr>))"
| "openai_loop n model (BUsage pt ct # ms) t = openai_loop n model ms (t\<lparr>ot_usage := Some (pt, ct)\<rparr>)"
| "openai_loop n model (BServed p mo k f # ms) t =
     openai_loop n model ms (t\<lparr>ot_served := Some (served_json p mo k f)\<rparr>)"
| "openai_loop n model (BLiveness # ms) t = openai_loop n model ms t"
| "openai_loop n model (BResult _ # ms) t = openai_loop n model ms t"

definition openai_stream :: "nat \<Rightarrow> string \<Rightarrow> bridge_msg list \<Rightarrow> sse_event list" where
  "openai_stream n model ms =
     ot_events (openai_loop n model ms
       \<lparr>ot_events = [], ot_started = False, ot_tools = False, ot_served = None, ot_finish = None,
        ot_usage = None\<rparr>)"

subsection \<open>One object\<close>

record openai_answer =
  oa_full :: string
  oa_reasoning :: string
  oa_calls :: "string option"
  oa_usage :: "(nat \<times> nat) option"
  oa_error :: "(nat \<times> string \<times> nat option) option"
  oa_finish :: "string option"
  oa_served :: "json option"

fun openai_collect :: "(json \<Rightarrow> string) \<Rightarrow> bridge_msg list \<Rightarrow> openai_answer \<Rightarrow> openai_answer" where
  "openai_collect render [] a = a"
| "openai_collect render (BDone # ms) a = a"
| "openai_collect render (BError status message hint # ms) a =
     a\<lparr>oa_error := Some (status, message, hint)\<rparr>"
| "openai_collect render (BToolCalls calls # ms) a = a\<lparr>oa_calls := Some (render calls)\<rparr>"
| "openai_collect render (BDelta x # ms) a = openai_collect render ms (a\<lparr>oa_full := oa_full a @ x\<rparr>)"
| "openai_collect render (BReasoning x # ms) a =
     openai_collect render ms (a\<lparr>oa_reasoning := oa_reasoning a @ x\<rparr>)"
| "openai_collect render (BFinish reason # ms) a = openai_collect render ms (a\<lparr>oa_finish := Some reason\<rparr>)"
| "openai_collect render (BUsage pt ct # ms) a = openai_collect render ms (a\<lparr>oa_usage := Some (pt, ct)\<rparr>)"
| "openai_collect render (BServed p mo k f # ms) a =
     openai_collect render ms (a\<lparr>oa_served := Some (served_json p mo k f)\<rparr>)"
| "openai_collect render (_ # ms) a = openai_collect render ms a"

definition openai_failure :: "nat \<times> string \<times> nat option \<Rightarrow> http_answer" where
  "openai_failure e =
     (case e of
        (status, message, hint) \<Rightarrow>
          (let code = worker_status status in
           if code = 503
           then err_ra code (case cooldown_secs hint of Some s \<Rightarrow> s | None \<Rightarrow> ''1'')
                  (openai_error message ''service_unavailable'' None)
           else err_with_cooldown code hint (openai_error message ''upstream_error'' None)))"

definition openai_message :: "openai_answer \<Rightarrow> json option \<Rightarrow> json" where
  "openai_message a calls =
     jobj ([(''role'', JString ''assistant''), (''content'', JString (clean_assistant_text (oa_full a)))]
       @ (if oa_reasoning a = [] then [] else [(''reasoning_content'', JString (oa_reasoning a))])
       @ opt_entry ''tool_calls'' calls)"

definition openai_payload ::
  "(string \<Rightarrow> json option) \<Rightarrow> nat \<Rightarrow> string \<Rightarrow> openai_answer \<Rightarrow> json" where
  "openai_payload parse n model a =
     (let calls = (case oa_calls a of
            Some txt \<Rightarrow>
              (case parse txt of Some JNull \<Rightarrow> None | Some v \<Rightarrow> Some v | None \<Rightarrow> None)
          | None \<Rightarrow> None);
          reason = (if calls \<noteq> None then ''tool_calls''
                    else case oa_finish a of Some r \<Rightarrow> r | None \<Rightarrow> ''stop'');
          choice = jobj ([(''index'', jnat 0), (''message'', openai_message a calls),
              (''finish_reason'', JString reason)]
            @ opt_entry ''usage'' (map_option (\<lambda>(pt, ct). jobj [(''prompt_tokens'', jnat pt),
                (''completion_tokens'', jnat ct)]) (oa_usage a)))
      in jobj ([(''id'', gw_id n), (''object'', JString ''chat.completion''), (''model'', JString model),
           (''choices'', JArray [choice]),
           (''usage'', case oa_usage a of Some u \<Rightarrow> full_usage u | None \<Rightarrow> JNull)]
         @ opt_entry ''served_by'' (oa_served a)))"

definition collected_answer :: "(json \<Rightarrow> string) \<Rightarrow> bridge_msg list \<Rightarrow> openai_answer" where
  "collected_answer render ms =
     openai_collect render ms
       \<lparr>oa_full = [], oa_reasoning = [], oa_calls = None, oa_usage = None, oa_error = None,
        oa_finish = None, oa_served = None\<rparr>"

subsection \<open>The routes\<close>

text \<open>What a handler is given: the verdict of the gate and the admission, the toggle, the memory path, the
  bridge, the clock and whether there is a store.\<close>

record gateway_env =
  ge_gate :: "gate_refusal + string option"
  ge_slot :: "http_answer + nat"
  ge_tools_enabled :: bool
  ge_inject :: "json \<Rightarrow> json"
  ge_bridge :: "bridge_request \<Rightarrow> bridge_msg list"
  ge_now :: int
  ge_has_store :: bool
  ge_idem :: idem_outside
  ge_parse :: "string \<Rightarrow> json option"
  ge_render :: "json \<Rightarrow> string"

datatype gateway_response = Answer http_answer | Stream "sse_event list" | Replayed nat string

definition invalid :: "string \<Rightarrow> string option \<Rightarrow> http_answer" where
  "invalid message code = http_err 400 (openai_error message ''invalid_request'' code)"

definition chat_refusal :: "json \<Rightarrow> http_answer option" where
  "chat_refusal req =
     (if json_get req ''functions'' \<noteq> None \<and> json_get req ''functions'' \<noteq> Some JNull
      then Some (invalid ''functions is not supported yet'' (Some ''unsupported_parameter''))
      else if or_blank (get_str req ''model'') = []
      then Some (invalid ''model is required'' None)
      else None)"

definition idem_key_of :: "(string \<Rightarrow> string option) \<Rightarrow> string option" where
  "idem_key_of headers =
     (case headers ''idempotency-key'' of
        Some k \<Rightarrow> if str_trim k \<noteq> [] then Some k else None
      | None \<Rightarrow> None)"

definition bridge_request_of ::
  "string \<Rightarrow> json \<Rightarrow> (string \<Rightarrow> string option) \<Rightarrow> string option \<Rightarrow> bridge_request" where
  "bridge_request_of kind body headers app_key =
     \<lparr>bq_kind = kind, bq_body = body, bq_headers = forwarded_headers headers, bq_app_key_id = app_key\<rparr>"

text \<open>The answer of a dispatched request; the payload is kept for a replay when the request has a key.\<close>

definition chat_answer ::
  "gateway_env \<Rightarrow> string option \<Rightarrow> string \<Rightarrow> nat \<Rightarrow> string \<Rightarrow> bridge_msg list \<Rightarrow> idem_table
     \<Rightarrow> gateway_response \<times> idem_table" where
  "chat_answer env idem_key scope n model ms table =
     (let a = collected_answer (ge_render env) ms in
      case oa_error a of
        Some e \<Rightarrow> (Answer (openai_failure e), table)
      | None \<Rightarrow>
          (let payload = openai_payload (ge_parse env) n model a in
           (Answer \<lparr>ha_status = 200, ha_retry_after = None, ha_body = payload\<rparr>,
            case idem_key of
              Some k \<Rightarrow>
                if ge_has_store env then idempotency_complete (ge_idem env) k scope 200 (ge_render env payload) table
                else table
            | None \<Rightarrow> table)))"

definition chat_dispatch ::
  "gateway_env \<Rightarrow> (string \<Rightarrow> string option) \<Rightarrow> string option \<Rightarrow> string option \<Rightarrow> json \<Rightarrow> bool \<Rightarrow> idem_table
     \<Rightarrow> gateway_response \<times> idem_table \<times> bridge_request list" where
  "chat_dispatch env headers app_key idem_key req streaming table =
     (case ge_slot env of
        Inl refusal \<Rightarrow> (Answer refusal, table, [])
      | Inr n \<Rightarrow>
          (let rq = bridge_request_of ''chat'' (ge_inject env req) headers app_key;
               model = or_blank (get_str req ''model'');
               scope = (case app_key of Some k \<Rightarrow> k | None \<Rightarrow> ''master'')
           in if streaming then (Stream (openai_stream n model (ge_bridge env rq)), table, [rq])
              else (case chat_answer env idem_key scope n model (ge_bridge env rq) table of
                      (r, table') \<Rightarrow> (r, table', [rq]))))"

definition chat_h ::
  "gateway_env \<Rightarrow> (string \<Rightarrow> string option) \<Rightarrow> string \<Rightarrow> idem_table
     \<Rightarrow> gateway_response \<times> idem_table \<times> bridge_request list" where
  "chat_h env headers body table =
     (case ge_gate env of
        Inl r \<Rightarrow> (Answer (refusal_openai r), table, [])
      | Inr app_key \<Rightarrow>
          (case ge_parse env body of
             None \<Rightarrow> (Answer (invalid ''invalid JSON body'' None), table, [])
           | Some req0 \<Rightarrow>
               (case chat_refusal req0 of
                  Some r \<Rightarrow> (Answer r, table, [])
                | None \<Rightarrow>
                    (let streaming = wants_stream req0;
                         req = strip_tool_fields (ge_tools_enabled env) req0;
                         idem_key = idem_key_of headers;
                         scope = (case app_key of Some k \<Rightarrow> k | None \<Rightarrow> ''master'')
                     in if streaming \<and> idem_key \<noteq> None
                        then (Answer (invalid
                          ''idempotency keys apply to non-streaming requests only'' None), table, [])
                        else
                          (case (case idem_key of
                                   Some k \<Rightarrow>
                                     if ge_has_store env
                                     then idempotency_begin (ge_idem env) (ge_now env) k scope body table
                                     else (None, table)
                                 | None \<Rightarrow> (None, table)) of
                             (Some (IdemReplay status cached), table') \<Rightarrow>
                               (Replayed status cached, table', [])
                           | (Some (IdemConflict in_progress), table') \<Rightarrow>
                               (Answer (http_err 409 (openai_error
                                  (if in_progress
                                   then ''a request with this idempotency key is already in progress''
                                   else ''this idempotency key was already used with a different request body'')
                                  ''conflict'' None)), table', [])
                           | (_, table') \<Rightarrow>
                               chat_dispatch env headers app_key idem_key req streaming table')))))"

text \<open>The loops of the routes that answer with one result.\<close>

fun one_result :: "bridge_msg list \<Rightarrow> http_answer option" where
  "one_result [] = None"
| "one_result (BDone # ms) = None"
| "one_result (BResult v # ms) = Some \<lparr>ha_status = 200, ha_retry_after = None, ha_body = v\<rparr>"
| "one_result (BError status message hint # ms) =
     Some (err_with_cooldown (worker_status status) hint (openai_error message ''upstream_error'' None))"
| "one_result (_ # ms) = one_result ms"

definition single_route ::
  "gateway_env \<Rightarrow> string \<Rightarrow> (string \<Rightarrow> string option) \<Rightarrow> string option \<Rightarrow> json
     \<Rightarrow> http_answer \<times> bridge_request list" where
  "single_route env kind headers app_key body =
     (case ge_slot env of
        Inl refusal \<Rightarrow> (refusal, [])
      | Inr n \<Rightarrow>
          (let rq = bridge_request_of kind body headers app_key
           in (case one_result (ge_bridge env rq) of
                 Some r \<Rightarrow> r
               | None \<Rightarrow> http_err 502 (openai_error (''empty '' @ kind @ '' response from core'')
                   ''upstream_error'' None), [rq])))"

definition models_h :: "gateway_env \<Rightarrow> (string \<Rightarrow> string option) \<Rightarrow> http_answer \<times> bridge_request list" where
  "models_h env headers =
     (case ge_gate env of
        Inl r \<Rightarrow> (refusal_openai r, [])
      | Inr app_key \<Rightarrow> single_route env ''models'' headers app_key (jobj []))"

definition image_h ::
  "gateway_env \<Rightarrow> (string \<Rightarrow> string option) \<Rightarrow> string \<Rightarrow> http_answer \<times> bridge_request list" where
  "image_h env headers body =
     (case ge_gate env of
        Inl r \<Rightarrow> (refusal_openai r, [])
      | Inr app_key \<Rightarrow>
          (case ge_parse env body of
             None \<Rightarrow> (invalid ''invalid JSON body'' None, [])
           | Some req \<Rightarrow>
               (if or_blank (get_str req ''model'') = [] \<or> or_blank (get_str req ''prompt'') = []
                then (invalid ''model and prompt are required'' None, [])
                else single_route env ''image'' headers app_key req)))"

definition unknown_route :: "gateway_env \<Rightarrow> http_answer" where
  "unknown_route env =
     (case ge_gate env of
        Inl r \<Rightarrow> refusal_openai r
      | Inr _ \<Rightarrow> http_err 404 (openai_error ''route not found'' ''not_found'' (Some ''unknown_route'')))"

definition method_not_allowed :: "gateway_env \<Rightarrow> http_answer" where
  "method_not_allowed env =
     (case ge_gate env of
        Inl r \<Rightarrow> refusal_openai r
      | Inr _ \<Rightarrow>
          http_err 405 (openai_error ''method not allowed'' ''invalid_request'' (Some ''unsupported_method'')))"

end
