(* ===== verification/Ingress_Gemini.thy ===== *)
theory Ingress_Gemini
  imports Ingress_Openai
begin

text \<open>
  The Gemini generateContent ingress (\<open>gateway_gemini.rs\<close>). The decoded query string is given (its
  decoder is a library), as is the conversion of a number to an \<open>f64\<close>.
\<close>

subsection \<open>The request\<close>

definition gemini_tools :: "json \<Rightarrow> json option" where
  "gemini_tools tools =
     Option.bind (as_array tools)
       (\<lambda>ts. nonempty_array (concat (map (\<lambda>t.
          case get_array t ''functionDeclarations'' of
            Some decls \<Rightarrow> List.map_filter (declaration_of ''parameters'') decls
          | None \<Rightarrow> (case declaration_of ''parameters'' t of Some c \<Rightarrow> [c] | None \<Rightarrow> [])) ts)))"

text \<open>Compared after \<open>to_uppercase\<close>; the letters of ANY and NONE are the image of no other scalar.\<close>

definition ascii_upper :: "char \<Rightarrow> char" where
  "ascii_upper c = (if 97 \<le> (of_char c :: nat) \<and> (of_char c :: nat) \<le> 122 then char_of (of_char c - 32 :: nat) else c)"

definition gemini_tool_choice :: "json \<Rightarrow> json option" where
  "gemini_tool_choice tc =
     (let cfg = (case json_get tc ''functionCallingConfig'' of Some c \<Rightarrow> c | None \<Rightarrow> tc);
          mode = map ascii_upper (case get_str cfg ''mode'' of Some m \<Rightarrow> m | None \<Rightarrow> ''AUTO'')
      in if mode = ''ANY''
         then (case get_array cfg ''allowedFunctionNames'' of
                 Some (JString n # _) \<Rightarrow> Some (forced_tool n)
               | _ \<Rightarrow> Some (JString ''required''))
         else if mode = ''NONE'' then Some (JString ''none'')
         else Some (JString ''auto''))"

definition gemini_finish_reason :: "string option \<Rightarrow> string" where
  "gemini_finish_reason cls =
     (if cls = Some ''length'' then ''MAX_TOKENS''
      else if cls = Some ''content_filter'' then ''SAFETY''
      else ''STOP'')"

text \<open>\<open>path.rsplit("/models/").next()\<close> always has a first piece, so the refusal for a path without one
  is never taken.\<close>

definition after_models :: "string \<Rightarrow> string" where
  "after_models path =
     (case rfind_sub ''/models/'' path of Some i \<Rightarrow> drop (i + 8) path | None \<Rightarrow> path)"

definition model_and_method :: "string \<Rightarrow> (string \<times> bool) option" where
  "model_and_method path =
     (let tail = after_models path in
      case str_find CHR '':'' tail of
        Some i \<Rightarrow>
          (if drop (Suc i) tail = ''generateContent'' then Some (take i tail, False)
           else if drop (Suc i) tail = ''streamGenerateContent'' then Some (take i tail, True)
           else None)
      | None \<Rightarrow> None)"

definition parts_text :: "json option \<Rightarrow> string" where
  "parts_text parts = (case Option.bind parts as_array of Some ps \<Rightarrow> concat_texts ps | None \<Rightarrow> [])"

definition gemini_message :: "json \<Rightarrow> json" where
  "gemini_message c =
     text_message (if get_str c ''role'' = Some ''model'' then ''assistant'' else ''user'')
       (parts_text (json_get c ''parts''))"

definition gemini_system :: "json \<Rightarrow> json list" where
  "gemini_system req =
     (let txt = parts_text (json_pointer req [''systemInstruction'', ''parts''])
      in if txt = [] then [] else [text_message ''system'' txt])"

definition gemini_chat_body ::
  "(jnum \<Rightarrow> rat) \<Rightarrow> string \<Rightarrow> bool \<Rightarrow> json list \<Rightarrow> json \<Rightarrow> json" where
  "gemini_chat_body as_f64 model streaming contents req =
     jobj ([(''model'', JString model),
        (''messages'', JArray (gemini_system req @ map gemini_message contents)),
        (''stream'', JBool streaming),
        (''max_tokens'', max_tokens_or_default (json_pointer req [''generationConfig'', ''maxOutputTokens''])),
        (''temperature'',
          case Option.bind (json_pointer req [''generationConfig'', ''temperature'']) as_number of
            Some n \<Rightarrow> JNumber (FloatNum (as_f64 n))
          | None \<Rightarrow> JNull)]
      @ opt_entry ''tools'' (Option.bind (json_get req ''tools'') gemini_tools)
      @ opt_entry ''tool_choice'' (Option.bind (json_get req ''tool_choice'') gemini_tool_choice)
      @ opt_entry ''response_format'' (json_get req ''response_format''))"

definition gemini_err :: "string \<Rightarrow> nat \<Rightarrow> http_answer" where
  "gemini_err message status = http_err status (gemini_error_body message status)"

subsection \<open>The stream\<close>

definition gemini_chunk :: "json list \<Rightarrow> (string \<times> json) list \<Rightarrow> sse_event" where
  "gemini_chunk parts extra =
     SseData (jobj [(''candidates'', JArray [jobj
       ([(''content'', jobj [(''parts'', JArray parts), (''role'', JString ''model'')]), (''index'', jnat 0)]
        @ extra)])])"

definition gemini_usage :: "(nat \<times> nat) option \<Rightarrow> string \<times> json" where
  "gemini_usage u =
     (case (case u of Some x \<Rightarrow> x | None \<Rightarrow> (0, 0)) of
        (pt, ct) \<Rightarrow>
          (''usageMetadata'', jobj [(''promptTokenCount'', jnat pt), (''candidatesTokenCount'', jnat ct)]))"

definition function_call_part :: "(json \<Rightarrow> string) \<Rightarrow> (string \<Rightarrow> json option) \<Rightarrow> json \<Rightarrow> json" where
  "function_call_part render parse tc =
     jobj [(''functionCall'', jobj [(''name'', JString (call_name_of tc)),
       (''args'', case parse (call_args_text render tc) of Some v \<Rightarrow> v | None \<Rightarrow> jobj [])])]"

fun gemini_loop ::
  "(json \<Rightarrow> string) \<Rightarrow> (string \<Rightarrow> json option) \<Rightarrow> bridge_msg list \<Rightarrow> (nat \<times> nat) option \<Rightarrow> string option
     \<Rightarrow> sse_event list" where
  "gemini_loop render parse [] u f = []"
| "gemini_loop render parse (BDone # ms) u f =
     [SseData (jobj [(''candidates'', JArray [jobj [(''finishReason'', JString (gemini_finish_reason f))]]),
        gemini_usage u])]"
| "gemini_loop render parse (BError status message hint # ms) u f =
     [SseData (gemini_error_body message (worker_status status))]"
| "gemini_loop render parse (BToolCalls calls # ms) u f =
     map (\<lambda>tc. gemini_chunk [function_call_part render parse tc] [(''finishReason'', JString ''STOP'')])
       (calls_of calls)
     @ [SseData (jobj [gemini_usage u])]"
| "gemini_loop render parse (BDelta x # ms) u f =
     gemini_chunk [jobj [(''text'', JString x)]] [] # gemini_loop render parse ms u f"
| "gemini_loop render parse (BUsage pt ct # ms) u f = gemini_loop render parse ms (Some (pt, ct)) f"
| "gemini_loop render parse (BFinish reason # ms) u f = gemini_loop render parse ms u (Some reason)"
| "gemini_loop render parse (_ # ms) u f = gemini_loop render parse ms u f"

definition gemini_stream ::
  "(json \<Rightarrow> string) \<Rightarrow> (string \<Rightarrow> json option) \<Rightarrow> bridge_msg list \<Rightarrow> sse_event list" where
  "gemini_stream render parse ms = gemini_loop render parse ms None None"

subsection \<open>One object\<close>

record gemini_answer =
  ga_full :: string
  ga_usage :: "(nat \<times> nat) option"
  ga_error :: "(nat \<times> string \<times> nat option) option"
  ga_tools :: bool
  ga_parts :: "json list"
  ga_finish :: "string option"

fun gemini_collect ::
  "(json \<Rightarrow> string) \<Rightarrow> (string \<Rightarrow> json option) \<Rightarrow> bridge_msg list \<Rightarrow> gemini_answer \<Rightarrow> gemini_answer" where
  "gemini_collect render parse [] a = a"
| "gemini_collect render parse (BDone # ms) a = a"
| "gemini_collect render parse (BError status message hint # ms) a =
     a\<lparr>ga_error := Some (status, message, hint)\<rparr>"
| "gemini_collect render parse (BToolCalls calls # ms) a =
     gemini_collect render parse ms (a\<lparr>ga_tools := True,
       ga_parts := ga_parts a @ map (function_call_part render parse) (calls_of calls)\<rparr>)"
| "gemini_collect render parse (BDelta x # ms) a =
     gemini_collect render parse ms (a\<lparr>ga_full := ga_full a @ x\<rparr>)"
| "gemini_collect render parse (BUsage pt ct # ms) a =
     gemini_collect render parse ms (a\<lparr>ga_usage := Some (pt, ct)\<rparr>)"
| "gemini_collect render parse (BFinish reason # ms) a =
     gemini_collect render parse ms (a\<lparr>ga_finish := Some reason\<rparr>)"
| "gemini_collect render parse (_ # ms) a = gemini_collect render parse ms a"

definition gemini_payload :: "gemini_answer \<Rightarrow> json" where
  "gemini_payload a =
     (let (pt, ct) = (case ga_usage a of Some u \<Rightarrow> u | None \<Rightarrow> (0, 0));
          reason = (if ga_tools a then ''STOP'' else gemini_finish_reason (ga_finish a));
          parts = (if ga_tools a \<and> ga_parts a \<noteq> [] then ga_parts a
                   else [jobj [(''text'', JString (clean_assistant_text (ga_full a)))]])
      in jobj
        [(''candidates'', JArray [jobj
            [(''content'', jobj [(''parts'', JArray parts), (''role'', JString ''model'')]),
             (''finishReason'', JString reason), (''index'', jnat 0)]]),
         (''usageMetadata'', jobj
            [(''promptTokenCount'', jnat pt), (''candidatesTokenCount'', jnat ct),
             (''totalTokenCount'', jnat (u64_add pt ct))])])"

definition gemini_reply ::
  "(json \<Rightarrow> string) \<Rightarrow> (string \<Rightarrow> json option) \<Rightarrow> bridge_msg list \<Rightarrow> http_answer" where
  "gemini_reply render parse ms =
     (let a = gemini_collect render parse ms
            \<lparr>ga_full = [], ga_usage = None, ga_error = None, ga_tools = False, ga_parts = [], ga_finish = None\<rparr>
      in case ga_error a of
           Some (status, message, hint) \<Rightarrow>
             err_with_cooldown (worker_status status) hint (gemini_error_body message (worker_status status))
         | None \<Rightarrow> \<lparr>ha_status = 200, ha_retry_after = None, ha_body = gemini_payload a\<rparr>)"

text \<open>The handler. It has no use for the tools toggle.\<close>

definition slot_refusal_message :: "string \<Rightarrow> nat \<Rightarrow> string" where
  "slot_refusal_message busy status =
     (if status = 429 then busy @ '' at capacity''
      else ''AI-Provider Router core unavailable '' @ [CHR 0xE2, CHR 0x80, CHR 0x94] @ '' is the app open?'')"

definition gemini_h ::
  "(jnum \<Rightarrow> rat) \<Rightarrow> gateway_env \<Rightarrow> (string \<Rightarrow> string option) \<Rightarrow> string \<Rightarrow> (string \<Rightarrow> string option) \<Rightarrow> string
     \<Rightarrow> gateway_response \<times> bridge_request list" where
  "gemini_h as_f64 env headers path query body =
     (case ge_gate env of
        Inl r \<Rightarrow> (Answer (refusal_gemini r), [])
      | Inr app_key \<Rightarrow>
          (case model_and_method path of
             None \<Rightarrow> (Answer (gemini_err (''bad method suffix '' @ [CHR 0xE2, CHR 0x80, CHR 0x94]
                 @ '' expected :generateContent or :streamGenerateContent'') 400), [])
           | Some (model, streaming) \<Rightarrow>
               (if streaming \<and> query ''alt'' \<noteq> Some ''sse''
                then (Answer (gemini_err ''streaming requires ?alt=sse'' 400), [])
                else
                  (case ge_parse env body of
                     None \<Rightarrow> (Answer (gemini_err ''invalid JSON body'' 400), [])
                   | Some req \<Rightarrow>
                       (case get_array req ''contents'' of
                          None \<Rightarrow> (Answer (gemini_err ''contents is required'' 400), [])
                        | Some contents \<Rightarrow>
                            (case ge_slot env of
                               Inl refusal \<Rightarrow>
                                 (Answer (gemini_err (slot_refusal_message ''router'' (ha_status refusal))
                                    (ha_status refusal)), [])
                             | Inr n \<Rightarrow>
                                 (let rq = bridge_request_of ''chat''
                                        (ge_inject env (gemini_chat_body as_f64 model streaming contents req))
                                        headers app_key
                                  in (if streaming
                                      then Stream (gemini_stream (ge_render env) (ge_parse env) (ge_bridge env rq))
                                      else Answer (gemini_reply (ge_render env) (ge_parse env) (ge_bridge env rq)),
                                      [rq]))))))))"

subsection \<open>The shape of a stream\<close>

datatype gemini_reader = Candidates | GeminiEnd | GeminiBroken | GeminiDisorder

fun read_gemini :: "gemini_reader \<Rightarrow> sse_event \<Rightarrow> gemini_reader" where
  "read_gemini Candidates (SseData j) =
     (if json_get j ''usageMetadata'' \<noteq> None then GeminiEnd
      else if json_get j ''candidates'' \<noteq> None then Candidates
      else if json_get j ''error'' \<noteq> None then GeminiBroken else GeminiDisorder)"
| "read_gemini _ _ = GeminiDisorder"

definition gemini_well_formed :: "bool \<Rightarrow> sse_event list \<Rightarrow> bool" where
  "gemini_well_formed whole es \<longleftrightarrow>
     foldl read_gemini Candidates es \<in> (if whole then {GeminiEnd, GeminiBroken} else {Candidates})"

definition candidate_text :: "sse_event \<Rightarrow> string" where
  "candidate_text e =
     (case get_array (sse_data e) ''candidates'' of
        Some (c # _) \<Rightarrow> parts_text (json_pointer c [''content'', ''parts''])
      | _ \<Rightarrow> [])"

definition gemini_text :: "sse_event list \<Rightarrow> string" where
  "gemini_text es = concat (map candidate_text es)"

end
