(* ===== verification/Ingress_Responses.thy ===== *)
theory Ingress_Responses
  imports Ingress_Gemini
begin

text \<open>
  The OpenAI Responses ingress (\<open>gateway_responses.rs\<close>): items translated to chat messages, and the
  answer framed as response events or as one object.
\<close>

subsection \<open>The request\<close>

definition item_text :: "json \<Rightarrow> string" where
  "item_text item =
     (case json_get item ''content'' of
        Some (JString t) \<Rightarrow> t
      | Some (JArray parts) \<Rightarrow>
          concat (List.map_filter (\<lambda>p. or_else (get_str p ''text'') (get_str p ''content'')) parts)
      | _ \<Rightarrow> [])"

definition function_output_text :: "(json \<Rightarrow> string) \<Rightarrow> json \<Rightarrow> string" where
  "function_output_text render item =
     (case json_get item ''output'' of
        Some (JString s) \<Rightarrow> s
      | Some JNull \<Rightarrow> []
      | Some v \<Rightarrow> render v
      | None \<Rightarrow> [])"

definition call_of_item :: "(json \<Rightarrow> string) \<Rightarrow> json \<Rightarrow> json" where
  "call_of_item render it =
     jobj [(''id'', JString (or_blank (get_str it ''call_id''))), (''type'', JString ''function''),
       (''function'', jobj
         [(''name'', JString (or_blank (get_str it ''name''))),
          (''arguments'', JString (case json_get it ''arguments'' of
             Some (JString s) \<Rightarrow> s
           | Some JNull \<Rightarrow> ''{}''
           | Some v \<Rightarrow> render v
           | None \<Rightarrow> ''{}''))])]"

definition result_of_item :: "(json \<Rightarrow> string) \<Rightarrow> json \<Rightarrow> json" where
  "result_of_item render it =
     jobj [(''role'', JString ''tool''),
       (''tool_call_id'', JString (or_blank (get_str it ''call_id''))),
       (''content'', JString (function_output_text render it))]"

definition flush_calls :: "json list \<Rightarrow> json list" where
  "flush_calls calls = (if calls = [] then [] else [calls_message ''assistant'' [] calls])"

definition item_message :: "(json \<Rightarrow> string) \<Rightarrow> json \<Rightarrow> json list" where
  "item_message render it =
     (let kind = or_blank (get_str it ''type'') in
      if kind = ''function_call_output'' then [result_of_item render it]
      else if kind = ''reasoning'' then []
      else if json_get it ''role'' \<noteq> None \<or> json_get it ''content'' \<noteq> None
      then [text_message (case get_str it ''role'' of Some r \<Rightarrow> r | None \<Rightarrow> ''user'') (item_text it)]
      else [])"

text \<open>Consecutive calls wait in \<open>calls\<close> and become one turn.\<close>

fun items_from :: "(json \<Rightarrow> string) \<Rightarrow> json list \<Rightarrow> json list \<Rightarrow> json list" where
  "items_from render calls [] = flush_calls calls"
| "items_from render calls (it # items) =
     (if or_blank (get_str it ''type'') = ''function_call''
      then items_from render (calls @ [call_of_item render it]) items
      else flush_calls calls @ item_message render it @ items_from render [] items)"

definition request_items :: "json \<Rightarrow> json list" where
  "request_items req = (case get_array req ''input'' of Some xs \<Rightarrow> xs | None \<Rightarrow> [])"

definition items_to_openai :: "(json \<Rightarrow> string) \<Rightarrow> json \<Rightarrow> json list" where
  "items_to_openai render req = items_from render [] (request_items req)"

definition responses_tool :: "json \<Rightarrow> json option" where
  "responses_tool t =
     (if json_get t ''function'' \<noteq> None then Some t else declaration_of ''parameters'' t)"

definition responses_tools_to_openai :: "json \<Rightarrow> json option" where
  "responses_tools_to_openai tools =
     Option.bind (as_array tools) (\<lambda>ts. nonempty_array (List.map_filter responses_tool ts))"

definition responses_tool_choice_to_openai :: "json \<Rightarrow> json option" where
  "responses_tool_choice_to_openai tc =
     Some (if \<not> is_jstring tc \<and> get_str tc ''type'' = Some ''function''
           then (case get_str tc ''name'' of Some n \<Rightarrow> forced_tool n | None \<Rightarrow> tc)
           else tc)"

definition to_chat_body_responses :: "(json \<Rightarrow> string) \<Rightarrow> json \<Rightarrow> json option" where
  "to_chat_body_responses render req =
     (case (get_str req ''model'',
            case json_get req ''input'' of
              Some (JString t) \<Rightarrow> Some [text_message ''user'' t]
            | Some (JArray _) \<Rightarrow> Some (items_to_openai render req)
            | _ \<Rightarrow> None) of
        (Some model, Some messages) \<Rightarrow>
          Some (jobj
            ([(''model'', JString model),
              (''messages'', JArray
                ((case get_str req ''instructions'' of
                    Some inst \<Rightarrow> [text_message ''system'' inst] | None \<Rightarrow> []) @ messages)),
              (''stream'', JBool (wants_stream req)),
              (''max_tokens'', max_tokens_or_default (json_get req ''max_output_tokens''))]
             @ opt_entry ''tools'' (Option.bind (json_get req ''tools'') responses_tools_to_openai)
             @ opt_entry ''tool_choice''
                 (Option.bind (json_get req ''tool_choice'') responses_tool_choice_to_openai)))
      | _ \<Rightarrow> None)"

subsection \<open>Errors and statuses\<close>

definition responses_error :: "string \<Rightarrow> string \<Rightarrow> json" where
  "responses_error message code = openai_error message ''invalid_request_error'' (Some code)"

definition responses_error_kind :: "nat \<Rightarrow> string \<times> string" where
  "responses_error_kind status =
     (if status \<in> {400, 404, 413, 422} then (''invalid_request_error'', ''invalid_request_error'')
      else if status = 429 then (''rate_limit_error'', ''rate_limit_exceeded'')
      else if status = 503 then (''server_error'', ''service_unavailable'')
      else (''server_error'', ''server_error''))"

definition responses_status :: "string option \<Rightarrow> string \<times> json option" where
  "responses_status cls =
     (if cls = Some ''length''
      then (''incomplete'', Some (jobj [(''reason'', JString ''max_output_tokens'')]))
      else (''completed'', None))"

text \<open>A call as the answer carries it: its id, its name and its arguments, decoded where they can be.\<close>

type_synonym answer_call = "string \<times> string \<times> json"

definition answer_call :: "(string \<Rightarrow> json option) \<Rightarrow> json \<Rightarrow> answer_call" where
  "answer_call parse tc =
     (or_blank (get_str tc ''id''), call_name_of tc,
      case as_str (call_args_raw tc) of
        Some s \<Rightarrow> (case parse s of Some v \<Rightarrow> v | None \<Rightarrow> JString s)
      | None \<Rightarrow> call_args_raw tc)"

definition call_part :: "(json \<Rightarrow> string) \<Rightarrow> answer_call \<Rightarrow> (string \<times> json) list" where
  "call_part render c =
     (case c of
        (call_id, name, args) \<Rightarrow>
          [(''type'', JString ''function_call''), (''call_id'', JString call_id), (''name'', JString name),
           (''arguments'', JString (render args))])"

subsection \<open>The stream\<close>

definition out_id :: "string \<Rightarrow> json" where
  "out_id rid = JString (rid @ ''_out'')"

definition text_part :: "string \<Rightarrow> json" where
  "text_part t =
     jobj [(''type'', JString ''output_text''), (''text'', JString t), (''annotations'', JArray [])]"

definition part_event :: "string \<Rightarrow> string \<Rightarrow> (string \<times> json) list \<Rightarrow> sse_event" where
  "part_event rid name kvs =
     typed name ([(''item_id'', out_id rid), (''output_index'', jnat 0), (''content_index'', jnat 0)] @ kvs)"

definition responses_opening :: "string \<Rightarrow> sse_event list" where
  "responses_opening rid =
     [typed ''response.created'' [(''response'', jobj
        [(''id'', JString rid), (''object'', JString ''response''), (''status'', JString ''in_progress'')])],
      typed ''response.output_item.added'' [(''output_index'', jnat 0), (''item'', jobj
        [(''id'', out_id rid), (''type'', JString ''message''), (''role'', JString ''assistant''),
         (''status'', JString ''in_progress''), (''content'', JArray [])])],
      part_event rid ''response.content_part.added'' [(''part'', text_part [])]]"

record responses_turn =
  rt_events :: "sse_event list"
  rt_text :: string
  rt_calls :: "answer_call list"
  rt_pending :: bool
  rt_usage :: "(nat \<times> nat) option"
  rt_finish :: "string option"
  rt_failed :: bool

definition responses_failed :: "string \<Rightarrow> nat \<Rightarrow> string \<Rightarrow> sse_event" where
  "responses_failed rid status message =
     (case responses_error_kind (worker_status status) of
        (ty, kind) \<Rightarrow>
          typed ''response.failed'' [(''response'', jobj
            [(''id'', JString rid), (''object'', JString ''response''), (''status'', JString ''failed''),
             (''error'', jobj [(''message'', JString message), (''type'', JString ty),
               (''code'', JString kind)])])])"

fun responses_loop ::
  "(string \<Rightarrow> json option) \<Rightarrow> string \<Rightarrow> bridge_msg list \<Rightarrow> responses_turn \<Rightarrow> responses_turn" where
  "responses_loop parse rid [] t = t"
| "responses_loop parse rid (BDone # ms) t = t"
| "responses_loop parse rid (BError status message hint # ms) t =
     t\<lparr>rt_events := rt_events t @ [responses_failed rid status message], rt_failed := True\<rparr>"
| "responses_loop parse rid (BToolCalls calls # ms) t =
     t\<lparr>rt_calls := rt_calls t @ map (answer_call parse) (calls_of calls), rt_pending := True\<rparr>"
| "responses_loop parse rid (BDelta x # ms) t =
     responses_loop parse rid ms
       (t\<lparr>rt_text := rt_text t @ x,
          rt_events := rt_events t @ [part_event rid ''response.output_text.delta'' [(''delta'', JString x)]]\<rparr>)"
| "responses_loop parse rid (BFinish reason # ms) t =
     responses_loop parse rid ms (t\<lparr>rt_finish := Some reason\<rparr>)"
| "responses_loop parse rid (BUsage pt ct # ms) t =
     responses_loop parse rid ms (t\<lparr>rt_usage := Some (pt, ct)\<rparr>)"
| "responses_loop parse rid (_ # ms) t = responses_loop parse rid ms t"

definition fc_id :: "string \<Rightarrow> answer_call \<Rightarrow> json" where
  "fc_id rid c = JString (rid @ ''_fc_'' @ fst c)"

definition call_item_events :: "(json \<Rightarrow> string) \<Rightarrow> string \<Rightarrow> answer_call \<Rightarrow> sse_event list" where
  "call_item_events render rid c =
     [typed ''response.output_item.added''
        [(''output_index'', jnat 0), (''item'', jobj ((''id'', fc_id rid c) # call_part render c))],
      typed ''response.function_call_arguments.done''
        [(''item_id'', fc_id rid c), (''output_index'', jnat 0),
         (''arguments'', JString (render (snd (snd c))))]]"

definition responses_output :: "(json \<Rightarrow> string) \<Rightarrow> string \<Rightarrow> responses_turn \<Rightarrow> json list \<Rightarrow> json list" where
  "responses_output render rid t parts =
     jobj [(''type'', JString ''message''), (''role'', JString ''assistant''), (''content'', JArray parts)]
     # (if rt_pending t
        then map (\<lambda>c. jobj ((''id'', fc_id rid c) # call_part render c
               @ [(''status'', JString ''completed'')])) (rt_calls t)
        else [])"

definition responses_usage :: "(nat \<times> nat) option \<Rightarrow> json" where
  "responses_usage u = token_usage (case u of Some x \<Rightarrow> x | None \<Rightarrow> (0, 0))"

definition responses_body ::
  "string \<Rightarrow> string option \<Rightarrow> json list \<Rightarrow> (nat \<times> nat) option \<Rightarrow> json option \<Rightarrow> json \<Rightarrow> json" where
  "responses_body rid finish output u tools tool_choice =
     jobj ([(''id'', JString rid), (''object'', JString ''response''),
        (''status'', JString (fst (responses_status finish))), (''output'', JArray output),
        (''usage'', responses_usage u),
        (''tools'', case tools of Some t \<Rightarrow> t | None \<Rightarrow> JArray []), (''tool_choice'', tool_choice)]
      @ opt_entry ''incomplete_details'' (snd (responses_status finish)))"

text \<open>The end of a stream, which both arms of the code send.\<close>

definition responses_closing ::
  "(json \<Rightarrow> string) \<Rightarrow> string \<Rightarrow> json option \<Rightarrow> json option \<Rightarrow> responses_turn \<Rightarrow> sse_event list" where
  "responses_closing render rid tools tool_choice t =
     (let parts = text_part (rt_text t) # map (jobj \<circ> call_part render) (rt_calls t);
          choice = (case or_else (map_option (\<lambda>_. JString ''auto'') tools) tool_choice of
                      Some c \<Rightarrow> c | None \<Rightarrow> JString ''auto'')
      in [part_event rid ''response.output_text.done'' [(''text'', JString (rt_text t))]]
         @ concat (map (call_item_events render rid) (rt_calls t))
         @ [part_event rid ''response.content_part.done'' [(''part'', text_part (rt_text t))],
            typed ''response.output_item.done'' [(''output_index'', jnat 0), (''item'', jobj
              [(''id'', out_id rid), (''type'', JString ''message''), (''role'', JString ''assistant''),
               (''status'', JString ''completed''), (''content'', JArray parts)])],
            typed ''response.completed'' [(''response'',
              responses_body rid (rt_finish t) (responses_output render rid t parts) (rt_usage t) tools choice)]])"

definition responses_stream ::
  "(json \<Rightarrow> string) \<Rightarrow> (string \<Rightarrow> json option) \<Rightarrow> string \<Rightarrow> json option \<Rightarrow> json option
     \<Rightarrow> bridge_msg list \<Rightarrow> sse_event list" where
  "responses_stream render parse rid tools tool_choice ms =
     (let t = responses_loop parse rid ms
            \<lparr>rt_events = responses_opening rid, rt_text = [], rt_calls = [], rt_pending = False,
             rt_usage = None, rt_finish = None, rt_failed = False\<rparr>
      in rt_events t @ (if rt_failed t then [] else responses_closing render rid tools tool_choice t))"

subsection \<open>One object\<close>

record responses_answer =
  ra_full :: string
  ra_error :: "(nat \<times> string \<times> nat option) option"
  ra_calls :: "answer_call list"
  ra_usage :: "(nat \<times> nat) option"
  ra_finish :: "string option"

fun responses_collect ::
  "(string \<Rightarrow> json option) \<Rightarrow> bridge_msg list \<Rightarrow> responses_answer \<Rightarrow> responses_answer" where
  "responses_collect parse [] a = a"
| "responses_collect parse (BDone # ms) a = a"
| "responses_collect parse (BError status message hint # ms) a =
     a\<lparr>ra_error := Some (status, message, hint)\<rparr>"
| "responses_collect parse (BToolCalls calls # ms) a =
     a\<lparr>ra_calls := ra_calls a @ map (answer_call parse) (calls_of calls)\<rparr>"
| "responses_collect parse (BDelta x # ms) a =
     responses_collect parse ms (a\<lparr>ra_full := ra_full a @ x\<rparr>)"
| "responses_collect parse (BFinish reason # ms) a =
     responses_collect parse ms (a\<lparr>ra_finish := Some reason\<rparr>)"
| "responses_collect parse (BUsage pt ct # ms) a =
     responses_collect parse ms (a\<lparr>ra_usage := Some (pt, ct)\<rparr>)"
| "responses_collect parse (_ # ms) a = responses_collect parse ms a"

definition responses_reply ::
  "(json \<Rightarrow> string) \<Rightarrow> (string \<Rightarrow> json option) \<Rightarrow> string \<Rightarrow> json option \<Rightarrow> json option
     \<Rightarrow> bridge_msg list \<Rightarrow> http_answer" where
  "responses_reply render parse rid tools tool_choice ms =
     (let a = responses_collect parse ms
            \<lparr>ra_full = [], ra_error = None, ra_calls = [], ra_usage = None, ra_finish = None\<rparr>
      in case ra_error a of
           Some (status, message, hint) \<Rightarrow>
             (case responses_error_kind (worker_status status) of
                (ty, kind) \<Rightarrow>
                  err_with_cooldown (worker_status status) hint (openai_error message ty (Some kind)))
         | None \<Rightarrow>
             (let content = text_part (clean_assistant_text (ra_full a))
                    # map (jobj \<circ> call_part render) (ra_calls a)
              in \<lparr>ha_status = 200, ha_retry_after = None,
                  ha_body = responses_body rid (ra_finish a)
                    [jobj [(''type'', JString ''message''), (''role'', JString ''assistant''),
                       (''content'', JArray content)]]
                    (ra_usage a) tools (case tool_choice of Some c \<Rightarrow> c | None \<Rightarrow> JString ''auto'')\<rparr>))"

end
