(* ===== verification/Anthropic_Laws.thy ===== *)
theory Anthropic_Laws
  imports Ingress_Anthropic
begin

text \<open>
  Laws of the Anthropic ingress: the translation keeps every call, result and word of the
  transcript, and every stream it sends obeys the block discipline of the dialect.
\<close>

subsection \<open>The discipline of a stream\<close>

text \<open>Where a reader of the stream is: before the message, between two blocks (with the number of the
  next), inside one, after the last, at the end, or at an error. Anything else is out of order.\<close>

datatype reader = Before | Between nat | Inside nat | Closing | Stopped | Failed | OutOfOrder

fun event_name :: "sse_event \<Rightarrow> string" where
  "event_name (SseNamed n _) = n"
| "event_name _ = []"

definition event_index :: "sse_event \<Rightarrow> json option" where
  "event_index e = json_get (sse_data e) ''index''"

fun read_event :: "reader \<Rightarrow> sse_event \<Rightarrow> reader" where
  "read_event Before e = (if event_name e = ''message_start'' then Between 0 else OutOfOrder)"
| "read_event (Between n) e =
     (if event_name e = ''content_block_start'' \<and> event_index e = Some (jnat n) then Inside n
      else if event_name e = ''message_delta'' then Closing
      else if event_name e = ''error'' then Failed else OutOfOrder)"
| "read_event (Inside n) e =
     (if event_name e = ''content_block_delta'' \<and> event_index e = Some (jnat n) then Inside n
      else if event_name e = ''content_block_stop'' \<and> event_index e = Some (jnat n) then Between (Suc n)
      else if event_name e = ''error'' then Failed else OutOfOrder)"
| "read_event Closing e = (if event_name e = ''message_stop'' then Stopped else OutOfOrder)"
| "read_event _ e = OutOfOrder"

definition anthropic_well_formed :: "sse_event list \<Rightarrow> bool" where
  "anthropic_well_formed es \<longleftrightarrow> foldl read_event Before es \<in> {Stopped, Failed}"

definition event_text :: "sse_event \<Rightarrow> string" where
  "event_text e =
     or_blank (Option.bind (json_get (sse_data e) ''delta'') (\<lambda>d. get_str d ''text''))"

definition spelled_text :: "sse_event list \<Rightarrow> string" where
  "spelled_text es = concat (map event_text es)"

lemma spelled_append [simp]: "spelled_text (xs @ ys) = spelled_text xs @ spelled_text ys"
  by (simp add: spelled_text_def)

lemma spelled_Nil [simp]: "spelled_text [] = []"
  by (simp add: spelled_text_def)

lemma spelled_Cons: "spelled_text (e # es) = event_text e @ spelled_text es"
  by (simp add: spelled_text_def)

lemma event_names [simp]:
  "event_name (typed n kvs) = n"
  "event_name (block_start i b) = ''content_block_start''"
  "event_name (block_delta i d) = ''content_block_delta''"
  "event_name (block_stop i) = ''content_block_stop''"
  by (simp_all add: typed_def block_start_def block_delta_def block_stop_def)

lemma event_indices [simp]:
  "event_index (block_start i b) = Some (jnat i)"
  "event_index (block_delta i d) = Some (jnat i)"
  "event_index (block_stop i) = Some (jnat i)"
  by (simp_all add: event_index_def typed_def block_start_def block_delta_def block_stop_def jobj_def)

lemma event_texts [simp]:
  "event_text (block_start i b) = []"
  "event_text (block_stop i) = []"
  "event_text (block_delta i (text_delta t)) = t"
  "event_text (block_delta i (jobj [(''type'', JString ''input_json_delta''), (''partial_json'', j)])) = []"
  by (simp_all add: event_text_def typed_def block_start_def block_delta_def block_stop_def jobj_def
      text_delta_def or_blank_def get_str_def)

text \<open>Deltas of the text block leave the reader inside it.\<close>

definition deltas :: "bridge_msg list \<Rightarrow> sse_event list" where
  "deltas ms = map (\<lambda>m. block_delta 0 (text_delta (delta_text m))) (filter is_delta ms)"

lemma read_deltas: "foldl read_event (Inside 0) (deltas ms) = Inside 0"
  by (induction ms) (auto simp: deltas_def)

lemma spelled_deltas: "spelled_text (deltas ms) = text_of ms"
proof (induction ms)
  case (Cons m ms)
  then show ?case by (cases m) (auto simp: deltas_def spelled_text_def text_of_def)
qed (simp add: deltas_def text_of_def)

text \<open>What a quiet message does to a turn.\<close>

fun absorb_quiet :: "bridge_msg \<Rightarrow> anthropic_turn \<Rightarrow> anthropic_turn" where
  "absorb_quiet (BDelta x) t = emit [block_delta 0 (text_delta x)] t"
| "absorb_quiet (BFinish reason) t = t\<lparr>at_finish := Some reason\<rparr>"
| "absorb_quiet (BUsage pt ct) t = t\<lparr>at_usage := Some (pt, ct)\<rparr>"
| "absorb_quiet _ t = t"

lemma loop_quiet:
  "list_all is_quiet ms \<Longrightarrow> anthropic_loop render (ms @ rest) t = anthropic_loop render rest (fold absorb_quiet ms t)"
proof (induction ms arbitrary: t)
  case (Cons m ms)
  then show ?case by (cases m) simp_all
qed simp

lemma absorb_turn [simp]:
  "at_events (fold absorb_quiet ms t) = at_events t @ deltas ms"
  "at_tools (fold absorb_quiet ms t) = at_tools t"
  "at_failed (fold absorb_quiet ms t) = at_failed t"
proof (induction ms arbitrary: t)
  case (Cons m ms)
  { case 1 show ?case using Cons(1) by (cases m) (simp_all add: emit_def deltas_def) }
  { case 2 show ?case using Cons(2) by (cases m) (simp_all add: emit_def) }
  { case 3 show ?case using Cons(3) by (cases m) (simp_all add: emit_def) }
qed (simp_all add: deltas_def)

text \<open>The calls of a turn are blocks of their own, numbered from 1.\<close>

lemma read_calls:
  "foldl read_event (Between (Suc k)) (concat (map (call_events render) (enumerate k cs)))
     = Between (Suc (k + length cs))"
  by (induction cs arbitrary: k) (auto simp: call_events_def)

lemma spelled_calls: "spelled_text (concat (map (call_events render) (enumerate k cs))) = []"
  by (induction cs arbitrary: k) (auto simp: call_events_def spelled_text_def)

lemma opening_read:
  "foldl read_event Before (anthropic_opening mid model) = Inside 0"
  "spelled_text (anthropic_opening mid model) = []"
  by (simp_all add: anthropic_opening_def spelled_text_def event_text_def typed_def jobj_def or_blank_def
      del: event_names) (simp_all add: typed_def block_start_def event_index_def jobj_def)

lemma last_texts:
  "event_text (typed ''message_delta'' [(''delta'', jobj [(''stop_reason'', a), (''stop_sequence'', b)]),
     (''usage'', c)]) = []"
  "event_text (typed ''message_stop'' []) = []"
  by (simp_all add: event_text_def typed_def jobj_def or_blank_def get_str_def)

lemma error_text: "spelled_text [SseNamed n (anthropic_error m k)] = []"
  by (simp add: spelled_text_def event_text_def anthropic_error_def jobj_def or_blank_def)

lemma closing_read:
  "\<not> at_tools t \<Longrightarrow> foldl read_event (Inside 0) (anthropic_closing t) = Stopped"
  "at_tools t \<Longrightarrow> foldl read_event (Between n) (anthropic_closing t) = Stopped"
  "spelled_text (anthropic_closing t) = []"
  by (simp_all add: anthropic_closing_def spelled_text_def event_texts(1-3) last_texts)


subsection \<open>The stream of an answer\<close>

lemma anthropic_frame:
  assumes "list_all is_note ns" and "is_close close"
  shows "anthropic_well_formed (anthropic_stream render mid model (ns @ close))"
    and "spelled_text (anthropic_stream render mid model (ns @ close)) = text_of (ns @ close)"
proof -
  note quiet = notes_quiet [OF assms(1)]
  note facts = anthropic_well_formed_def anthropic_stream_def Let_def loop_quiet opening_read read_deltas
    spelled_deltas closing_read emit_def
  have "anthropic_well_formed (anthropic_stream render mid model (ns @ close))
    \<and> spelled_text (anthropic_stream render mid model (ns @ close)) = text_of (ns @ close)"
    using assms(2)
  proof (cases rule: is_close_cases)
    case cut
    have "anthropic_loop render ns t = fold absorb_quiet ns t" for t
      using loop_quiet [OF quiet, of render "[]"] by simp
    with cut show ?thesis by (simp add: facts)
  next
    case (failed status message hint)
    with quiet show ?thesis by (simp add: facts error_text)
  next
    case (said ms)
    then have "list_all is_quiet (ns @ ms)" using quiet by simp
    from loop_quiet [OF this, of render "[BDone]"] said show ?thesis by (simp add: facts)
  next
    case (called calls ms)
    then have "deltas ms = []" "text_of ms = []" by (simp_all add: deltas_def no_delta_text)
    with called quiet show ?thesis by (simp add: facts read_calls spelled_calls spelled_Cons)
  qed
  then show "anthropic_well_formed (anthropic_stream render mid model (ns @ close))"
    and "spelled_text (anthropic_stream render mid model (ns @ close)) = text_of (ns @ close)" by auto
qed

interpretation anthropic:
  dialect_stream "anthropic_stream render mid model" "\<lambda>_. anthropic_well_formed" spelled_text
  using anthropic_frame by unfold_locales blast+

text \<open>(C34) Every Anthropic stream the gateway sends is one message in order: a text block and the
  blocks of the calls, each started, fed and stopped under its number before the next, then the
  message's end or an error; and its text deltas spell the text of the bridge's answer.\<close>

theorem anthropic_streams_are_well_formed:
  "case serve m host rq (st\<lparr>bs_replies := []\<rparr>) of
     None \<Rightarrow> planning_hangs m host
   | Some st' \<Rightarrow>
       anthropic_well_formed (anthropic_stream render mid model (bs_replies st'))
       \<and> spelled_text (anthropic_stream render mid model (bs_replies st')) = text_of (bs_replies st')"
  using anthropic.served_stream [where m = m and host = host and rq = rq and st = st] by (auto split: option.splits)

subsection \<open>The translation of a transcript\<close>

text \<open>
  Two readings of a transcript, one of the Anthropic request and one of the chat messages, as one list
  of tokens: each character a role speaks, each call with its role, its id, its name and the text of
  its arguments, and each answer with the id it answers and its content. They share no definition
  with the translation of a message.
\<close>

datatype token = Spoken string char | Called string string string string | Answered string string

fun is_called :: "token \<Rightarrow> bool" where
  "is_called (Called _ _ _ _) = True"
| "is_called _ = False"

definition field :: "json \<Rightarrow> string \<Rightarrow> string" where
  "field j k = (case json_get j k of Some (JString s) \<Rightarrow> s | _ \<Rightarrow> [])"

definition answer_content :: "(json \<Rightarrow> string) \<Rightarrow> json \<Rightarrow> string" where
  "answer_content render b =
     (case json_get b ''content'' of
        None \<Rightarrow> []
      | Some JNull \<Rightarrow> []
      | Some (JString s) \<Rightarrow> s
      | Some (JArray parts) \<Rightarrow> concat (map (\<lambda>p. field p ''text'') parts)
      | Some v \<Rightarrow> render v)"

definition block_tokens :: "(json \<Rightarrow> string) \<Rightarrow> string \<Rightarrow> json \<Rightarrow> token list" where
  "block_tokens render role b =
     (let ty = field b ''type'' in
      if ty = ''text'' then map (Spoken role) (field b ''text'')
      else if ty = ''tool_use'' then
        [Called role (field b ''id'') (field b ''name'')
           (render (case json_get b ''input'' of Some v \<Rightarrow> v | None \<Rightarrow> JObject []))]
      else if ty = ''tool_result'' then [Answered (field b ''tool_use_id'') (answer_content render b)]
      else [])"

definition request_tokens :: "(json \<Rightarrow> string) \<Rightarrow> json \<Rightarrow> token list" where
  "request_tokens render m =
     (let role = (case json_get m ''role'' of Some (JString r) \<Rightarrow> r | _ \<Rightarrow> ''user'') in
      case json_get m ''content'' of
        Some (JString t) \<Rightarrow> map (Spoken role) t
      | Some (JArray bs) \<Rightarrow>
          (let ts = concat (map (block_tokens render role) bs)
           in filter (\<lambda>t. \<not> is_called t) ts @ filter is_called ts)
      | _ \<Rightarrow> [])"

definition call_token :: "string \<Rightarrow> json \<Rightarrow> token" where
  "call_token role c =
     (let f = (case json_get c ''function'' of Some f \<Rightarrow> f | None \<Rightarrow> JNull)
      in Called role (field c ''id'') (field f ''name'') (field f ''arguments''))"

definition chat_tokens :: "json \<Rightarrow> token list" where
  "chat_tokens m =
     (case json_get m ''tool_call_id'' of
        Some (JString i) \<Rightarrow> [Answered i (field m ''content'')]
      | _ \<Rightarrow> map (Spoken (field m ''role'')) (field m ''content'')
              @ (case json_get m ''tool_calls'' of
                   Some (JArray cs) \<Rightarrow> map (call_token (field m ''role'')) cs | _ \<Rightarrow> []))"

lemma field_get_str: "or_blank (get_str j k) = field j k"
  by (cases "json_get j k") (auto simp: or_blank_def get_str_def field_def split: json.split)

lemma answer_content_eq: "tool_result_text render b = answer_content render b"
proof -
  have "concat_texts ps = concat (map (\<lambda>p. field p ''text'') ps)" for ps
    by (induction ps) (auto simp: concat_texts_def map_filter_simps get_str_def field_def
        split: option.split json.split)
  then show ?thesis by (simp add: tool_result_text_def answer_content_def split: option.split json.split)
qed

lemma chat_tokens_made [simp]:
  "chat_tokens (text_message r t) = map (Spoken r) t"
  "chat_tokens (calls_message r t cs) = map (Spoken r) t @ map (call_token r) cs"
  "chat_tokens (result_of_block render b) = [Answered (field b ''tool_use_id'') (answer_content render b)]"
  by (simp_all add: chat_tokens_def text_message_def calls_message_def result_of_block_def field_def jobj_def
      field_get_str answer_content_eq)

lemma call_token_of_block [simp]:
  "call_token role (call_of_block render b) = Called role (field b ''id'') (field b ''name'')
     (render (case json_get b ''input'' of Some v \<Rightarrow> v | None \<Rightarrow> JObject []))"
proof -
  have "jobj [] = JObject []" by (simp add: jobj_def)
  then show ?thesis
    by (simp add: call_token_def call_of_block_def Let_def field_get_str)
      (simp add: field_def jobj_def split: option.split)
qed

definition walk_tokens :: "string \<Rightarrow> block_walk \<Rightarrow> token list \<times> token list" where
  "walk_tokens role w =
     (concat (map chat_tokens (bw_out w)) @ map (Spoken role) (bw_text w), map (call_token role) (bw_calls w))"

lemma filter_spoken [simp]:
  "filter is_called (map (Spoken r) t) = []" "filter (\<lambda>t. \<not> is_called t) (map (Spoken r) t) = map (Spoken r) t"
  by (induction t) simp_all

lemma walk_blocks:
  "walk_tokens role (fold (walk_block render role) bs w)
    = (fst (walk_tokens role w) @ filter (\<lambda>t. \<not> is_called t) (concat (map (block_tokens render role) bs)),
       snd (walk_tokens role w) @ filter is_called (concat (map (block_tokens render role) bs)))"
proof (induction bs arbitrary: w)
  case (Cons b bs)
  have "walk_tokens role (walk_block render role b w)
      = (fst (walk_tokens role w) @ filter (\<lambda>t. \<not> is_called t) (block_tokens render role b),
         snd (walk_tokens role w) @ filter is_called (block_tokens render role b))"
    by (simp add: walk_tokens_def walk_block_def block_tokens_def Let_def block_type_def field_get_str)
  with Cons.IH show ?case by simp
qed (simp add: walk_tokens_def)

lemma close_walk_tokens:
  "concat (map chat_tokens (close_walk role w)) = fst (walk_tokens role w) @ snd (walk_tokens role w)"
  by (simp add: close_walk_def walk_tokens_def)

lemma message_to_openai_tokens:
  "concat (map chat_tokens (message_to_openai render m)) = request_tokens render m"
proof -
  have role: "(case get_str m ''role'' of Some r \<Rightarrow> r | None \<Rightarrow> ''user'')
      = (case json_get m ''role'' of Some (JString r) \<Rightarrow> r | _ \<Rightarrow> ''user'')"
    by (simp add: get_str_def split: option.split json.split)
  have start: "walk_tokens r \<lparr>bw_out = [], bw_text = [], bw_calls = [], bw_answered = False\<rparr> = ([], [])" for r
    by (simp add: walk_tokens_def)
  show ?thesis
    unfolding message_to_openai_def request_tokens_def role Let_def
    by (simp add: close_walk_tokens walk_blocks start split: option.split json.split)
qed

text \<open>(C37) Translating an Anthropic transcript loses and adds nothing: message by message, what the roles
  say, each answer with the id it answers and its content, and each call with its id, its name and
  its arguments come out of the chat messages as they stand in the request, in order, save that the
  calls of a message come after all it says and answers.\<close>

theorem anthropic_translation_keeps_the_transcript:
  "concat (map chat_tokens (messages_to_openai render req))
     = concat (map (request_tokens render) (request_messages req))"
proof -
  have "concat (map chat_tokens (concat (map (message_to_openai render) ms)))
      = concat (map (request_tokens render) ms)" for ms
    by (induction ms) (simp_all add: message_to_openai_tokens)
  then show ?thesis by (simp add: messages_to_openai_def)
qed

text \<open>A comment of the code says that the order of the blocks is kept either way. A call is moved behind the
  answer and the words that follow it.\<close>

lemma calls_are_moved_behind_answers:
  "map (\<lambda>m. (field m ''role'', field m ''content''))
     (messages_to_openai (\<lambda>_. ''{}'') (jobj [(''messages'', JArray [jobj [(''role'', JString ''user''), (''content'', JArray
        [jobj [(''type'', JString ''tool_use''), (''id'', JString ''c1''), (''name'', JString ''f'')],
         jobj [(''type'', JString ''tool_result''), (''tool_use_id'', JString ''c1''), (''content'', JString ''done'')]])]])]))
   = [(''tool'', ''done''), (''user'', [])]"
  by code_simp

end
