(* ===== verification/Openai_Laws.thy ===== *)
theory Openai_Laws
  imports Ingress_Openai
begin

text \<open>
  Laws of the OpenAI-compatible routes: the shape of every chunk stream, and what an idempotency key
  promises to a client that retries.
\<close>

subsection \<open>The shape of a stream\<close>

text \<open>Where a reader is: among the chunks (has the role been announced?), after the one that carries
  the finish reason, at the end, or at an error.\<close>

datatype chunk_reader = Chunks bool | Ended | Finished | Broken | Disorder

definition first_choice :: "sse_event \<Rightarrow> json option" where
  "first_choice e =
     (case get_array (sse_data e) ''choices'' of Some (c # _) \<Rightarrow> Some c | _ \<Rightarrow> None)"

definition choice_field :: "sse_event \<Rightarrow> string \<Rightarrow> json option" where
  "choice_field e k = Option.bind (first_choice e) (\<lambda>c. json_get c k)"

definition delta_field :: "sse_event \<Rightarrow> string \<Rightarrow> json option" where
  "delta_field e k = Option.bind (choice_field e ''delta'') (\<lambda>d. json_get d k)"

definition is_piece :: "sse_event \<Rightarrow> bool" where
  "is_piece e \<longleftrightarrow> delta_field e ''content'' \<noteq> None \<or> delta_field e ''reasoning_content'' \<noteq> None"

fun read_chunk :: "chunk_reader \<Rightarrow> sse_event \<Rightarrow> chunk_reader" where
  "read_chunk (Chunks announced) (SseData j) =
     (if get_str j ''object'' = Some ''chat.completion.chunk''
      then
        (if choice_field (SseData j) ''finish_reason'' \<noteq> None then Ended
         else if is_piece (SseData j)
         then (if (delta_field (SseData j) ''role'' = None) = announced then Chunks True else Disorder)
         else if delta_field (SseData j) ''role'' = None then Chunks announced else Disorder)
      else if json_get j ''error'' \<noteq> None then Broken else Disorder)"
| "read_chunk Ended (SseRaw s) = (if s = ''[DONE]'' then Finished else Disorder)"
| "read_chunk _ _ = Disorder"

definition openai_well_formed :: "bool \<Rightarrow> sse_event list \<Rightarrow> bool" where
  "openai_well_formed whole es \<longleftrightarrow>
     foldl read_chunk (Chunks False) es
       \<in> (if whole then {Finished, Broken} else {Chunks False, Chunks True})"

definition piece_text :: "sse_event \<Rightarrow> string" where
  "piece_text e = or_blank (Option.bind (delta_field e ''content'') as_str)"

definition spelled_content :: "sse_event list \<Rightarrow> string" where
  "spelled_content es = concat (map piece_text es)"

lemma chunk_fields:
  "chunk_event n model choice extra = SseData j \<Longrightarrow> extra = [] \<Longrightarrow>
     get_str j ''object'' = Some ''chat.completion.chunk''"
  "choice_field (chunk_event n model choice []) k = json_get (jobj ((''index'', jnat 0) # choice)) k"
  by (auto simp: chunk_event_def choice_field_def first_choice_def get_array_def get_str_def jobj_def)

lemma chunk_delta:
  "delta_field (chunk_event n model [(''delta'', d)] []) k = json_get d k"
  "choice_field (chunk_event n model [(''delta'', d)] []) ''finish_reason'' = None"
  "delta_field (chunk_event n model [(''delta'', d), (''aip_retry'', r)] []) k = json_get d k"
  "choice_field (chunk_event n model [(''delta'', d), (''aip_retry'', r)] []) ''finish_reason'' = None"
  by (simp_all add: delta_field_def chunk_fields(2) jobj_def)

text \<open>One step of the reader over each kind of event.\<close>

lemma read_chunk_event:
  "read_chunk (Chunks a) (chunk_event n model choice []) =
     (let e = chunk_event n model choice [] in
      if choice_field e ''finish_reason'' \<noteq> None then Ended
      else if is_piece e then (if (delta_field e ''role'' = None) = a then Chunks True else Disorder)
      else if delta_field e ''role'' = None then Chunks a else Disorder)"
  using chunk_fields(1) [of n model choice "[]"]
  by (cases "chunk_event n model choice []") (simp_all add: chunk_event_def Let_def)

lemma read_piece:
  assumes "k = ''content'' \<or> k = ''reasoning_content''"
  shows "read_chunk (Chunks a) (chunk_event n model
    [(''delta'', jobj ((if a then [] else [(''role'', JString ''assistant'')]) @ [(k, JString x)]))] [])
    = Chunks True"
  using assms by (cases a) (auto simp: read_chunk_event Let_def chunk_delta is_piece_def jobj_def)

lemma read_others:
  "read_chunk (Chunks a) (chunk_event n model [(''delta'', jobj []), (''aip_retry'', r)] []) = Chunks a"
  "read_chunk (Chunks a) (chunk_event n model [(''delta'', jobj [(''tool_calls'', c)])] []) = Chunks a"
  by (simp_all add: read_chunk_event Let_def chunk_delta is_piece_def jobj_def)

lemma read_terminal: "read_chunk (Chunks a) (terminal_chunk n model t) = Ended"
  by (cases "ot_served t"; cases "ot_usage t")
    (simp_all add: terminal_chunk_def chunk_event_def opt_entry_def choice_field_def first_choice_def
      get_array_def get_str_def jobj_def)

lemma read_error: "read_chunk (Chunks a) (openai_stream_error s m) = Broken"
  by (simp add: openai_stream_error_def openai_error_def on_key_def set_key_def jobj_def get_str_def)

lemma piece_texts [simp]:
  "piece_text (chunk_event n model
    [(''delta'', jobj ((if a then [] else [(''role'', JString ''assistant'')]) @ [(''content'', JString x)]))] []) = x"
  "piece_text (chunk_event n model
    [(''delta'', jobj ((if a then [] else [(''role'', JString ''assistant'')])
       @ [(''reasoning_content'', JString x)]))] []) = []"
  "piece_text (chunk_event n model [(''delta'', jobj []), (''aip_retry'', r)] []) = []"
  "piece_text (chunk_event n model [(''delta'', jobj [(''tool_calls'', c)])] []) = []"
  "piece_text (SseRaw s) = []"
  "piece_text (openai_stream_error st m) = []"
  "piece_text (terminal_chunk n model t) = []"
  by (simp_all add: piece_text_def chunk_delta jobj_def or_blank_def)
    (simp_all add: delta_field_def choice_field_def first_choice_def get_array_def openai_stream_error_def
      openai_error_def on_key_def set_key_def jobj_def or_blank_def terminal_chunk_def chunk_event_def
      opt_entry_def split: option.splits)

text \<open>What a message that does not end the stream does to the turn.\<close>

fun is_terminal :: "bridge_msg \<Rightarrow> bool" where
  "is_terminal BDone = True"
| "is_terminal (BError _ _ _) = True"
| "is_terminal _ = False"

definition after_message :: "nat \<Rightarrow> string \<Rightarrow> bridge_msg \<Rightarrow> openai_turn \<Rightarrow> openai_turn" where
  "after_message n model msg t = openai_loop n model [msg] t"

lemma loop_step:
  "\<not> is_terminal msg \<Longrightarrow> openai_loop n model (msg # ms) t = openai_loop n model ms (after_message n model msg t)"
  by (cases msg) (simp_all add: after_message_def)

lemma loop_steps:
  "list_all (\<lambda>msg. \<not> is_terminal msg) ms \<Longrightarrow>
     openai_loop n model (ms @ rest) t = openai_loop n model rest (fold (after_message n model) ms t)"
  by (induction ms arbitrary: t) (simp_all add: loop_step)

definition in_step :: "openai_turn \<Rightarrow> string \<Rightarrow> bool" where
  "in_step t u \<longleftrightarrow>
     foldl read_chunk (Chunks False) (ot_events t) = Chunks (ot_started t)
     \<and> spelled_content (ot_events t) = u"

lemma spelled_content_snoc [simp]: "spelled_content (es @ [e]) = spelled_content es @ piece_text e"
  by (simp add: spelled_content_def)

lemma in_step_piece:
  assumes "in_step t u" and "k = ''content'' \<or> k = ''reasoning_content''"
  shows "in_step (send_piece n model k x t) (u @ (if k = ''content'' then x else []))"
proof -
  define e where "e = chunk_event n model
    [(''delta'', jobj ((if ot_started t then [] else [(''role'', JString ''assistant'')]) @ [(k, JString x)]))] []"
  have read: "read_chunk (Chunks (ot_started t)) e = Chunks True"
    unfolding e_def by (rule read_piece [OF assms(2)])
  have piece: "piece_text e = (if k = ''content'' then x else [])"
    using assms(2) unfolding e_def by (elim disjE) (simp_all only: piece_texts if_True, simp_all)
  have "send_piece n model k x t = (if x = [] then t else send e (t\<lparr>ot_started := True\<rparr>))"
    by (simp add: send_piece_def e_def)
  then show ?thesis
    using assms(1) read piece by (simp add: in_step_def send_def)
qed

lemma in_step_after:
  assumes "in_step t u" and "\<not> is_terminal msg"
  shows "in_step (after_message n model msg t) (u @ delta_text msg)"
proof (cases msg)
  case (BDelta x)
  then show ?thesis using in_step_piece [OF assms(1), of "''content''"] by (simp add: after_message_def)
next
  case (BReasoning x)
  then show ?thesis
    using in_step_piece [OF assms(1), of "''reasoning_content''"] by (simp add: after_message_def)
qed (use assms in \<open>simp_all add: after_message_def in_step_def send_def read_others\<close>)

lemma in_step_messages:
  "in_step t u \<Longrightarrow> list_all (\<lambda>msg. \<not> is_terminal msg) ms \<Longrightarrow>
     in_step (fold (after_message n model) ms t) (u @ text_of ms)"
proof (induction ms arbitrary: t u)
  case (Cons m ms)
  then have "in_step (after_message n model m t) (u @ delta_text m)" using in_step_after by simp
  from Cons.IH [OF this] Cons.prems show ?case by (simp add: text_of_def)
qed simp

lemma quiet_not_terminal: "list_all is_quiet ms \<Longrightarrow> list_all (\<lambda>msg. \<not> is_terminal msg) ms"
proof (erule list.pred_mono_strong)
  fix m
  assume "is_quiet m"
  then show "\<not> is_terminal m" by (cases m) simp_all
qed

text \<open>A stream is what its messages before the end make of it, and its end.\<close>

lemma openai_stream_ends:
  assumes "list_all (\<lambda>msg. \<not> is_terminal msg) ms"
  shows "openai_well_formed False (openai_stream n model ms)"
    and "openai_well_formed True (openai_stream n model (ms @ [BDone]))"
    and "openai_well_formed True (openai_stream n model (ms @ [BError s msg h]))"
    and "spelled_content (openai_stream n model ms) = text_of ms"
    and "spelled_content (openai_stream n model (ms @ [BDone])) = text_of ms"
    and "spelled_content (openai_stream n model (ms @ [BError s msg h])) = text_of ms"
proof -
  let ?t0 = "\<lparr>ot_events = [], ot_started = False, ot_tools = False, ot_served = None, ot_finish = None,
        ot_usage = None\<rparr>"
  have "in_step ?t0 []" by (simp add: in_step_def spelled_content_def)
  from in_step_messages [OF this assms, of n model]
  have t: "in_step (fold (after_message n model) ms ?t0) (text_of ms)" by simp
  note run = openai_stream_def loop_steps [OF assms] in_step_def openai_well_formed_def send_def
  have cut_run: "openai_stream n model ms = ot_events (fold (after_message n model) ms ?t0)"
    using loop_steps [OF assms, of n model "[]"] by (simp add: openai_stream_def)
  show "openai_well_formed False (openai_stream n model ms)"
    and "spelled_content (openai_stream n model ms) = text_of ms"
    using t by (simp_all add: cut_run in_step_def openai_well_formed_def)
  show "openai_well_formed True (openai_stream n model (ms @ [BDone]))"
    and "openai_well_formed True (openai_stream n model (ms @ [BError s msg h]))"
    and "spelled_content (openai_stream n model (ms @ [BDone])) = text_of ms"
    and "spelled_content (openai_stream n model (ms @ [BError s msg h])) = text_of ms"
    using t by (simp_all add: run read_terminal read_error)
      (simp_all add: spelled_content_def)
qed

lemma openai_frame:
  assumes "list_all is_note ns" and "is_close close"
  shows "openai_well_formed (close \<noteq> []) (openai_stream n model (ns @ close))
    \<and> spelled_content (openai_stream n model (ns @ close)) = text_of (ns @ close)"
proof -
  note quiet = quiet_not_terminal [OF notes_quiet [OF assms(1)]]
  show ?thesis
    using assms(2)
  proof (cases rule: is_close_cases)
    case cut
    with openai_stream_ends [OF quiet] show ?thesis by simp
  next
    case (failed s m h)
    with openai_stream_ends [OF quiet] show ?thesis by simp
  next
    case (said ms)
    then have "list_all (\<lambda>msg. \<not> is_terminal msg) (ns @ ms)" using quiet quiet_not_terminal by simp
    from openai_stream_ends [OF this] said show ?thesis by simp
  next
    case (called calls ms)
    then have "list_all (\<lambda>msg. \<not> is_terminal msg) (ns @ BToolCalls (JArray calls) # ms)"
      using quiet quiet_not_terminal by simp
    from openai_stream_ends [OF this] called show ?thesis by simp
  qed
qed

interpretation openai: dialect_stream "openai_stream n model" openai_well_formed spelled_content
  using openai_frame by unfold_locales blast+

text \<open>(C35) Every chat-completions stream is a list of chunks that announces the role exactly with its
  first piece, then one chunk with the finish reason and \<open>[DONE]\<close>, or an error; it breaks off without
  either only when the request could be cancelled, and its content spells the bridge's answer.\<close>

theorem openai_streams_are_well_formed:
  "case serve m host rq (st\<lparr>bs_replies := []\<rparr>) of
     None \<Rightarrow> planning_hangs m host
   | Some st' \<Rightarrow>
       (\<exists>whole. may_end m whole \<and> openai_well_formed whole (openai_stream n model (bs_replies st')))
       \<and> spelled_content (openai_stream n model (bs_replies st')) = text_of (bs_replies st')"
  by (rule openai.served_stream)

subsection \<open>Idempotency keys\<close>

definition idem_scope :: "string option \<Rightarrow> string" where
  "idem_scope app_key = (case app_key of Some k \<Rightarrow> k | None \<Rightarrow> ''master'')"

definition in_progress_answer :: http_answer where
  "in_progress_answer =
     http_err 409 (openai_error ''a request with this idempotency key is already in progress'' ''conflict'' None)"

lemma failure_is_no_success: "ha_status (openai_failure e) \<noteq> 200"
  by (cases e)
    (auto simp: openai_failure_def Let_def err_ra_def err_with_cooldown_def http_err_def worker_status_def
      split: option.split)

text \<open>A request that passes the checks with a key goes through the replay cache; a store that fails
  degrades to no cache.\<close>

lemma chat_h_keyed:
  assumes "ge_gate env = Inr app_key" and "ge_parse env body = Some req" and "chat_refusal req = None"
    and "\<not> wants_stream req" and "idem_key_of headers = Some k" and "ge_has_store env"
  shows "chat_h env headers body table =
    (case idempotency_begin (ge_idem env) (ge_now env) k (idem_scope app_key) body table of
       (Some (IdemReplay status cached), table') \<Rightarrow> (Replayed status cached, table', [])
     | (Some (IdemConflict True), table') \<Rightarrow> (Answer in_progress_answer, table', [])
     | (Some (IdemConflict False), table') \<Rightarrow>
         (Answer (http_err 409 (openai_error
            ''this idempotency key was already used with a different request body'' ''conflict'' None)), table', [])
     | (_, table') \<Rightarrow>
         chat_dispatch env headers app_key (Some k) (strip_tool_fields (ge_tools_enabled env) req) False table')"
  using assms
  by (auto simp: chat_h_def Let_def idem_scope_def in_progress_answer_def
      split: prod.splits idem_begin.splits bool.splits option.splits)

text \<open>A claim that reads, finds no row and is not overtaken.\<close>

definition claims_freely :: "idem_outside \<Rightarrow> bool" where
  "claims_freely io \<longleftrightarrow> \<not> io_read_fails io \<and> \<not> io_insert_fails io \<and> io_between io = (\<lambda>t. t)"

text \<open>(C38) Once a request with an idempotency key has taken its slot, a retry by the same caller with the same
  body that can read the table is never dispatched again while the row lives: it is answered with the
  stored bytes of the first answer when that was a success and could be stored, and otherwise refused
  as still in progress, so the retry of a failed request is refused and not run again. Only a retry
  that cannot read the table runs as if it had no key.\<close>

theorem retry_is_replayed_or_refused:
  assumes "ge_gate env = Inr app_key" and "ge_gate env' = Inr app_key"
    and "ge_parse env body = Some req" and "ge_parse env' body = Some req"
    and "chat_refusal req = None" and "\<not> wants_stream req" and "idem_key_of headers = Some k"
    and "ge_has_store env" and "ge_has_store env'" and "table (k, idem_scope app_key) = None"
    and "claims_freely (ge_idem env)"
    and "chat_h env headers body table = (Answer a, table', dispatched)"
  shows "chat_h env' headers body table' =
    (if io_read_fails (ge_idem env')
     then chat_dispatch env' headers app_key (Some k) (strip_tool_fields (ge_tools_enabled env') req) False table'
     else if dispatched \<noteq> [] \<and> ha_status a = 200 \<and> \<not> io_complete_fails (ge_idem env)
     then (Replayed 200 (ge_render env (ha_body a)), table', [])
     else (Answer in_progress_answer, table', []))"
proof -
  let ?slot = "\<lparr>is_fingerprint = body, is_response = None, is_created = ge_now env\<rparr>"
  let ?key = "(k, idem_scope app_key)"
  let ?table1 = "table(?key \<mapsto> ?slot)"
  have "chat_dispatch env headers app_key (Some k) (strip_tool_fields (ge_tools_enabled env) req) False ?table1
      = (Answer a, table', dispatched)"
    using assms(12) chat_h_keyed [OF assms(1,3,5,6,7,8), of table] assms(10,11)
    by (simp add: idempotency_begin_def claims_freely_def)
  then have "table' ?key = (if dispatched \<noteq> [] \<and> ha_status a = 200 \<and> \<not> io_complete_fails (ge_idem env)
      then Some (?slot\<lparr>is_response := Some (200, ge_render env (ha_body a))\<rparr>) else Some ?slot)"
    using assms(8) failure_is_no_success
    by (auto simp: chat_dispatch_def chat_answer_def Let_def idempotency_complete_def
        idem_scope_def [symmetric] split: sum.splits option.splits prod.splits)
  then show ?thesis
    using chat_h_keyed [OF assms(2,4,5,6,7,9), of table'] by (auto simp: idempotency_begin_def claim_taken_def)
qed

text \<open>A request whose upstream failed, and the same request again once the upstream works.\<close>

definition demo_env :: "bridge_msg list \<Rightarrow> gateway_env" where
  "demo_env ms =
     \<lparr>ge_gate = Inr None, ge_slot = Inr 7, ge_tools_enabled = True, ge_inject = (\<lambda>j. j),
      ge_bridge = (\<lambda>_. ms), ge_now = 0, ge_has_store = True, ge_idem = working_idem,
      ge_parse = (\<lambda>_. Some (jobj [(''model'', JString ''m'')])), ge_render = (\<lambda>_. ''{}'')\<rparr>"

definition demo_headers :: "string \<Rightarrow> string option" where
  "demo_headers h = (if h = ''idempotency-key'' then Some ''k1'' else None)"

definition demo_failed :: idem_table where
  "demo_failed = [(''k1'', ''master'') \<mapsto> \<lparr>is_fingerprint = ''b'', is_response = None, is_created = 0\<rparr>]"

lemma demo_checks:
  "chat_refusal (jobj [(''model'', JString ''m'')]) = None"
  "\<not> wants_stream (jobj [(''model'', JString ''m'')])"
  "idem_key_of demo_headers = Some ''k1''"
  by code_simp+

lemma demo_first_fails:
  "chat_h (demo_env [BError 502 ''down'' None]) demo_headers ''b'' (\<lambda>_. None)
     = (Answer (openai_failure (502, ''down'', None)), demo_failed,
        [bridge_request_of ''chat'' (jobj [(''model'', JString ''m'')]) demo_headers None])"
  by (simp add: chat_h_keyed [where k = "''k1''" and req = "jobj [(''model'', JString ''m'')]"
        and app_key = None] demo_env_def demo_checks idempotency_begin_def working_idem_def idem_scope_def chat_dispatch_def
      chat_answer_def collected_answer_def Let_def demo_failed_def strip_tool_fields_def)

theorem retry_is_replayed_or_refused_witness:
  "chat_h (demo_env [BDelta ''hi'', BDone]) demo_headers ''b'' demo_failed
     = (Answer in_progress_answer, demo_failed, [])"
proof -
  have "ha_status (openai_failure (502, ''down'', None)) = 502" by code_simp
  moreover have "claims_freely (ge_idem (demo_env ms))" "\<not> io_read_fails (ge_idem (demo_env ms))" for ms
    by (simp_all add: demo_env_def claims_freely_def working_idem_def)
  ultimately show ?thesis
    using retry_is_replayed_or_refused [of "demo_env [BError 502 ''down'' None]" None
        "demo_env [BDelta ''hi'', BDone]" "''b''" "jobj [(''model'', JString ''m'')]" demo_headers "''k1''"
        "\<lambda>_. None", OF _ _ _ _ demo_checks(1,2,3) _ _ _ _ demo_first_fails]
    by (simp add: demo_env_def)
qed

text \<open>A request that goes on without the cache still completes its row, whoever reserved it: when the table
  could not be read, its answer lands in the row of another body, and that body's retry is answered
  with it.\<close>

lemma an_undeduplicated_answer_lands_in_anothers_row:
  "(let blind = (demo_env [BDelta ''hi'', BDone])\<lparr>ge_idem := working_idem\<lparr>io_read_fails := True\<rparr>\<rparr>;
        table = fst (snd (chat_h blind demo_headers ''other body'' demo_failed))
    in map_option (\<lambda>s. (is_fingerprint s, is_response s)) (table (''k1'', ''master'')))
   = Some (''b'', Some (200, ''{}''))"
  by code_simp

end
