(* ===== verification/Gateway_Routes.thy ===== *)
theory Gateway_Routes
  imports Ingress_Responses Anthropic_Laws Openai_Laws
begin

text \<open>
  The Anthropic and Responses handlers as a whole, the streams of the Gemini and Responses dialects,
  and what the routes have in common: the tools toggle and the reading of a forced tool.
\<close>

subsection \<open>The handlers\<close>

definition count_tokens_h :: "gateway_env \<Rightarrow> string \<Rightarrow> http_answer" where
  "count_tokens_h env body =
     (case ge_gate env of
        Inl r \<Rightarrow> refusal_anthropic r
      | Inr _ \<Rightarrow> count_tokens_answer (ge_render env) (ge_parse env body))"

definition bad_request :: "string \<Rightarrow> http_answer" where
  "bad_request message = http_err 400 (anthropic_error message ''invalid_request_error'')"

definition messages_h ::
  "gateway_env \<Rightarrow> (string \<Rightarrow> string option) \<Rightarrow> string \<Rightarrow> gateway_response \<times> bridge_request list" where
  "messages_h env headers body =
     (case ge_gate env of
        Inl r \<Rightarrow> (Answer (refusal_anthropic r), [])
      | Inr app_key \<Rightarrow>
          (case ge_parse env body of
             None \<Rightarrow> (Answer (bad_request ''invalid JSON body''), [])
           | Some req \<Rightarrow>
               (case to_chat_body (ge_render env) req of
                  None \<Rightarrow> (Answer (bad_request ''model and messages are required''), [])
                | Some chat0 \<Rightarrow>
                    (let chat = strip_tool_fields (ge_tools_enabled env) chat0;
                         model = or_blank (get_str chat ''model'')
                     in case ge_slot env of
                          Inl refusal \<Rightarrow>
                            (let status = ha_status refusal in
                             (Answer (http_err status (anthropic_error
                                (slot_refusal_message ''gateway'' status) (anthropic_error_kind status))), []))
                        | Inr n \<Rightarrow>
                            (let rq = bridge_request_of ''chat'' (ge_inject env chat) headers app_key;
                                 mid = ''msg_gw_'' @ show_nat n
                             in (if wants_stream chat
                                 then Stream (anthropic_stream (ge_render env) mid model (ge_bridge env rq))
                                 else Answer (anthropic_reply (ge_render env) (ge_parse env) mid model
                                        (ge_bridge env rq)), [rq]))))))"

definition map_generic_to_status :: "http_answer \<Rightarrow> http_answer" where
  "map_generic_to_status r =
     http_err (ha_status r) (openai_error (slot_refusal_message ''router'' (ha_status r))
       (if ha_status r = 429 then ''rate_limit'' else ''service_unavailable'') None)"

definition responses_h ::
  "gateway_env \<Rightarrow> (string \<Rightarrow> string option) \<Rightarrow> string \<Rightarrow> gateway_response \<times> bridge_request list" where
  "responses_h env headers body =
     (case ge_gate env of
        Inl r \<Rightarrow> (Answer (refusal_openai r), [])
      | Inr app_key \<Rightarrow>
          (case ge_parse env body of
             None \<Rightarrow> (Answer (http_err 400 (responses_error ''invalid JSON body'' ''invalid_json'')), [])
           | Some req \<Rightarrow>
               (case to_chat_body_responses (ge_render env) req of
                  None \<Rightarrow> (Answer (http_err 400
                    (responses_error ''model and input are required'' ''missing_required_parameter'')), [])
                | Some chat0 \<Rightarrow>
                    (let chat = strip_tool_fields (ge_tools_enabled env) chat0 in
                     case ge_slot env of
                       Inl refusal \<Rightarrow> (Answer (map_generic_to_status refusal), [])
                     | Inr n \<Rightarrow>
                         (let rq = bridge_request_of ''responses'' (ge_inject env chat) headers app_key;
                              rid = ''resp_gw_'' @ show_nat n;
                              tools = json_get req ''tools'';
                              choice = json_get req ''tool_choice''
                          in (if wants_stream chat
                              then Stream (responses_stream (ge_render env) (ge_parse env) rid tools choice
                                     (ge_bridge env rq))
                              else Answer (responses_reply (ge_render env) (ge_parse env) rid tools choice
                                     (ge_bridge env rq)), [rq]))))))"

subsection \<open>Gemini streams\<close>

lemma read_gemini_chunk [simp]: "read_gemini Candidates (gemini_chunk parts extra) = Candidates"
  by (simp add: gemini_chunk_def jobj_def)

lemma candidate_texts [simp]:
  "candidate_text (gemini_chunk [jobj [(''text'', JString x)]] []) = x"
  "candidate_text (gemini_chunk [function_call_part render parse tc] [(''finishReason'', j)]) = []"
  by (simp_all add: candidate_text_def gemini_chunk_def get_array_def parts_text_def concat_texts_def
      jobj_def get_str_def List.map_filter_def function_call_part_def)

lemma gemini_text_append [simp]: "gemini_text (xs @ ys) = gemini_text xs @ gemini_text ys"
  by (simp add: gemini_text_def)

lemma gemini_call_chunks [simp]:
  "foldl read_gemini Candidates (map (\<lambda>tc. gemini_chunk (f tc) (g tc)) cs) = Candidates"
  "gemini_text (map (\<lambda>tc. gemini_chunk [function_call_part render parse tc] [(''finishReason'', j)]) cs) = []"
  by (induction cs) (simp_all add: gemini_text_def)

lemma gemini_ends [simp]:
  "read_gemini Candidates (SseData (jobj [gemini_usage u])) = GeminiEnd"
  "read_gemini Candidates (SseData (jobj [(''candidates'', c), gemini_usage u])) = GeminiEnd"
  "read_gemini Candidates (SseData (gemini_error_body m s)) = GeminiBroken"
  "gemini_text [SseData (jobj [gemini_usage u])] = []"
  "gemini_text [SseData (jobj [(''candidates'', JArray [jobj [(''finishReason'', r)]]), gemini_usage u])] = []"
  "gemini_text [SseData (gemini_error_body m s)] = []"
  by (simp_all add: gemini_usage_def gemini_error_body_def jobj_def gemini_text_def candidate_text_def
      get_array_def parts_text_def split: prod.split)

lemma gemini_usage_fields [simp]:
  "\<exists>y. json_get (jobj [gemini_usage u]) ''usageMetadata'' = Some y"
  "\<exists>y. json_get (jobj [(''candidates'', c), gemini_usage u]) ''usageMetadata'' = Some y"
  by (simp_all add: gemini_usage_def jobj_def split: prod.split)

lemma gemini_error_fields [simp]:
  "json_get (gemini_error_body m s) ''usageMetadata'' = None"
  "json_get (gemini_error_body m s) ''candidates'' = None"
  "\<exists>y. json_get (gemini_error_body m s) ''error'' = Some y"
  by (simp_all add: gemini_error_body_def jobj_def)




subsection \<open>Responses streams\<close>

text \<open>
  A reader of the item protocol of the Responses dialect. It keeps the items that are open by the
  ids the events carry: an item is closed by its own \<open>output_item.done\<close>, text belongs to an open content
  part of an open item and ends with \<open>output_text.done\<close>, arguments belong to an open item, and nothing
  follows \<open>response.completed\<close>, which wants the part closed, or \<open>response.failed\<close>.
\<close>

datatype response_phase = RBefore | RRunning | RDone | RFailed | RDisorder

record response_reader =
  rr_phase :: response_phase
  rr_open :: "json list"
  rr_part :: "json option"
  rr_said :: bool

definition event_item :: "sse_event \<Rightarrow> json" where
  "event_item e =
     (case Option.bind (json_get (sse_data e) ''item'') (\<lambda>it. json_get it ''id'') of
        Some i \<Rightarrow> i | None \<Rightarrow> JNull)"

definition event_item_id :: "sse_event \<Rightarrow> json" where
  "event_item_id e = (case json_get (sse_data e) ''item_id'' of Some i \<Rightarrow> i | None \<Rightarrow> JNull)"

definition goes :: "bool \<Rightarrow> response_reader \<Rightarrow> response_reader" where
  "goes ok r = (if ok then r else r\<lparr>rr_phase := RDisorder\<rparr>)"

definition read_running :: "response_reader \<Rightarrow> sse_event \<Rightarrow> response_reader" where
  "read_running r e =
     (let n = event_name e; this_item = event_item e; of_item = event_item_id e in
      if n = ''response.output_item.added'' then r\<lparr>rr_open := rr_open r @ [this_item]\<rparr>
      else if n = ''response.output_item.done'' then
        goes (this_item \<in> set (rr_open r) \<and> rr_part r \<noteq> Some this_item) (r\<lparr>rr_open := remove1 this_item (rr_open r)\<rparr>)
      else if n = ''response.content_part.added'' then
        goes (of_item \<in> set (rr_open r) \<and> rr_part r = None) (r\<lparr>rr_part := Some of_item\<rparr>)
      else if n = ''response.output_text.delta'' then goes (rr_part r = Some of_item \<and> \<not> rr_said r) r
      else if n = ''response.output_text.done'' then
        goes (rr_part r = Some of_item \<and> \<not> rr_said r) (r\<lparr>rr_said := True\<rparr>)
      else if n = ''response.content_part.done'' then
        goes (rr_part r = Some of_item \<and> rr_said r) (r\<lparr>rr_part := None\<rparr>)
      else if n = ''response.function_call_arguments.done'' then goes (of_item \<in> set (rr_open r)) r
      else if n = ''response.completed'' then goes (rr_part r = None) (r\<lparr>rr_phase := RDone\<rparr>)
      else if n = ''response.failed'' then r\<lparr>rr_phase := RFailed\<rparr>
      else r\<lparr>rr_phase := RDisorder\<rparr>)"

definition read_response :: "response_reader \<Rightarrow> sse_event \<Rightarrow> response_reader" where
  "read_response r e =
     (case rr_phase r of
        RBefore \<Rightarrow> goes (event_name e = ''response.created'') (r\<lparr>rr_phase := RRunning\<rparr>)
      | RRunning \<Rightarrow> read_running r e
      | _ \<Rightarrow> r\<lparr>rr_phase := RDisorder\<rparr>)"

definition fresh_reader :: response_reader where
  "fresh_reader = \<lparr>rr_phase = RBefore, rr_open = [], rr_part = None, rr_said = False\<rparr>"

text \<open>The items of calls, by their ids, in the order they were opened.\<close>

definition opens_call :: "sse_event \<Rightarrow> bool" where
  "opens_call e \<longleftrightarrow> event_name e = ''response.output_item.added''
     \<and> Option.bind (json_get (sse_data e) ''item'') (\<lambda>it. json_get it ''type'') = Some (JString ''function_call'')"

definition call_items :: "sse_event list \<Rightarrow> json list" where
  "call_items es = map event_item (filter opens_call es)"


definition response_delta :: "sse_event \<Rightarrow> string" where
  "response_delta e =
     (if event_name e = ''response.output_text.delta'' then or_blank (get_str (sse_data e) ''delta'') else [])"

definition response_text :: "sse_event list \<Rightarrow> string" where
  "response_text es = concat (map response_delta es)"

lemma response_text_append [simp]: "response_text (xs @ ys) = response_text xs @ response_text ys"
  by (simp add: response_text_def)

lemma response_text_Cons: "response_text (e # es) = response_delta e @ response_text es"
  by (simp add: response_text_def)

lemma response_text_Nil [simp]: "response_text [] = []"
  by (simp add: response_text_def)

lemma part_event_name [simp]: "event_name (part_event rid n kvs) = n"
  by (simp add: part_event_def)

lemma failed_name [simp]: "event_name (responses_failed rid s m) = ''response.failed''"
  by (simp add: responses_failed_def split: prod.split)

lemma response_deltas [simp]:
  "response_delta (part_event rid ''response.output_text.delta'' [(''delta'', JString x)]) = x"
  by (simp add: response_delta_def) (simp add: part_event_def typed_def jobj_def get_str_def or_blank_def)

lemma call_items_append [simp]: "call_items (xs @ ys) = call_items xs @ call_items ys"
  by (simp add: call_items_def)

lemma call_items_Nil [simp]: "call_items [] = []"
  by (simp add: call_items_def)

lemma call_items_Cons: "call_items (e # es) = (if opens_call e then [event_item e] else []) @ call_items es"
  by (simp add: call_items_def)

lemma jobj_get: "json_get (jobj kvs) k = map_of (rev kvs) k"
proof -
  have "map_get (fold (\<lambda>(k, v). map_insert k v) kvs m) k = (case map_of (rev kvs) k of Some v \<Rightarrow> Some v | None \<Rightarrow> map_get m k)"
    for m
    by (induction kvs rule: rev_induct) (auto split: option.split)
  then show ?thesis by (simp add: jobj_def split: option.split)
qed

lemma typed_get: "json_get (sse_data (typed n kvs)) k = map_of (rev kvs @ [(''type'', JString n)]) k"
  by (simp add: typed_def jobj_get)

lemma part_event_id [simp]:
  "event_item_id (part_event rid n [(''part'', x)]) = out_id rid"
  "event_item_id (part_event rid n [(''text'', x)]) = out_id rid"
  "event_item_id (part_event rid n [(''delta'', x)]) = out_id rid"
  by (simp_all add: part_event_def event_item_id_def typed_get)

lemma quiet_opens [simp]:
  "opens_call (part_event rid ''response.output_text.delta'' kvs) = False"
  "opens_call (responses_failed rid s m) = False"
  by (simp_all add: opens_call_def)

definition text_reader :: "string \<Rightarrow> json list \<Rightarrow> bool \<Rightarrow> response_reader" where
  "text_reader rid fs said =
     \<lparr>rr_phase = RRunning, rr_open = out_id rid # fs, rr_part = Some (out_id rid), rr_said = said\<rparr>"

lemma opening_reads [simp]:
  "foldl read_response fresh_reader (responses_opening rid) = text_reader rid [] False"
  "response_text (responses_opening rid) = []" "call_items (responses_opening rid) = []"
  by (simp_all add: responses_opening_def response_text_def response_delta_def call_items_Cons opens_call_def
      read_response_def read_running_def Let_def goes_def fresh_reader_def text_reader_def part_event_def event_item_def event_item_id_def typed_get jobj_get)

lemma delta_reads [simp]:
  "read_response (text_reader rid [] False) (part_event rid ''response.output_text.delta'' [(''delta'', JString x)])
     = text_reader rid [] False"
  by (simp add: read_response_def read_running_def Let_def text_reader_def goes_def)

lemma failed_reads [simp]:
  "rr_phase (read_response (text_reader rid fs said) (responses_failed rid s m)) = RFailed"
  by (simp add: read_response_def read_running_def Let_def text_reader_def)

lemma call_item_reads:
  "foldl read_response (text_reader rid fs True) (concat (map (call_item_events render rid) cs))
     = text_reader rid (fs @ map (fc_id rid) cs) True"
  "response_text (concat (map (call_item_events render rid) cs)) = []"
  "call_items (concat (map (call_item_events render rid) cs)) = map (fc_id rid) cs"
  by (induction cs arbitrary: fs)
    (simp_all add: call_item_events_def response_text_def response_delta_def call_items_Cons opens_call_def
      read_response_def read_running_def Let_def text_reader_def goes_def event_item_def event_item_id_def typed_get jobj_get call_part_def split: prod.split)

lemma closing_reads [simp]:
  "rr_phase (foldl read_response (text_reader rid [] False) (responses_closing render rid tools choice t)) = RDone"
  "rr_open (foldl read_response (text_reader rid [] False) (responses_closing render rid tools choice t))
     = call_items (responses_closing render rid tools choice t)"
  "response_text (responses_closing render rid tools choice t) = []"
proof -
  have said: "read_response (text_reader rid [] False) (part_event rid ''response.output_text.done'' [(''text'', x)])
      = text_reader rid [] True" for x
    by (simp add: read_response_def read_running_def Let_def text_reader_def goes_def)
  have tail: "read_response (read_response (read_response (text_reader rid fs True)
        (part_event rid ''response.content_part.done'' [(''part'', x)]))
        (typed ''response.output_item.done'' [(''output_index'', jnat 0), (''item'', jobj
           [(''id'', out_id rid), (''type'', a), (''role'', b), (''status'', c), (''content'', d)])]))
        (typed ''response.completed'' [(''response'', y)])
      = \<lparr>rr_phase = RDone, rr_open = fs, rr_part = None, rr_said = True\<rparr>" for fs x a b c d y
    by (simp add: read_response_def read_running_def Let_def text_reader_def goes_def event_item_def
        event_item_id_def part_event_def typed_get jobj_get)
  have "foldl read_response (text_reader rid [] False) (responses_closing render rid tools choice t)
      = \<lparr>rr_phase = RDone, rr_open = map (fc_id rid) (rt_calls t), rr_part = None, rr_said = True\<rparr>"
    unfolding responses_closing_def Let_def by (simp add: said call_item_reads tail del: event_names)
  moreover have "call_items (responses_closing render rid tools choice t) = map (fc_id rid) (rt_calls t)"
    unfolding responses_closing_def Let_def by (simp add: call_item_reads call_items_Cons opens_call_def)
  ultimately show "rr_phase (foldl read_response (text_reader rid [] False) (responses_closing render rid tools choice t)) = RDone"
    "rr_open (foldl read_response (text_reader rid [] False) (responses_closing render rid tools choice t))
       = call_items (responses_closing render rid tools choice t)"
    by simp_all
  show "response_text (responses_closing render rid tools choice t) = []"
    by (simp add: responses_closing_def Let_def response_text_Cons response_delta_def call_item_reads)
qed





text \<open>The audit of the repository (\<open>docs/AUDIT_REPORT_2026-10-03.md\<close>, R1) says that a turn of calls closes each
  call with its own \<open>output_item.done\<close>. The stream closes its message only.\<close>

lemma a_call_item_is_never_closed:
  "map event_name (filter (\<lambda>e. event_item e = fc_id ''r'' (''c1'', ''f'', JNull)) (responses_stream (\<lambda>_. ''null'') (\<lambda>_. None) ''r'' None None
     [BToolCalls (JArray [jobj [(''id'', JString ''c1''), (''function'', jobj [(''name'', JString ''f'')])]]), BDone]))
   = [''response.output_item.added'']"
  by code_simp


end
