(* ===== verification/App_Keys.thy ===== *)
theory App_Keys
  imports Rust_Str
begin

text \<open>
  The per-app keys of the gateway: their rows (\<open>persist.rs\<close>), the credential of the user interface
  (\<open>ui_session.rs\<close>), the provider that joins rows and vault, and the memo over it (\<open>gateway.rs\<close>). The
  database and the vault are the rows and the map they hold; of their I/O errors, a vault that refuses a
  write and a failed read of the stamps are modelled. Requests at the memo interleave.
\<close>

subsection \<open>Rows\<close>

record gateway_key =
  gk_id :: string
  gk_label :: string
  gk_created_at :: int
  gk_last_used_at :: "int option"
  gk_revoked_at :: "int option"
  gk_cap_micros :: "int option"

record key_world =
  kw_rows :: "gateway_key list"
  kw_vault :: "string \<Rightarrow> string option"
  kw_put_error :: "string option"
  kw_now :: int

definition APP_KEY_PREFIX :: string where
  "APP_KEY_PREFIX = ''gwkey:''"

definition key_row :: "string \<Rightarrow> key_world \<Rightarrow> gateway_key option" where
  "key_row kid w = List.find (\<lambda>r. gk_id r = kid) (kw_rows w)"

definition is_active :: "gateway_key \<Rightarrow> bool" where
  "is_active r \<longleftrightarrow> gk_revoked_at r = None"

definition active_gateway_key_ids :: "key_world \<Rightarrow> string list" where
  "active_gateway_key_ids w = map gk_id (filter is_active (kw_rows w))"

definition active_gateway_key_stamps :: "key_world \<Rightarrow> (string \<times> int) list" where
  "active_gateway_key_stamps w =
     sort_key fst (map (\<lambda>r. (gk_id r, gk_created_at r)) (filter is_active (kw_rows w)))"

definition gateway_key_insert :: "string \<Rightarrow> string \<Rightarrow> key_world \<Rightarrow> string + key_world" where
  "gateway_key_insert kid label w =
     (if key_row kid w \<noteq> None then Inl ''UNIQUE constraint failed: gateway_keys.kid''
      else Inr (w\<lparr>kw_rows := kw_rows w @
        [\<lparr>gk_id = kid, gk_label = label, gk_created_at = kw_now w, gk_last_used_at = None,
          gk_revoked_at = None, gk_cap_micros = None\<rparr>]\<rparr>))"

definition update_rows :: "(gateway_key \<Rightarrow> bool) \<Rightarrow> (gateway_key \<Rightarrow> gateway_key) \<Rightarrow> string \<Rightarrow> key_world \<Rightarrow> string + key_world" where
  "update_rows P f message w =
     (if list_ex P (kw_rows w)
      then Inr (w\<lparr>kw_rows := map (\<lambda>r. if P r then f r else r) (kw_rows w)\<rparr>)
      else Inl message)"

definition gateway_key_revoke :: "string \<Rightarrow> key_world \<Rightarrow> string + key_world" where
  "gateway_key_revoke kid w =
     update_rows (\<lambda>r. gk_id r = kid \<and> is_active r) (\<lambda>r. r\<lparr>gk_revoked_at := Some (kw_now w)\<rparr>)
       ''gateway key not found or already revoked'' w"

definition gateway_key_cap_set :: "string \<Rightarrow> int \<Rightarrow> key_world \<Rightarrow> string + key_world" where
  "gateway_key_cap_set kid cap_micros w =
     update_rows (\<lambda>r. gk_id r = kid)
       (\<lambda>r. r\<lparr>gk_cap_micros := if cap_micros > 0 then Some cap_micros else None\<rparr>)
       (''gateway key not found: '' @ kid) w"

definition gateway_key_cap :: "string \<Rightarrow> key_world \<Rightarrow> int option" where
  "gateway_key_cap kid w =
     (case Option.bind (key_row kid w) gk_cap_micros of
        Some cap \<Rightarrow> if cap > 0 then Some cap else None
      | None \<Rightarrow> None)"

text \<open>A hard delete: the row and the vault entry.\<close>

definition gateway_key_delete :: "string \<Rightarrow> key_world \<Rightarrow> key_world" where
  "gateway_key_delete kid w =
     w\<lparr>kw_rows := filter (\<lambda>r. gk_id r \<noteq> kid) (kw_rows w),
       kw_vault := (kw_vault w)(APP_KEY_PREFIX @ kid := None)\<rparr>"

subsection \<open>The credential of the user interface\<close>

definition UI_SESSION_ID :: string where
  "UI_SESSION_ID = ''ak-ui''"

definition UI_SESSION_LABEL :: string where
  "UI_SESSION_LABEL = ''UI session (internal)''"

definition SESSION_TTL_MS :: int where
  "SESSION_TTL_MS = 24 * 60 * 60 * 1000"

definition ui_created_at :: "key_world \<Rightarrow> int option" where
  "ui_created_at w = map_option gk_created_at (key_row UI_SESSION_ID w)"

definition is_past_ttl :: "key_world \<Rightarrow> int \<Rightarrow> bool" where
  "is_past_ttl w t \<longleftrightarrow> SESSION_TTL_MS < wrap_i64 (kw_now w - t)"

definition expired :: "key_world \<Rightarrow> bool" where
  "expired w = (case ui_created_at w of Some t \<Rightarrow> is_past_ttl w t | None \<Rightarrow> True)"

definition is_stale :: "key_world \<Rightarrow> bool" where
  "is_stale w = (case ui_created_at w of Some t \<Rightarrow> is_past_ttl w t | None \<Rightarrow> False)"

definition is_ui_session :: "string \<Rightarrow> bool" where
  "is_ui_session kid \<longleftrightarrow> kid = UI_SESSION_ID"

definition vault_put :: "string \<Rightarrow> string \<Rightarrow> key_world \<Rightarrow> string + key_world" where
  "vault_put account secret w =
     (case kw_put_error w of
        Some e \<Rightarrow> Inl e
      | None \<Rightarrow> Inr (w\<lparr>kw_vault := (kw_vault w)(account \<mapsto> secret)\<rparr>))"

text \<open>Whether a live row exists; a revoked one is deleted, together with its vault entry.\<close>

definition row_exists :: "string \<Rightarrow> key_world \<Rightarrow> bool \<times> key_world" where
  "row_exists kid w =
     (case key_row kid w of
        None \<Rightarrow> (False, w)
      | Some r \<Rightarrow> if is_active r then (True, w) else (False, gateway_key_delete kid w))"

text \<open>\<open>fresh\<close> is what \<open>generate_random_key\<close> answers.\<close>

definition ui_account :: string where
  "ui_account = APP_KEY_PREFIX @ UI_SESSION_ID"

definition ensured_secret :: "string \<Rightarrow> bool \<Rightarrow> key_world \<Rightarrow> string + string \<times> key_world" where
  "ensured_secret fresh stale w =
     (case kw_vault w ui_account of
        Some s \<Rightarrow>
          if s \<noteq> [] \<and> \<not> stale then Inr (s, w)
          else map_sum (\<lambda>e. ''could not store the session key: '' @ e) (Pair fresh) (vault_put ui_account fresh w)
      | None \<Rightarrow>
          map_sum (\<lambda>e. ''could not store the session key: '' @ e) (Pair fresh) (vault_put ui_account fresh w))"

definition ensure_with :: "string \<Rightarrow> key_world \<Rightarrow> (string + string) \<times> key_world" where
  "ensure_with fresh w =
     (let stale = is_stale w;
          w1 = (if stale then gateway_key_delete UI_SESSION_ID w else w)
      in case ensured_secret fresh stale w1 of
           Inl e \<Rightarrow> (Inl e, w1)
         | Inr (s, w2) \<Rightarrow>
             (case row_exists UI_SESSION_ID w2 of
                (True, w3) \<Rightarrow> (Inr s, w3)
              | (False, w3) \<Rightarrow>
                  (case gateway_key_insert UI_SESSION_ID UI_SESSION_LABEL w3 of
                     Inl e \<Rightarrow> (Inl (''could not record the session key: '' @ e), w3)
                   | Inr w4 \<Rightarrow> (Inr s, w4))))"

definition revoke_with :: "key_world \<Rightarrow> key_world" where
  "revoke_with w =
     gateway_key_delete UI_SESSION_ID (w\<lparr>kw_vault := (kw_vault w)(ui_account := None)\<rparr>)"

subsection \<open>The provider and its memo\<close>

record app_key =
  ap_id :: string
  ap_secret :: string

definition offered_key :: "key_world \<Rightarrow> string \<Rightarrow> app_key option" where
  "offered_key w kid =
     (if is_ui_session kid \<and> expired w then None
      else map_option (\<lambda>secret. \<lparr>ap_id = kid, ap_secret = secret\<rparr>) (kw_vault w (APP_KEY_PREFIX @ kid)))"

definition vault_app_keys :: "key_world \<Rightarrow> app_key list" where
  "vault_app_keys w = List.map_filter (offered_key w) (active_gateway_key_ids w)"

record key_cache =
  kc_ids :: "(string \<times> int) list option"
  kc_keys :: "app_key list"
  kc_at :: "nat option"
  kc_ttl :: nat

definition APP_KEY_CACHE_TTL :: nat where
  "APP_KEY_CACHE_TTL = from_secs 60"

definition default_cache :: key_cache where
  "default_cache = \<lparr>kc_ids = None, kc_keys = [], kc_at = None, kc_ttl = APP_KEY_CACHE_TTL\<rparr>"

definition cache_fresh :: "(string \<times> int) list option \<Rightarrow> nat \<Rightarrow> key_cache \<Rightarrow> bool" where
  "cache_fresh active now c =
     (case kc_at c of
        None \<Rightarrow> False
      | Some since \<Rightarrow>
          now - since < kc_ttl c
          \<and> (case (active, kc_ids c) of (Some a, Some b) \<Rightarrow> a = b | _ \<Rightarrow> False))"

text \<open>\<open>provider\<close> is what the provider answers when it is asked, \<open>active\<close> the stamps read from the rows
  (\<open>None\<close> if that failed), \<open>now\<close> and \<open>filled\<close> are the clock at the look-up and at the refill.\<close>

definition id_stamps :: "app_key list \<Rightarrow> (string \<times> int) list" where
  "id_stamps keys = sort_key fst (map (\<lambda>k. (ap_id k, 0)) keys)"

definition refilled :: "app_key list \<Rightarrow> (string \<times> int) list option \<Rightarrow> nat \<Rightarrow> key_cache \<Rightarrow> key_cache" where
  "refilled keys active filled c =
     c\<lparr>kc_ids := (case active of Some a \<Rightarrow> Some a | None \<Rightarrow> Some (id_stamps keys)),
       kc_keys := keys, kc_at := Some filled\<rparr>"

definition app_keys ::
  "app_key list option \<Rightarrow> (string \<times> int) list option \<Rightarrow> nat \<Rightarrow> nat \<Rightarrow> key_cache \<Rightarrow> app_key list \<times> key_cache" where
  "app_keys provider active now filled c =
     (case provider of
        None \<Rightarrow> ([], c)
      | Some keys \<Rightarrow>
          (if cache_fresh active now c then (kc_keys c, c) else (keys, refilled keys active filled c)))"

text \<open>Requests ask at the same time: each reads the rows and looks at the memo under its lock, and if that
  does not answer, asks the provider without the lock and takes it again to refill. A call carries the
  states it finds at its two reads and the two instants; \<open>nat\<close> names the request.\<close>

record key_call =
  ca_stamps_in :: "key_world option"
  ca_keys_in :: key_world
  ca_now :: nat
  ca_filled :: nat

datatype key_event = LooksUp nat key_call | Refills nat

record key_run =
  kr_cache :: key_cache
  kr_asking :: "nat \<Rightarrow> key_call option"
  kr_answers :: "(key_call \<times> app_key list) list"

definition fresh_run :: key_run where
  "fresh_run = \<lparr>kr_cache = default_cache, kr_asking = (\<lambda>t. None), kr_answers = []\<rparr>"

definition stamps_of :: "key_call \<Rightarrow> (string \<times> int) list option" where
  "stamps_of q = map_option active_gateway_key_stamps (ca_stamps_in q)"

definition offered_to :: "key_call \<Rightarrow> app_key list" where
  "offered_to q = vault_app_keys (ca_keys_in q)"

fun key_step :: "key_event \<Rightarrow> key_run \<Rightarrow> key_run" where
  "key_step (LooksUp t q) s =
     (if cache_fresh (stamps_of q) (ca_now q) (kr_cache s)
      then s\<lparr>kr_answers := kr_answers s @ [(q, kc_keys (kr_cache s))]\<rparr>
      else s\<lparr>kr_asking := (kr_asking s)(t \<mapsto> q)\<rparr>)"
| "key_step (Refills t) s =
     (case kr_asking s t of
        None \<Rightarrow> s
      | Some q \<Rightarrow>
          s\<lparr>kr_cache := refilled (offered_to q) (stamps_of q) (ca_filled q) (kr_cache s),
            kr_asking := (kr_asking s)(t := None),
            kr_answers := kr_answers s @ [(q, offered_to q)]\<rparr>)"

definition key_answers :: "key_event list \<Rightarrow> (key_call \<times> app_key list) list" where
  "key_answers events = kr_answers (fold key_step events fresh_run)"

subsection \<open>The session credential works\<close>

lemma key_row_vault [simp]: "key_row kid (w\<lparr>kw_vault := v\<rparr>) = key_row kid w"
  by (simp add: key_row_def)

lemma find_append: "List.find P (xs @ ys) = (case List.find P xs of Some x \<Rightarrow> Some x | None \<Rightarrow> List.find P ys)"
  by (induction xs) auto

lemma is_past_ttl_vault [simp]: "is_past_ttl (w\<lparr>kw_vault := v\<rparr>) = is_past_ttl w"
  by (simp add: is_past_ttl_def fun_eq_iff)

lemma is_stale_vault [simp]: "is_stale (w\<lparr>kw_vault := v\<rparr>) = is_stale w"
  by (simp add: is_stale_def ui_created_at_def split: option.split)

lemma key_row_delete [simp]: "key_row kid (gateway_key_delete kid w) = None"
  by (auto simp: key_row_def gateway_key_delete_def find_None_iff)

lemma key_rowD: "key_row kid w = Some r \<Longrightarrow> r \<in> set (kw_rows w) \<and> gk_id r = kid"
  unfolding key_row_def using find_SomeD by fastforce

text \<open>What an accepted credential is: live row, secret in the vault, not past its time.\<close>

definition accepts :: "key_world \<Rightarrow> string \<Rightarrow> bool" where
  "accepts w secret \<longleftrightarrow> \<lparr>ap_id = UI_SESSION_ID, ap_secret = secret\<rparr> \<in> set (vault_app_keys w)"

lemma acceptsI:
  assumes "key_row UI_SESSION_ID w = Some r" and "is_active r" and "\<not> expired w"
    and "kw_vault w ui_account = Some s"
  shows "accepts w s"
  using assms key_rowD [OF assms(1)]
  by (auto simp: accepts_def vault_app_keys_def set_map_filter active_gateway_key_ids_def
      offered_key_def ui_account_def intro!: image_eqI [of _ gk_id r])

lemma not_acceptsI: "kw_vault w ui_account = None \<Longrightarrow> \<not> accepts w s"
  by (auto simp: accepts_def vault_app_keys_def set_map_filter offered_key_def ui_account_def)

lemma fresh_row_not_expired:
  assumes "key_row UI_SESSION_ID w = Some r" and "gk_created_at r = kw_now w"
  shows "\<not> expired w"
  using assms by (simp add: expired_def ui_created_at_def is_past_ttl_def SESSION_TTL_MS_def wrap_i64_def)

definition revoked_session :: "key_world \<Rightarrow> bool" where
  "revoked_session w =
     (case key_row UI_SESSION_ID w of Some r \<Rightarrow> \<not> is_active r \<and> \<not> is_stale w | None \<Rightarrow> False)"

lemma delete_simps [simp]:
  "kw_vault (gateway_key_delete kid w) = (kw_vault w)(APP_KEY_PREFIX @ kid := None)"
  "kw_put_error (gateway_key_delete kid w) = kw_put_error w"
  "kw_now (gateway_key_delete kid w) = kw_now w"
  by (simp_all add: gateway_key_delete_def)

lemma insert_fresh_row:
  assumes "key_row kid w = None"
  obtains r where "gateway_key_insert kid label w = Inr (w\<lparr>kw_rows := kw_rows w @ [r]\<rparr>)"
    "gk_id r = kid" "gk_created_at r = kw_now w" "is_active r"
    "key_row kid (w\<lparr>kw_rows := kw_rows w @ [r]\<rparr>) = Some r"
proof -
  let ?r = "\<lparr>gk_id = kid, gk_label = label, gk_created_at = kw_now w, gk_last_used_at = None,
    gk_revoked_at = None, gk_cap_micros = None\<rparr>"
  have "key_row kid (w\<lparr>kw_rows := kw_rows w @ [?r]\<rparr>) = Some ?r"
    using assms by (simp add: key_row_def find_append)
  with assms that [of ?r] show ?thesis by (simp add: gateway_key_insert_def is_active_def)
qed

lemma ensured_secret_works:
  assumes "fresh \<noteq> []" and "kw_put_error w = None"
  obtains s v where "ensured_secret fresh stale w = Inr (s, w\<lparr>kw_vault := v\<rparr>)" "v ui_account = Some s"
    "s \<noteq> []"
proof (cases "\<exists>s. kw_vault w ui_account = Some s \<and> s \<noteq> [] \<and> \<not> stale")
  case True
  with that [of _ "kw_vault w"] show ?thesis by (auto simp: ensured_secret_def)
next
  case False
  then have "ensured_secret fresh stale w = Inr (fresh, w\<lparr>kw_vault := (kw_vault w)(ui_account \<mapsto> fresh)\<rparr>)"
    using assms(2) by (cases "kw_vault w ui_account") (auto simp: ensured_secret_def vault_put_def)
  with assms(1) that [of fresh "(kw_vault w)(ui_account \<mapsto> fresh)"] show ?thesis by simp
qed

text \<open>With a live row, the credential is used as it is.\<close>

lemma ensure_live:
  assumes "key_row UI_SESSION_ID w = Some r" and "is_active r" and "\<not> is_stale w"
    and "kw_vault w ui_account = Some s" and "s \<noteq> []"
  shows "ensure_with fresh w = (Inr s, w)"
  using assms by (simp add: ensure_with_def ensured_secret_def row_exists_def)

lemma stale_not_expired: "key_row UI_SESSION_ID w = Some r \<Longrightarrow> is_stale w = expired w"
  by (simp add: is_stale_def expired_def ui_created_at_def)

text \<open>After a new row, the credential is accepted if the vault still holds it.\<close>

lemma ensure_by_insert:
  assumes "key_row UI_SESSION_ID w = None" and "kw_vault w ui_account = Some s"
  obtains r where "gateway_key_insert UI_SESSION_ID UI_SESSION_LABEL w = Inr (w\<lparr>kw_rows := kw_rows w @ [r]\<rparr>)"
    "is_active r" "key_row UI_SESSION_ID (w\<lparr>kw_rows := kw_rows w @ [r]\<rparr>) = Some r"
    "gk_created_at r = kw_now w" "accepts (w\<lparr>kw_rows := kw_rows w @ [r]\<rparr>) s"
    "\<not> is_stale (w\<lparr>kw_rows := kw_rows w @ [r]\<rparr>)"
proof -
  obtain r where r: "gateway_key_insert UI_SESSION_ID UI_SESSION_LABEL w = Inr (w\<lparr>kw_rows := kw_rows w @ [r]\<rparr>)"
      "gk_created_at r = kw_now w" "is_active r"
      "key_row UI_SESSION_ID (w\<lparr>kw_rows := kw_rows w @ [r]\<rparr>) = Some r"
    by (rule insert_fresh_row [OF assms(1)])
  have live: "\<not> expired (w\<lparr>kw_rows := kw_rows w @ [r]\<rparr>)"
    by (rule fresh_row_not_expired [OF r(4)]) (simp add: r(2))
  with acceptsI [OF r(4,3) live] assms(2) stale_not_expired [OF r(4)] r that show ?thesis by simp
qed

text \<open>The credential that is handed out is accepted, and the next request for it gets the same
  one, unless the row was revoked: then the vault entry goes with the row and it is dead.\<close>

lemma ensure_outcome:
  assumes "fresh \<noteq> []" and "kw_put_error w = None"
  obtains s w' where "ensure_with fresh w = (Inr s, w')" "kw_put_error w' = None" "\<not> revoked_session w'"
    "if revoked_session w then kw_vault w' ui_account = None
     else accepts w' s \<and> (\<forall>other. ensure_with other w' = (Inr s, w'))"
proof -
  define w1 where "w1 = (if is_stale w then gateway_key_delete UI_SESSION_ID w else w)"
  have put1: "kw_put_error w1 = None" using assms(2) by (simp add: w1_def)
  obtain s v where s: "ensured_secret fresh (is_stale w) w1 = Inr (s, w1\<lparr>kw_vault := v\<rparr>)"
      "v ui_account = Some s" "s \<noteq> []"
    by (rule ensured_secret_works [OF assms(1) put1])
  let ?w2 = "w1\<lparr>kw_vault := v\<rparr>"
  show ?thesis
  proof (cases "key_row UI_SESSION_ID w1")
    case None
    then have none: "key_row UI_SESSION_ID ?w2 = None" by simp
    have vault: "kw_vault ?w2 ui_account = Some s" using s(2) by simp
    obtain r where r: "gateway_key_insert UI_SESSION_ID UI_SESSION_LABEL ?w2 = Inr (?w2\<lparr>kw_rows := kw_rows ?w2 @ [r]\<rparr>)"
        "is_active r" "key_row UI_SESSION_ID (?w2\<lparr>kw_rows := kw_rows ?w2 @ [r]\<rparr>) = Some r"
        "gk_created_at r = kw_now ?w2" "accepts (?w2\<lparr>kw_rows := kw_rows ?w2 @ [r]\<rparr>) s"
        "\<not> is_stale (?w2\<lparr>kw_rows := kw_rows ?w2 @ [r]\<rparr>)"
      by (rule ensure_by_insert [OF none vault])
    have "\<not> revoked_session w"
      using None by (auto simp: revoked_session_def w1_def split: option.splits if_splits)
    moreover have "ensure_with fresh w = (Inr s, ?w2\<lparr>kw_rows := kw_rows ?w2 @ [r]\<rparr>)"
      using s(1) r(1) none by (simp add: ensure_with_def row_exists_def flip: w1_def)
    moreover have "ensure_with other (?w2\<lparr>kw_rows := kw_rows ?w2 @ [r]\<rparr>) = (Inr s, ?w2\<lparr>kw_rows := kw_rows ?w2 @ [r]\<rparr>)" for other
      using ensure_live [OF r(3,2,6)] s(2,3) by simp
    moreover have "\<not> revoked_session (?w2\<lparr>kw_rows := kw_rows ?w2 @ [r]\<rparr>)"
      using r(2,3) by (simp add: revoked_session_def)
    ultimately show ?thesis using r(5) put1 that [of s "?w2\<lparr>kw_rows := kw_rows ?w2 @ [r]\<rparr>"] by simp
  next
    case (Some r)
    then have fresh: "\<not> is_stale w" and w1: "w1 = w"
      by (auto simp: w1_def split: if_splits)
    show ?thesis
    proof (cases "is_active r")
      case True
      have row: "key_row UI_SESSION_ID ?w2 = Some r" using Some by simp
      have stale2: "\<not> is_stale ?w2"
        using fresh w1 by simp
      have "accepts ?w2 s"
        using acceptsI [OF row True] stale2 stale_not_expired [OF row] s(2) by simp
      moreover have "ensure_with fresh w = (Inr s, ?w2)"
        using s(1) row fresh True w1 by (simp add: ensure_with_def row_exists_def)
      moreover have "ensure_with other ?w2 = (Inr s, ?w2)" for other
        using ensure_live [OF row True stale2] s(2,3) by simp
      moreover have "\<not> revoked_session w" "\<not> revoked_session ?w2"
        using Some True w1 row by (simp_all add: revoked_session_def)
      ultimately show ?thesis using put1 that [of s ?w2] by simp
    next
      case False
      let ?w3 = "gateway_key_delete UI_SESSION_ID ?w2"
      obtain n where n: "gateway_key_insert UI_SESSION_ID UI_SESSION_LABEL ?w3 = Inr (?w3\<lparr>kw_rows := kw_rows ?w3 @ [n]\<rparr>)"
          "is_active n" "key_row UI_SESSION_ID (?w3\<lparr>kw_rows := kw_rows ?w3 @ [n]\<rparr>) = Some n"
        by (rule insert_fresh_row [OF key_row_delete])
      have row: "key_row UI_SESSION_ID ?w2 = Some r" using Some by simp
      have "ensure_with fresh w = (Inr s, ?w3\<lparr>kw_rows := kw_rows ?w3 @ [n]\<rparr>)"
        using s(1) row fresh False w1 n(1) by (simp add: ensure_with_def row_exists_def)
      moreover have "revoked_session w" using Some False fresh w1 by (simp add: revoked_session_def)
      moreover have "\<not> revoked_session (?w3\<lparr>kw_rows := kw_rows ?w3 @ [n]\<rparr>)"
        using n(2,3) by (simp add: revoked_session_def)
      ultimately show ?thesis
        using put1 that [of s "?w3\<lparr>kw_rows := kw_rows ?w3 @ [n]\<rparr>"] by (simp add: ui_account_def)
    qed
  qed
qed

lemma stale_secret_replaced:
  assumes "is_stale w" and "ensure_with fresh w = (Inr s, w')"
  shows "s = fresh"
  using assms
  by (auto simp: ensure_with_def Let_def ensured_secret_def vault_put_def
      split: option.splits sum.splits prod.splits bool.splits)

text \<open>(C40) Asking for the credential of the user interface never fails while the vault takes writes. The
  credential it hands out is accepted and stays the same on the next request, a stale one is
  replaced; but when the row had been revoked, the one it hands out is dead, and only the next
  request repairs that.\<close>

theorem session_credential_works:
  assumes "fresh \<noteq> []" and "other \<noteq> []" and "kw_put_error w = None"
  shows "case ensure_with fresh w of
      (Inl e, w') \<Rightarrow> False
    | (Inr s, w') \<Rightarrow>
        accepts w' s = (\<not> revoked_session w)
        \<and> (if is_stale w then s = fresh else True)
        \<and> (case ensure_with other w' of
              (Inl e, w2) \<Rightarrow> False
            | (Inr s2, w2) \<Rightarrow> accepts w2 s2 \<and> (if revoked_session w then True else s2 = s \<and> w2 = w'))"
proof -
  obtain s w' where 1: "ensure_with fresh w = (Inr s, w')" "kw_put_error w' = None" "\<not> revoked_session w'"
      "if revoked_session w then kw_vault w' ui_account = None
       else accepts w' s \<and> (\<forall>other. ensure_with other w' = (Inr s, w'))"
    by (rule ensure_outcome [OF assms(1,3)])
  obtain s2 w2 where 2: "ensure_with other w' = (Inr s2, w2)" "accepts w2 s2"
    by (rule ensure_outcome [OF assms(2) 1(2)]) (use 1(3) in auto)
  show ?thesis
    using 1 2 stale_secret_replaced [OF _ 1(1)] not_acceptsI [of w' s] by (auto split: if_splits)
qed

definition demo_keys :: key_world where
  "demo_keys =
     \<lparr>kw_rows = [\<lparr>gk_id = ''ak-ui'', gk_label = ''UI session (internal)'', gk_created_at = 5,
        gk_last_used_at = None, gk_revoked_at = Some 7, gk_cap_micros = None\<rparr>],
      kw_vault = [''gwkey:ak-ui'' \<mapsto> ''old''], kw_put_error = None, kw_now = 9\<rparr>"

lemma session_credential_works_witness:
  "case ensure_with ''s1'' demo_keys of
      (Inl e, w') \<Rightarrow> False
    | (Inr s, w') \<Rightarrow>
        accepts w' s = (\<not> revoked_session demo_keys)
        \<and> (if is_stale demo_keys then s = ''s1'' else True)
        \<and> (case ensure_with ''s2'' w' of
              (Inl e, w2) \<Rightarrow> False
            | (Inr s2, w2) \<Rightarrow> accepts w2 s2 \<and> (if revoked_session demo_keys then True else s2 = s \<and> w2 = w'))"
  by (rule session_credential_works) (simp_all add: demo_keys_def)

lemma revoked_demo: "revoked_session demo_keys"
  by (simp add: revoked_session_def key_row_def demo_keys_def UI_SESSION_ID_def is_active_def is_stale_def
      ui_created_at_def is_past_ttl_def SESSION_TTL_MS_def wrap_i64_def)

subsection \<open>The memo and a revocation\<close>

text \<open>With nothing in between, the two steps of a request are \<^const>\<open>app_keys\<close>.\<close>

lemma app_keys_is_key_steps:
  assumes "kr_asking s t = None"
  shows "(case app_keys (Some (offered_to q)) (stamps_of q) (ca_now q) (ca_filled q) (kr_cache s) of
      (keys, c) \<Rightarrow> s\<lparr>kr_cache := c, kr_answers := kr_answers s @ [(q, keys)]\<rparr>)
    = fold key_step [LooksUp t q, Refills t] s"
  using assms by (cases s) (simp add: app_keys_def fun_upd_idem)

text \<open>Every answer is what the provider said to this request, or to an earlier one whose stamps were the
  same and whose answer is younger than the TTL.\<close>

definition memo_stamps :: "key_call \<Rightarrow> (string \<times> int) list" where
  "memo_stamps p = (case stamps_of p of Some a \<Rightarrow> a | None \<Rightarrow> id_stamps (offered_to p))"

definition answered_from :: "key_call list \<Rightarrow> key_call \<Rightarrow> app_key list \<Rightarrow> bool" where
  "answered_from earlier q keys \<longleftrightarrow>
     keys = offered_to q
     \<or> (\<exists>p \<in> set earlier. keys = offered_to p \<and> stamps_of q = Some (memo_stamps p)
          \<and> ca_now q - ca_filled p < APP_KEY_CACHE_TTL)"

definition cache_from :: "key_call list \<Rightarrow> key_cache \<Rightarrow> bool" where
  "cache_from earlier c \<longleftrightarrow>
     kc_ttl c = APP_KEY_CACHE_TTL
     \<and> (kc_at c = None
        \<or> (\<exists>p \<in> set earlier. kc_at c = Some (ca_filled p) \<and> kc_ids c = Some (memo_stamps p)
             \<and> kc_keys c = offered_to p))"

lemma cache_from_more: "cache_from earlier c \<Longrightarrow> cache_from (earlier @ [q]) c"
  by (auto simp: cache_from_def)

lemma hit_from:
  "cache_from earlier c \<Longrightarrow> cache_fresh (stamps_of q) (ca_now q) c \<Longrightarrow> answered_from earlier q (kc_keys c)"
  by (auto simp: cache_fresh_def cache_from_def answered_from_def split: option.splits)

lemma refilled_from:
  "cache_from earlier c \<Longrightarrow>
     cache_from (earlier @ [q]) (refilled (offered_to q) (stamps_of q) (ca_filled q) c)"
  by (simp add: cache_from_def refilled_def memo_stamps_def split: option.split)

definition answers_sound :: "(key_call \<times> app_key list) list \<Rightarrow> bool" where
  "answers_sound as \<longleftrightarrow>
     (\<forall>j < length as. answered_from (map fst (take j as)) (fst (as ! j)) (snd (as ! j)))"

lemma answers_sound_snoc:
  "answers_sound as \<Longrightarrow> answered_from (map fst as) q keys \<Longrightarrow> answers_sound (as @ [(q, keys)])"
  by (auto simp: answers_sound_def less_Suc_eq nth_append)

definition key_run_sound :: "key_run \<Rightarrow> bool" where
  "key_run_sound s \<longleftrightarrow> cache_from (map fst (kr_answers s)) (kr_cache s) \<and> answers_sound (kr_answers s)"

lemma key_step_sound: "key_run_sound s \<Longrightarrow> key_run_sound (key_step e s)"
proof (cases e)
  case (LooksUp t q)
  assume "key_run_sound s"
  with LooksUp show ?thesis
    by (auto simp: key_run_sound_def intro!: cache_from_more answers_sound_snoc hit_from)
next
  case (Refills t)
  assume "key_run_sound s"
  moreover have "answered_from earlier q (offered_to q)" for earlier q by (simp add: answered_from_def)
  ultimately show ?thesis using Refills
    by (auto simp: key_run_sound_def refilled_from intro: answers_sound_snoc split: option.split)
qed

lemma key_answers_sound: "answers_sound (key_answers events)"
proof -
  have "key_run_sound (fold key_step events s)" if "key_run_sound s" for s
    using that by (induction events arbitrary: s) (simp_all add: key_step_sound)
  moreover have "key_run_sound fresh_run"
    by (simp add: key_run_sound_def fresh_run_def default_cache_def cache_from_def answers_sound_def)
  ultimately show ?thesis by (simp add: key_run_sound_def key_answers_def)
qed

lemma offered_ids: "ap_id ` set (vault_app_keys w) \<subseteq> set (active_gateway_key_ids w)"
  by (auto simp: vault_app_keys_def set_map_filter offered_key_def split: if_splits)

lemma active_ids_stamps: "set (active_gateway_key_ids w) = fst ` set (active_gateway_key_stamps w)"
  by (auto simp: active_gateway_key_ids_def active_gateway_key_stamps_def image_image)

text \<open>A row the request finds active when it reads the rows, and one that appears between its two reads:
  not active at the first, active when the provider reads the rows again.\<close>

definition read_active :: "key_call \<Rightarrow> string \<Rightarrow> bool" where
  "read_active q kid = (case ca_stamps_in q of None \<Rightarrow> False | Some w \<Rightarrow> kid \<in> set (active_gateway_key_ids w))"

definition appeared_between :: "key_call \<Rightarrow> string \<Rightarrow> bool" where
  "appeared_between q kid =
     (case ca_stamps_in q of
        None \<Rightarrow> False
      | Some w \<Rightarrow> kid \<notin> set (active_gateway_key_ids w) \<and> kid \<in> set (active_gateway_key_ids (ca_keys_in q)))"

lemma offered_or_appeared:
  assumes "k \<in> set (offered_to p)" and "ca_stamps_in p \<noteq> None"
  shows "read_active p (ap_id k) \<or> appeared_between p (ap_id k)"
  using assms offered_ids [of "ca_keys_in p"]
  by (auto simp: appeared_between_def read_active_def offered_to_def)

lemma read_active_stamps:
  "stamps_of q = Some a \<Longrightarrow> read_active q kid \<longleftrightarrow> kid \<in> fst ` set a"
  by (auto simp: read_active_def stamps_of_def active_ids_stamps split: option.splits)

lemma memo_or_appeared:
  assumes "k \<in> set (offered_to p)" and "stamps_of q = Some (memo_stamps p)"
  shows "read_active q (ap_id k) \<or> appeared_between p (ap_id k)"
proof (cases "stamps_of p")
  case None
  with assms show ?thesis
    by (simp add: read_active_stamps memo_stamps_def id_stamps_def image_image)
next
  case (Some a)
  with assms have "read_active q kid = read_active p kid" for kid
    by (simp add: read_active_stamps memo_stamps_def)
  moreover have "ca_stamps_in p \<noteq> None" using Some by (auto simp: stamps_of_def)
  ultimately show ?thesis using offered_or_appeared [OF assms(1)] by blast
qed

lemma answered_keys:
  assumes "answered_from earlier q keys" and "k \<in> set keys" and "ca_stamps_in q \<noteq> None"
  shows "read_active q (ap_id k) \<or> appeared_between q (ap_id k)
    \<or> (\<exists>p \<in> set earlier. appeared_between p (ap_id k) \<and> ca_now q - ca_filled p < APP_KEY_CACHE_TTL)"
  using assms(1) unfolding answered_from_def
proof (elim disjE bexE conjE)
  assume "keys = offered_to q"
  then show ?thesis using offered_or_appeared assms(2,3) by blast
next
  fix p
  assume "p \<in> set earlier" "keys = offered_to p" "stamps_of q = Some (memo_stamps p)"
    "ca_now q - ca_filled p < APP_KEY_CACHE_TTL"
  then show ?thesis using memo_or_appeared [of k p q] assms(2) by blast
qed

text \<open>(C39) Requests ask for the app keys, at the same time or not, while keys, vault and clock change
  between and within them. The keys a request is checked against are what rows and vault gave when
  it asked, or when another did that was answered before, whose stamps (ids with creation times)
  were the same and whose answer is younger than the TTL. So a key that is not active when a request
  reads the rows (it was revoked or deleted) is offered to it only if the row appeared between the
  two reads of this very request, or of one less than the TTL earlier; otherwise a revocation holds
  from the next request on. A request that cannot read the rows is never answered from the memo.\<close>

theorem revoked_app_keys_survive_only_a_split_read:
  assumes "j < length (key_answers events)" and "key_answers events ! j = (q, keys)"
  shows "answered_from (map fst (take j (key_answers events))) q keys
    \<and> (if ca_stamps_in q = None then keys = offered_to q
       else \<forall>k \<in> set keys.
          read_active q (ap_id k) \<or> appeared_between q (ap_id k)
          \<or> (\<exists>p \<in> set (map fst (take j (key_answers events))).
                appeared_between p (ap_id k) \<and> ca_now q - ca_filled p < APP_KEY_CACHE_TTL))"
proof -
  have from_memo: "answered_from (map fst (take j (key_answers events))) q keys"
    using key_answers_sound [of events] assms by (auto simp: answers_sound_def)
  have unread: "keys = offered_to q" if "ca_stamps_in q = None"
    using from_memo that by (simp add: answered_from_def stamps_of_def)
  show ?thesis
  proof (cases "ca_stamps_in q = None")
    case True
    with from_memo unread show ?thesis by simp
  next
    case False
    have "\<forall>k \<in> set keys. read_active q (ap_id k) \<or> appeared_between q (ap_id k)
        \<or> (\<exists>p \<in> set (map fst (take j (key_answers events))).
              appeared_between p (ap_id k) \<and> ca_now q - ca_filled p < APP_KEY_CACHE_TTL)"
      by (intro ballI answered_keys [OF from_memo _ False])
    with from_memo show ?thesis by (simp only: False if_False simp_thms)
  qed
qed

definition demo_world :: "int option \<Rightarrow> key_world" where
  "demo_world revoked =
     \<lparr>kw_rows = [\<lparr>gk_id = ''ak-1'', gk_label = ''Cursor'', gk_created_at = 5, gk_last_used_at = None,
        gk_revoked_at = revoked, gk_cap_micros = None\<rparr>],
      kw_vault = [''gwkey:ak-1'' \<mapsto> ''s3cret''], kw_put_error = None, kw_now = 9\<rparr>"

definition demo_call :: "key_world \<Rightarrow> key_world \<Rightarrow> key_call" where
  "demo_call w0 w1 = \<lparr>ca_stamps_in = Some w0, ca_keys_in = w1, ca_now = 0, ca_filled = 0\<rparr>"

lemmas demo_key_run = key_answers_def fresh_run_def cache_fresh_def refilled_def default_cache_def stamps_of_def
  offered_to_def demo_call_def demo_world_def active_gateway_key_stamps_def active_gateway_key_ids_def
  is_active_def vault_app_keys_def offered_key_def is_ui_session_def UI_SESSION_ID_def APP_KEY_PREFIX_def
  APP_KEY_CACHE_TTL_def from_secs_def List.map_filter_def

text \<open>The split read is real: a key that is created between the two reads of one request and revoked
  before the next is still offered to that next request.\<close>

definition no_rows :: key_world where
  "no_rows = (demo_world None)\<lparr>kw_rows := []\<rparr>"

definition split_first :: key_call where
  "split_first = demo_call no_rows (demo_world None)"

definition split_second :: key_call where
  "split_second = demo_call (demo_world (Some 8)) (demo_world (Some 8))"

definition split_events :: "key_event list" where
  "split_events = [LooksUp 1 split_first, Refills 1, LooksUp 2 split_second]"

definition split_key :: app_key where
  "split_key = \<lparr>ap_id = ''ak-1'', ap_secret = ''s3cret''\<rparr>"

lemma split_reads_offer_a_revoked_key:
  "key_answers split_events = [(split_first, [split_key]), (split_second, [split_key])]"
  "\<not> read_active split_second (ap_id split_key)" "\<not> appeared_between split_second (ap_id split_key)"
  by (simp_all add: split_events_def split_first_def split_second_def split_key_def no_rows_def
      read_active_def appeared_between_def demo_key_run)

lemma revoked_app_keys_survive_only_a_split_read_witness:
  "answered_from (map fst (take 1 (key_answers split_events))) split_second [split_key]
    \<and> (if ca_stamps_in split_second = None then [split_key] = offered_to split_second
       else \<forall>k \<in> set [split_key].
          read_active split_second (ap_id k) \<or> appeared_between split_second (ap_id k)
          \<or> (\<exists>p \<in> set (map fst (take 1 (key_answers split_events))).
                appeared_between p (ap_id k) \<and> ca_now split_second - ca_filled p < APP_KEY_CACHE_TTL))"
  by (rule revoked_app_keys_survive_only_a_split_read)
    (simp_all add: split_reads_offer_a_revoked_key)

end
