(* ===== verification/Gateway_Auth.thy ===== *)
theory Gateway_Auth
  imports Gateway_Wire App_Keys "HOL-Library.Word"
begin

text \<open>
  The gate every route of the gateway passes first (\<open>gateway.rs\<close>): the comparison of secrets, the
  backoff after failures, the spend limits and the verdict on a presented key.
\<close>

unbundle bit_operations_syntax

subsection \<open>Comparing secrets\<close>

definition byte_at :: "string \<Rightarrow> nat \<Rightarrow> 8 word" where
  "byte_at s i = (if i < length s then of_char (s ! i) else 0)"

definition constant_time_eq :: "string \<Rightarrow> string \<Rightarrow> bool" where
  "constant_time_eq a b =
     (fold (\<lambda>i diff. diff OR (byte_at a i XOR byte_at b i)) [0..<max (length a) (length b)]
        (ucast ((of_nat (length a) :: 64 word) XOR of_nat (length b))) = 0)"

subsection \<open>Backoff\<close>

text \<open>Failed attempts and the end of the backoff, per address.\<close>

type_synonym 'ip failures = "'ip \<Rightarrow> (nat \<times> nat) option"

definition auth_allowed :: "nat \<Rightarrow> 'ip \<Rightarrow> 'ip failures \<Rightarrow> bool" where
  "auth_allowed now ip f = (case f ip of Some (_, until) \<Rightarrow> until \<le> now | None \<Rightarrow> True)"

definition backoff_delay :: "nat \<Rightarrow> nat" where
  "backoff_delay n = from_millis (500 * 2 ^ min ((n + (2 ^ 32 - 1)) mod 2 ^ 32) 6)"

definition note_auth_failure :: "nat \<Rightarrow> 'ip \<Rightarrow> 'ip failures \<Rightarrow> 'ip failures" where
  "note_auth_failure now ip f =
     (let n = inc_u32 (case f ip of Some (n, _) \<Rightarrow> n | None \<Rightarrow> 0)
      in f(ip \<mapsto> (n, now + backoff_delay n)))"

subsection \<open>Spend limits\<close>

record spend_limits =
  sl_total_micros :: int
  sl_total_cap_micros :: int
  sl_app_micros :: "int option"
  sl_app_cap_micros :: "int option"

definition gate_refusal_of ::
  "nat \<Rightarrow> string \<Rightarrow> string option \<Rightarrow> string \<Rightarrow> string option \<Rightarrow> gate_refusal" where
  "gate_refusal_of status message retry kind code =
     \<lparr>gr_status = status, gr_message = message, gr_retry_after = retry, gr_openai_type = kind,
      gr_openai_code = code\<rparr>"

definition spend_gate :: "(string option \<Rightarrow> spend_limits) option \<Rightarrow> string option \<Rightarrow> gate_refusal option" where
  "spend_gate provider app_key_id =
     (case provider of
        None \<Rightarrow> None
      | Some p \<Rightarrow>
          (let l = p app_key_id in
           if sl_total_cap_micros l > 0 \<and> sl_total_cap_micros l \<le> sl_total_micros l
           then Some (gate_refusal_of 402
                  (''monthly spend cap reached '' @ em_dash @ '' '' @ show_int (sl_total_micros l) @ ''/''
                     @ show_int (sl_total_cap_micros l) @ '' micro-USD this month'')
                  (Some ''0'') ''insufficient_quota'' (Some ''spend_cap_exceeded''))
           else (case (sl_app_micros l, sl_app_cap_micros l) of
                   (Some spent, Some cap) \<Rightarrow>
                     if cap > 0 \<and> cap \<le> spent
                     then Some (gate_refusal_of 402
                            (''this app's monthly budget is spent '' @ em_dash @ '' '' @ show_int spent
                               @ ''/'' @ show_int cap @ '' micro-USD this month'')
                            (Some ''0'') ''insufficient_quota'' (Some ''app_budget_exceeded''))
                     else None
                 | _ \<Rightarrow> None)))"

subsection \<open>The verdict\<close>

datatype master_key_lookup = Ready string | Absent | Unavailable

text \<open>What the gate finds: the keys and the spend are read on the blocking pool, a lost task is \<open>None\<close>
  (no keys, no refusal).\<close>

record auth_env =
  au_running :: bool
  au_master :: master_key_lookup
  au_app_keys :: "app_key list option"
  au_spend :: "(string option \<Rightarrow> spend_limits) option"
  au_spend_lost :: bool
  au_now :: nat

definition match_app_keys :: "string \<Rightarrow> app_key list \<Rightarrow> string option" where
  "match_app_keys presented keys =
     fold (\<lambda>k hit. if constant_time_eq presented (ap_secret k) then Some (ap_id k) else hit) keys None"

definition spend_gate_blocking :: "auth_env \<Rightarrow> string option \<Rightarrow> gate_refusal option" where
  "spend_gate_blocking env app = (if au_spend_lost env then None else spend_gate (au_spend env) app)"

definition app_keys_blocking :: "auth_env \<Rightarrow> app_key list" where
  "app_keys_blocking env = (case au_app_keys env of Some keys \<Rightarrow> keys | None \<Rightarrow> [])"

text \<open>Whose key it is: \<open>None\<close> for nobody's, \<open>Some None\<close> for the master key, else an app's.\<close>

definition holder_of :: "auth_env \<Rightarrow> string \<Rightarrow> string \<Rightarrow> string option option" where
  "holder_of env stored presented =
     (if constant_time_eq presented stored then Some None
      else map_option Some (match_app_keys presented (app_keys_blocking env)))"

definition check_gateway_key ::
  "auth_env \<Rightarrow> (string \<Rightarrow> string option) \<Rightarrow> 'ip \<Rightarrow> 'ip failures \<Rightarrow> (gate_refusal + string option) \<times> 'ip failures" where
  "check_gateway_key env headers ip f =
     (if \<not> au_running env
      then (Inl (gate_refusal_of 503 ''gateway disabled'' (Some ''1'') ''service_unavailable'' None), f)
      else case au_master env of
        Absent \<Rightarrow>
          (Inl (gate_refusal_of 401 ''no master key configured'' None ''invalid_request'' (Some ''invalid_api_key'')), f)
      | Unavailable \<Rightarrow>
          (Inl (gate_refusal_of 503 (''master key unavailable '' @ em_dash
             @ '' the secrets file could not be read; check that the data directory is accessible, then retry'')
             (Some ''5'') ''service_unavailable'' None), f)
      | Ready stored \<Rightarrow>
          (case holder_of env stored (presented_key headers) of
             Some holder \<Rightarrow>
               (case spend_gate_blocking env holder of
                  Some r \<Rightarrow> (Inl r, f(ip := None))
                | None \<Rightarrow> (Inr holder, f(ip := None)))
           | None \<Rightarrow>
               (if \<not> auth_allowed (au_now env) ip f
                then (Inl (gate_refusal_of 429 (''too many failed auth attempts '' @ em_dash @ '' backing off'')
                       (Some ''30'') ''rate_limit'' None), f)
                else (Inl (gate_refusal_of 401 ''invalid gateway key'' None ''invalid_request'' (Some ''invalid_api_key'')),
                      note_auth_failure (au_now env) ip f))))"

subsection \<open>Secrets are equal when the comparison says so\<close>

lemma fold_or_zero:
  fixes d :: "8 word"
  shows "fold (\<lambda>i diff. diff OR (f i XOR g i)) xs d = 0 \<longleftrightarrow> d = 0 \<and> (\<forall>i \<in> set xs. f i = g i)"
proof (induction xs arbitrary: d)
  case (Cons x xs)
  have "d OR (f x XOR g x) = 0 \<longleftrightarrow> d = 0 \<and> f x XOR g x = 0"
    by (simp add: or_eq_0_iff)
  moreover have "f x XOR g x = 0 \<longleftrightarrow> f x = g x"
    by (metis bit.xor_left_self bit.xor_self xor.right_neutral)
  ultimately show ?case using Cons.IH by auto
qed simp

lemma unat_of_char: "unat (of_char c :: 8 word) = of_char c"
proof -
  have "(of_char c :: 8 word) = of_nat (of_char c)" by (simp only: of_nat_of_char)
  then show ?thesis using nat_of_char_less_256 [of c] by (simp only: unat_of_nat) simp
qed

lemma of_char_inj [simp]: "(of_char c :: 8 word) = of_char d \<longleftrightarrow> c = d"
  by (metis unat_of_char of_char_eq_iff)

lemma of_char_0 [simp]: "(of_char c :: 8 word) = 0 \<longleftrightarrow> c = CHR 0x00"
  using of_char_inj [of c "CHR 0x00"] by simp

definition nul_free :: "string \<Rightarrow> bool" where
  "nul_free s \<longleftrightarrow> CHR 0x00 \<notin> set s"

text \<open>Padding with zeros and comparing the length modulo 256 is exact on strings without a NUL.\<close>

lemma constant_time_eq_iff:
  assumes "nul_free a" and "nul_free b"
  shows "constant_time_eq a b \<longleftrightarrow> a = b"
proof
  assume "constant_time_eq a b"
  then have bytes: "byte_at a i = byte_at b i" if "i < max (length a) (length b)" for i
    using that by (simp add: constant_time_eq_def fold_or_zero)
  have "length a = length b"
  proof (rule ccontr)
    assume "length a \<noteq> length b"
    then consider "length a < length b" | "length b < length a" by linarith
    then show False
    proof cases
      case 1
      with bytes [of "length a"] have "b ! length a = CHR 0x00" by (simp add: byte_at_def)
      with 1 assms(2) show False by (metis nth_mem nul_free_def)
    next
      case 2
      with bytes [of "length b"] have "a ! length b = CHR 0x00" by (simp add: byte_at_def)
      with 2 assms(1) show False by (metis nth_mem nul_free_def)
    qed
  qed
  then show "a = b" using bytes by (intro nth_equalityI) (auto simp: byte_at_def)
qed (unfold constant_time_eq_def fold_or_zero, simp)

lemma fold_last_match:
  "fold (\<lambda>k hit. if P k then Some (g k) else hit) keys acc =
     (case List.find P (rev keys) of Some k \<Rightarrow> Some (g k) | None \<Rightarrow> acc)"
  by (induction keys arbitrary: acc) (auto simp: find_append split: option.split)

text \<open>Whose key a presented one is: the master key first, else the last app key with this secret.\<close>

definition owner_of :: "auth_env \<Rightarrow> string \<Rightarrow> string \<Rightarrow> string option option" where
  "owner_of env stored presented =
     (if presented = stored then Some None
      else map_option (\<lambda>k. Some (ap_id k))
        (List.find (\<lambda>k. ap_secret k = presented) (rev (app_keys_blocking env))))"

definition nul_free_env :: "auth_env \<Rightarrow> bool" where
  "nul_free_env env \<longleftrightarrow>
     (case au_master env of Ready k \<Rightarrow> nul_free k | _ \<Rightarrow> True)
     \<and> list_all (\<lambda>k. nul_free (ap_secret k)) (app_keys_blocking env)"

lemma holder_owner:
  assumes "nul_free stored" and "list_all (\<lambda>k. nul_free (ap_secret k)) (app_keys_blocking env)"
    and "nul_free presented"
  shows "holder_of env stored presented = owner_of env stored presented"
proof -
  have "List.find (\<lambda>k. constant_time_eq presented (ap_secret k)) (rev (app_keys_blocking env))
      = List.find (\<lambda>k. ap_secret k = presented) (rev (app_keys_blocking env))"
    using assms(2,3) by (intro find_cong) (auto simp: constant_time_eq_iff list_all_iff)
  then show ?thesis
    using assms by (auto simp: holder_of_def owner_of_def match_app_keys_def constant_time_eq_iff
        fold_last_match option.map_comp comp_def split: option.split)
qed

text \<open>No limit is reached for this caller.\<close>

definition within_limits :: "auth_env \<Rightarrow> string option \<Rightarrow> bool" where
  "within_limits env owner \<longleftrightarrow>
     au_spend_lost env
     \<or> (case au_spend env of
           None \<Rightarrow> True
         | Some p \<Rightarrow>
             (sl_total_cap_micros (p owner) \<le> 0 \<or> sl_total_micros (p owner) < sl_total_cap_micros (p owner))
             \<and> (case (sl_app_micros (p owner), sl_app_cap_micros (p owner)) of
                   (Some spent, Some cap) \<Rightarrow> cap \<le> 0 \<or> spent < cap
                 | _ \<Rightarrow> True))"

lemma spend_gate_None: "spend_gate_blocking env owner = None \<longleftrightarrow> within_limits env owner"
  by (auto simp: spend_gate_blocking_def spend_gate_def within_limits_def Let_def split: option.splits)

lemma spend_gate_status: "spend_gate_blocking env owner = Some r \<Longrightarrow> gr_status r = 402"
  by (auto simp: spend_gate_blocking_def spend_gate_def gate_refusal_of_def Let_def split: option.splits if_splits)

text \<open>Who may use the gateway with this key: the holder of the master key, or the app whose secret it
  is (the last one listed, should two share it).\<close>

definition is_holder :: "auth_env \<Rightarrow> string \<Rightarrow> string option \<Rightarrow> bool" where
  "is_holder env presented owner \<longleftrightarrow>
     (case owner of
        None \<Rightarrow> au_master env = Ready presented
      | Some a \<Rightarrow>
          (\<exists>stored. au_master env = Ready stored \<and> stored \<noteq> presented)
          \<and> map_option ap_id (List.find (\<lambda>k. ap_secret k = presented) (rev (app_keys_blocking env))) = Some a)"

lemma owner_is_holder:
  assumes "au_master env = Ready stored"
  shows "is_holder env presented owner \<longleftrightarrow> owner_of env stored presented = Some owner"
  using assms by (cases owner) (auto simp: owner_of_def is_holder_def split: if_splits)

definition refused_status :: "auth_env \<Rightarrow> string \<Rightarrow> bool \<Rightarrow> nat" where
  "refused_status env presented allowed =
     (if \<not> au_running env then 503
      else case au_master env of
        Absent \<Rightarrow> 401
      | Unavailable \<Rightarrow> 503
      | Ready _ \<Rightarrow>
          (if \<exists>owner. is_holder env presented owner then 402 else if allowed then 401 else 429))"

text \<open>(C24) The gate lets a request through if and only if the gateway runs, the presented key is the
  master key or the secret of an active app key, and none of the caller's limits is reached; the
  identity it hands on is the holder of the key. A refusal carries the status of what failed.
  Failed attempts before do not matter for a right key.\<close>

theorem gate_admits_exactly_known_keys:
  assumes "nul_free_env env" and "nul_free (presented_key headers)"
  shows "(fst (check_gateway_key env headers ip f) = Inr owner) =
      (au_running env \<and> is_holder env (presented_key headers) owner \<and> within_limits env owner)
    \<and> (case fst (check_gateway_key env headers ip f) of
          Inl r \<Rightarrow> gr_status r = refused_status env (presented_key headers) (auth_allowed (au_now env) ip f)
        | Inr _ \<Rightarrow> True)"
proof (cases "au_master env")
  case (Ready stored)
  then have owner: "holder_of env stored (presented_key headers) = owner_of env stored (presented_key headers)"
    using assms by (intro holder_owner) (auto simp: nul_free_env_def)
  show ?thesis
  proof (cases "owner_of env stored (presented_key headers)")
    case None
    with Ready have "\<not> Ex (is_holder env (presented_key headers))" by (simp add: owner_is_holder)
    with None Ready owner show ?thesis
      by (auto simp: check_gateway_key_def refused_status_def owner_is_holder gate_refusal_of_def)
  next
    case (Some h)
    with Ready owner show ?thesis
      by (cases "spend_gate_blocking env h")
        (auto simp: check_gateway_key_def refused_status_def owner_is_holder spend_gate_status
          simp flip: spend_gate_None, simp_all add: gate_refusal_of_def)
  qed
qed (auto simp: check_gateway_key_def is_holder_def refused_status_def gate_refusal_of_def split: option.split)

definition demo_auth :: auth_env where
  "demo_auth =
     \<lparr>au_running = True, au_master = Ready ''m'', au_app_keys = Some [\<lparr>ap_id = ''ak-1'', ap_secret = ''s''\<rparr>],
      au_spend = None, au_spend_lost = False, au_now = 0\<rparr>"

definition demo_bearer :: "string \<Rightarrow> string \<Rightarrow> string option" where
  "demo_bearer key = [''x-api-key'' \<mapsto> key]"

lemma presented_demo [simp]: "presented_key (demo_bearer key) = key"
  by (simp add: presented_key_def demo_bearer_def or_else_def)

lemma demo_auth_nul_free [simp]: "nul_free_env demo_auth"
  by (simp add: nul_free_env_def demo_auth_def nul_free_def app_keys_blocking_def)

lemma gate_admits_exactly_known_keys_witness:
  "(fst (check_gateway_key demo_auth (demo_bearer ''s'') () (\<lambda>_. None)) = Inr (Some ''ak-1'')) =
      (au_running demo_auth \<and> is_holder demo_auth (presented_key (demo_bearer ''s'')) (Some ''ak-1'')
        \<and> within_limits demo_auth (Some ''ak-1''))
    \<and> (case fst (check_gateway_key demo_auth (demo_bearer ''s'') () (\<lambda>_. None)) of
          Inl r \<Rightarrow> gr_status r = refused_status demo_auth (presented_key (demo_bearer ''s''))
            (auth_allowed (au_now demo_auth) () (\<lambda>_. None))
        | Inr _ \<Rightarrow> True)"
  by (rule gate_admits_exactly_known_keys) (simp_all add: nul_free_def)

subsection \<open>Backoff\<close>

text \<open>A wrong key at time \<open>now\<close>.\<close>

definition wrong_key :: "auth_env \<Rightarrow> (string \<Rightarrow> string option) \<Rightarrow> bool" where
  "wrong_key env headers \<longleftrightarrow>
     au_running env
     \<and> (case au_master env of
           Ready stored \<Rightarrow> holder_of env stored (presented_key headers) = None
         | _ \<Rightarrow> False)"

lemma check_wrong_key:
  "wrong_key env headers \<Longrightarrow>
     (case check_gateway_key env headers ip f of
        (Inl r, f') \<Rightarrow> gr_status r = (if auth_allowed (au_now env) ip f then 401 else 429)
          \<and> f' = (if auth_allowed (au_now env) ip f then note_auth_failure (au_now env) ip f else f)
      | (Inr _, _) \<Rightarrow> False)"
  by (auto simp: wrong_key_def check_gateway_key_def gate_refusal_of_def split: master_key_lookup.splits)

text \<open>
  Requests meet at the table of failures: a request takes its lock to drop the entry of a known key,
  to read whether a wrong key is held back, and once more to note the failure, and others run in
  between. The state is the table, the addresses of the wrong keys that passed the check and are not
  noted yet, and the record of the sections, newest first. A wrong key that is held back is answered
  429 on the spot, one that is noted 401. \<open>step_delay\<close> is the delay after the failures before.
\<close>

datatype 'ip auth_event = Cleared 'ip | Passed 'ip nat | HeldBack 'ip nat | Noted 'ip nat

type_synonym 'ip auth_state = "'ip failures \<times> 'ip list \<times> 'ip auth_event list"

inductive gate_step :: "'ip auth_state \<Rightarrow> 'ip auth_state \<Rightarrow> bool" where
  known_key:
    "au_running env \<Longrightarrow> au_master env = Ready stored \<Longrightarrow>
       holder_of env stored (presented_key headers) = Some holder \<Longrightarrow>
       gate_step (f, pending, evs) (f(ip := None), pending, Cleared ip # evs)"
| wrong_key_passes:
    "wrong_key env headers \<Longrightarrow> auth_allowed (au_now env) ip f \<Longrightarrow>
       gate_step (f, pending, evs) (f, ip # pending, Passed ip (au_now env) # evs)"
| wrong_key_held:
    "wrong_key env headers \<Longrightarrow> \<not> auth_allowed (au_now env) ip f \<Longrightarrow>
       gate_step (f, pending, evs) (f, pending, HeldBack ip (au_now env) # evs)"
| failure_noted:
    "ip \<in> set pending \<Longrightarrow>
       gate_step (f, pending, evs)
         (note_auth_failure now ip f, remove1 ip pending, Noted ip now # evs)"

inductive_cases gate_stepE: "gate_step s s'"

definition no_attempts :: "'ip auth_state" where
  "no_attempts = (\<lambda>_. None, [], [])"

definition step_delay :: "nat \<Rightarrow> nat" where
  "step_delay n = from_millis (500 * 2 ^ min n 6)"

text \<open>The failures noted for an address since its last known key, newest first, and the moment they
  hold it back until.\<close>

fun noted_since :: "'ip \<Rightarrow> 'ip auth_event list \<Rightarrow> nat list" where
  "noted_since ip [] = []"
| "noted_since ip (Cleared i # evs) = (if i = ip then [] else noted_since ip evs)"
| "noted_since ip (Noted i t # evs) = (if i = ip then t # noted_since ip evs else noted_since ip evs)"
| "noted_since ip (Passed _ _ # evs) = noted_since ip evs"
| "noted_since ip (HeldBack _ _ # evs) = noted_since ip evs"

definition held_until :: "nat list \<Rightarrow> nat" where
  "held_until ts = (case ts of [] \<Rightarrow> 0 | t # us \<Rightarrow> t + step_delay (length us))"

fun backed_off :: "'ip auth_event list \<Rightarrow> bool" where
  "backed_off [] = True"
| "backed_off (Passed ip t # evs) = (held_until (noted_since ip evs) \<le> t \<and> backed_off evs)"
| "backed_off (HeldBack ip t # evs) = (t < held_until (noted_since ip evs) \<and> backed_off evs)"
| "backed_off (_ # evs) = backed_off evs"

definition passed_of :: "'ip \<Rightarrow> 'ip auth_event list \<Rightarrow> nat" where
  "passed_of ip evs = length (filter (\<lambda>e. \<exists>t. e = Passed ip t) evs)"

definition noted_of :: "'ip \<Rightarrow> 'ip auth_event list \<Rightarrow> nat" where
  "noted_of ip evs = length (filter (\<lambda>e. \<exists>t. e = Noted ip t) evs)"

lemma backoff_step_delay:
  assumes "Suc n < 2 ^ 32"
  shows "backoff_delay (Suc n) = step_delay n"
proof -
  have "(Suc n + (2 ^ 32 - 1)) mod 2 ^ 32 = n" using assms by simp
  then show ?thesis by (simp only: backoff_delay_def step_delay_def)
qed

lemma length_noted_since: "length (noted_since ip evs) \<le> length evs"
  by (induction ip evs rule: noted_since.induct) auto

definition table_of :: "'ip auth_event list \<Rightarrow> 'ip failures" where
  "table_of evs ip =
     (case noted_since ip evs of [] \<Rightarrow> None | t # us \<Rightarrow> Some (Suc (length us), held_until (t # us)))"

lemma auth_allowed_table: "auth_allowed now ip (table_of evs) \<longleftrightarrow> held_until (noted_since ip evs) \<le> now"
  by (simp add: auth_allowed_def table_of_def held_until_def split: list.split)

lemma table_of_quiet [simp]:
  "table_of (Passed i t # evs) = table_of evs" "table_of (HeldBack i t # evs) = table_of evs"
  "table_of (Cleared i # evs) = (table_of evs)(i := None)"
  by (simp_all add: table_of_def fun_eq_iff)

lemma table_of_Noted:
  assumes "Suc (length evs) < 2 ^ 32"
  shows "table_of (Noted i t # evs) = note_auth_failure t i (table_of evs)"
proof -
  have small: "Suc (length (noted_since i evs)) < 2 ^ 32"
    using assms length_noted_since [of i evs] by simp
  from backoff_step_delay [OF small] small show ?thesis
    by (auto simp: table_of_def fun_eq_iff note_auth_failure_def Let_def held_until_def inc_u32_def
        split: list.split)
qed

definition auth_inv :: "'ip auth_state \<Rightarrow> bool" where
  "auth_inv = (\<lambda>(f, pending, evs). f = table_of evs \<and> backed_off evs
     \<and> (\<forall>ip. noted_of ip evs + count_list pending ip = passed_of ip evs))"

lemma count_list_remove1:
  "count_list (remove1 x xs) y = (if x = y then count_list xs y - 1 else count_list xs y)"
  by (induction xs) auto

lemma gate_step_inv:
  assumes "gate_step s s'" and "auth_inv s" and "length (snd (snd s')) < 2 ^ 32"
  shows "auth_inv s'"
  using assms
proof (cases rule: gate_step.cases)
  case (failure_noted ip pending f evs now)
  then have some: "0 < count_list pending ip" by (metis count_list_0_iff gr0I)
  have count: "noted_of i evs + count_list pending i = passed_of i evs" for i
    using assms(2) failure_noted(1) by (simp add: auth_inv_def)
  have "noted_of i (Noted ip now # evs) + count_list (remove1 ip pending) i = passed_of i (Noted ip now # evs)"
    for i
    using count [of i] some by (cases "i = ip") (auto simp: noted_of_def passed_of_def count_list_remove1)
  with failure_noted assms(2,3) show ?thesis by (simp add: auth_inv_def table_of_Noted)
qed (use assms(2) in \<open>auto simp: auth_inv_def auth_allowed_table noted_of_def passed_of_def not_le\<close>)

lemma gate_step_grows: "gate_step s s' \<Longrightarrow> length (snd (snd s')) = Suc (length (snd (snd s)))"
  by (auto elim: gate_stepE)

lemma gate_steps_inv:
  assumes "gate_step\<^sup>*\<^sup>* no_attempts s" and "length (snd (snd s)) < 2 ^ 32"
  shows "auth_inv s"
  using assms
proof (induction rule: rtranclp_induct)
  case base
  show ?case by (simp add: auth_inv_def no_attempts_def table_of_def noted_of_def passed_of_def fun_eq_iff)
next
  case (step s s')
  from gate_step_grows [OF step.hyps(2)] step.prems have "length (snd (snd s)) < 2 ^ 32" by simp
  from gate_step_inv [OF step.hyps(2) step.IH [OF this] step.prems] show ?case .
qed

text \<open>(C25) Wrong keys are slowed down, however requests interleave at the table of failures: a wrong
  key passes its check exactly when the failures noted for its address since that address last showed
  a known key do not hold it back, that is, half a second after the first of them, one second after
  the second, up to 32 seconds after the seventh and every later one; until then it is answered 429,
  which lengthens nothing. Every 401 was such a pass, and the table is the summary of the record.\<close>

theorem wrong_keys_back_off:
  assumes "gate_step\<^sup>*\<^sup>* no_attempts (f, pending, evs)" and "length evs < 2 ^ 32"
  shows "backed_off evs \<and> f = table_of evs
    \<and> noted_of ip evs + count_list pending ip = passed_of ip evs"
  using gate_steps_inv [OF assms(1)] assms(2) by (simp add: auth_inv_def)

lemma demo_auth_wrong: "wrong_key (demo_auth\<lparr>au_now := t\<rparr>) (demo_bearer ''x'')"
  by (simp add: wrong_key_def demo_auth_def holder_of_def constant_time_eq_iff nul_free_def
      match_app_keys_def app_keys_blocking_def)

text \<open>Two wrong keys that pass before either is noted, and a third that is held back.\<close>

theorem wrong_keys_back_off_witness:
  "table_of [HeldBack () (from_millis 900), Noted () 1, Noted () 0, Passed () 0, Passed () 0] ()
     = Some (2, 1 + from_millis 1000)"
proof -
  let ?env = "\<lambda>t. demo_auth\<lparr>au_now := t\<rparr>" and ?h = "demo_bearer ''x''"
  let ?f1 = "note_auth_failure 0 () (\<lambda>_. None)"
  let ?f2 = "note_auth_failure 1 () ?f1"
  have "gate_step\<^sup>*\<^sup>* no_attempts (\<lambda>_. None, [()], [Passed () 0])"
    using wrong_key_passes [OF demo_auth_wrong, of 0 "()" "\<lambda>_. None"]
    by (simp add: no_attempts_def auth_allowed_def r_into_rtranclp)
  moreover have "gate_step (\<lambda>_. None, [()], [Passed () 0]) (\<lambda>_. None, [(), ()], [Passed () 0, Passed () 0])"
    using wrong_key_passes [OF demo_auth_wrong, of 0 "()" "\<lambda>_. None"] by (simp add: auth_allowed_def)
  moreover have "gate_step (\<lambda>_. None, [(), ()], [Passed () 0, Passed () 0])
      (?f1, [()], [Noted () 0, Passed () 0, Passed () 0])"
    using failure_noted [of "()" "[(), ()]"] by simp
  moreover have "gate_step (?f1, [()], [Noted () 0, Passed () 0, Passed () 0])
      (?f2, [], [Noted () 1, Noted () 0, Passed () 0, Passed () 0])"
    using failure_noted [of "()" "[()]"] by simp
  moreover have "\<not> auth_allowed (from_millis 900) () ?f2"
    by (simp add: auth_allowed_def note_auth_failure_def Let_def inc_u32_def backoff_delay_def
        from_millis_def)
  then have "gate_step (?f2, [], [Noted () 1, Noted () 0, Passed () 0, Passed () 0])
      (?f2, [], [HeldBack () (from_millis 900), Noted () 1, Noted () 0, Passed () 0, Passed () 0])"
    using wrong_key_held [OF demo_auth_wrong, of "from_millis 900" "()" ?f2] by simp
  ultimately have "gate_step\<^sup>*\<^sup>* no_attempts
      (?f2, [], [HeldBack () (from_millis 900), Noted () 1, Noted () 0, Passed () 0, Passed () 0])"
    by (meson rtranclp.rtrancl_into_rtrancl)
  from wrong_keys_back_off [OF this, of "()"] have "?f2 =
      table_of [HeldBack () (from_millis 900), Noted () 1, Noted () 0, Passed () 0, Passed () 0]" by simp
  from fun_cong [OF this, of "()"] show ?thesis
    by (simp add: note_auth_failure_def Let_def inc_u32_def backoff_delay_def del: One_nat_def)
qed

text \<open>A request alone goes through its sections in one go: \<open>check_gateway_key\<close> makes their steps.\<close>

lemma check_is_gate_steps:
  assumes "wrong_key env headers \<or> (\<exists>owner. check_gateway_key env headers ip f = (Inr owner, f'))"
    and "check_gateway_key env headers ip f = (r, f')"
  shows "\<exists>evs'. gate_step\<^sup>*\<^sup>* (f, pending, evs) (f', pending, evs')"
proof (cases "wrong_key env headers")
  case True
  note check = check_wrong_key [OF True, of ip f]
  show ?thesis
  proof (cases "auth_allowed (au_now env) ip f")
    case False
    with check assms(2) have "f' = f" by (auto split: sum.splits)
    with wrong_key_held [OF True False] show ?thesis by blast
  next
    case passes: True
    with check assms(2) have "f' = note_auth_failure (au_now env) ip f" by (auto split: sum.splits)
    with failure_noted [of ip "ip # pending" f "Passed ip (au_now env) # evs" "au_now env"]
      wrong_key_passes [OF True passes, of pending evs]
    show ?thesis by (metis (no_types, lifting) list.set_intros(1) remove1.simps(2) converse_rtranclp_into_rtranclp
          r_into_rtranclp)
  qed
next
  case False
  with assms obtain owner where "check_gateway_key env headers ip f = (Inr owner, f')" by blast
  then obtain stored where "au_running env" "au_master env = Ready stored"
      "holder_of env stored (presented_key headers) = Some owner" "f' = f(ip := None)"
    by (auto simp: check_gateway_key_def split: if_splits master_key_lookup.splits option.splits)
  then have "gate_step (f, pending, evs) (f', pending, Cleared ip # evs)"
    by (auto intro: gate_step.intros(1))
  then show ?thesis by blast
qed

text \<open>A right key is accepted at any moment of the backoff, so guessing is not slowed down: a guesser
  learns from every attempt whether it was right.\<close>

lemma right_key_ignores_backoff:
  assumes "au_running env" and "au_master env = Ready stored"
    and "holder_of env stored (presented_key headers) = Some owner" and "within_limits env owner"
  shows "check_gateway_key env headers ip f = (Inr owner, f(ip := None))"
  using assms by (simp add: check_gateway_key_def flip: spend_gate_None)

end
