(* ===== verification/Master_Key.thy ===== *)
theory Master_Key
  imports Gateway_Auth
begin

text \<open>
  The cache of the master key (\<open>gateway.rs\<close>): one load at a time fills it, \<open>invalidate\<close> bumps a
  generation, and an answer counts only under the generation it was loaded for. Requests, the loading
  thread, the vault and rotations interleave; each step is one atomic read or one critical section.
\<close>

subsection \<open>State\<close>

record cache_state =
  cs_value :: "string option"
  cs_generation :: nat
  cs_loading :: bool

text \<open>Where a call of \<open>get\<close> stands: not called, at the head of its loop, with the generation it read,
  waiting on the condition variable, or answered.\<close>

datatype get_state = Idle | Looping | Holding nat | Waiting | Answered master_key_lookup

text \<open>The loader thread has its generation, and what it found once it has read the vault.\<close>

record 't mk_sys =
  mk_vault :: "string option"
  mk_generation :: nat
  mk_cache :: cache_state
  mk_loader :: "(nat \<times> string option option) option"
  mk_gets :: "'t \<Rightarrow> get_state"

definition resolve :: "string option \<Rightarrow> master_key_lookup" where
  "resolve value = (case value of Some v \<Rightarrow> Ready v | None \<Rightarrow> Absent)"

definition new_cache :: "string option \<Rightarrow> 't mk_sys" where
  "new_cache vault =
     \<lparr>mk_vault = vault, mk_generation = 0,
      mk_cache = \<lparr>cs_value = None, cs_generation = u64_max, cs_loading = False\<rparr>,
      mk_loader = None, mk_gets = (\<lambda>_. Idle)\<rparr>"

definition set_get :: "'t \<Rightarrow> get_state \<Rightarrow> 't mk_sys \<Rightarrow> 't mk_sys" where
  "set_get t g s = s\<lparr>mk_gets := (mk_gets s)(t := g)\<rparr>"

definition invalidate :: "'t mk_sys \<Rightarrow> 't mk_sys" where
  "invalidate s = s\<lparr>mk_generation := Suc (mk_generation s) mod 2 ^ 64\<rparr>"

text \<open>One pass through the critical section of \<open>get\<close>, with the generation read before it.\<close>

definition locked_pass :: "'t \<Rightarrow> nat \<Rightarrow> 't mk_sys \<Rightarrow> 't mk_sys" where
  "locked_pass t generation s =
     (let c = mk_cache s in
      if \<not> cs_loading c \<and> cs_generation c = generation
      then set_get t (Answered (resolve (cs_value c))) s
      else if \<not> cs_loading c
      then set_get t Waiting
             (s\<lparr>mk_cache := c\<lparr>cs_loading := True\<rparr>, mk_loader := Some (generation, None)\<rparr>)
      else set_get t Waiting s)"

definition publish :: "nat \<Rightarrow> string option \<Rightarrow> 't mk_sys \<Rightarrow> 't mk_sys" where
  "publish generation found s =
     s\<lparr>mk_cache := \<lparr>cs_value = found, cs_generation = generation, cs_loading = False\<rparr>,
       mk_loader := None\<rparr>"

subsection \<open>Steps\<close>

datatype 't mk_event = Write "string option" | Invalidate | Begin 't | Go 't | Timeout 't | Load | Publish

inductive mk_step :: "'t mk_sys \<Rightarrow> 't mk_event \<Rightarrow> 't mk_sys \<Rightarrow> bool" where
  written: "mk_step s (Write v) (s\<lparr>mk_vault := v\<rparr>)"
| bumped: "mk_step s Invalidate (invalidate s)"
| started: "mk_gets s t = Idle \<or> (\<exists>a. mk_gets s t = Answered a) \<Longrightarrow> mk_step s (Begin t) (set_get t Looping s)"
| stamped: "mk_gets s t = Looping \<Longrightarrow> mk_step s (Go t) (set_get t (Holding (mk_generation s)) s)"
| passed: "mk_gets s t = Holding g \<Longrightarrow> mk_step s (Go t) (locked_pass t g s)"
| woken: "mk_gets s t = Waiting \<Longrightarrow> mk_step s (Go t) (set_get t Looping s)"
| timed_out: "mk_gets s t = Waiting \<Longrightarrow> mk_step s (Timeout t) (set_get t (Answered Unavailable) s)"
| loaded: "mk_loader s = Some (g, None) \<Longrightarrow> mk_step s Load (s\<lparr>mk_loader := Some (g, Some (mk_vault s))\<rparr>)"
| published: "mk_loader s = Some (g, Some found) \<Longrightarrow> mk_step s Publish (publish g found s)"

inductive mk_run :: "'t mk_sys \<Rightarrow> 't mk_event list \<Rightarrow> 't mk_sys \<Rightarrow> bool" where
  nil: "mk_run s [] s"
| more: "mk_step s e s' \<Longrightarrow> mk_run s' es s'' \<Longrightarrow> mk_run s (e # es) s''"

inductive_cases write_stepE [elim]: "mk_step s (Write v) s'"
inductive_cases invalidate_stepE [elim]: "mk_step s Invalidate s'"
inductive_cases begin_stepE [elim]: "mk_step s (Begin t) s'"
inductive_simps run_Nil_iff [simp]: "mk_run s [] s'"
inductive_simps run_Cons_iff [simp]: "mk_run s (e # es) s'"

lemma run_append: "mk_run s (xs @ ys) s'' \<longleftrightarrow> (\<exists>s'. mk_run s xs s' \<and> mk_run s' ys s'')"
  by (induction xs arbitrary: s) auto

subsection \<open>What holds in every state\<close>

definition invalidations :: "'t mk_event list \<Rightarrow> nat" where
  "invalidations es = length (filter (\<lambda>e. e = Invalidate) es)"

text \<open>Nothing is stamped with a generation that has not begun, and the flag says whether a load is on.\<close>

definition stamps_ok :: "'t mk_sys \<Rightarrow> bool" where
  "stamps_ok s \<longleftrightarrow>
     mk_generation s < u64_max
     \<and> (cs_generation (mk_cache s) = u64_max \<or> cs_generation (mk_cache s) \<le> mk_generation s)
     \<and> (\<forall>g found. mk_loader s = Some (g, found) \<longrightarrow> g \<le> mk_generation s)
     \<and> cs_loading (mk_cache s) = (mk_loader s \<noteq> None)
     \<and> (\<forall>t g. mk_gets s t = Holding g \<longrightarrow> g \<le> mk_generation s)"

lemma stamps_ok_new: "stamps_ok (new_cache vault)"
  by (simp add: stamps_ok_def new_cache_def u64_max_def)

lemma mk_generation_simps [simp]:
  "mk_generation (set_get t st s) = mk_generation s"
  "mk_generation (locked_pass t g s) = mk_generation s"
  "mk_generation (publish g found s) = mk_generation s"
  by (simp_all add: set_get_def locked_pass_def publish_def Let_def)

lemma stamps_ok_set_get:
  assumes "stamps_ok s" and "\<And>g. st = Holding g \<Longrightarrow> g \<le> mk_generation s"
  shows "stamps_ok (set_get t st s)"
  using assms unfolding stamps_ok_def set_get_def by simp

lemma stamps_ok_pass:
  assumes "stamps_ok s" and "g \<le> mk_generation s"
  shows "stamps_ok (locked_pass t g s)"
proof -
  have "stamps_ok (s\<lparr>mk_cache := (mk_cache s)\<lparr>cs_loading := True\<rparr>, mk_loader := Some (g, None)\<rparr>)"
    using assms unfolding stamps_ok_def by simp
  then show ?thesis
    using assms(1) unfolding locked_pass_def Let_def by (auto intro: stamps_ok_set_get)
qed

lemma stamps_ok_step:
  assumes "mk_step s e s'" and "stamps_ok s" and "e = Invalidate \<Longrightarrow> Suc (mk_generation s) < u64_max"
  shows "stamps_ok s'
    \<and> mk_generation s' = (if e = Invalidate then Suc (mk_generation s) else mk_generation s)"
  using assms(1)
proof cases
  case bumped
  with assms(3) have next_one: "Suc (mk_generation s) mod 2 ^ 64 = Suc (mk_generation s)" "Suc (mk_generation s) < u64_max"
    by (simp_all add: u64_max_def)
  have "stamps_ok (invalidate s)"
    using assms(2) next_one unfolding stamps_ok_def invalidate_def by (auto intro: le_SucI)
  with bumped next_one show ?thesis by (simp add: invalidate_def)
next
  case (passed t g)
  then have "g \<le> mk_generation s" using assms(2) by (simp add: stamps_ok_def)
  with passed assms(2) show ?thesis by (simp add: stamps_ok_pass)
next
  case (published g found)
  with assms(2) show ?thesis by (simp add: stamps_ok_def publish_def)
next
  case (loaded g)
  with assms(2) show ?thesis by (simp add: stamps_ok_def)
next
  case (written v)
  with assms(2) show ?thesis by (simp add: stamps_ok_def)
qed (use assms(2) in \<open>auto intro!: stamps_ok_set_get\<close>)

lemma stamps_ok_run:
  "mk_run s es s' \<Longrightarrow> stamps_ok s \<Longrightarrow> mk_generation s + invalidations es < u64_max \<Longrightarrow>
     stamps_ok s' \<and> mk_generation s' = mk_generation s + invalidations es"
proof (induction rule: mk_run.induct)
  case (more s e s' es s'')
  have "Suc (mk_generation s) < u64_max" if "e = Invalidate"
    using more.prems(2) that by (simp add: invalidations_def)
  note step = stamps_ok_step [OF more.hyps(1) more.prems(1) this]
  with more.IH more.prems(2) show ?case by (auto simp: invalidations_def split: if_splits)
qed (simp add: invalidations_def)

subsection \<open>A rotation takes effect at once\<close>

text \<open>From generation \<open>since\<close> on everything was read from a vault that holds \<open>v\<close>.\<close>

definition fresh_from :: "nat \<Rightarrow> string option \<Rightarrow> 't mk_sys \<Rightarrow> bool" where
  "fresh_from since v s \<longleftrightarrow>
     mk_vault s = v \<and> since \<le> mk_generation s
     \<and> (\<forall>g found. mk_loader s = Some (g, Some found) \<and> since \<le> g \<longrightarrow> found = v)
     \<and> (cs_generation (mk_cache s) \<noteq> u64_max \<and> since \<le> cs_generation (mk_cache s)
          \<longrightarrow> cs_value (mk_cache s) = v)"

fun get_fresh :: "nat \<Rightarrow> string option \<Rightarrow> get_state \<Rightarrow> bool" where
  "get_fresh since v (Holding g) = (since \<le> g)"
| "get_fresh since v (Answered a) = (a = Unavailable \<or> a = resolve v)"
| "get_fresh since v _ = True"

lemma fresh_from_set_get [simp]: "fresh_from since v (set_get t st s) = fresh_from since v s"
  by (simp add: fresh_from_def set_get_def)

lemma fresh_from_pass: "fresh_from since v s \<Longrightarrow> fresh_from since v (locked_pass t g s)"
proof -
  assume "fresh_from since v s"
  then have "fresh_from since v (s\<lparr>mk_cache := (mk_cache s)\<lparr>cs_loading := True\<rparr>, mk_loader := Some (g, None)\<rparr>)"
    by (simp add: fresh_from_def)
  with \<open>fresh_from since v s\<close> show ?thesis by (simp add: locked_pass_def Let_def)
qed

lemma fresh_from_step:
  assumes "mk_step s e s'" and "stamps_ok s" and "e = Invalidate \<Longrightarrow> Suc (mk_generation s) < u64_max"
    and "\<And>x. e \<noteq> Write x" and "fresh_from since v s"
  shows "fresh_from since v s'"
  using assms(1)
proof cases
  case bumped
  with stamps_ok_step [OF assms(1-3)] have "mk_generation (invalidate s) = Suc (mk_generation s)" by simp
  with bumped assms(5) show ?thesis unfolding fresh_from_def invalidate_def by auto
next
  case (published g found)
  with assms(5) show ?thesis by (simp add: fresh_from_def publish_def)
next
  case (loaded g)
  with assms(5) show ?thesis by (simp add: fresh_from_def)
qed (use assms(4,5) fresh_from_pass in \<open>simp_all\<close>)

lemma set_get_gets [simp]: "mk_gets (set_get t st s) u = (if u = t then st else mk_gets s u)"
  by (simp add: set_get_def)

lemma pass_gets:
  "mk_gets (locked_pass t g s) u =
     (if u \<noteq> t then mk_gets s u
      else if \<not> cs_loading (mk_cache s) \<and> cs_generation (mk_cache s) = g
      then Answered (resolve (cs_value (mk_cache s))) else Waiting)"
  by (simp add: locked_pass_def Let_def)

lemma get_fresh_step:
  assumes "mk_step s e s'" and "stamps_ok s" and "fresh_from since v s"
    and "get_fresh since v (mk_gets s t)"
  shows "get_fresh since v (mk_gets s' t)"
  using assms(1)
proof cases
  case (passed u g)
  show ?thesis
  proof (cases "u = t")
    case True
    with passed assms(4) have "since \<le> g" by simp
    moreover have "g < u64_max"
      using passed assms(2) True unfolding stamps_ok_def by (metis order_le_less_trans)
    ultimately show ?thesis
      using passed True assms(3) by (simp add: pass_gets fresh_from_def)
  qed (use passed assms(4) in \<open>simp add: pass_gets\<close>)
qed (use assms(3,4) in \<open>auto simp: fresh_from_def invalidate_def publish_def\<close>)

definition writes_nothing :: "'t mk_event list \<Rightarrow> bool" where
  "writes_nothing es \<longleftrightarrow> (\<forall>v. Write v \<notin> set es)"

lemma fresh_run:
  "mk_run s es s' \<Longrightarrow> stamps_ok s \<Longrightarrow> mk_generation s + invalidations es < u64_max \<Longrightarrow>
     writes_nothing es \<Longrightarrow> fresh_from since v s \<Longrightarrow>
     fresh_from since v s' \<and> (get_fresh since v (mk_gets s t) \<longrightarrow> get_fresh since v (mk_gets s' t))"
proof (induction rule: mk_run.induct)
  case (more s e s' es s'')
  have small: "Suc (mk_generation s) < u64_max" if "e = Invalidate"
    using more.prems(2) that by (simp add: invalidations_def)
  have "stamps_ok s' \<and> mk_generation s' = (if e = Invalidate then Suc (mk_generation s) else mk_generation s)"
    by (rule stamps_ok_step [OF more.hyps(1) more.prems(1) small])
  then have "stamps_ok s'" "mk_generation s' + invalidations es < u64_max"
    using more.prems(2) by (auto simp: invalidations_def split: if_splits)
  moreover have "fresh_from since v s'"
  proof (rule fresh_from_step [OF more.hyps(1) more.prems(1) small _ more.prems(4)])
    show "e \<noteq> Write x" for x using more.prems(3) by (auto simp: writes_nothing_def)
  qed
  ultimately show ?case
    using more.IH more.prems(3) get_fresh_step [OF more.hyps(1) more.prems(1,4)]
    by (simp add: writes_nothing_def)
qed simp

text \<open>The state right after the key was written and the cache invalidated.\<close>

lemma fresh_after_rotation:
  assumes "stamps_ok s" and "Suc (mk_generation s) < u64_max"
  shows "fresh_from (Suc (mk_generation s)) v (invalidate (s\<lparr>mk_vault := v\<rparr>))"
proof -
  have "Suc (mk_generation s) mod 2 ^ 64 = Suc (mk_generation s)" using assms(2) by (simp add: u64_max_def)
  then show ?thesis
    using assms(1) unfolding fresh_from_def invalidate_def stamps_ok_def
    by (fastforce dest: Suc_le_lessD)
qed

text \<open>(C26) A rotation takes effect at once: whatever requests, loads and rotations did before, once the
  vault has been written and the cache invalidated, a look-up that begins afterwards answers with the
  new key (or that none is set), or that the vault did not answer in time, and never with an older
  key, however the threads interleave.\<close>

theorem rotation_takes_effect_at_once:
  assumes "mk_run (new_cache old) before s"
    and "writes_nothing after" and "writes_nothing later"
    and "mk_run s (Write v # Invalidate # after @ Begin t # later) s'"
    and "Suc (invalidations before + invalidations after + invalidations later) < u64_max"
  shows "case mk_gets s' t of Answered a \<Rightarrow> a = resolve v \<or> a = Unavailable | _ \<Rightarrow> True"
proof -
  have s: "stamps_ok s" "mk_generation s = invalidations before"
    using stamps_ok_run [OF assms(1) stamps_ok_new] assms(5) by (simp_all add: new_cache_def)
  let ?s1 = "invalidate (s\<lparr>mk_vault := v\<rparr>)"
  obtain s2 s3 where run: "mk_run ?s1 after s2" "mk_step s2 (Begin t) s3" "mk_run s3 later s'"
    using assms(4) by (auto simp: run_append)
  have rotated: "mk_run s [Write v, Invalidate] ?s1" by (auto intro: mk_step.intros mk_run.intros)
  have s1: "stamps_ok ?s1" "mk_generation ?s1 = Suc (mk_generation s)"
    using stamps_ok_run [OF rotated s(1)] s(2) assms(5) by (simp_all add: invalidations_def)
  have fresh1: "fresh_from (Suc (mk_generation s)) v ?s1"
    by (rule fresh_after_rotation) (use s assms(5) in simp_all)
  have s2: "stamps_ok s2" "mk_generation s2 = mk_generation ?s1 + invalidations after"
    using stamps_ok_run [OF run(1) s1(1)] s1(2) s(2) assms(5) by simp_all
  have fresh2: "fresh_from (Suc (mk_generation s)) v s2"
    using fresh_run [OF run(1) s1(1) _ assms(2) fresh1] s1(2) s(2) assms(5) by simp
  have s3: "s3 = set_get t Looping s2" using run(2) by (auto elim: begin_stepE)
  with s2 have "stamps_ok s3" "mk_generation s3 = mk_generation s2" by (auto intro: stamps_ok_set_get)
  moreover have "fresh_from (Suc (mk_generation s)) v s3" using fresh2 s3 by simp
  ultimately have "get_fresh (Suc (mk_generation s)) v (mk_gets s3 t) \<longrightarrow> get_fresh (Suc (mk_generation s)) v (mk_gets s' t)"
    using fresh_run [OF run(3) _ _ assms(3)] s1(2) s2(2) s(2) assms(5) by simp
  then show ?thesis using s3 by (auto split: get_state.split)
qed

text \<open>The steps as a function: which thread moves is the only choice.\<close>

fun mk_next :: "'t mk_sys \<Rightarrow> 't mk_event \<Rightarrow> 't mk_sys option" where
  "mk_next s (Write v) = Some (s\<lparr>mk_vault := v\<rparr>)"
| "mk_next s Invalidate = Some (invalidate s)"
| "mk_next s (Begin t) =
     (case mk_gets s t of
        Idle \<Rightarrow> Some (set_get t Looping s)
      | Answered _ \<Rightarrow> Some (set_get t Looping s)
      | _ \<Rightarrow> None)"
| "mk_next s (Go t) =
     (case mk_gets s t of
        Looping \<Rightarrow> Some (set_get t (Holding (mk_generation s)) s)
      | Holding g \<Rightarrow> Some (locked_pass t g s)
      | Waiting \<Rightarrow> Some (set_get t Looping s)
      | _ \<Rightarrow> None)"
| "mk_next s (Timeout t) =
     (case mk_gets s t of Waiting \<Rightarrow> Some (set_get t (Answered Unavailable) s) | _ \<Rightarrow> None)"
| "mk_next s Load =
     (case mk_loader s of
        Some (g, None) \<Rightarrow> Some (s\<lparr>mk_loader := Some (g, Some (mk_vault s))\<rparr>)
      | _ \<Rightarrow> None)"
| "mk_next s Publish =
     (case mk_loader s of Some (g, Some found) \<Rightarrow> Some (publish g found s) | _ \<Rightarrow> None)"

fun mk_exec :: "'t mk_sys \<Rightarrow> 't mk_event list \<Rightarrow> 't mk_sys option" where
  "mk_exec s [] = Some s"
| "mk_exec s (e # es) = (case mk_next s e of Some s' \<Rightarrow> mk_exec s' es | None \<Rightarrow> None)"

lemma mk_next_step: "mk_next s e = Some s' \<Longrightarrow> mk_step s e s'"
  by (cases e) (auto intro: mk_step.intros split: get_state.splits option.splits)

lemma mk_exec_run: "mk_exec s es = Some s' \<Longrightarrow> mk_run s es s'"
  by (induction es arbitrary: s) (auto intro: mk_next_step mk_run.intros split: option.splits)

text \<open>A load that began before the rotation delivers the old key; the look-up that began after it
  loads again.\<close>

definition demo_before :: "nat mk_event list" where
  "demo_before = [Begin 0, Go 0, Go 0, Load]"

definition demo_later :: "nat mk_event list" where
  "demo_later = [Go 1, Publish, Go 1, Go 1, Go 1, Load, Publish, Go 1]"

lemma demo_rotation:
  "\<exists>s'. mk_exec (new_cache (Some ''old''))
     (demo_before @ Write (Some ''new'') # Invalidate # [] @ Begin 1 # demo_later) = Some s'"
  by (simp add: demo_before_def demo_later_def new_cache_def set_get_def locked_pass_def publish_def
      invalidate_def u64_max_def)

lemma rotation_takes_effect_at_once_witness:
  "\<exists>s s'. mk_run (new_cache (Some ''old'')) demo_before s
     \<and> mk_run s (Write (Some ''new'') # Invalidate # [] @ Begin 1 # demo_later) s'
     \<and> (case mk_gets s' 1 of Answered a \<Rightarrow> a = resolve (Some ''new'') \<or> a = Unavailable | _ \<Rightarrow> True)"
proof -
  obtain s' where e: "mk_exec (new_cache (Some ''old''))
      (demo_before @ Write (Some ''new'') # Invalidate # [] @ Begin 1 # demo_later) = Some s'"
    using demo_rotation by (rule exE)
  obtain s where runs: "mk_run (new_cache (Some ''old'')) demo_before s"
      "mk_run s (Write (Some ''new'') # Invalidate # [] @ Begin 1 # demo_later) s'"
    using mk_exec_run [OF e, unfolded run_append] by (elim exE conjE)
  have "case mk_gets s' 1 of Answered a \<Rightarrow> a = resolve (Some ''new'') \<or> a = Unavailable | _ \<Rightarrow> True"
  proof (rule rotation_takes_effect_at_once [OF runs(1) _ _ runs(2)])
    show "writes_nothing ([] :: nat mk_event list)" "writes_nothing demo_later"
      by (simp_all add: writes_nothing_def demo_later_def)
    show "Suc (invalidations demo_before + invalidations ([] :: nat mk_event list) + invalidations demo_later) < u64_max"
      by (simp add: demo_later_def demo_before_def invalidations_def u64_max_def)
  qed
  with runs show ?thesis by (intro exI conjI)
qed

end
