(* ===== verification/Context_Scope.thy ===== *)
theory Context_Scope
  imports Gateway_Auth
begin

text \<open>
  The contract of the memory layer with a client (\<open>context_scope.rs\<close>): what a request asks for, the
  scope it resolves to, the budget of tokens, and the blocks of text that are put into the prompt.
  Token estimates divide a number of characters by 3.5; an \<open>f64\<close> does that exactly after rounding up
  for every text shorter than \<open>2 ^ 50\<close> characters, and the shares 0.6, 0.25 and 0.2 of the numbers that
  occur are exact after truncation.
\<close>

subsection \<open>The deadline\<close>

record deadline =
  dl_start :: nat
  dl_budget :: nat
  dl_missed :: "string option"

definition deadline_check :: "string \<Rightarrow> nat \<Rightarrow> deadline \<Rightarrow> bool \<times> deadline" where
  "deadline_check stage now d =
     (if now - dl_start d < dl_budget d then (True, d)
      else (False, d\<lparr>dl_missed := (case dl_missed d of None \<Rightarrow> Some stage | Some s \<Rightarrow> Some s)\<rparr>))"

subsection \<open>What a client asks for\<close>

datatype memory_mode = MemOff | MemOn | MemRead | MemWrite

definition ascii_lowercase :: "string \<Rightarrow> string" where
  "ascii_lowercase s = map Rust_Str.ascii_lower s"

definition mode_parse :: "string \<Rightarrow> memory_mode option" where
  "mode_parse s =
     map_of [(''off'', MemOff), (''on'', MemOn), (''read'', MemRead), (''write'', MemWrite)]
       (ascii_lowercase (str_trim s))"

fun allows_read :: "memory_mode \<Rightarrow> bool" where
  "allows_read MemOn = True"
| "allows_read MemRead = True"
| "allows_read _ = False"

fun allows_write :: "memory_mode \<Rightarrow> bool" where
  "allows_write MemOn = True"
| "allows_write MemWrite = True"
| "allows_write _ = False"

record scope =
  sc_user :: string
  sc_project :: "string option"
  sc_agent :: "string option"
  sc_session :: "string option"

definition or_dash :: "string option \<Rightarrow> string" where
  "or_dash s = (case s of Some t \<Rightarrow> t | None \<Rightarrow> ''-'')"

definition is_header_char :: "char \<Rightarrow> bool" where
  "is_header_char c \<longleftrightarrow> 32 \<le> (of_char c :: nat) \<and> (of_char c :: nat) \<le> 126"

definition sanitize_header_value :: "string \<Rightarrow> string" where
  "sanitize_header_value s = filter is_header_char s"

definition as_header_value :: "scope \<Rightarrow> string" where
  "as_header_value sc =
     sanitize_header_value (''user='' @ sc_user sc @ '';project='' @ or_dash (sc_project sc)
       @ '';agent='' @ or_dash (sc_agent sc))"

record request_meta =
  rm_session :: "string option"
  rm_project :: "string option"
  rm_agent :: "string option"
  rm_user :: "string option"
  rm_mode :: "memory_mode option"
  rm_budget :: "nat option"
  rm_open_files :: "string list option"
  rm_internal :: bool
  rm_explicit :: bool

definition MAX_BUDGET_TOKENS :: nat where
  "MAX_BUDGET_TOKENS = 1500"

definition OPEN_FILES_CAP :: nat where
  "OPEN_FILES_CAP = 20"

definition filled :: "string \<Rightarrow> string option" where
  "filled s = (if str_trim s = [] then None else Some (str_trim s))"

definition header_of :: "(string \<Rightarrow> string option) \<Rightarrow> string \<Rightarrow> string option" where
  "header_of headers name = Option.bind (headers name) filled"

definition aip_object :: "json \<Rightarrow> json option" where
  "aip_object body =
     (case Option.bind (json_get body ''metadata'') (\<lambda>m. json_get m ''aip'') of
        Some (JObject m) \<Rightarrow> Some (JObject m)
      | _ \<Rightarrow> None)"

definition aip_pick :: "(string \<Rightarrow> string option) \<Rightarrow> json option \<Rightarrow> string \<Rightarrow> string \<Rightarrow> string option" where
  "aip_pick headers aip name key =
     (case header_of headers name of
        Some s \<Rightarrow> Some s
      | None \<Rightarrow> Option.bind (Option.bind aip (\<lambda>m. get_str m key)) filled)"

text \<open>\<open>s.parse::<usize>()\<close>\<close>

definition parse_usize :: "string \<Rightarrow> nat option" where
  "parse_usize s =
     (let digits = (case strip_prefix ''+'' s of Some d \<Rightarrow> d | None \<Rightarrow> s)
      in if digits \<noteq> [] \<and> list_all is_digit digits \<and> digits_value digits \<le> u64_max
         then Some (digits_value digits) else None)"

definition requested_budget :: "string option \<Rightarrow> nat option" where
  "requested_budget s =
     (case Option.bind s parse_usize of
        Some n \<Rightarrow> if min n MAX_BUDGET_TOKENS > 0 then Some (min n MAX_BUDGET_TOKENS) else None
      | None \<Rightarrow> None)"

definition nonempty_list :: "'a list \<Rightarrow> 'a list option" where
  "nonempty_list xs = (if xs = [] then None else Some xs)"

definition listed_files :: "string list \<Rightarrow> string list option" where
  "listed_files xs = nonempty_list (take OPEN_FILES_CAP (List.map_filter filled xs))"

definition open_files_of :: "(string \<Rightarrow> string option) \<Rightarrow> json option \<Rightarrow> string list option" where
  "open_files_of headers aip =
     (case Option.bind (aip_pick headers aip ''aip-open-files'' ''open_files'')
             (\<lambda>s. listed_files (split_on (CHR '','') s)) of
        Some files \<Rightarrow> Some files
      | None \<Rightarrow>
          Option.bind (Option.bind aip (\<lambda>m. get_array m ''open_files''))
            (\<lambda>xs. listed_files (List.map_filter as_str xs)))"

definition is_internal :: "(string \<Rightarrow> string option) \<Rightarrow> json option \<Rightarrow> bool" where
  "is_internal headers aip =
     (case aip_pick headers aip ''aip-internal'' ''internal'' of
        Some v \<Rightarrow> ascii_lowercase v \<in> {''1'', ''true'', ''yes'', ''on''}
      | None \<Rightarrow>
          (case Option.bind (Option.bind aip (\<lambda>m. json_get m ''internal'')) as_boolean of
             Some b \<Rightarrow> b
           | None \<Rightarrow> False))"

definition meta_parse :: "(string \<Rightarrow> string option) \<Rightarrow> json \<Rightarrow> request_meta" where
  "meta_parse headers body =
     (let aip = aip_object body;
          pick = aip_pick headers aip;
          session = pick ''aip-session'' ''session'';
          project = pick ''aip-project'' ''project'';
          agent = pick ''aip-agent'' ''agent'';
          user = pick ''aip-user'' ''user'';
          mode = Option.bind (pick ''aip-memory'' ''memory'') mode_parse;
          budget = requested_budget (pick ''aip-memory-budget'' ''budget'');
          files = open_files_of headers aip
      in \<lparr>rm_session = session, rm_project = project, rm_agent = agent, rm_user = user, rm_mode = mode,
          rm_budget = budget, rm_open_files = files, rm_internal = is_internal headers aip,
          rm_explicit = (session \<noteq> None \<or> project \<noteq> None \<or> agent \<noteq> None \<or> user \<noteq> None \<or> mode \<noteq> None
            \<or> budget \<noteq> None \<or> files \<noteq> None)\<rparr>)"

subsection \<open>Keys\<close>

definition fnv1a :: "string \<Rightarrow> 64 word" where
  "fnv1a s = fold (\<lambda>c hash. (hash XOR of_char c) * 0x100000001b3) s 0xcbf29ce484222325"

definition lower_hex_digit :: "nat \<Rightarrow> char" where
  "lower_hex_digit n = (if n < 10 then char_of (48 + n) else char_of (87 + n))"

definition hex16 :: "64 word \<Rightarrow> string" where
  "hex16 w = map (\<lambda>i. lower_hex_digit (unat (drop_bit (4 * (15 - i)) w AND 15))) [0..<16]"

definition project_key_from_root :: "string \<Rightarrow> string option" where
  "project_key_from_root dir =
     (if str_trim dir = [] then None else Some (''p'' @ hex16 (fnv1a (str_trim dir))))"

definition meta_resolve :: "request_meta \<Rightarrow> json \<Rightarrow> string option \<Rightarrow> scope" where
  "meta_resolve m body workspace_root =
     \<lparr>sc_user = (case rm_user m of Some u \<Rightarrow> u | None \<Rightarrow> ''local''),
      sc_project = (case rm_project m of
         Some p \<Rightarrow> Some p
       | None \<Rightarrow> Option.bind workspace_root project_key_from_root),
      sc_agent = (case rm_agent m of
         Some a \<Rightarrow> Some a
       | None \<Rightarrow> Option.bind (get_str body ''user'') filled),
      sc_session = rm_session m\<rparr>"

text \<open>The part of \<open>metadata\<close> the gateway invented is removed before the request goes out.\<close>

definition strip_aip_metadata :: "json \<Rightarrow> bool \<times> json" where
  "strip_aip_metadata body =
     (case json_get body ''metadata'' of
        Some (JObject md) \<Rightarrow>
          (let md' = map_remove ''aip'' md in
           (contains_key md ''aip'',
            if md' = [] then on_object (map_remove ''metadata'') body
            else set_key ''metadata'' (JObject md') body))
      | _ \<Rightarrow> (False, body))"

subsection \<open>Outcome\<close>

datatype skip_reason =
  Disabled | PrincipalOff | ClientOff | WriteOnly | NoProject | NoStore | RecallFailed | NoCandidates
  | BelowFloor | MissedDeadline | Injected

fun reason_str :: "skip_reason \<Rightarrow> string" where
  "reason_str Disabled = ''disabled''"
| "reason_str PrincipalOff = ''principal_off''"
| "reason_str ClientOff = ''client_off''"
| "reason_str WriteOnly = ''write_only''"
| "reason_str NoProject = ''no_project''"
| "reason_str NoStore = ''no_store''"
| "reason_str RecallFailed = ''recall_failed''"
| "reason_str NoCandidates = ''no_candidates''"
| "reason_str BelowFloor = ''below_floor''"
| "reason_str MissedDeadline = ''deadline''"
| "reason_str Injected = ''injected''"

record injection_outcome =
  ij_injected :: bool
  ij_reason :: skip_reason
  ij_items :: nat
  ij_context :: nat
  ij_tokens :: nat
  ij_scope :: string

definition status_value :: "injection_outcome \<Rightarrow> string" where
  "status_value out =
     (if \<not> ij_injected out then ''injected=0;reason='' @ reason_str (ij_reason out)
      else ''injected=1;items='' @ show_nat (ij_items out) @ '';tokens='' @ show_nat (ij_tokens out)
        @ (if ij_context out > 0 then '';ctx='' @ show_nat (ij_context out) else []))"

subsection \<open>Budget\<close>

definition DEFAULT_WINDOW_TOKENS :: nat where
  "DEFAULT_WINDOW_TOKENS = 8192"

definition MESSAGE_OVERHEAD :: nat where
  "MESSAGE_OVERHEAD = 4"

definition BULLET_OVERHEAD_TOKENS :: nat where
  "BULLET_OVERHEAD_TOKENS = 8"

definition MAX_ITEM_CHARS :: nat where
  "MAX_ITEM_CHARS = 300"

definition MAX_QUERY_CHARS :: nat where
  "MAX_QUERY_CHARS = 500"

definition char_count :: "string \<Rightarrow> nat" where
  "char_count s = length (chars s)"

text \<open>\<open>(n as f64 / 3.5).ceil()\<close>\<close>

definition default_tokens :: "nat \<Rightarrow> nat" where
  "default_tokens n = (2 * n + 6) div 7"

definition text_tokens :: "string \<Rightarrow> nat" where
  "text_tokens text = default_tokens (char_count text)"

text \<open>\<open>tokens\<close> is the division by the model's own ratio, rounded up.\<close>

definition estimate_prompt_tokens_at :: "(nat \<Rightarrow> nat) \<Rightarrow> json \<Rightarrow> nat" where
  "estimate_prompt_tokens_at tokens body =
     (case get_array body ''messages'' of
        Some ms \<Rightarrow> sum_list (map (\<lambda>m. tokens (char_count (or_blank (get_str m ''content''))) + MESSAGE_OVERHEAD) ms)
      | None \<Rightarrow> 0)"

definition plan_budget_for :: "(nat \<Rightarrow> nat) \<Rightarrow> json \<Rightarrow> nat \<Rightarrow> nat" where
  "plan_budget_for tokens body window =
     (let declared = nat (max 0 (case Option.bind (json_get body ''max_tokens'') as_i64 of Some n \<Rightarrow> n | None \<Rightarrow> 0));
          reserve = (if declared > 0 then declared else window div 5)
      in (window - (reserve + estimate_prompt_tokens_at tokens body)) div 4)"

definition plan_budget :: "json \<Rightarrow> nat" where
  "plan_budget body = plan_budget_for default_tokens body DEFAULT_WINDOW_TOKENS"

subsection \<open>Blocks\<close>

record memory_item =
  mi_id :: string
  mi_layer :: string
  mi_text :: string
  mi_pinned :: bool

definition rank_items :: "memory_item list \<Rightarrow> memory_item list" where
  "rank_items candidates = stable_partition mi_pinned candidates"

definition item_cost :: "memory_item \<Rightarrow> nat" where
  "item_cost c = text_tokens (mi_text c) + BULLET_OVERHEAD_TOKENS"

fun trim_from :: "nat \<Rightarrow> nat \<Rightarrow> memory_item list \<Rightarrow> memory_item list" where
  "trim_from budget used [] = []"
| "trim_from budget used (c # cs) =
     (if mi_pinned c then c # trim_from budget (used + item_cost c) cs
      else if used + item_cost c \<le> budget then c # trim_from budget (used + item_cost c) cs
      else trim_from budget used cs)"

definition trim_items :: "memory_item list \<Rightarrow> nat \<Rightarrow> memory_item list" where
  "trim_items candidates budget = trim_from budget 0 candidates"

definition one_line :: "string \<Rightarrow> string" where
  "one_line s = map (\<lambda>c. if c = CHR 0x0A then CHR '' '' else c) s"

definition memory_bullet :: "memory_item \<Rightarrow> string" where
  "memory_bullet c = ''- '' @ one_line (take_chars MAX_ITEM_CHARS (mi_text c)) @ [CHR 0x0A]"

definition compose_block :: "memory_item list \<Rightarrow> string" where
  "compose_block items =
     (if items = [] then []
      else ''<memory>'' @ [CHR 0x0A] @ concat (map memory_bullet items) @ ''</memory>'' @ [CHR 0x0A])"

record turn =
  tn_seq :: int
  tn_role :: string
  tn_text :: string
  tn_ts :: int

definition turn_line :: "turn \<Rightarrow> string" where
  "turn_line t =
     ''- '' @ tn_role t @ '': '' @ one_line (take_chars MAX_ITEM_CHARS (tn_text t)) @ [CHR 0x0A]"

definition compose_context_block :: "string list \<Rightarrow> turn list \<Rightarrow> string" where
  "compose_context_block open_files turns =
     (if open_files = [] \<and> turns = [] then []
      else ''<context>'' @ [CHR 0x0A]
        @ (if open_files = [] then []
           else ''open files: '' @ take_chars MAX_ITEM_CHARS (join '', '' open_files) @ [CHR 0x0A])
        @ concat (map turn_line turns) @ ''</context>'' @ [CHR 0x0A])"

definition last_content :: "string \<Rightarrow> json list \<Rightarrow> string option" where
  "last_content role ms =
     Option.bind (List.find (\<lambda>m. get_str m ''role'' = Some role) (rev ms)) (\<lambda>m. get_str m ''content'')"

definition recall_query :: "json \<Rightarrow> string" where
  "recall_query body =
     (case get_array body ''messages'' of
        Some ms \<Rightarrow> take_chars MAX_QUERY_CHARS (or_blank (last_content ''user'' ms))
      | None \<Rightarrow> [])"

definition prepend_system_message :: "json \<Rightarrow> string \<Rightarrow> json option" where
  "prepend_system_message body block =
     (case get_array body ''messages'' of
        Some ms \<Rightarrow> Some (on_key ''messages''
          (on_array (Cons (jobj [(''role'', JString ''system''), (''content'', JString block)]))) body)
      | None \<Rightarrow> None)"

subsection \<open>What fits\<close>

text \<open>The order is kept, pinned items are all taken, and the others fit the budget together with what
  was taken before them.\<close>

lemma trim_from_subset: "set (trim_from budget used cs) \<subseteq> set cs"
  by (induction budget used cs rule: trim_from.induct) auto

lemma trim_from_pinned: "filter mi_pinned (trim_from budget used cs) = filter mi_pinned cs"
  by (induction budget used cs rule: trim_from.induct) auto

lemma trim_from_cost:
  "used \<le> budget \<Longrightarrow> \<forall>c \<in> set cs. \<not> mi_pinned c \<Longrightarrow>
     used + sum_list (map item_cost (trim_from budget used cs)) \<le> budget"
  by (induction budget used cs rule: trim_from.induct) (auto simp: add.assoc)

lemma trim_from_full: "\<forall>c \<in> set cs. \<not> mi_pinned c \<Longrightarrow> budget < used \<Longrightarrow> trim_from budget used cs = []"
  by (induction budget used cs rule: trim_from.induct) auto

lemma trim_from_append:
  "\<forall>c \<in> set ps. mi_pinned c \<Longrightarrow>
     trim_from budget used (ps @ cs) = ps @ trim_from budget (used + sum_list (map item_cost ps)) cs"
  by (induction ps arbitrary: used) (auto simp: add.assoc)

lemma trim_ranked:
  "trim_items (rank_items cs) budget
     = filter mi_pinned cs
       @ trim_from budget (sum_list (map item_cost (filter mi_pinned cs))) (filter (\<lambda>c. \<not> mi_pinned c) cs)"
  by (simp add: trim_items_def rank_items_def stable_partition_def trim_from_append)

end
