(* ===== verification/Capture.thy ===== *)
theory Capture
  imports Context_Scope
begin

text \<open>
  The capture of finished exchanges (\<open>capture.rs\<close>): which are taken, what is struck from their text
  before it is stored, and the queue they wait in until they are distilled. The queue is the table
  \<open>memory_pending\<close>, its rows in the order of their ids; a database error is not modelled.
\<close>

subsection \<open>Striking secrets\<close>

definition REDACTED :: string where
  "REDACTED = ''[REDACTED]''"

definition KNOWN_PREFIXES :: "string list" where
  "KNOWN_PREFIXES =
     [''sk-ant-'', ''sk-proj-'', ''sk-'', ''ghp_'', ''gho_'', ''ghu_'', ''ghs_'', ''ghr_'', ''github_pat_'',
      ''glpat-'', ''xoxb-'', ''xoxp-'', ''xoxa-'', ''xapp-'', ''AKIA'', ''AIza'', ''dop_v1_'', ''shpat_'',
      ''shpss_'', ''rpa_'']"

definition SECRET_KEYS :: "string list" where
  "SECRET_KEYS =
     [''api_key'', ''apikey'', ''api-key'', ''access_key'', ''secret'', ''client_secret'', ''password'',
      ''passwd'', ''pwd'', ''token'', ''authtoken'', ''access_token'', ''refresh_token'', ''authorization'',
      ''auth'', ''bearer'', ''private_key'', ''credential'']"

definition is_upper :: "char \<Rightarrow> bool" where
  "is_upper c \<longleftrightarrow> 65 \<le> (of_char c :: nat) \<and> (of_char c :: nat) \<le> 90"

definition is_lower :: "char \<Rightarrow> bool" where
  "is_lower c \<longleftrightarrow> 97 \<le> (of_char c :: nat) \<and> (of_char c :: nat) \<le> 122"

definition is_alphanumeric :: "char \<Rightarrow> bool" where
  "is_alphanumeric c \<longleftrightarrow> is_upper c \<or> is_lower c \<or> is_digit c"

definition is_high_entropy :: "string \<Rightarrow> bool" where
  "is_high_entropy w \<longleftrightarrow>
     32 \<le> length w
     \<and> list_all (\<lambda>c. is_alphanumeric c \<or> c \<in> set ''+/=_-'') w
     \<and> 3 \<le> length (filter (\<lambda>P. list_ex P w) [is_lower, is_upper, is_digit, \<lambda>c. \<not> is_alphanumeric c])"

definition is_secret_key :: "string \<Rightarrow> bool" where
  "is_secret_key raw \<longleftrightarrow>
     (let key = ascii_lowercase (filter (\<lambda>c. is_alphanumeric c \<or> c = CHR ''_'' \<or> c = CHR ''-'') raw)
      in key \<noteq> [] \<and> list_ex (contains key) SECRET_KEYS)"

definition closers :: "string list" where
  "closers = map (\<lambda>c. [c]) [CHR '','', CHR '';'', CHR 0x22, CHR 0x27, CHR '')'', CHR '']'', CHR ''}'', CHR ''>'']"

definition assigns_secret :: "char \<Rightarrow> string \<Rightarrow> bool" where
  "assigns_secret sep core \<longleftrightarrow>
     (case str_find sep core of
        Some i \<Rightarrow> str_trim (drop (Suc i) core) \<noteq> [] \<and> is_secret_key (take i core)
      | None \<Rightarrow> False)"

definition is_marked :: "string \<Rightarrow> bool" where
  "is_marked w \<longleftrightarrow>
     (contains w ''BEGIN'' \<and> contains w ''PRIVATE KEY'')
     \<or> (let core = trim_matches (\<lambda>u. u \<in> set closers) w in
         list_ex (starts_with core) KNOWN_PREFIXES
         \<or> assigns_secret (CHR '':'') core \<or> assigns_secret (CHR ''='') core
         \<or> is_high_entropy core)"

definition scrub_token :: "string \<Rightarrow> string" where
  "scrub_token w = (if is_marked w then REDACTED else w)"

definition VALUE_TOKENS :: nat where
  "VALUE_TOKENS = 2"

text \<open>A word that ends in a colon or an equals sign and names a secret.\<close>

definition names_secret :: "string \<Rightarrow> bool" where
  "names_secret w \<longleftrightarrow>
     (let trimmed = trim_end_matches (\<lambda>u. u = '','' \<or> u = '';'') w in
      case or_else (strip_suffix '':'' trimmed) (strip_suffix ''='' trimmed) of
        Some key \<Rightarrow> is_secret_key key
      | None \<Rightarrow> False)"

fun scrub_words :: "nat \<Rightarrow> string list \<Rightarrow> string list" where
  "scrub_words budget [] = []"
| "scrub_words budget (w # ws) =
     (if names_secret w then REDACTED # scrub_words VALUE_TOKENS ws
      else if budget > 0 then REDACTED # scrub_words (budget - 1) ws
      else scrub_token w # scrub_words 0 ws)"

text \<open>\<open>split_whitespace\<close>, on the scalar values.\<close>

fun collect_words :: "string \<Rightarrow> string list \<Rightarrow> string list" where
  "collect_words word [] = (if word = [] then [] else [word])"
| "collect_words word (u # us) =
     (if is_rust_whitespace u then (if word = [] then collect_words [] us else word # collect_words [] us)
      else collect_words (word @ u) us)"

definition split_whitespace :: "string \<Rightarrow> string list" where
  "split_whitespace s = collect_words [] (chars s)"

definition scrub :: "string \<Rightarrow> string" where
  "scrub text = join '' '' (scrub_words 0 (split_whitespace text))"

subsection \<open>What is taken\<close>

datatype content_class = Fact | Preference | Decision | Instruction

definition mentions :: "string list \<Rightarrow> string \<Rightarrow> bool" where
  "mentions phrases lower \<longleftrightarrow> list_ex (contains lower) phrases"

definition classify_content :: "string \<Rightarrow> content_class" where
  "classify_content text =
     (let lower = ascii_lowercase text in
      if mentions [''always '', ''never '', ''make sure to'', ''you must'', ''be sure to'', ''don't forget to'',
           ''remember to'', ''run '', ''execute ''] lower then Instruction
      else if mentions [''we decided'', ''decided to'', ''we chose'', ''we will use'', ''let's use'', ''going with'']
           lower then Decision
      else if mentions [''i prefer'', ''i like'', ''prefer '', ''i'd rather'', ''my preference''] lower then Preference
      else Fact)"

definition INTERNAL_AGENT :: string where
  "INTERNAL_AGENT = ''aip-distiller''"

datatype caller = External | Internal

definition classify_principal :: "scope \<Rightarrow> bool \<Rightarrow> caller" where
  "classify_principal sc internal_flag =
     (if internal_flag \<or> sc_agent sc = Some INTERNAL_AGENT then Internal else External)"

definition present_field :: "json \<Rightarrow> string \<Rightarrow> bool" where
  "present_field j k \<longleftrightarrow> json_get j k \<noteq> None \<and> json_get j k \<noteq> Some JNull"

definition is_tool_message :: "json \<Rightarrow> bool" where
  "is_tool_message m \<longleftrightarrow>
     get_str m ''role'' = Some ''tool'' \<or> present_field m ''tool_calls'' \<or> json_get m ''tool_call_id'' \<noteq> None
     \<or> (get_str m ''name'' \<noteq> None \<and> get_str m ''content'' \<noteq> None \<and> get_str m ''role'' = Some ''function'')"

definition involves_tools :: "json \<Rightarrow> bool" where
  "involves_tools body \<longleftrightarrow>
     present_field body ''tools'' \<or> present_field body ''tool_choice'' \<or> present_field body ''functions''
     \<or> (case get_array body ''messages'' of Some ms \<Rightarrow> list_ex is_tool_message ms | None \<Rightarrow> False)"

subsection \<open>The queue\<close>

datatype row_status = Queued | Processing | Finished | Failed

record pending_row =
  pd_id :: nat
  pd_request_id :: string
  pd_session :: "string option"
  pd_scope :: scope
  pd_class :: content_class
  pd_user_text :: string
  pd_asst_text :: "string option"
  pd_model :: "string option"
  pd_status :: row_status
  pd_attempts :: nat
  pd_created_at :: int
  pd_claimed_at :: "int option"
  pd_error :: "string option"

record capture_queue =
  cq_rows :: "pending_row list"
  cq_next :: nat

datatype skip_capture = InternalPrincipal | ToolTurn | NoProse | WritesDisabled | AlreadyQueued | Unavailable

datatype enqueue_result = QueuedAs nat | Skipped skip_capture

record capture_request =
  cr_request_id :: string
  cr_session :: "string option"
  cr_scope :: scope
  cr_user_text :: string
  cr_asst_text :: "string option"
  cr_model :: "string option"
  cr_principal :: caller
  cr_writes_allowed :: bool
  cr_had_tools :: bool

definition MIN_PROSE_CHARS :: nat where
  "MIN_PROSE_CHARS = 40"

definition scrubbed_answer :: "string option \<Rightarrow> string option" where
  "scrubbed_answer text =
     (case map_option scrub text of
        Some s \<Rightarrow> if str_trim s = [] then None else Some s
      | None \<Rightarrow> None)"

definition pending_of :: "int \<Rightarrow> capture_request \<Rightarrow> nat \<Rightarrow> pending_row" where
  "pending_of now r n =
     (let user = scrub (cr_user_text r); asst = scrubbed_answer (cr_asst_text r) in
      \<lparr>pd_id = n, pd_request_id = cr_request_id r, pd_session = cr_session r, pd_scope = cr_scope r,
       pd_class = classify_content (user @ '' '' @ or_blank asst), pd_user_text = user, pd_asst_text = asst,
       pd_model = cr_model r, pd_status = Queued, pd_attempts = 0, pd_created_at = now,
       pd_claimed_at = None, pd_error = None\<rparr>)"

definition has_prose :: "capture_request \<Rightarrow> bool" where
  "has_prose r \<longleftrightarrow>
     MIN_PROSE_CHARS \<le> char_count (scrub (cr_user_text r))
       + (case scrubbed_answer (cr_asst_text r) of Some s \<Rightarrow> char_count s | None \<Rightarrow> 0)"

definition enqueue :: "int \<Rightarrow> capture_request \<Rightarrow> capture_queue \<Rightarrow> enqueue_result \<times> capture_queue" where
  "enqueue now r q =
     (if cr_principal r = Internal then (Skipped InternalPrincipal, q)
      else if \<not> cr_writes_allowed r then (Skipped WritesDisabled, q)
      else if cr_had_tools r then (Skipped ToolTurn, q)
      else if \<not> has_prose r then (Skipped NoProse, q)
      else if list_ex (\<lambda>p. pd_request_id p = cr_request_id r) (cq_rows q) then (Skipped AlreadyQueued, q)
      else (QueuedAs (cq_next q),
            q\<lparr>cq_rows := cq_rows q @ [pending_of now r (cq_next q)], cq_next := Suc (cq_next q)\<rparr>))"

definition DISTILL_BUDGET_PER_HOUR :: nat where
  "DISTILL_BUDGET_PER_HOUR = 60"

definition DISTILL_WINDOW_MS :: int where
  "DISTILL_WINDOW_MS = 60 * 60 * 1000"

definition CLAIM_LIMIT :: nat where
  "CLAIM_LIMIT = 8"

definition claimed_since :: "int \<Rightarrow> pending_row \<Rightarrow> bool" where
  "claimed_since t p \<longleftrightarrow> (case pd_claimed_at p of Some c \<Rightarrow> t < c | None \<Rightarrow> False)"

definition budget_left :: "int \<Rightarrow> capture_queue \<Rightarrow> nat" where
  "budget_left now q =
     DISTILL_BUDGET_PER_HOUR - length (filter (claimed_since (now - DISTILL_WINDOW_MS)) (cq_rows q))"

definition claimed_row :: "int \<Rightarrow> pending_row \<Rightarrow> pending_row" where
  "claimed_row now p =
     p\<lparr>pd_status := Processing, pd_attempts := Suc (pd_attempts p), pd_claimed_at := Some now\<rparr>"

definition update_ids :: "nat list \<Rightarrow> (pending_row \<Rightarrow> pending_row) \<Rightarrow> capture_queue \<Rightarrow> capture_queue" where
  "update_ids ids f q =
     q\<lparr>cq_rows := map (\<lambda>p. if pd_id p \<in> set ids then f p else p) (cq_rows q)\<rparr>"

definition claim_ids :: "int \<Rightarrow> capture_queue \<Rightarrow> nat list" where
  "claim_ids now q =
     take (min CLAIM_LIMIT (budget_left now q))
       (map pd_id (filter (\<lambda>p. pd_status p = Queued) (cq_rows q)))"

definition claim :: "int \<Rightarrow> capture_queue \<Rightarrow> pending_row list \<times> capture_queue" where
  "claim now q =
     (let ids = claim_ids now q; q' = update_ids ids (claimed_row now) q
      in (filter (\<lambda>p. pd_id p \<in> set ids) (cq_rows q'), q'))"

definition update_processing ::
  "nat \<Rightarrow> (pending_row \<Rightarrow> pending_row) \<Rightarrow> capture_queue \<Rightarrow> bool \<times> capture_queue" where
  "update_processing n f q =
     (let hit = (\<lambda>p. pd_id p = n \<and> pd_status p = Processing) in
      (list_ex hit (cq_rows q),
       q\<lparr>cq_rows := map (\<lambda>p. if hit p then f p else p) (cq_rows q)\<rparr>))"

definition finish_row :: "nat \<Rightarrow> capture_queue \<Rightarrow> bool \<times> capture_queue" where
  "finish_row n q = update_processing n (\<lambda>p. p\<lparr>pd_status := Finished\<rparr>) q"

definition release_row :: "nat \<Rightarrow> string option \<Rightarrow> capture_queue \<Rightarrow> bool \<times> capture_queue" where
  "release_row n error q =
     update_processing n
       (\<lambda>p. p\<lparr>pd_status := if 3 \<le> pd_attempts p then Failed else Queued,
              pd_error := or_else error (pd_error p)\<rparr>) q"

definition STALE_CLAIM_MS :: int where
  "STALE_CLAIM_MS = 10 * 60 * 1000"

definition is_stale_claim :: "int \<Rightarrow> pending_row \<Rightarrow> bool" where
  "is_stale_claim now p \<longleftrightarrow>
     pd_status p = Processing
     \<and> (case pd_claimed_at p of Some c \<Rightarrow> c | None \<Rightarrow> 0) < now - STALE_CLAIM_MS"

definition requeue_stale :: "int \<Rightarrow> capture_queue \<Rightarrow> nat \<times> capture_queue" where
  "requeue_stale now q =
     (length (filter (is_stale_claim now) (cq_rows q)),
      q\<lparr>cq_rows := map (\<lambda>p. if is_stale_claim now p then p\<lparr>pd_status := Queued, pd_claimed_at := None\<rparr> else p)
          (cq_rows q)\<rparr>)"

definition RETENTION_DAYS :: int where
  "RETENTION_DAYS = 7"

definition is_old :: "int \<Rightarrow> pending_row \<Rightarrow> bool" where
  "is_old now p \<longleftrightarrow>
     (pd_status p = Finished \<or> pd_status p = Failed)
     \<and> pd_created_at p < now - RETENTION_DAYS * 24 * 60 * 60 * 1000"

definition purge_finished :: "int \<Rightarrow> capture_queue \<Rightarrow> nat \<times> capture_queue" where
  "purge_finished now q =
     (length (filter (is_old now) (cq_rows q)),
      q\<lparr>cq_rows := filter (\<lambda>p. \<not> is_old now p) (cq_rows q)\<rparr>)"

end
