(* ===== verification/Memory.thy ===== *)
theory Memory
  imports Context_Scope "HOL-Library.Product_Lexorder"
begin

text \<open>
  The memories of the user (\<open>memory.rs\<close>): a table of rows in four layers, what each operation does to
  it, and which rows a request may recall. A row is in the table in the order of insertion. The
  full-text engine (which text matches an expression, and how well) and the two floating-point keys of
  the ranking (the band of a match, the decay of an age) are arguments.
\<close>

subsection \<open>Rows\<close>

record memory_scope =
  ms_user :: string
  ms_project :: "string option"
  ms_agent :: "string option"
  ms_global :: bool

record memory =
  me_id :: string
  me_layer :: string
  me_text :: string
  me_session :: "string option"
  me_subject :: "string option"
  me_created_at :: int
  me_updated_at :: int
  me_pinned :: bool
  me_scope :: memory_scope
  me_superseded_at :: "int option"
  me_kind :: "string option"
  me_source :: string
  me_verified :: "string option"
  me_expires_at :: "int option"
  me_retrieval_count :: int
  me_last_retrieved_at :: "int option"

text \<open>The table, and the counter behind the ids.\<close>

record mem_store =
  mm_rows :: "memory list"
  mm_counter :: nat

record memory_input =
  in_layer :: string
  in_text :: string
  in_session :: "string option"
  in_subject :: "string option"
  in_pinned :: bool
  in_kind :: "string option"
  in_source :: "string option"

datatype scope_assignment = Project string "string option" | Global | Unscoped

definition LAYERS :: "string list" where
  "LAYERS = [''L0'', ''L1'', ''L2'', ''L3'']"

definition valid_layer :: "string \<Rightarrow> bool" where
  "valid_layer l \<longleftrightarrow> l \<in> set LAYERS"

definition unknown_layer :: "string \<Rightarrow> string" where
  "unknown_layer l = ''unknown memory layer '' @ [CHR 0x27] @ l @ [CHR 0x27]"

definition MAX_TEXT :: nat where
  "MAX_TEXT = 8000"

definition MAX_QUERY_TOKENS :: nat where
  "MAX_QUERY_TOKENS = 32"

definition CANDIDATE_FACTOR :: nat where
  "CANDIDATE_FACTOR = 4"

definition text_ellipsis :: string where
  "text_ellipsis = [CHR 0xE2, CHR 0x80, CHR 0xA6]"

definition clamp_text :: "string \<Rightarrow> string" where
  "clamp_text s = (if char_count s \<le> MAX_TEXT then s else take_chars (MAX_TEXT - 1) s @ text_ellipsis)"

definition classify_kind :: "string \<Rightarrow> string \<Rightarrow> string" where
  "classify_kind layer text =
     (let t = ascii_lowercase text; says = list_ex (contains t) in
      if layer = ''L0'' then ''conversation''
      else if layer = ''L3'' then ''identity''
      else if says [''git clone'', ''git fetch'', ''cannot run'', ''can't run'', ''not available'', ''no access'',
          ''unable to'', ''no real shell'', ''shell is available''] then ''capability''
      else if says [''prefers'', ''prefer '', ''likes '', ''wants '', ''always use'', ''never use'', ''concise'']
      then ''preference''
      else if says [''decided'', ''we will'', ''we'll'', ''chosen'', ''approved'', ''agreed''] then ''decision''
      else ''project_fact'')"

text \<open>\<open>query.split(|c| !c.is_alphanumeric())\<close> without its empty parts; the table of alphanumeric scalar
  values is an argument. A token holds no quotation mark, so doubling them changes nothing.\<close>

fun collect_tokens :: "(string \<Rightarrow> bool) \<Rightarrow> string \<Rightarrow> string list \<Rightarrow> string list" where
  "collect_tokens alnum word [] = (if word = [] then [] else [word])"
| "collect_tokens alnum word (u # us) =
     (if alnum u then collect_tokens alnum (word @ u) us
      else (if word = [] then [] else [word]) @ collect_tokens alnum [] us)"

definition match_expr :: "(string \<Rightarrow> bool) \<Rightarrow> string \<Rightarrow> string option" where
  "match_expr alnum query =
     (let tokens = map (\<lambda>t. [CHR 0x22] @ t @ [CHR 0x22])
            (take MAX_QUERY_TOKENS (collect_tokens alnum [] (chars query)))
      in if tokens = [] then None else Some (join '' OR '' tokens))"

subsection \<open>Recording\<close>

fun show_hex :: "nat \<Rightarrow> string" where
  "show_hex n =
     (if n < 16 then [lower_hex_digit n] else show_hex (n div 16) @ [lower_hex_digit (n mod 16)])"

declare show_hex.simps [simp del]

definition uuid_like :: "int \<Rightarrow> nat \<Rightarrow> string" where
  "uuid_like now n = show_hex (nat now) @ show_hex n"

definition unscoped :: memory_scope where
  "unscoped = \<lparr>ms_user = ''local'', ms_project = None, ms_agent = None, ms_global = False\<rparr>"

definition new_memory :: "int \<Rightarrow> nat \<Rightarrow> memory_input \<Rightarrow> string \<Rightarrow> memory" where
  "new_memory now n inp text =
     \<lparr>me_id = ''m-'' @ in_layer inp @ ''-'' @ uuid_like now n, me_layer = in_layer inp, me_text = text,
      me_session = in_session inp, me_subject = in_subject inp, me_created_at = now, me_updated_at = now,
      me_pinned = in_pinned inp, me_scope = unscoped, me_superseded_at = None,
      me_kind = Some (case in_kind inp of Some k \<Rightarrow> k | None \<Rightarrow> classify_kind (in_layer inp) text),
      me_source = (case in_source inp of Some s \<Rightarrow> s | None \<Rightarrow> ''inferred''), me_verified = None,
      me_expires_at = None, me_retrieval_count = 0, me_last_retrieved_at = None\<rparr>"

text \<open>What recording a text again does to its row, and the row it reports.\<close>

definition refreshed :: "int \<Rightarrow> memory_input \<Rightarrow> memory \<Rightarrow> memory" where
  "refreshed now inp m =
     m\<lparr>me_updated_at := now, me_pinned := me_pinned m \<or> in_pinned inp,
       me_session := or_else (in_session inp) (me_session m),
       me_subject := or_else (in_subject inp) (me_subject m),
       me_kind := or_else (in_kind inp) (me_kind m),
       me_source := (case in_source inp of Some s \<Rightarrow> s | None \<Rightarrow> me_source m)\<rparr>"

definition reported :: "int \<Rightarrow> memory_input \<Rightarrow> memory \<Rightarrow> memory" where
  "reported now inp m =
     (refreshed now inp m)\<lparr>me_session := in_session inp, me_subject := in_subject inp, me_superseded_at := None\<rparr>"

definition update_where :: "(memory \<Rightarrow> bool) \<Rightarrow> (memory \<Rightarrow> memory) \<Rightarrow> mem_store \<Rightarrow> mem_store" where
  "update_where P f st = st\<lparr>mm_rows := map (\<lambda>m. if P m then f m else m) (mm_rows st)\<rparr>"

definition capture_memory :: "int \<Rightarrow> memory_input \<Rightarrow> mem_store \<Rightarrow> (string + memory) \<times> mem_store" where
  "capture_memory now inp st =
     (let text = clamp_text (str_trim (in_text inp)) in
      if \<not> valid_layer (in_layer inp)
      then (Inl (unknown_layer (in_layer inp) @ '' (expected one of '' @ join '', '' LAYERS @ '')''), st)
      else if text = [] then (Inl ''memory text is empty'', st)
      else case List.find (\<lambda>m. me_layer m = in_layer inp \<and> me_text m = text) (mm_rows st) of
        Some m \<Rightarrow>
          (Inr (reported now inp m), update_where (\<lambda>x. me_id x = me_id m) (refreshed now inp) st)
      | None \<Rightarrow>
          (let new = new_memory now (mm_counter st) inp text;
               st' = st\<lparr>mm_counter := Suc (mm_counter st)\<rparr>
           in if list_ex (\<lambda>m. me_id m = me_id new) (mm_rows st)
              then (Inl ''UNIQUE constraint failed: memories.id'', st')
              else (Inr new, st'\<lparr>mm_rows := mm_rows st @ [new]\<rparr>)))"

fun capture_all :: "int \<Rightarrow> memory_input list \<Rightarrow> mem_store \<Rightarrow> (string + nat) \<times> mem_store" where
  "capture_all now [] st = (Inr 0, st)"
| "capture_all now (i # is) st =
     (case capture_memory now i st of
        (Inl e, st') \<Rightarrow> (Inl e, st')
      | (Inr _, st') \<Rightarrow>
          (case capture_all now is st' of
             (Inl e, st'') \<Rightarrow> (Inl e, st'')
           | (Inr n, st'') \<Rightarrow> (Inr (Suc n), st'')))"

definition capture_batch :: "int \<Rightarrow> memory_input list \<Rightarrow> mem_store \<Rightarrow> (string + nat) \<times> mem_store" where
  "capture_batch now items st =
     (case List.find (\<lambda>i. \<not> valid_layer (in_layer i)) items of
        Some i \<Rightarrow> (Inl (unknown_layer (in_layer i)), st)
      | None \<Rightarrow> capture_all now items st)"

subsection \<open>Recall\<close>

record recall_scope =
  rs_user :: "string option"
  rs_project :: "string option"
  rs_agent :: "string option"

definition in_scope :: "recall_scope \<Rightarrow> memory \<Rightarrow> bool" where
  "in_scope sc m \<longleftrightarrow>
     (case rs_user sc of Some u \<Rightarrow> ms_user (me_scope m) = u | None \<Rightarrow> True)
     \<and> (case rs_project sc of
          Some p \<Rightarrow> ms_global (me_scope m)
            \<or> ms_project (me_scope m) = Some p
              \<and> (case rs_agent sc of
                   Some a \<Rightarrow> ms_agent (me_scope m) = None \<or> ms_agent (me_scope m) = Some a
                 | None \<Rightarrow> True)
        | None \<Rightarrow> ms_global (me_scope m) \<and> me_pinned m)"

text \<open>The engine: does a text match, and the score of a match (smaller is better).\<close>

record 's fts =
  ft_alnum :: "string \<Rightarrow> bool"
  ft_match :: "string \<Rightarrow> string \<Rightarrow> bool"
  ft_score :: "string \<Rightarrow> memory \<Rightarrow> 's"
  ft_band :: "memory list \<Rightarrow> memory \<Rightarrow> int"
  ft_decay :: "int \<Rightarrow> int"

definition layer_rank :: "string \<Rightarrow> nat" where
  "layer_rank layer =
     (if layer = ''L3'' then 0 else if layer = ''L2'' then 1 else if layer = ''L1'' then 2 else 3)"

text \<open>\<open>ft_decay\<close> is \<open>(recency * 1000).round()\<close> of an age that is not negative.\<close>

definition recency_key :: "'s fts \<Rightarrow> int \<Rightarrow> memory \<Rightarrow> int" where
  "recency_key fts now m =
     (if me_layer m = ''L3'' then 1000 else ft_decay fts (max 0 (now - me_updated_at m)))"

definition recall_key :: "'s fts \<Rightarrow> int \<Rightarrow> memory list \<Rightarrow> memory \<Rightarrow> int \<times> int \<times> nat \<times> string" where
  "recall_key fts now rows m =
     (ft_band fts rows m, - recency_key fts now m, layer_rank (me_layer m), me_id m)"

definition rerank :: "'s fts \<Rightarrow> int \<Rightarrow> memory list \<Rightarrow> memory list" where
  "rerank fts now rows = sort_key (recall_key fts now rows) rows"

definition unexpired :: "int \<Rightarrow> memory \<Rightarrow> bool" where
  "unexpired now m \<longleftrightarrow> (case me_expires_at m of Some e \<Rightarrow> now < e | None \<Rightarrow> True)"

definition recall_sql ::
  "('s::linorder) fts \<Rightarrow> string \<Rightarrow> nat \<Rightarrow> string list \<Rightarrow> recall_scope option \<Rightarrow> memory list \<Rightarrow> memory list" where
  "recall_sql fts expr n wanted scope rows =
     take n (sort_key (\<lambda>m. (ft_score fts expr m, layer_rank (me_layer m), me_id m))
       (filter (\<lambda>m. ft_match fts expr (me_text m) \<and> me_layer m \<in> set wanted
          \<and> (case scope of Some sc \<Rightarrow> in_scope sc m | None \<Rightarrow> True) \<and> me_superseded_at m = None) rows))"

definition recall_inner ::
  "('s::linorder) fts \<Rightarrow> int \<Rightarrow> string \<Rightarrow> nat \<Rightarrow> string list option \<Rightarrow> recall_scope option \<Rightarrow> memory list
     \<Rightarrow> string + memory list" where
  "recall_inner fts now query limit layers scope rows =
     (case match_expr (ft_alnum fts) query of
        None \<Rightarrow> Inr []
      | Some expr \<Rightarrow>
          (case Option.bind layers (List.find (\<lambda>l. \<not> valid_layer l)) of
             Some l \<Rightarrow> Inl (unknown_layer l)
           | None \<Rightarrow>
               (let wanted = (case layers of Some ls \<Rightarrow> ls | None \<Rightarrow> LAYERS);
                    found = recall_sql fts expr (max (limit * CANDIDATE_FACTOR) limit) wanted scope rows
                in Inr (take limit (rerank fts now (filter (unexpired now) found))))))"

definition recall_scoped ::
  "('s::linorder) fts \<Rightarrow> int \<Rightarrow> string \<Rightarrow> nat \<Rightarrow> string list option \<Rightarrow> recall_scope \<Rightarrow> mem_store
     \<Rightarrow> string + memory list" where
  "recall_scoped fts now query limit layers scope st =
     recall_inner fts now query limit layers (Some scope) (mm_rows st)"

definition recall_all ::
  "('s::linorder) fts \<Rightarrow> int \<Rightarrow> string \<Rightarrow> nat \<Rightarrow> string list option \<Rightarrow> mem_store \<Rightarrow> string + memory list" where
  "recall_all fts now query limit layers st =
     recall_inner fts now query limit layers None (mm_rows st)"

definition newest_first :: "nat \<Rightarrow> memory list \<Rightarrow> memory list" where
  "newest_first limit rows = take limit (sort_key (\<lambda>m. (\<not> me_pinned m, - me_updated_at m)) rows)"

definition list_memories :: "string option \<Rightarrow> nat \<Rightarrow> mem_store \<Rightarrow> string + memory list" where
  "list_memories layer limit st =
     (case layer of
        Some l \<Rightarrow>
          (if valid_layer l then Inr (newest_first limit (filter (\<lambda>m. me_layer m = l) (mm_rows st)))
           else Inl (unknown_layer l))
      | None \<Rightarrow> Inr (newest_first limit (mm_rows st)))"

definition list_scoped :: "int \<Rightarrow> recall_scope option \<Rightarrow> nat \<Rightarrow> bool \<Rightarrow> mem_store \<Rightarrow> memory list" where
  "list_scoped now scope limit pinned_only st =
     newest_first limit
       (filter (\<lambda>m. me_layer m \<noteq> ''L0'' \<and> me_superseded_at m = None
          \<and> (case scope of Some sc \<Rightarrow> in_scope sc m | None \<Rightarrow> True)
          \<and> (pinned_only \<longrightarrow> me_pinned m) \<and> unexpired now m) (mm_rows st))"

definition session_atoms :: "string \<Rightarrow> string \<Rightarrow> nat \<Rightarrow> mem_store \<Rightarrow> string + memory list" where
  "session_atoms session layer limit st =
     (if \<not> valid_layer layer then Inl (unknown_layer layer)
      else Inr (take limit (sort_key me_created_at
        (filter (\<lambda>m. me_session m = Some session \<and> me_layer m = layer \<and> me_superseded_at m = None)
          (mm_rows st)))))"

subsection \<open>Changing rows\<close>

definition delete_where :: "(memory \<Rightarrow> bool) \<Rightarrow> mem_store \<Rightarrow> nat \<times> mem_store" where
  "delete_where P st =
     (length (filter P (mm_rows st)), st\<lparr>mm_rows := filter (\<lambda>m. \<not> P m) (mm_rows st)\<rparr>)"

definition hits :: "(memory \<Rightarrow> bool) \<Rightarrow> mem_store \<Rightarrow> bool" where
  "hits P st = list_ex P (mm_rows st)"

definition forget :: "string \<Rightarrow> mem_store \<Rightarrow> bool \<times> mem_store" where
  "forget i st = (let (n, st') = delete_where (\<lambda>m. me_id m = i) st in (0 < n, st'))"

definition clear_memories :: "mem_store \<Rightarrow> mem_store" where
  "clear_memories st = st\<lparr>mm_rows := []\<rparr>"

text \<open>What \<open>delete_session\<close> (\<open>context.rs\<close>) does to this table.\<close>

definition delete_session_memories :: "string \<Rightarrow> mem_store \<Rightarrow> mem_store" where
  "delete_session_memories session st = snd (delete_where (\<lambda>m. me_session m = Some session) st)"

definition set_pinned :: "int \<Rightarrow> string \<Rightarrow> bool \<Rightarrow> mem_store \<Rightarrow> bool \<times> mem_store" where
  "set_pinned now i pinned st =
     (hits (\<lambda>m. me_id m = i) st,
      update_where (\<lambda>m. me_id m = i) (\<lambda>m. m\<lparr>me_pinned := pinned, me_updated_at := now\<rparr>) st)"

definition binding_of :: "scope_assignment \<Rightarrow> (string option \<times> string option \<times> bool) option" where
  "binding_of a =
     (case a of
        Project p agent \<Rightarrow>
          (if str_trim p = [] then None else Some (Some (str_trim p), Option.bind agent filled, False))
      | Global \<Rightarrow> Some (None, None, True)
      | Unscoped \<Rightarrow> Some (None, None, False))"

definition bound :: "int \<Rightarrow> string option \<times> string option \<times> bool \<Rightarrow> memory \<Rightarrow> memory" where
  "bound now b m =
     (let (project, agent, global) = b
      in m\<lparr>me_scope := (me_scope m)\<lparr>ms_project := project, ms_agent := agent, ms_global := global\<rparr>,
           me_updated_at := now\<rparr>)"

definition assign_scope :: "int \<Rightarrow> string \<Rightarrow> scope_assignment \<Rightarrow> mem_store \<Rightarrow> (string + bool) \<times> mem_store" where
  "assign_scope now i a st =
     (case binding_of a of
        None \<Rightarrow> (Inl ''project scope is empty'', st)
      | Some b \<Rightarrow> (Inr (hits (\<lambda>m. me_id m = i) st), update_where (\<lambda>m. me_id m = i) (bound now b) st))"

definition update_text :: "int \<Rightarrow> string \<Rightarrow> string \<Rightarrow> mem_store \<Rightarrow> (string + bool) \<times> mem_store" where
  "update_text now i text st =
     (let t = clamp_text (str_trim text) in
      if t = [] then (Inl ''memory text is empty'', st)
      else (Inr (hits (\<lambda>m. me_id m = i) st),
            update_where (\<lambda>m. me_id m = i) (\<lambda>m. m\<lparr>me_text := t, me_updated_at := now\<rparr>) st))"

definition retrieved :: "int \<Rightarrow> memory \<Rightarrow> memory" where
  "retrieved now m =
     m\<lparr>me_retrieval_count := me_retrieval_count m + 1, me_last_retrieved_at := Some now\<rparr>"

definition mark_retrieved :: "int \<Rightarrow> string list \<Rightarrow> mem_store \<Rightarrow> nat \<times> mem_store" where
  "mark_retrieved now ids st =
     fold (\<lambda>i (n, st). (n + length (filter (\<lambda>m. me_id m = i) (mm_rows st)),
        update_where (\<lambda>m. me_id m = i) (retrieved now) st)) ids (0, st)"

definition supersede :: "int \<Rightarrow> string \<Rightarrow> string \<Rightarrow> mem_store \<Rightarrow> (string + bool) \<times> mem_store" where
  "supersede now old new st =
     (if old = new then (Inr False, st)
      else case List.find (\<lambda>m. me_id m = old \<and> me_superseded_at m = None) (mm_rows st) of
        None \<Rightarrow> (Inr False, st)
      | Some m \<Rightarrow>
          (if me_pinned m
           then (Inl (''this memory is pinned '' @ em_dash
                  @ '' unpin it first if the newer one should replace it''), st)
           else if me_layer m = ''L3''
           then (Inl (''this is a core fact (L3) '' @ em_dash
                  @ '' it is replaced deliberately, never by a newer atom''), st)
           else (Inr True, update_where (\<lambda>m. me_id m = old \<and> me_superseded_at m = None)
                   (\<lambda>m. m\<lparr>me_superseded_at := Some now\<rparr>) st)))"

definition unsupersede :: "string \<Rightarrow> mem_store \<Rightarrow> bool \<times> mem_store" where
  "unsupersede i st =
     (let P = (\<lambda>m. me_id m = i \<and> me_superseded_at m \<noteq> None)
      in (hits P st, update_where P (\<lambda>m. m\<lparr>me_superseded_at := None\<rparr>) st))"

definition is_conflict :: "memory \<Rightarrow> memory \<Rightarrow> bool" where
  "is_conflict h n \<longleftrightarrow>
     me_subject n \<noteq> None \<and> me_subject n = me_subject h
     \<and> ms_project (me_scope n) = ms_project (me_scope h)
     \<and> me_superseded_at h = None \<and> me_superseded_at n = None
     \<and> (me_pinned h \<or> me_layer h = ''L3'') \<and> me_id n \<noteq> me_id h \<and> me_text n \<noteq> me_text h
     \<and> me_updated_at h < me_updated_at n"

definition conflicts :: "mem_store \<Rightarrow> (memory \<times> memory) list" where
  "conflicts st =
     sort_key (\<lambda>(h, n). (- me_updated_at h, - me_updated_at n))
       (filter (\<lambda>(h, n). is_conflict h n) (List.product (mm_rows st) (mm_rows st)))"

subsection \<open>Retention\<close>

definition DAY_MS :: int where
  "DAY_MS = 86400000"

definition L0_TTL_DAYS :: int where
  "L0_TTL_DAYS = 30"

definition L0_RING_PER_SESSION :: nat where
  "L0_RING_PER_SESSION = 200"

text \<open>\<open>(log2(1 / 0.05) * 30 * 86400000) as i64\<close>\<close>

definition prune_cutoff_ms :: int where
  "prune_cutoff_ms = 11202437621"

text \<open>The first \<open>chunk\<close> rows that satisfy a predicate are deleted.\<close>

fun drop_first :: "nat \<Rightarrow> ('a \<Rightarrow> bool) \<Rightarrow> 'a list \<Rightarrow> nat \<times> 'a list" where
  "drop_first n P [] = (0, [])"
| "drop_first n P (x # xs) =
     (if n > 0 \<and> P x then (let (k, ys) = drop_first (n - 1) P xs in (Suc k, ys))
      else (let (k, ys) = drop_first n P xs in (k, x # ys)))"

definition is_ring_row :: "memory \<Rightarrow> bool" where
  "is_ring_row m \<longleftrightarrow> me_layer m = ''L0'' \<and> \<not> me_pinned m \<and> me_session m \<noteq> None"

text \<open>\<open>ROW_NUMBER() OVER (PARTITION BY session_id ORDER BY updated_at DESC, id)\<close>\<close>

definition ring_number :: "memory list \<Rightarrow> memory \<Rightarrow> nat" where
  "ring_number rows m =
     Suc (length (filter (\<lambda>x. is_ring_row x \<and> me_session x = me_session m
        \<and> (- me_updated_at x, me_id x) < (- me_updated_at m, me_id m)) rows))"

definition prune_memories :: "int \<Rightarrow> nat \<Rightarrow> mem_store \<Rightarrow> (nat \<times> nat \<times> nat) \<times> mem_store" where
  "prune_memories now chunk st =
     (let (a, r1) = drop_first chunk (\<lambda>m. me_layer m = ''L0'' \<and> \<not> me_pinned m
            \<and> me_updated_at m < now - L0_TTL_DAYS * DAY_MS) (mm_rows st);
          (b, r2) = drop_first chunk (\<lambda>m. is_ring_row m \<and> L0_RING_PER_SESSION < ring_number r1 m) r1;
          (c, r3) = drop_first chunk (\<lambda>m. me_layer m \<in> {''L1'', ''L2''} \<and> \<not> me_pinned m
            \<and> me_updated_at m < now - prune_cutoff_ms) r2
      in ((a, b, c), st\<lparr>mm_rows := r3\<rparr>))"

record memory_stats =
  mt_l0 :: nat
  mt_l1 :: nat
  mt_l2 :: nat
  mt_l3 :: nat
  mt_total :: nat
  mt_bytes :: nat
  mt_injectable :: nat

definition injectable :: "memory \<Rightarrow> bool" where
  "injectable m \<longleftrightarrow> ms_global (me_scope m) \<or> ms_project (me_scope m) \<noteq> None"

definition memory_stats_of :: "int \<Rightarrow> mem_store \<Rightarrow> memory_stats" where
  "memory_stats_of now st =
     (let count = (\<lambda>P. length (filter P (mm_rows st)))
      in \<lparr>mt_l0 = count (\<lambda>m. me_layer m = ''L0''), mt_l1 = count (\<lambda>m. me_layer m = ''L1''),
          mt_l2 = count (\<lambda>m. me_layer m = ''L2''), mt_l3 = count (\<lambda>m. me_layer m = ''L3''),
          mt_total = length (mm_rows st), mt_bytes = sum_list (map (\<lambda>m. char_count (me_text m)) (mm_rows st)),
          mt_injectable = count (\<lambda>m. me_superseded_at m = None \<and> unexpired now m \<and> injectable m)\<rparr>)"

end
