(* ===== verification/Session_Context.thy ===== *)
theory Session_Context
  imports Memory Capture
begin

text \<open>
  What the router remembers of a session (\<open>session_context.rs\<close>): the sessions, the ring of their last
  turns, the live state an agent pushes, and their retention; the policy per principal (\<open>principal.rs\<close>),
  the windows of the models (\<open>model_context.rs\<close>) and the log of what was injected (\<open>injection_log.rs\<close>).
\<close>

subsection \<open>State\<close>

record session_row =
  sr_id :: string
  sr_user :: string
  sr_project :: "string option"
  sr_agent :: "string option"
  sr_turn_count :: int
  sr_created_at :: int
  sr_last_seen_at :: int

record session_state =
  ss_open_files :: "string list option"
  ss_extra :: "string option"
  ss_updated_at :: int

text \<open>Turns are in the order of insertion, each with its session.\<close>

record session_store =
  st_sessions :: "session_row list"
  st_turns :: "(string \<times> turn) list"
  st_states :: "string \<Rightarrow> session_state option"

definition MAX_TURNS_PER_SESSION :: nat where
  "MAX_TURNS_PER_SESSION = 200"

definition TURN_TTL_DAYS :: int where
  "TURN_TTL_DAYS = 14"

definition SESSION_TTL_DAYS :: int where
  "SESSION_TTL_DAYS = 30"

definition MAX_TURN_CHARS :: nat where
  "MAX_TURN_CHARS = 2000"

subsection \<open>Sessions\<close>

definition resolve_session :: "request_meta \<Rightarrow> scope \<Rightarrow> string option \<Rightarrow> string" where
  "resolve_session meta sc who =
     (case rm_session meta of
        Some s \<Rightarrow> s
      | None \<Rightarrow> ''s-'' @ hex16 (fnv1a (or_dash who @ ''|'' @ sc_user sc @ ''|'' @ or_dash (sc_project sc)
          @ ''|'' @ or_dash (sc_agent sc))))"

definition new_session :: "int \<Rightarrow> string \<Rightarrow> scope \<Rightarrow> session_row" where
  "new_session now i sc =
     \<lparr>sr_id = i, sr_user = sc_user sc, sr_project = sc_project sc, sr_agent = sc_agent sc,
      sr_turn_count = 0, sr_created_at = now, sr_last_seen_at = now\<rparr>"

definition seen :: "int \<Rightarrow> scope \<Rightarrow> session_row \<Rightarrow> session_row" where
  "seen now sc r =
     r\<lparr>sr_last_seen_at := now, sr_project := or_else (sr_project r) (sc_project sc),
       sr_agent := or_else (sr_agent r) (sc_agent sc)\<rparr>"

definition has_session :: "string \<Rightarrow> session_store \<Rightarrow> bool" where
  "has_session i st = list_ex (\<lambda>r. sr_id r = i) (st_sessions st)"

definition on_session :: "string \<Rightarrow> (session_row \<Rightarrow> session_row) \<Rightarrow> session_store \<Rightarrow> session_store" where
  "on_session i f st =
     st\<lparr>st_sessions := map (\<lambda>r. if sr_id r = i then f r else r) (st_sessions st)\<rparr>"

definition touch_session :: "int \<Rightarrow> string \<Rightarrow> scope \<Rightarrow> session_store \<Rightarrow> session_store" where
  "touch_session now i sc st =
     (if has_session i st then on_session i (seen now sc) st
      else st\<lparr>st_sessions := st_sessions st @ [new_session now i sc]\<rparr>)"

subsection \<open>Turns\<close>

definition tail_turn :: "json list \<Rightarrow> string \<Rightarrow> (string \<times> string) option" where
  "tail_turn ms role =
     map_option (\<lambda>text. (role, take_chars MAX_TURN_CHARS text)) (Option.bind (last_content role ms) filled)"

definition tail_of :: "json \<Rightarrow> (string \<times> string) list" where
  "tail_of body =
     (case get_array body ''messages'' of
        Some ms \<Rightarrow> List.map_filter (tail_turn ms) [''assistant'', ''user'']
      | None \<Rightarrow> [])"

definition turns_of :: "string \<Rightarrow> session_store \<Rightarrow> turn list" where
  "turns_of i st = map snd (filter (\<lambda>(s, _). s = i) (st_turns st))"

definition newest_turns :: "string \<Rightarrow> nat \<Rightarrow> session_store \<Rightarrow> turn list" where
  "newest_turns i n st = take n (sort_key (\<lambda>t. - tn_seq t) (turns_of i st))"

definition turn_count_of :: "string \<Rightarrow> session_store \<Rightarrow> int" where
  "turn_count_of i st =
     (case List.find (\<lambda>r. sr_id r = i) (st_sessions st) of Some r \<Rightarrow> sr_turn_count r | None \<Rightarrow> 0)"

text \<open>\<open>INSERT OR IGNORE\<close>: a taken \<open>(session, seq)\<close> is skipped, a session that is not there is an error of
  the foreign key.\<close>

definition insert_turn :: "string \<Rightarrow> turn \<Rightarrow> session_store \<Rightarrow> string + (nat \<times> session_store)" where
  "insert_turn i t st =
     (if \<not> has_session i st then Inl ''FOREIGN KEY constraint failed''
      else if list_ex (\<lambda>x. tn_seq x = tn_seq t) (turns_of i st) then Inr (0, st)
      else Inr (1, st\<lparr>st_turns := st_turns st @ [(i, t)]\<rparr>))"

fun write_turns ::
  "int \<Rightarrow> string \<Rightarrow> (string \<times> string) set \<Rightarrow> int \<Rightarrow> (string \<times> string) list \<Rightarrow> nat \<Rightarrow> session_store
     \<Rightarrow> (string + nat) \<times> session_store" where
  "write_turns now i recent next_seq [] written st = (Inr written, st)"
| "write_turns now i recent next_seq ((role, text) # ts) written st =
     (if (role, text) \<in> recent then write_turns now i recent next_seq ts written st
      else case insert_turn i \<lparr>tn_seq = next_seq + int written + 1, tn_role = role, tn_text = text, tn_ts = now\<rparr> st of
        Inl e \<Rightarrow> (Inl e, st)
      | Inr (n, st') \<Rightarrow> write_turns now i recent next_seq ts (written + n) st')"

definition record_turns :: "int \<Rightarrow> string \<Rightarrow> json \<Rightarrow> session_store \<Rightarrow> (string + nat) \<times> session_store" where
  "record_turns now i body st =
     (if tail_of body = [] then (Inr 0, st)
      else case write_turns now i (set (map (\<lambda>t. (tn_role t, tn_text t)) (newest_turns i 2 st)))
             (turn_count_of i st) (tail_of body) 0 st of
        (Inl e, st') \<Rightarrow> (Inl e, st')
      | (Inr n, st') \<Rightarrow>
          (Inr n, if n > 0
             then on_session i (\<lambda>r. r\<lparr>sr_turn_count := sr_turn_count r + int n, sr_last_seen_at := now\<rparr>) st'
             else st'))"

definition recent_turns :: "string \<Rightarrow> nat \<Rightarrow> session_store \<Rightarrow> turn list" where
  "recent_turns i limit st = rev (newest_turns i limit st)"

text \<open>The key under which a turn is recognised, before it is hashed into sixteen digits.\<close>

definition turn_key :: "string \<Rightarrow> string \<Rightarrow> string" where
  "turn_key role text = role @ [CHR 0x0A] @ join '' '' (split_whitespace text)"

definition turn_hash :: "string \<Rightarrow> string \<Rightarrow> string" where
  "turn_hash role text = hex16 (fnv1a (turn_key role text))"

definition incoming_hash :: "json \<Rightarrow> string option" where
  "incoming_hash m =
     (case (get_str m ''role'', get_str m ''content'') of
        (Some role, Some text) \<Rightarrow>
          (if role \<in> {''user'', ''assistant''} \<and> str_trim text \<noteq> [] then Some (turn_hash role text) else None)
      | _ \<Rightarrow> None)"

definition incoming_hashes :: "json \<Rightarrow> string set" where
  "incoming_hashes body =
     (case get_array body ''messages'' of
        Some ms \<Rightarrow> set (List.map_filter incoming_hash ms)
      | None \<Rightarrow> {})"

definition without_duplicates :: "turn list \<Rightarrow> string set \<Rightarrow> turn list" where
  "without_duplicates turns incoming =
     filter (\<lambda>t. turn_hash (tn_role t) (tn_text t) \<notin> incoming) turns"

subsection \<open>Live state\<close>

text \<open>The extra object is given as the JSON text it prints to.\<close>

definition set_state ::
  "int \<Rightarrow> string \<Rightarrow> string list option \<Rightarrow> string option \<Rightarrow> session_store \<Rightarrow> string + session_store" where
  "set_state now i files extra st =
     (let files' = map_option (take OPEN_FILES_CAP) files;
          extra' = Option.bind extra (\<lambda>s. if length s \<le> 4000 then Some s else None);
          row = (case st_states st i of
             Some old \<Rightarrow> \<lparr>ss_open_files = or_else files' (ss_open_files old),
               ss_extra = or_else extra' (ss_extra old), ss_updated_at = now\<rparr>
           | None \<Rightarrow> \<lparr>ss_open_files = files', ss_extra = extra', ss_updated_at = now\<rparr>)
      in if has_session i st then Inr (st\<lparr>st_states := (st_states st)(i \<mapsto> row)\<rparr>)
         else Inl ''FOREIGN KEY constraint failed'')"

definition get_open_files :: "string \<Rightarrow> session_store \<Rightarrow> string list" where
  "get_open_files i st =
     (case st_states st i of
        Some row \<Rightarrow> (case ss_open_files row of Some files \<Rightarrow> files | None \<Rightarrow> [])
      | None \<Rightarrow> [])"

subsection \<open>Retention\<close>

definition over_ring :: "(string \<times> turn) list \<Rightarrow> string \<times> turn \<Rightarrow> bool" where
  "over_ring turns t \<longleftrightarrow>
     MAX_TURNS_PER_SESSION < length (filter (\<lambda>x. fst x = fst t \<and> tn_seq (snd t) \<le> tn_seq (snd x)) turns)"

definition prune_sessions :: "int \<Rightarrow> nat \<Rightarrow> session_store \<Rightarrow> (nat \<times> nat \<times> nat) \<times> session_store" where
  "prune_sessions now chunk st =
     (let (a, t1) = drop_first chunk (over_ring (st_turns st)) (st_turns st);
          (b, t2) = drop_first chunk (\<lambda>t. tn_ts (snd t) < now - TURN_TTL_DAYS * DAY_MS) t1;
          (c, rows) = drop_first chunk
            (\<lambda>r. sr_last_seen_at r < now - SESSION_TTL_DAYS * DAY_MS \<and> \<not> list_ex (\<lambda>t. fst t = sr_id r) t2)
            (st_sessions st)
      in ((a, b, c),
          st\<lparr>st_sessions := rows, st_turns := t2,
             st_states := (\<lambda>i. if list_ex (\<lambda>r. sr_id r = i) rows then st_states st i else None)\<rparr>))"

subsection \<open>Policy, windows, log\<close>

type_synonym policy = "string \<Rightarrow> bool option"

definition policy_set :: "string \<Rightarrow> bool \<Rightarrow> policy \<Rightarrow> bool \<times> policy" where
  "policy_set who enabled p =
     (if str_trim who = [] then (False, p) else (True, p(str_trim who \<mapsto> enabled)))"

definition policy_clear :: "string \<Rightarrow> policy \<Rightarrow> bool \<times> policy" where
  "policy_clear who p = (p (str_trim who) \<noteq> None, p(str_trim who := None))"

definition key_principal :: "string \<Rightarrow> string" where
  "key_principal i = ''key:'' @ i"

definition master_principal :: string where
  "master_principal = key_principal ''master''"

definition policy_allows :: "bool \<Rightarrow> policy option \<Rightarrow> string option \<Rightarrow> string option \<Rightarrow> bool" where
  "policy_allows host_enabled p agent app_key =
     (host_enabled
      \<and> (case p of
           None \<Rightarrow> True
         | Some rows \<Rightarrow>
             list_all (\<lambda>who. case rows who of Some b \<Rightarrow> b | None \<Rightarrow> True)
               (List.map_filter (\<lambda>v. Option.bind v filled) [agent, app_key])))"

definition MAX_WINDOW :: int where
  "MAX_WINDOW = 2000000"

text \<open>The windows by model; a ratio of characters per token is the function that divides by it and rounds
  up (a ratio outside \<open>0.5 .. 20\<close> is no ratio).\<close>

record window_row =
  wr_window :: int
  wr_ratio :: "(nat \<Rightarrow> nat) option"

definition upsert_window :: "string \<Rightarrow> int \<Rightarrow> (nat \<Rightarrow> nat) option \<Rightarrow> (string \<Rightarrow> window_row option) \<Rightarrow> (string \<Rightarrow> window_row option)" where
  "upsert_window key window ratio rows =
     (if str_trim key = [] \<or> window \<le> 0 \<or> MAX_WINDOW < window then rows
      else rows(str_trim key \<mapsto> \<lparr>wr_window = window, wr_ratio = ratio\<rparr>))"

definition window_lookup :: "(string \<Rightarrow> window_row option) \<Rightarrow> string option \<Rightarrow> nat \<times> (nat \<Rightarrow> nat)" where
  "window_lookup rows model =
     (case Option.bind (Option.bind model filled) rows of
        None \<Rightarrow> (DEFAULT_WINDOW_TOKENS, default_tokens)
      | Some r \<Rightarrow>
          (if 0 < wr_window r \<and> wr_window r \<le> MAX_WINDOW then nat (wr_window r) else DEFAULT_WINDOW_TOKENS,
           case wr_ratio r of Some f \<Rightarrow> f | None \<Rightarrow> default_tokens))"

definition RING :: nat where
  "RING = 100"

record injection_event =
  ie_ts :: int
  ie_id :: string
  ie_model :: string
  ie_outcome :: injection_outcome

record injection_log =
  il_recent :: "injection_event list"
  il_counts :: "string \<Rightarrow> nat"
  il_total :: nat

definition log_record :: "injection_event \<Rightarrow> injection_log \<Rightarrow> injection_log" where
  "log_record ev l =
     (let r = reason_str (ij_reason (ie_outcome ev))
      in \<lparr>il_recent = drop (length (il_recent l) - (RING - 1)) (il_recent l) @ [ev],
          il_counts = (il_counts l)(r := Suc (il_counts l r)), il_total = Suc (il_total l)\<rparr>)"

definition log_snapshot :: "injection_log \<Rightarrow> nat \<times> (string \<Rightarrow> nat) \<times> injection_event list" where
  "log_snapshot l = (il_total l, il_counts l, rev (il_recent l))"

end
