(* ===== verification/Memory_Laws.thy ===== *)
theory Memory_Laws
  imports Memory
begin

text \<open>
  The table of memories as a state machine: what any sequence of its operations keeps, and what a recall
  may hand to a prompt after it.
\<close>

subsection \<open>Runs\<close>

datatype mem_op =
  Capture memory_input | CaptureBatch "memory_input list" | Forget string | Clear | Pin string bool
  | Bind string scope_assignment | Rewrite string string | Mark "string list" | Supersede string string
  | Unsupersede string | Prune nat | DropSession string

fun mem_step :: "int \<Rightarrow> mem_op \<Rightarrow> mem_store \<Rightarrow> mem_store" where
  "mem_step now (Capture i) st = snd (capture_memory now i st)"
| "mem_step now (CaptureBatch is) st = snd (capture_batch now is st)"
| "mem_step now (Forget i) st = snd (forget i st)"
| "mem_step now Clear st = clear_memories st"
| "mem_step now (Pin i p) st = snd (set_pinned now i p st)"
| "mem_step now (Bind i a) st = snd (assign_scope now i a st)"
| "mem_step now (Rewrite i t) st = snd (update_text now i t st)"
| "mem_step now (Mark ids) st = snd (mark_retrieved now ids st)"
| "mem_step now (Supersede a b) st = snd (supersede now a b st)"
| "mem_step now (Unsupersede i) st = snd (unsupersede i st)"
| "mem_step now (Prune chunk) st = snd (prune_memories now chunk st)"
| "mem_step now (DropSession session) st = delete_session_memories session st"

definition mem_run :: "(int \<times> mem_op) list \<Rightarrow> mem_store \<Rightarrow> mem_store" where
  "mem_run ops st = fold (\<lambda>(now, op). mem_step now op) ops st"

definition empty_memories :: mem_store where
  "empty_memories = \<lparr>mm_rows = [], mm_counter = 0\<rparr>"

lemma mem_run_append: "mem_run (xs @ ys) st = mem_run ys (mem_run xs st)"
  by (simp add: mem_run_def)

lemma mem_run_snoc: "mem_run (ops @ [x]) st = mem_step (fst x) (snd x) (mem_run ops st)"
  by (simp add: mem_run_def case_prod_beta)

text \<open>A relation between the rows before and after: each row after is a new one, or the image of a row
  before under the relation.\<close>

definition rows_from :: "(memory \<Rightarrow> memory \<Rightarrow> bool) \<Rightarrow> (memory \<Rightarrow> bool) \<Rightarrow> mem_store \<Rightarrow> mem_store \<Rightarrow> bool" where
  "rows_from R new st st' \<longleftrightarrow>
     (\<forall>m' \<in> set (mm_rows st'). new m' \<or> (\<exists>m \<in> set (mm_rows st). R m m'))"

lemma rows_from_refl: "(\<And>m. R m m) \<Longrightarrow> rows_from R new st st"
  by (auto simp: rows_from_def)

lemma rows_from_trans:
  "rows_from R new st st' \<Longrightarrow> rows_from R new st' st'' \<Longrightarrow>
     (\<And>a b c. R a b \<Longrightarrow> R b c \<Longrightarrow> R a c) \<Longrightarrow> (\<And>m m'. new m \<Longrightarrow> R m m' \<Longrightarrow> new m') \<Longrightarrow>
     rows_from R new st st''"
  by (fastforce simp: rows_from_def)

lemma rows_from_update: "(\<And>m. R m m) \<Longrightarrow> (\<And>m. P m \<Longrightarrow> R m (f m)) \<Longrightarrow> rows_from R new st (update_where P f st)"
  by (auto simp: rows_from_def update_where_def)

lemma rows_from_subset: "(\<And>m. R m m) \<Longrightarrow> set (mm_rows st') \<subseteq> set (mm_rows st) \<Longrightarrow> rows_from R new st st'"
  by (auto simp: rows_from_def)

lemma set_drop_first: "set (snd (drop_first n P xs)) \<subseteq> set xs"
  by (induction n P xs rule: drop_first.induct) (auto simp: case_prod_beta)

lemma drop_first_keeps: "\<not> P x \<Longrightarrow> x \<in> set xs \<Longrightarrow> x \<in> set (snd (drop_first n P xs))"
  by (induction n P xs rule: drop_first.induct) (auto simp: case_prod_beta)

lemma set_prune: "set (mm_rows (snd (prune_memories now chunk st))) \<subseteq> set (mm_rows st)"
proof -
  have "mm_rows (snd (prune_memories now chunk st))
      = snd (drop_first chunk (\<lambda>m. me_layer m \<in> {''L1'', ''L2''} \<and> \<not> me_pinned m
            \<and> me_updated_at m < now - prune_cutoff_ms)
          (let r1 = snd (drop_first chunk (\<lambda>m. me_layer m = ''L0'' \<and> \<not> me_pinned m
              \<and> me_updated_at m < now - L0_TTL_DAYS * DAY_MS) (mm_rows st))
           in snd (drop_first chunk (\<lambda>m. is_ring_row m \<and> L0_RING_PER_SESSION < ring_number r1 m) r1)))"
    by (simp add: prune_memories_def case_prod_beta Let_def)
  then show ?thesis
    unfolding Let_def by (simp only:) (intro subset_trans [OF set_drop_first] set_drop_first)
qed

subsection \<open>Only a binding makes a memory injectable\<close>

definition is_unbound :: "memory \<Rightarrow> bool" where
  "is_unbound m \<longleftrightarrow> me_scope m = unscoped"

definition same_binding :: "memory \<Rightarrow> memory \<Rightarrow> bool" where
  "same_binding m m' \<longleftrightarrow> me_id m' = me_id m \<and> me_scope m' = me_scope m"

lemma same_binding_refl [simp]: "same_binding m m"
  by (simp add: same_binding_def)

lemma same_binding_trans: "same_binding a b \<Longrightarrow> same_binding b c \<Longrightarrow> same_binding a c"
  by (simp add: same_binding_def)

lemma same_binding_unbound: "is_unbound m \<Longrightarrow> same_binding m m' \<Longrightarrow> is_unbound m'"
  by (simp add: same_binding_def is_unbound_def)

abbreviation bindings_kept :: "mem_store \<Rightarrow> mem_store \<Rightarrow> bool" where
  "bindings_kept \<equiv> rows_from same_binding is_unbound"

lemma kept_trans: "bindings_kept a b \<Longrightarrow> bindings_kept b c \<Longrightarrow> bindings_kept a c"
  by (rule rows_from_trans) (blast intro: same_binding_trans same_binding_unbound)+

lemma kept_update: "(\<And>m. same_binding m (f m)) \<Longrightarrow> bindings_kept st (update_where P f st)"
  by (rule rows_from_update) auto

lemma kept_subset: "set (mm_rows st') \<subseteq> set (mm_rows st) \<Longrightarrow> bindings_kept st st'"
  by (rule rows_from_subset) auto

lemma capture_keeps: "bindings_kept st (snd (capture_memory now i st))"
proof -
  have "bindings_kept st (update_where P (refreshed now i) st)" for P
    by (rule kept_update) (simp add: same_binding_def refreshed_def)
  moreover have "bindings_kept st (st\<lparr>mm_counter := n, mm_rows := mm_rows st @ [new_memory now k i t]\<rparr>)" for n k t
    unfolding rows_from_def using same_binding_refl by (fastforce simp: is_unbound_def new_memory_def)
  moreover have "bindings_kept st (st\<lparr>mm_counter := n\<rparr>)" for n
    by (rule kept_subset) simp
  moreover have "bindings_kept st st" by (rule kept_subset) simp
  ultimately show ?thesis
    by (simp add: capture_memory_def Let_def split: option.split)
qed

lemma capture_all_keeps: "bindings_kept st (snd (capture_all now is st))"
proof (induction "now" "is" st rule: capture_all.induct)
  case (2 "now" i "is" st)
  show ?case
    using capture_keeps [of st "now" i] 2
    by (auto simp: split: prod.split sum.split intro: kept_trans)
qed (simp add: kept_subset)

lemma mark_keeps: "bindings_kept st (snd (mark_retrieved now ids st))"
proof -
  have "bindings_kept st0 (snd (fold (\<lambda>i (n, st). (n + length (filter (\<lambda>m. me_id m = i) (mm_rows st)),
        update_where (\<lambda>m. me_id m = i) (retrieved now) st)) ids (n, st0)))" for n st0
  proof (induction ids arbitrary: n st0)
    case (Cons i ids)
    have "bindings_kept st0 (update_where (\<lambda>m. me_id m = i) (retrieved now) st0)"
      by (rule kept_update) (simp add: same_binding_def retrieved_def)
    then show ?case using Cons.IH by (simp, blast intro: kept_trans)
  qed (simp add: kept_subset)
  then show ?thesis by (simp add: mark_retrieved_def)
qed

lemma step_keeps_bindings:
  assumes "\<forall>i a. op \<noteq> Bind i a"
  shows "bindings_kept st (mem_step now op st)"
proof (cases op)
  case (CaptureBatch "is")
  then show ?thesis by (simp add: capture_batch_def capture_all_keeps kept_subset split: option.split)
next
  case (Pin i p)
  then show ?thesis by (simp add: set_pinned_def, intro kept_update) (simp add: same_binding_def)
next
  case (Rewrite i t)
  have "bindings_kept st (update_where P (\<lambda>m. m\<lparr>me_text := s, me_updated_at := now\<rparr>) st)" for P s
    by (rule kept_update) (simp add: same_binding_def)
  with Rewrite show ?thesis by (simp add: update_text_def Let_def kept_subset)
next
  case (Supersede a b)
  have "bindings_kept st (update_where P (\<lambda>m. m\<lparr>me_superseded_at := Some now\<rparr>) st)" for P
    by (rule kept_update) (simp add: same_binding_def)
  with Supersede show ?thesis by (simp add: supersede_def kept_subset split: option.split)
next
  case (Unsupersede i)
  then show ?thesis by (simp add: unsupersede_def Let_def, intro kept_update) (simp add: same_binding_def)
next
  case (Prune n)
  then show ?thesis by (simp add: kept_subset set_prune)
next
  case (Capture i)
  then show ?thesis by (simp add: capture_keeps)
next
  case (Mark ids)
  then show ?thesis by (simp add: mark_keeps)
next
  case (Forget i)
  then show ?thesis by (simp add: forget_def delete_where_def kept_subset)
next
  case Clear
  then show ?thesis by (simp add: clear_memories_def kept_subset)
next
  case (DropSession s)
  then show ?thesis by (simp add: delete_session_memories_def delete_where_def kept_subset)
next
  case (Bind i a)
  with assms show ?thesis by simp
qed

text \<open>The last binding of an id that was accepted.\<close>

fun last_binding :: "string \<Rightarrow> (int \<times> mem_op) list \<Rightarrow> (string option \<times> string option \<times> bool) option" where
  "last_binding i [] = None"
| "last_binding i (x # xs) =
     (case snd x of
        Bind j a \<Rightarrow>
          (if j = i \<and> binding_of a \<noteq> None then binding_of a else last_binding i xs)
      | _ \<Rightarrow> last_binding i xs)"

definition binding :: "memory \<Rightarrow> string option \<times> string option \<times> bool" where
  "binding m = (ms_project (me_scope m), ms_agent (me_scope m), ms_global (me_scope m))"

lemma binding_bound [simp]: "binding (bound now b m) = b" "me_id (bound now b m) = me_id m"
  "ms_user (me_scope (bound now b m)) = ms_user (me_scope m)"
  by (simp_all add: binding_def bound_def case_prod_beta)

definition bound_by :: "(int \<times> mem_op) list \<Rightarrow> memory \<Rightarrow> bool" where
  "bound_by ops m \<longleftrightarrow>
     ms_user (me_scope m) = ''local''
     \<and> (injectable m \<longrightarrow> last_binding (me_id m) (rev ops) = Some (binding m))"

lemma bind_step:
  assumes "m' \<in> set (mm_rows (snd (assign_scope now i a st)))"
    and "\<forall>m \<in> set (mm_rows st). bound_by ops m" and "binding_of a = Some b" and "snd x = Bind i a"
  shows "bound_by (ops @ [x]) m'"
proof -
  obtain m where m: "m \<in> set (mm_rows st)" "m' = (if me_id m = i then bound now b m else m)"
    using assms(1,3) by (auto simp: assign_scope_def update_where_def)
  have old: "bound_by ops m" using assms(2) m(1) by blast
  show ?thesis
  proof (cases "me_id m = i")
    case True
    then show ?thesis using old m(2) assms(3,4) by (cases b) (simp add: bound_by_def)
  next
    case False
    then show ?thesis using old m(2) assms(4) by (simp add: bound_by_def)
  qed
qed

lemma bound_by_run: "\<forall>m \<in> set (mm_rows (mem_run ops empty_memories)). bound_by ops m"
proof (induction ops rule: rev_induct)
  case Nil
  then show ?case by (simp add: mem_run_def empty_memories_def)
next
  case (snoc x ops)
  let ?st = "mem_run ops empty_memories"
  show ?case
  proof (cases "\<exists>i a. snd x = Bind i a")
    case True
    then obtain i a where x: "snd x = Bind i a" by blast
    show ?thesis
    proof (cases "binding_of a")
      case None
      then show ?thesis using snoc x by (simp add: mem_run_snoc assign_scope_def bound_by_def)
    next
      case (Some b)
      show ?thesis
        unfolding mem_run_snoc x mem_step.simps by (rule ballI, erule bind_step [OF _ snoc Some x])
    qed
  next
    case False
    then have kept: "bindings_kept ?st (mem_step (fst x) (snd x) ?st)" by (intro step_keeps_bindings) auto
    have last: "last_binding i (rev (ops @ [x])) = last_binding i (rev ops)" for i
      using False by (cases "snd x") auto
    have "bound_by (ops @ [x]) m'" if "is_unbound m'" for m'
      using that by (simp add: bound_by_def is_unbound_def injectable_def unscoped_def)
    moreover have "bound_by (ops @ [x]) m'" if "m \<in> set (mm_rows ?st)" "same_binding m m'" for m m'
      using that snoc by (auto simp: bound_by_def same_binding_def injectable_def binding_def last simp del: rev_append)
    ultimately show ?thesis using kept by (auto simp: mem_run_snoc rows_from_def)
  qed
qed

subsection \<open>What a recall hands out\<close>

lemma set_take_sort: "set (take n (sort_key f xs)) \<subseteq> set xs"
  using set_take_subset [of n "sort_key f xs"] by simp

lemma recall_rows:
  assumes "recall_scoped fts now query limit layers sc st = Inr ms" and "m \<in> set ms"
  shows "m \<in> set (mm_rows st)" "in_scope sc m" "me_superseded_at m = None" "unexpired now m"
    "me_layer m \<in> set (case layers of Some ls \<Rightarrow> ls | None \<Rightarrow> LAYERS)"
proof -
  obtain expr where expr: "match_expr (ft_alnum fts) query = Some expr"
    using assms by (cases "match_expr (ft_alnum fts) query") (simp_all add: recall_scoped_def recall_inner_def)
  let ?wanted = "case layers of Some ls \<Rightarrow> ls | None \<Rightarrow> LAYERS"
  let ?found = "recall_sql fts expr (max (limit * CANDIDATE_FACTOR) limit) ?wanted (Some sc) (mm_rows st)"
  have "ms = take limit (rerank fts now (filter (unexpired now) ?found))"
    using assms(1) expr by (simp add: recall_scoped_def recall_inner_def Let_def split: option.splits)
  then have "m \<in> set ?found" "unexpired now m"
    using assms(2) set_take_sort by (fastforce simp: rerank_def)+
  moreover then have "m \<in> set (filter (\<lambda>m. ft_match fts expr (me_text m) \<and> me_layer m \<in> set ?wanted
      \<and> in_scope sc m \<and> me_superseded_at m = None) (mm_rows st))"
    unfolding recall_sql_def using set_take_sort by fastforce
  ultimately show "m \<in> set (mm_rows st)" "in_scope sc m" "me_superseded_at m = None" "unexpired now m"
    "me_layer m \<in> set ?wanted" by auto
qed

definition reaches :: "recall_scope \<Rightarrow> memory \<Rightarrow> (string option \<times> string option \<times> bool) option \<Rightarrow> bool" where
  "reaches sc m b \<longleftrightarrow>
     (case b of
        Some (_, _, True) \<Rightarrow> rs_project sc \<noteq> None \<or> me_pinned m
      | Some (Some p, agent, False) \<Rightarrow>
          rs_project sc = Some p
          \<and> (case (agent, rs_agent sc) of (Some a, Some a') \<Rightarrow> a = a' | _ \<Rightarrow> True)
      | _ \<Rightarrow> False)"

lemma in_scope_reaches:
  assumes "in_scope sc m" and "injectable m \<longrightarrow> b = Some (binding m)"
  shows "reaches sc m b"
proof (cases "ms_global (me_scope m)")
  case True
  then show ?thesis using assms by (auto simp: in_scope_def reaches_def injectable_def binding_def split: option.splits)
next
  case False
  then obtain p where p: "rs_project sc = Some p" "ms_project (me_scope m) = Some p"
    using assms(1) by (auto simp: in_scope_def split: option.splits)
  moreover have "b = Some (binding m)" using assms(2) p by (simp add: injectable_def)
  ultimately show ?thesis
    using assms(1) False by (auto simp: in_scope_def reaches_def binding_def split: option.splits)
qed

text \<open>(C22) A memory reaches a prompt only where somebody put it: after any history of the table, every row
  a scoped recall returns is live, unexpired and of a wanted layer, belongs to the user asked for, and
  the last scope it was deliberately given is global (pinned, where the request has no project), or
  the very project of the request, and its agent when both name one.\<close>

theorem memories_reach_only_their_scope:
  assumes "recall_scoped fts now query limit layers sc (mem_run ops empty_memories) = Inr ms" and "m \<in> set ms"
  shows "me_superseded_at m = None \<and> unexpired now m
    \<and> me_layer m \<in> set (case layers of Some ls \<Rightarrow> ls | None \<Rightarrow> LAYERS)
    \<and> (case rs_user sc of Some u \<Rightarrow> u = ''local'' | None \<Rightarrow> True)
    \<and> reaches sc m (last_binding (me_id m) (rev ops))"
proof -
  note rows = recall_rows [OF assms]
  have by_ops: "bound_by ops m" using rows(1) bound_by_run by blast
  have "reaches sc m (last_binding (me_id m) (rev ops))"
    using in_scope_reaches [OF rows(2)] by_ops by (simp add: bound_by_def)
  moreover have "case rs_user sc of Some u \<Rightarrow> u = ''local'' | None \<Rightarrow> True"
    using rows(2) by_ops by (auto simp: in_scope_def bound_by_def split: option.splits)
  ultimately show ?thesis using rows by blast
qed

subsection \<open>What the operator pinned stays\<close>

definition ids_ok :: "mem_store \<Rightarrow> bool" where
  "ids_ok st \<longleftrightarrow> distinct (map me_id (mm_rows st))"

lemma ids_ok_update: "(\<And>m. me_id (f m) = me_id m) \<Longrightarrow> ids_ok (update_where P f st) = ids_ok st"
proof -
  assume "\<And>m. me_id (f m) = me_id m"
  then have "map me_id (mm_rows (update_where P f st)) = map me_id (mm_rows st)"
    by (simp add: update_where_def)
  then show ?thesis by (simp add: ids_ok_def)
qed

lemma distinct_map_drop_first: "distinct (map f xs) \<Longrightarrow> distinct (map f (snd (drop_first n P xs)))"
proof (induction n P xs rule: drop_first.induct)
  case (2 n P x xs)
  have "f x \<notin> f ` set (snd (drop_first k P xs))" for k
    using 2(3) set_drop_first [of k P xs] by auto
  with 2 show ?case by (auto simp: case_prod_beta)
qed simp

lemma ids_ok_prune: "ids_ok st \<Longrightarrow> ids_ok (snd (prune_memories now chunk st))"
  by (simp add: ids_ok_def prune_memories_def case_prod_beta Let_def distinct_map_drop_first)

lemma ids_ok_delete: "ids_ok st \<Longrightarrow> ids_ok (snd (delete_where P st))"
  by (simp add: ids_ok_def delete_where_def distinct_map inj_on_def)

lemma ids_ok_capture: "ids_ok st \<Longrightarrow> ids_ok (snd (capture_memory now i st))"
proof -
  assume ok: "ids_ok st"
  have "ids_ok (update_where P (refreshed now i) st)" for P
    using ok by (subst ids_ok_update) (simp_all add: refreshed_def)
  moreover have "ids_ok (st\<lparr>mm_counter := n\<rparr>)" for n using ok by (simp add: ids_ok_def)
  moreover have "ids_ok (st\<lparr>mm_counter := n, mm_rows := mm_rows st @ [m]\<rparr>)"
    if "\<not> list_ex (\<lambda>x. me_id x = me_id m) (mm_rows st)" for n m
    using ok that by (auto simp: ids_ok_def list_ex_iff)
  ultimately show ?thesis using ok by (simp add: capture_memory_def Let_def split: option.split)
qed

lemma ids_ok_capture_all: "ids_ok st \<Longrightarrow> ids_ok (snd (capture_all now is st))"
proof (induction "now" "is" st rule: capture_all.induct)
  case (2 "now" i "is" st)
  then show ?case using ids_ok_capture [of st "now" i] by (auto split: prod.split sum.split)
qed simp

lemma ids_ok_mark: "ids_ok st \<Longrightarrow> ids_ok (snd (mark_retrieved now ids st))"
proof -
  have "ids_ok st0 \<Longrightarrow> ids_ok (snd (fold (\<lambda>i (n, st). (n + length (filter (\<lambda>m. me_id m = i) (mm_rows st)),
        update_where (\<lambda>m. me_id m = i) (retrieved now) st)) ids (n, st0)))" for n st0
    by (induction ids arbitrary: n st0) (simp_all add: ids_ok_update retrieved_def)
  then show "ids_ok st \<Longrightarrow> ids_ok (snd (mark_retrieved now ids st))" by (simp add: mark_retrieved_def)
qed

lemma ids_ok_step: "ids_ok st \<Longrightarrow> ids_ok (mem_step now op st)"
proof (cases op)
  case (Capture i)
  then show "ids_ok st \<Longrightarrow> ?thesis" by (simp add: ids_ok_capture)
next
  case (CaptureBatch "is")
  then show "ids_ok st \<Longrightarrow> ?thesis" by (simp add: capture_batch_def ids_ok_capture_all split: option.split)
next
  case (Forget i)
  then show "ids_ok st \<Longrightarrow> ?thesis" using ids_ok_delete [of st] by (simp add: forget_def case_prod_beta)
next
  case Clear
  then show "ids_ok st \<Longrightarrow> ?thesis" by (simp add: clear_memories_def ids_ok_def)
next
  case (DropSession s)
  then show "ids_ok st \<Longrightarrow> ?thesis" by (simp add: delete_session_memories_def ids_ok_delete)
next
  case (Pin i p)
  then show "ids_ok st \<Longrightarrow> ?thesis" by (simp add: set_pinned_def ids_ok_update)
next
  case (Bind i a)
  then show "ids_ok st \<Longrightarrow> ?thesis" by (simp add: assign_scope_def ids_ok_update split: option.split)
next
  case (Rewrite i t)
  then show "ids_ok st \<Longrightarrow> ?thesis" by (simp add: update_text_def Let_def ids_ok_update)
next
  case (Mark ids)
  then show "ids_ok st \<Longrightarrow> ?thesis" by (simp add: ids_ok_mark)
next
  case (Supersede a b)
  then show "ids_ok st \<Longrightarrow> ?thesis" by (simp add: supersede_def ids_ok_update split: option.split)
next
  case (Unsupersede i)
  then show "ids_ok st \<Longrightarrow> ?thesis" by (simp add: unsupersede_def Let_def ids_ok_update)
next
  case (Prune n)
  then show "ids_ok st \<Longrightarrow> ?thesis" by (simp add: ids_ok_prune)
qed

lemma ids_ok_run: "ids_ok (mem_run ops empty_memories)"
proof (induction ops rule: rev_induct)
  case Nil
  then show ?case by (simp add: mem_run_def empty_memories_def ids_ok_def)
next
  case (snoc x ops)
  then show ?case by (simp add: mem_run_snoc ids_ok_step)
qed

text \<open>A row kept by its owner: its id, layer and text stay and it stays live and protected.\<close>

definition protected :: "memory \<Rightarrow> bool" where
  "protected m \<longleftrightarrow> (me_pinned m \<or> me_layer m = ''L3'') \<and> me_superseded_at m = None"

definition still :: "memory \<Rightarrow> memory \<Rightarrow> bool" where
  "still m m' \<longleftrightarrow> me_id m' = me_id m \<and> me_layer m' = me_layer m \<and> me_text m' = me_text m \<and> protected m'"

definition holds :: "memory \<Rightarrow> mem_store \<Rightarrow> bool" where
  "holds m st \<longleftrightarrow> (\<exists>m' \<in> set (mm_rows st). still m m')"

lemma holds_update:
  "holds m st \<Longrightarrow> (\<And>m'. still m m' \<Longrightarrow> P m' \<Longrightarrow> still m (f m')) \<Longrightarrow> holds m (update_where P f st)"
  by (auto simp: holds_def update_where_def)

lemma holds_capture: "holds m st \<Longrightarrow> holds m (snd (capture_memory now i st))"
proof -
  assume h: "holds m st"
  have "holds m (update_where P (refreshed now i) st)" for P
    by (rule holds_update [OF h]) (auto simp: still_def protected_def refreshed_def)
  moreover have "holds m (st\<lparr>mm_counter := n\<rparr>)" for n using h by (simp add: holds_def)
  moreover have "holds m (st\<lparr>mm_counter := n, mm_rows := mm_rows st @ [x]\<rparr>)" for n x
    using h by (auto simp: holds_def)
  ultimately show ?thesis using h by (simp add: capture_memory_def Let_def split: option.split)
qed

lemma holds_capture_all: "holds m st \<Longrightarrow> holds m (snd (capture_all now is st))"
proof (induction "now" "is" st rule: capture_all.induct)
  case (2 "now" i "is" st)
  then show ?case using holds_capture [of m st "now" i] by (auto split: prod.split sum.split)
qed simp

lemma holds_mark: "holds m st \<Longrightarrow> holds m (snd (mark_retrieved now ids st))"
proof -
  have step: "holds m st1 \<Longrightarrow> holds m (update_where P (retrieved now) st1)" for P st1
    by (rule holds_update) (auto simp: still_def protected_def retrieved_def)
  have "holds m st0 \<Longrightarrow> holds m (snd (fold (\<lambda>i (n, st). (n + length (filter (\<lambda>m. me_id m = i) (mm_rows st)),
        update_where (\<lambda>m. me_id m = i) (retrieved now) st)) ids (n, st0)))" for n st0
    by (induction ids arbitrary: n st0) (simp_all add: step)
  then show "holds m st \<Longrightarrow> holds m (snd (mark_retrieved now ids st))" by (simp add: mark_retrieved_def)
qed

lemma holds_prune: "holds m st \<Longrightarrow> holds m (snd (prune_memories now chunk st))"
proof -
  assume "holds m st"
  then obtain m' where m': "m' \<in> set (mm_rows st)" "still m m'" by (auto simp: holds_def)
  then have "me_pinned m' \<or> me_layer m' = ''L3''" unfolding still_def protected_def by blast
  then have "m' \<in> set (mm_rows (snd (prune_memories now chunk st)))"
    using m'(1) by (cases "me_pinned m'") (simp_all add: prune_memories_def case_prod_beta Let_def
        is_ring_row_def drop_first_keeps)
  with m' show ?thesis by (auto simp: holds_def)
qed

lemma holds_supersede:
  assumes "ids_ok st" and "holds m st"
  shows "holds m (snd (supersede now a b st))"
proof -
  obtain m' where m': "m' \<in> set (mm_rows st)" "still m m'" using assms(2) by (auto simp: holds_def)
  show ?thesis
  proof (cases "a = me_id m")
    case True
    obtain x where x: "List.find (\<lambda>y. me_id y = a \<and> me_superseded_at y = None) (mm_rows st) = Some x"
      using m' True by (cases "List.find (\<lambda>y. me_id y = a \<and> me_superseded_at y = None) (mm_rows st)")
        (auto simp: find_None_iff still_def protected_def)
    then have "x \<in> set (mm_rows st)" "me_id x = me_id m'"
      using m'(2) True by (auto simp: find_Some_iff still_def)
    then have "x = m'" using assms(1) m'(1) by (auto simp: ids_ok_def distinct_map inj_on_def)
    then show ?thesis using m' x assms(2) by (auto simp: supersede_def still_def protected_def)
  next
    case False
    then have "holds m (update_where (\<lambda>y. me_id y = a \<and> me_superseded_at y = None)
        (\<lambda>y. y\<lparr>me_superseded_at := Some now\<rparr>) st)"
      by (intro holds_update [OF assms(2)]) (auto simp: still_def)
    then show ?thesis using assms(2) by (simp add: supersede_def split: option.split)
  qed
qed

text \<open>What does not touch the row of \<open>m\<close>: no operation of its owner on it, and no deletion of the
  session its row names at that moment.\<close>

definition spares :: "memory \<Rightarrow> mem_store \<Rightarrow> mem_op \<Rightarrow> bool" where
  "spares m st op \<longleftrightarrow>
     (case op of
        Forget j \<Rightarrow> j \<noteq> me_id m
      | Clear \<Rightarrow> False
      | Rewrite j _ \<Rightarrow> j \<noteq> me_id m
      | Pin j p \<Rightarrow> p \<or> j \<noteq> me_id m
      | DropSession s \<Rightarrow> (\<forall>x \<in> set (mm_rows st). me_id x = me_id m \<longrightarrow> me_session x \<noteq> Some s)
      | _ \<Rightarrow> True)"

fun spared_along :: "memory \<Rightarrow> mem_store \<Rightarrow> (int \<times> mem_op) list \<Rightarrow> bool" where
  "spared_along m st [] = True"
| "spared_along m st ((now, op) # ops) = (spares m st op \<and> spared_along m (mem_step now op st) ops)"

lemma holds_step:
  assumes "ids_ok st" and "holds m st" and "spares m st op"
  shows "holds m (mem_step now op st)"
proof (cases op)
  case (Capture i)
  then show ?thesis using assms by (simp add: holds_capture)
next
  case (CaptureBatch "is")
  then show ?thesis using assms by (simp add: capture_batch_def holds_capture_all split: option.split)
next
  case (Forget i)
  then show ?thesis using assms
    by (auto simp: forget_def delete_where_def holds_def still_def spares_def)
next
  case Clear
  then show ?thesis using assms by (simp add: spares_def)
next
  case (DropSession s)
  then show ?thesis using assms
    by (auto simp: delete_session_memories_def delete_where_def holds_def still_def spares_def)
next
  case (Pin i p)
  have "holds m (update_where (\<lambda>x. me_id x = i) (\<lambda>x. x\<lparr>me_pinned := p, me_updated_at := now\<rparr>) st)"
    using assms(3) Pin by (intro holds_update [OF assms(2)]) (auto simp: still_def protected_def spares_def)
  then show ?thesis using Pin by (simp add: set_pinned_def)
next
  case (Bind i a)
  have "holds m (update_where (\<lambda>x. me_id x = i) (bound now b) st)" for b
    by (rule holds_update [OF assms(2)]) (auto simp: still_def protected_def bound_def case_prod_beta)
  then show ?thesis using Bind assms by (simp add: assign_scope_def split: option.split)
next
  case (Rewrite i t)
  have "holds m (update_where (\<lambda>x. me_id x = i) (\<lambda>x. x\<lparr>me_text := s, me_updated_at := now\<rparr>) st)" for s
    using assms(3) Rewrite by (intro holds_update [OF assms(2)]) (auto simp: still_def spares_def)
  then show ?thesis using Rewrite assms(2) by (simp add: update_text_def Let_def)
next
  case (Mark ids)
  then show ?thesis using assms by (simp add: holds_mark)
next
  case (Supersede a b)
  then show ?thesis using assms by (simp add: holds_supersede)
next
  case (Unsupersede i)
  have "holds m (update_where P (\<lambda>x. x\<lparr>me_superseded_at := None\<rparr>) st)" for P
    by (rule holds_update [OF assms(2)]) (auto simp: still_def protected_def)
  then show ?thesis using Unsupersede by (simp add: unsupersede_def Let_def)
next
  case (Prune n)
  then show ?thesis using assms by (simp add: holds_prune)
qed

lemma holds_run:
  "ids_ok st \<Longrightarrow> holds m st \<Longrightarrow> spared_along m st ops \<Longrightarrow> holds m (mem_run ops st)"
proof (induction ops arbitrary: st)
  case (Cons x ops)
  obtain now op where x: "x = (now, op)" by (cases x)
  with Cons.prems have "holds m (mem_step now op st)" by (simp add: holds_step)
  with Cons x show ?case by (simp add: mem_run_def ids_ok_step)
qed (simp add: mem_run_def)

text \<open>(C29) A pinned memory or a core fact is never dropped, superseded or changed behind its owner's back:
  through any further operations, retention and the newest distillation included, it stays in the table
  with its text, live and protected, unless it is forgotten, cleared, rewritten or unpinned, or the
  session its row names when it happens is deleted with all it recorded.\<close>

theorem protected_memories_survive:
  assumes "m \<in> set (mm_rows (mem_run before empty_memories))" and "protected m"
    and "spared_along m (mem_run before empty_memories) later"
  shows "\<exists>m' \<in> set (mm_rows (mem_run (before @ later) empty_memories)).
    me_id m' = me_id m \<and> me_layer m' = me_layer m \<and> me_text m' = me_text m \<and> protected m'"
proof -
  have "holds m (mem_run before empty_memories)" using assms(1,2) by (auto simp: holds_def still_def)
  from holds_run [OF ids_ok_run this assms(3)] show ?thesis
    by (simp add: holds_def still_def mem_run_append)
qed

subsection \<open>Instances\<close>

definition demo_fts :: "int fts" where
  "demo_fts = \<lparr>ft_alnum = (\<lambda>u. \<not> is_rust_whitespace u), ft_match = (\<lambda>_ _. True),
     ft_score = (\<lambda>_ m. me_created_at m), ft_band = (\<lambda>_ _. 0), ft_decay = (\<lambda>age. - age)\<rparr>"

definition an_input :: "string \<Rightarrow> string \<Rightarrow> memory_input" where
  "an_input layer text = \<lparr>in_layer = layer, in_text = text, in_session = None, in_subject = None,
     in_pinned = False, in_kind = None, in_source = None\<rparr>"

definition a_request :: recall_scope where
  "a_request = \<lparr>rs_user = Some ''local'', rs_project = Some ''p1'', rs_agent = None\<rparr>"

definition demo_history :: "(int \<times> mem_op) list" where
  "demo_history =
     [(1, Capture (an_input ''L1'' ''tests run with make'')), (2, Capture (an_input ''L1'' ''a note of another project'')),
      (3, Bind ''m-L1-10'' (Project ''p1'' None)), (4, Bind ''m-L1-21'' (Project ''p2'' None)),
      (5, Pin ''m-L1-10'' True)]"

definition kept_note :: memory where
  "kept_note = \<lparr>me_id = ''m-L1-10'', me_layer = ''L1'', me_text = ''tests run with make'', me_session = None,
     me_subject = None, me_created_at = 1, me_updated_at = 5, me_pinned = True,
     me_scope = \<lparr>ms_user = ''local'', ms_project = Some ''p1'', ms_agent = None, ms_global = False\<rparr>,
     me_superseded_at = None, me_kind = Some ''project_fact'', me_source = ''inferred'', me_verified = None,
     me_expires_at = None, me_retrieval_count = 0, me_last_retrieved_at = None\<rparr>"

lemma demo_rows: "kept_note \<in> set (mm_rows (mem_run demo_history empty_memories))"
  by code_simp

lemma demo_recall:
  "recall_scoped demo_fts 9 ''how do tests run'' 5 (Some [''L1'', ''L2'', ''L3'']) a_request
     (mem_run demo_history empty_memories) = Inr [kept_note]"
  by code_simp

theorem memories_reach_only_their_scope_witness:
  "kept_note \<in> set [kept_note] \<and> me_superseded_at kept_note = None
    \<and> reaches a_request kept_note (last_binding (me_id kept_note) (rev demo_history))"
  using memories_reach_only_their_scope [OF demo_recall, of kept_note] by simp

definition demo_later :: "(int \<times> mem_op) list" where
  "demo_later = [(10 ^ 12, Prune 100), (10 ^ 12, Supersede ''m-L1-10'' ''m-L1-21''),
     (10 ^ 12, DropSession ''s1'')]"

lemma demo_later_spares: "spared_along kept_note (mem_run demo_history empty_memories) demo_later"
  by code_simp

lemma kept_note_protected: "protected kept_note"
  by (simp add: kept_note_def protected_def)

theorem protected_memories_survive_witness:
  "\<exists>m' \<in> set (mm_rows (mem_run (demo_history @ demo_later) empty_memories)).
    me_id m' = me_id kept_note \<and> me_layer m' = me_layer kept_note
    \<and> me_text m' = me_text kept_note \<and> protected m'"
  by (rule protected_memories_survive [OF demo_rows kept_note_protected demo_later_spares])

text \<open>Recording a text again moves its row to the session that says it now: a pinned note of no session
  that a session merely repeats is deleted with that session.\<close>

lemma repeating_a_note_ties_it_to_the_session:
  "map me_id (mm_rows (mem_run (demo_history
      @ [(6, Capture ((an_input ''L1'' ''tests run with make'')\<lparr>in_session := Some ''s1''\<rparr>)),
         (7, DropSession ''s1'')]) empty_memories)) = [''m-L1-21'']"
  by code_simp

text \<open>A text that is recorded again after its row was superseded refreshes the dead row: what is reported is
  live, what is stored stays out of every recall.\<close>

lemma recorded_again_stays_superseded:
  "(case capture_memory 9 (an_input ''L1'' ''a note of another project'')
      (mem_run (demo_history @ [(6, Supersede ''m-L1-21'' ''m-L1-10'')]) empty_memories) of
      (Inr m, st) \<Rightarrow> (me_superseded_at m, map me_superseded_at (mm_rows st))
    | _ \<Rightarrow> (None, [])) = (None, [None, Some 6])"
  by code_simp

text \<open>Expired rows are dropped after the shortlist is cut, so enough of them hide a live match.\<close>

definition aged :: "nat \<Rightarrow> memory" where
  "aged n = kept_note\<lparr>me_id := show_nat n, me_created_at := int n,
     me_expires_at := (if n < 4 then Some 5 else None)\<rparr>"

lemma expired_rows_hide_a_live_one:
  "recall_scoped demo_fts 9 ''how do tests run'' 1 None a_request
     \<lparr>mm_rows = map aged [0, 1, 2, 3, 4], mm_counter = 5\<rparr> = Inr []"
  by code_simp

end
