(* ===== verification/Session_Laws.thy ===== *)
theory Session_Laws
  imports Session_Context Memory_Laws
begin

text \<open>
  The tables of the sessions as a state machine: which turns a request adds, and what retention leaves;
  and the ring of the injection log as an instance of a bounded log.
\<close>

subsection \<open>Bounded logs\<close>

text \<open>A log that keeps its newest \<open>cap\<close> entries: what a client of one relies on.\<close>

locale newest_log =
  fixes entries :: "'s \<Rightarrow> 'a list"
    and push :: "'a \<Rightarrow> 's \<Rightarrow> 's"
    and cap :: nat
  assumes cap_pos: "0 < cap"
    and entries_push: "entries (push x s) = drop (length (entries s) - (cap - 1)) (entries s) @ [x]"
begin

definition newest :: "'a list \<Rightarrow> 'a list" where
  "newest xs = drop (length xs - cap) xs"

lemma newest_snoc: "newest (xs @ [x]) = drop (length (newest xs) - (cap - 1)) (newest xs) @ [x]"
proof (cases "cap \<le> length xs")
  case True
  then show ?thesis using cap_pos by (simp add: newest_def Suc_diff_le)
next
  case False
  then show ?thesis using cap_pos by (simp add: newest_def)
qed

lemma entries_pushes: "entries s = [] \<Longrightarrow> entries (fold push xs s) = newest xs"
proof (induction xs rule: rev_induct)
  case (snoc x xs)
  then show ?case by (simp add: entries_push newest_snoc)
qed (simp add: newest_def)

lemma length_entries: "entries s = [] \<Longrightarrow> length (entries (fold push xs s)) \<le> cap"
  by (simp add: entries_pushes newest_def)

end

interpretation injections: newest_log il_recent log_record RING
  by unfold_locales (simp_all add: RING_def log_record_def Let_def)

definition empty_log :: injection_log where
  "empty_log = \<lparr>il_recent = [], il_counts = (\<lambda>_. 0), il_total = 0\<rparr>"

text \<open>The ring holds the newest events, the counts are those of all of them.\<close>

lemma injection_log_keeps_counts:
  "log_snapshot (fold log_record evs empty_log)
     = (length evs, \<lambda>r. length (filter (\<lambda>e. reason_str (ij_reason (ie_outcome e)) = r) evs),
        rev (injections.newest evs))"
proof -
  have "il_total (fold log_record evs empty_log) = length evs
    \<and> il_counts (fold log_record evs empty_log)
       = (\<lambda>r. length (filter (\<lambda>e. reason_str (ij_reason (ie_outcome e)) = r) evs))"
    by (induction evs rule: rev_induct) (auto simp: empty_log_def log_record_def Let_def fun_eq_iff)
  moreover have "il_recent empty_log = []" by (simp add: empty_log_def)
  ultimately show ?thesis by (simp add: log_snapshot_def injections.entries_pushes)
qed

subsection \<open>Runs\<close>

datatype session_op =
  Touch string scope | Record string json | PushState string "string list option" "string option" | PruneSessions nat

fun session_step :: "int \<Rightarrow> session_op \<Rightarrow> session_store \<Rightarrow> session_store" where
  "session_step now (Touch i sc) st = touch_session now i sc st"
| "session_step now (Record i body) st = snd (record_turns now i body st)"
| "session_step now (PushState i files extra) st =
     (case set_state now i files extra st of Inr st' \<Rightarrow> st' | Inl _ \<Rightarrow> st)"
| "session_step now (PruneSessions chunk) st = snd (prune_sessions now chunk st)"

definition session_run :: "(int \<times> session_op) list \<Rightarrow> session_store" where
  "session_run ops =
     fold (\<lambda>(now, op). session_step now op) ops \<lparr>st_sessions = [], st_turns = [], st_states = (\<lambda>_. None)\<rparr>"

text \<open>Every turn belongs to a session that is there, and its number is at most the count of the session.\<close>

definition turn_ok :: "session_row list \<Rightarrow> string \<times> turn \<Rightarrow> bool" where
  "turn_ok rows t \<longleftrightarrow>
     (\<exists>r \<in> set rows. sr_id r = fst t \<and> tn_seq (snd t) \<le> sr_turn_count r)"

definition sessions_ok :: "session_store \<Rightarrow> bool" where
  "sessions_ok st \<longleftrightarrow>
     distinct (map sr_id (st_sessions st)) \<and> (\<forall>t \<in> set (st_turns st). turn_ok (st_sessions st) t)"

lemma has_session_iff: "has_session i st \<longleftrightarrow> (\<exists>r \<in> set (st_sessions st). sr_id r = i)"
  by (simp add: has_session_def list_ex_iff)

lemma turn_count_of_row:
  assumes "distinct (map sr_id (st_sessions st))" and "r \<in> set (st_sessions st)"
  shows "turn_count_of (sr_id r) st = sr_turn_count r"
proof -
  have "List.find (\<lambda>x. sr_id x = sr_id r) rows = Some r" if "distinct (map sr_id rows)" "r \<in> set rows" for rows
    using that by (induction rows) (auto simp: image_iff)
  then show ?thesis using assms by (simp add: turn_count_of_def)
qed

lemma seq_le_count:
  assumes "sessions_ok st" and "t \<in> set (turns_of i st)"
  shows "tn_seq t \<le> turn_count_of i st"
proof -
  have "(i, t) \<in> set (st_turns st)" using assms(2) by (auto simp: turns_of_def)
  then obtain r where "r \<in> set (st_sessions st)" "sr_id r = i" "tn_seq t \<le> sr_turn_count r"
    using assms(1) by (fastforce simp: sessions_ok_def turn_ok_def)
  then show ?thesis using turn_count_of_row [of st r] assms(1) by (simp add: sessions_ok_def)
qed

lemma turn_ok_map:
  assumes "turn_ok rows t" and "\<And>r. sr_id (f r) = sr_id r \<and> sr_turn_count r \<le> sr_turn_count (f r)"
  shows "turn_ok (map f rows) t"
proof -
  obtain r where r: "r \<in> set rows" "sr_id r = fst t" "tn_seq (snd t) \<le> sr_turn_count r"
    using assms(1) by (auto simp: turn_ok_def)
  have "f r \<in> set (map f rows)" "sr_id (f r) = fst t" "tn_seq (snd t) \<le> sr_turn_count (f r)"
    using r assms(2) [of r] by auto
  then show ?thesis by (auto simp: turn_ok_def)
qed

lemma on_session_ok:
  assumes "sessions_ok st" and "\<And>r. sr_id (f r) = sr_id r \<and> sr_turn_count r \<le> sr_turn_count (f r)"
  shows "sessions_ok (on_session i f st)"
proof -
  let ?g = "\<lambda>r. if sr_id r = i then f r else r"
  have ids: "map sr_id (map ?g rows) = map sr_id rows" for rows using assms(2) by simp
  have "turn_ok (map ?g (st_sessions st)) t" if "t \<in> set (st_turns st)" for t
    using assms that by (intro turn_ok_map) (auto simp: sessions_ok_def)
  moreover have "st_sessions (on_session i f st) = map ?g (st_sessions st)" "st_turns (on_session i f st) = st_turns st"
    by (simp_all add: on_session_def)
  ultimately show ?thesis using assms(1) unfolding sessions_ok_def by (simp only: ids) blast
qed

lemma touch_ok: "sessions_ok st \<Longrightarrow> sessions_ok (touch_session now i sc st)"
proof (cases "has_session i st")
  case True
  then show "sessions_ok st \<Longrightarrow> ?thesis"
    by (simp add: touch_session_def, intro on_session_ok) (simp_all add: seen_def)
next
  case False
  then show "sessions_ok st \<Longrightarrow> ?thesis"
    by (auto simp: touch_session_def sessions_ok_def has_session_iff turn_ok_def new_session_def)
qed

subsection \<open>Recording\<close>

text \<open>The turns of a tail that are not among the recent ones, numbered from a count on.\<close>

fun numbered :: "int \<Rightarrow> int \<Rightarrow> (string \<times> string) list \<Rightarrow> turn list" where
  "numbered now n [] = []"
| "numbered now n ((role, text) # ts) =
     \<lparr>tn_seq = n + 1, tn_role = role, tn_text = text, tn_ts = now\<rparr> # numbered now (n + 1) ts"

definition unrecorded :: "(string \<times> string) set \<Rightarrow> (string \<times> string) list \<Rightarrow> (string \<times> string) list" where
  "unrecorded recent ts = filter (\<lambda>t. t \<notin> recent) ts"

lemma length_numbered [simp]: "length (numbered now n ts) = length ts"
  by (induction "now" n ts rule: numbered.induct) auto

lemma seq_numbered: "t \<in> set (numbered now n ts) \<Longrightarrow> n < tn_seq t \<and> tn_seq t \<le> n + int (length ts)"
  by (induction "now" n ts rule: numbered.induct) (fastforce)+

lemma write_turns_numbered:
  assumes "has_session i st" and "\<forall>t \<in> set (turns_of i st). tn_seq t \<le> n + int w"
  shows "write_turns now i recent n ts w st =
    (Inr (w + length (unrecorded recent ts)),
     st\<lparr>st_turns := st_turns st @ map (Pair i) (numbered now (n + int w) (unrecorded recent ts))\<rparr>)"
  using assms
proof (induction ts arbitrary: w st)
  case Nil
  then show ?case by (simp add: unrecorded_def)
next
  case (Cons x ts)
  obtain role words where x: "x = (role, words)" by (cases x)
  show ?case
  proof (cases "x \<in> recent")
    case True
    then show ?thesis using Cons x by (simp add: unrecorded_def)
  next
    case False
    let ?t = "\<lparr>tn_seq = n + int w + 1, tn_role = role, tn_text = words, tn_ts = now\<rparr>"
    let ?st = "st\<lparr>st_turns := st_turns st @ [(i, ?t)]\<rparr>"
    have "\<not> list_ex (\<lambda>y. tn_seq y = tn_seq ?t) (turns_of i st)"
      using Cons.prems(2) by (fastforce simp: list_ex_iff)
    then have "insert_turn i ?t st = Inr (1, ?st)" using Cons.prems(1) by (simp add: insert_turn_def)
    moreover have "has_session i ?st" using Cons.prems(1) by (simp add: has_session_def)
    moreover have "\<forall>t \<in> set (turns_of i ?st). tn_seq t \<le> n + int (w + 1)"
      using Cons.prems(2) by (fastforce simp: turns_of_def)
    ultimately show ?thesis
      using False x Cons.IH [of ?st "w + 1"] by (simp add: unrecorded_def add_ac)
  qed
qed

definition recent_pairs :: "string \<Rightarrow> session_store \<Rightarrow> (string \<times> string) set" where
  "recent_pairs i st = set (map (\<lambda>t. (tn_role t, tn_text t)) (newest_turns i 2 st))"

definition new_turns :: "int \<Rightarrow> string \<Rightarrow> json \<Rightarrow> session_store \<Rightarrow> turn list" where
  "new_turns now i body st =
     numbered now (turn_count_of i st) (unrecorded (recent_pairs i st) (tail_of body))"

lemma record_turns_eq:
  assumes "sessions_ok st" and "has_session i st"
  shows "record_turns now i body st =
    (Inr (length (new_turns now i body st)),
     if new_turns now i body st = [] then st
     else on_session i (\<lambda>r. r\<lparr>sr_turn_count := sr_turn_count r + int (length (new_turns now i body st)), sr_last_seen_at := now\<rparr>)
       (st\<lparr>st_turns := st_turns st @ map (Pair i) (new_turns now i body st)\<rparr>))"
proof -
  have "write_turns now i (recent_pairs i st) (turn_count_of i st) (tail_of body) 0 st =
    (Inr (length (new_turns now i body st)), st\<lparr>st_turns := st_turns st @ map (Pair i) (new_turns now i body st)\<rparr>)"
    using write_turns_numbered [OF assms(2), of "turn_count_of i st" 0] seq_le_count [OF assms(1)]
    by (simp add: new_turns_def)
  moreover have "new_turns now i body st = []" if "tail_of body = []"
    using that by (simp add: new_turns_def unrecorded_def)
  ultimately show ?thesis unfolding record_turns_def recent_pairs_def [symmetric] by simp
qed

lemma record_ok_new:
  assumes "sessions_ok st" and "has_session i st"
  shows "sessions_ok (snd (record_turns now i body st))"
proof -
  let ?new = "new_turns now i body st"
  let ?f = "\<lambda>r. r\<lparr>sr_turn_count := sr_turn_count r + int (length ?new), sr_last_seen_at := now\<rparr>"
  let ?g = "\<lambda>r. if sr_id r = i then ?f r else r"
  obtain r where r: "r \<in> set (st_sessions st)" "sr_id r = i" using assms(2) by (auto simp: has_session_iff)
  have count: "turn_count_of i st = sr_turn_count r"
    using turn_count_of_row [of st r] assms(1) r by (simp add: sessions_ok_def)
  have new: "turn_ok (map ?g (st_sessions st)) (i, t)" if "t \<in> set ?new" for t
  proof -
    have "tn_seq t \<le> sr_turn_count r + int (length ?new)"
      using seq_numbered that count by (fastforce simp: new_turns_def)
    then show ?thesis using r by (auto simp: turn_ok_def intro!: bexI [of _ "?g r"])
  qed
  have "turn_ok (map ?g (st_sessions st)) t" if "t \<in> set (st_turns st)" for t
    using assms(1) that by (intro turn_ok_map) (auto simp: sessions_ok_def)
  moreover have "map sr_id (map ?g (st_sessions st)) = map sr_id (st_sessions st)" by simp
  ultimately show ?thesis
    using assms(1) new unfolding record_turns_eq [OF assms]
    by (auto simp: sessions_ok_def on_session_def simp del: map_map)
qed

lemma record_no_session:
  assumes "\<not> has_session i st"
  shows "snd (record_turns now i body st) = st"
proof -
  have refused: "insert_turn i t st = Inl ''FOREIGN KEY constraint failed''" for t
    by (simp add: insert_turn_def assms)
  have written: "write_turns now i recent n ts 0 st = (Inr 0, st) \<or> (\<exists>e. write_turns now i recent n ts 0 st = (Inl e, st))"
    for recent n ts
  proof (induction ts)
    case (Cons x ts)
    then show ?case by (cases x; cases "x \<in> recent") (simp_all add: refused)
  qed simp
  show ?thesis
    using written [of "recent_pairs i st" "turn_count_of i st" "tail_of body"]
    by (auto simp: record_turns_def recent_pairs_def)
qed

lemma record_ok: "sessions_ok st \<Longrightarrow> sessions_ok (snd (record_turns now i body st))"
  using record_ok_new record_no_session by (cases "has_session i st") auto

lemma set_state_ok: "sessions_ok st \<Longrightarrow> set_state now i files extra st = Inr st' \<Longrightarrow> sessions_ok st'"
  by (auto simp: set_state_def sessions_ok_def Let_def split: if_splits)

lemma prune_ok:
  assumes "sessions_ok st"
  shows "sessions_ok (snd (prune_sessions now chunk st))"
proof -
  let ?t1 = "snd (drop_first chunk (over_ring (st_turns st)) (st_turns st))"
  let ?t2 = "snd (drop_first chunk (\<lambda>t. tn_ts (snd t) < now - TURN_TTL_DAYS * DAY_MS) ?t1)"
  let ?P = "\<lambda>r. sr_last_seen_at r < now - SESSION_TTL_DAYS * DAY_MS \<and> \<not> list_ex (\<lambda>t. fst t = sr_id r) ?t2"
  let ?rows = "snd (drop_first chunk ?P (st_sessions st))"
  have turns: "set ?t2 \<subseteq> set (st_turns st)" using set_drop_first by (meson subset_trans)
  have "turn_ok ?rows t" if t: "t \<in> set ?t2" for t
  proof -
    obtain r where r: "r \<in> set (st_sessions st)" "sr_id r = fst t" "tn_seq (snd t) \<le> sr_turn_count r"
      using assms turns t by (auto simp: sessions_ok_def turn_ok_def)
    have "\<not> ?P r" using t r(2) by (auto simp: list_ex_iff)
    then have "r \<in> set ?rows" using r(1) by (rule drop_first_keeps)
    then show ?thesis using r by (auto simp: turn_ok_def)
  qed
  moreover have "distinct (map sr_id ?rows)"
    using assms by (simp add: sessions_ok_def distinct_map_drop_first)
  ultimately show ?thesis by (simp add: sessions_ok_def prune_sessions_def case_prod_beta Let_def)
qed

lemma session_run_snoc: "session_run (ops @ [x]) = session_step (fst x) (snd x) (session_run ops)"
  by (simp add: session_run_def case_prod_beta)

lemma sessions_ok_run: "sessions_ok (session_run ops)"
proof (induction ops rule: rev_induct)
  case Nil
  then show ?case by (simp add: session_run_def sessions_ok_def)
next
  case (snoc x ops)
  then show ?case
    by (cases "snd x") (auto simp: session_run_snoc touch_ok record_ok prune_ok split: sum.split intro: set_state_ok)
qed

text \<open>(C32) A request adds to its session exactly the turns of its tail that are not among the two newest, each
  with the next number, behind every turn there was: nothing is overwritten, renumbered or dropped, and
  no other session is touched.\<close>

theorem requests_append_their_new_turns:
  assumes "has_session i (session_run ops)"
  shows "fst (record_turns now i body (session_run ops)) = Inr (length (new_turns now i body (session_run ops)))
    \<and> turns_of i (snd (record_turns now i body (session_run ops)))
        = turns_of i (session_run ops) @ new_turns now i body (session_run ops)
    \<and> (\<forall>t \<in> set (turns_of i (session_run ops)). \<forall>t' \<in> set (new_turns now i body (session_run ops)).
         tn_seq t < tn_seq t')
    \<and> (\<forall>j. j \<noteq> i \<longrightarrow> turns_of j (snd (record_turns now i body (session_run ops))) = turns_of j (session_run ops))"
proof -
  let ?st = "session_run ops" and ?new = "new_turns now i body (session_run ops)"
  note eq = record_turns_eq [OF sessions_ok_run assms, of "now" body]
  have appended: "turns_of j (snd (record_turns now i body ?st)) = turns_of j ?st @ (if j = i then ?new else [])" for j
    unfolding eq by (cases "?new = []") (simp_all add: turns_of_def on_session_def filter_map comp_def)
  have "tn_seq t < tn_seq t'" if "t \<in> set (turns_of i ?st)" "t' \<in> set ?new" for t t'
    using seq_le_count [OF sessions_ok_run that(1)] seq_numbered that(2) by (fastforce simp: new_turns_def)
  then show ?thesis using appended by (simp add: eq)
qed

definition a_chat :: "string \<Rightarrow> string \<Rightarrow> json" where
  "a_chat answer question = jobj [(''messages'', JArray
     [jobj [(''role'', JString ''assistant''), (''content'', JString answer)],
      jobj [(''role'', JString ''user''), (''content'', JString question)]])]"

definition demo_session :: "(int \<times> session_op) list" where
  "demo_session =
     [(1, Touch ''s'' \<lparr>sc_user = ''local'', sc_project = None, sc_agent = None, sc_session = None\<rparr>),
      (2, Record ''s'' (a_chat ''Done.'' ''Run the tests''))]"

lemma demo_has_session: "has_session ''s'' (session_run demo_session)"
  by code_simp

theorem requests_append_their_new_turns_witness:
  "turns_of ''s'' (snd (record_turns 3 ''s'' (a_chat ''Done.'' ''Fix them'') (session_run demo_session)))
    = turns_of ''s'' (session_run demo_session) @ new_turns 3 ''s'' (a_chat ''Done.'' ''Fix them'') (session_run demo_session)"
  using requests_append_their_new_turns [OF demo_has_session, of 3 "a_chat ''Done.'' ''Fix them''"] by simp

text \<open>A request that follows an edited question is recorded twice when it is sent twice: the answer it shares
  with the last one is behind the two newest turns by then.\<close>

lemma retry_after_an_edit_is_recorded_again:
  "map tn_text (turns_of ''s'' (session_run (demo_session @
      [(3, Record ''s'' (a_chat ''Done.'' ''Fix them'')), (4, Record ''s'' (a_chat ''Done.'' ''Fix them''))])))
   = [''Done.'', ''Run the tests'', ''Fix them'', ''Done.'']"
  by code_simp

end
