(* ===== verification/Memory_Path.thy ===== *)
theory Memory_Path
  imports Session_Context Memory_Laws Gateway_Auth
begin

text \<open>
  The memory path of a request (\<open>context_scope.rs\<close>, \<open>gateway.rs\<close>): from the contract of the client over
  recall, the frozen block and the live context to one system message, and from the answer to the
  capture queue. Every reading of a clock on the path is a number of its own in the environment, so the
  deadline may pass between any two stages.
\<close>

subsection \<open>Frozen blocks\<close>

record frozen_memory =
  fz_block :: string
  fz_items :: nat
  fz_tokens :: nat
  fz_had :: bool
  fz_at :: nat

type_synonym frozen_map = "(string \<times> frozen_memory) list"

definition MEMORY_FREEZE_TTL :: nat where
  "MEMORY_FREEZE_TTL = from_secs 600"

definition MAX_FROZEN_BLOCKS :: nat where
  "MAX_FROZEN_BLOCKS = 256"

definition frozen_fresh :: "nat \<Rightarrow> frozen_memory \<Rightarrow> bool" where
  "frozen_fresh now f \<longleftrightarrow> now - fz_at f < MEMORY_FREEZE_TTL"

definition without_key :: "'k \<Rightarrow> ('k \<times> 'v) list \<Rightarrow> ('k \<times> 'v) list" where
  "without_key k m = filter (\<lambda>e. fst e \<noteq> k) m"

definition frozen_memory_of :: "nat \<Rightarrow> string \<Rightarrow> nat \<Rightarrow> frozen_map \<Rightarrow> frozen_memory option \<times> frozen_map" where
  "frozen_memory_of now key budget m =
     (case map_of m key of
        None \<Rightarrow> (None, m)
      | Some f \<Rightarrow>
          (if \<not> frozen_fresh now f then (None, without_key key m)
           else (if fz_tokens f \<le> budget then Some f else None, m)))"

text \<open>The entry frozen first; the order in which the map lists entries frozen at the same moment is its
  own.\<close>

fun oldest_key :: "frozen_map \<Rightarrow> string option" where
  "oldest_key [] = None"
| "oldest_key ((k, f) # m) =
     (case oldest_key m of
        None \<Rightarrow> Some k
      | Some k' \<Rightarrow> (case map_of m k' of
          Some f' \<Rightarrow> if fz_at f \<le> fz_at f' then Some k else Some k'
        | None \<Rightarrow> Some k))"

definition freeze_memory :: "string \<Rightarrow> frozen_memory \<Rightarrow> frozen_map \<Rightarrow> frozen_map" where
  "freeze_memory key f m =
     (let swept = filter (\<lambda>e. frozen_fresh (fz_at f) (snd e)) m;
          room = (if MAX_FROZEN_BLOCKS \<le> length swept \<and> map_of swept key = None
            then (case oldest_key swept of Some k \<Rightarrow> without_key k swept | None \<Rightarrow> swept) else swept)
      in (key, f) # without_key key room)"

subsection \<open>State and environment\<close>

record memory_core =
  mc_enabled :: bool
  mc_workspace_root :: "string option"
  mc_has_store :: bool
  mc_memories :: mem_store
  mc_sessions :: session_store
  mc_policy :: policy
  mc_windows :: "string \<Rightarrow> window_row option"
  mc_queue :: capture_queue
  mc_frozen :: frozen_map
  mc_log :: injection_log

text \<open>The instants of the deadline and of the frozen map, the wall clock at each statement, and which
  stages the database refuses.\<close>

record 's path_env =
  pe_fts :: "'s fts"
  pe_start :: nat
  pe_deadline :: nat
  pe_at_recall :: nat
  pe_at_lookup :: nat
  pe_at_freeze :: nat
  pe_at_context :: nat
  pe_at_prepend :: nat
  pe_ms_recall :: int
  pe_ms_touch :: int
  pe_ms_record :: int
  pe_ms_state :: int
  pe_recall_fails :: bool
  pe_touch_fails :: bool
  pe_record_fails :: bool
  pe_state_fails :: bool
  pe_recent_fails :: bool

definition set_memory_enabled :: "bool \<Rightarrow> memory_core \<Rightarrow> memory_core" where
  "set_memory_enabled on c = c\<lparr>mc_enabled := on, mc_frozen := []\<rparr>"

definition app_key_for :: "string \<Rightarrow> app_key list \<Rightarrow> string option" where
  "app_key_for presented keys = (if presented = [] then None else match_app_keys presented keys)"

definition key_principal_for :: "master_key_lookup \<Rightarrow> app_key list \<Rightarrow> string \<Rightarrow> string option" where
  "key_principal_for master keys presented =
     (if presented = [] then None
      else if (case master of Ready k \<Rightarrow> constant_time_eq presented k | _ \<Rightarrow> False) then Some master_principal
      else map_option key_principal (app_key_for presented keys))"

definition record_injection :: "int \<Rightarrow> nat \<Rightarrow> string \<Rightarrow> injection_outcome \<Rightarrow> memory_core \<Rightarrow> memory_core" where
  "record_injection now n model out c =
     c\<lparr>mc_log := log_record \<lparr>ie_ts = now, ie_id = ''gw-'' @ show_nat n, ie_model = model, ie_outcome = out\<rparr>
         (mc_log c)\<rparr>"

definition policy_of :: "memory_core \<Rightarrow> policy option" where
  "policy_of c = (if mc_has_store c then Some (mc_policy c) else None)"

definition operator_allows :: "memory_core \<Rightarrow> scope \<Rightarrow> string option \<Rightarrow> bool" where
  "operator_allows c sc who = policy_allows (mc_enabled c) (policy_of c) (sc_agent sc) who"

definition effective_mode :: "request_meta \<Rightarrow> bool \<Rightarrow> memory_mode" where
  "effective_mode meta allowed =
     (if \<not> allowed then MemOff else case rm_mode meta of Some m \<Rightarrow> m | None \<Rightarrow> MemOn)"

definition refusal_reason :: "memory_core \<Rightarrow> request_meta \<Rightarrow> bool \<Rightarrow> skip_reason" where
  "refusal_reason c meta allowed =
     (if \<not> mc_enabled c then Disabled
      else if \<not> allowed then PrincipalOff
      else if rm_mode meta = Some MemWrite then WriteOnly
      else ClientOff)"

definition skipped :: "string \<Rightarrow> skip_reason \<Rightarrow> injection_outcome" where
  "skipped scope_hdr reason =
     \<lparr>ij_injected = False, ij_reason = reason, ij_items = 0, ij_context = 0, ij_tokens = 0, ij_scope = scope_hdr\<rparr>"

definition in_time :: "'s path_env \<Rightarrow> nat \<Rightarrow> bool" where
  "in_time env now \<longleftrightarrow> now - pe_start env < pe_deadline env"

definition freeze_key :: "scope \<Rightarrow> request_meta \<Rightarrow> string option \<Rightarrow> string" where
  "freeze_key sc meta who = as_header_value sc @ ''|'' @ resolve_session meta sc who"

subsection \<open>The memory block\<close>

definition item_of :: "memory \<Rightarrow> memory_item" where
  "item_of m = \<lparr>mi_id = me_id m, mi_layer = me_layer m, mi_text = me_text m, mi_pinned = me_pinned m\<rparr>"

definition recall_scope_of :: "scope \<Rightarrow> recall_scope" where
  "recall_scope_of sc = \<lparr>rs_user = Some (sc_user sc), rs_project = sc_project sc, rs_agent = sc_agent sc\<rparr>"

definition injected_layers :: "string list" where
  "injected_layers = [''L1'', ''L2'', ''L3'']"

definition path_recall :: "('s::linorder) path_env \<Rightarrow> scope \<Rightarrow> json \<Rightarrow> memory_core \<Rightarrow> string + memory list" where
  "path_recall env sc body c =
     (if pe_recall_fails env then Inl ''database is locked''
      else recall_scoped (pe_fts env) (pe_ms_recall env) (recall_query body) 20 (Some injected_layers)
             (recall_scope_of sc) (mc_memories c))"

definition chosen_items :: "memory list \<Rightarrow> nat \<Rightarrow> memory_item list" where
  "chosen_items ms budget = trim_items (rank_items (map item_of ms)) budget"

text \<open>The block, its items, and whether there were candidates; \<open>None\<close> for a recall that failed.\<close>

definition memory_block ::
  "('s::linorder) path_env \<Rightarrow> scope \<Rightarrow> string \<Rightarrow> nat \<Rightarrow> json \<Rightarrow> memory_core
     \<Rightarrow> (string \<times> nat \<times> bool) option \<times> memory_core" where
  "memory_block env sc key budget body c =
     (case frozen_memory_of (pe_at_lookup env) key budget (mc_frozen c) of
        (Some f, m) \<Rightarrow> (Some (fz_block f, fz_items f, fz_had f), c\<lparr>mc_frozen := m\<rparr>)
      | (None, m) \<Rightarrow>
          (case path_recall env sc body c of
             Inl _ \<Rightarrow> (None, c\<lparr>mc_frozen := m\<rparr>)
           | Inr ms \<Rightarrow>
               (let items = chosen_items ms budget; block = compose_block items; had = (ms \<noteq> []);
                    f = \<lparr>fz_block = block, fz_items = length items, fz_tokens = text_tokens block,
                         fz_had = had, fz_at = pe_at_freeze env\<rparr>
                in (Some (block, length items, had),
                    c\<lparr>mc_frozen := if block = [] then m else freeze_memory key f m\<rparr>))))"

subsection \<open>Live context\<close>

definition turn_cost :: "turn \<Rightarrow> nat" where
  "turn_cost t = text_tokens (tn_text t) + BULLET_OVERHEAD_TOKENS"

text \<open>From the newest turn back, as long as they fit.\<close>

fun fitting :: "nat \<Rightarrow> nat \<Rightarrow> turn list \<Rightarrow> turn list" where
  "fitting budget used [] = []"
| "fitting budget used (t # ts) =
     (if budget < used + turn_cost t then [] else t # fitting budget (used + turn_cost t) ts)"

definition context_of :: "string list \<Rightarrow> turn list \<Rightarrow> nat \<Rightarrow> string \<times> nat" where
  "context_of open_files turns budget =
     (let used = (if open_files = [] then 0
            else text_tokens (join '', '' open_files) + BULLET_OVERHEAD_TOKENS);
          chosen = rev (fitting budget used (rev turns))
      in if open_files = [] \<and> chosen = [] then ([], 0)
         else (compose_context_block open_files chosen, length chosen))"

definition pushed_state :: "'s path_env \<Rightarrow> request_meta \<Rightarrow> string \<Rightarrow> session_store \<Rightarrow> session_store" where
  "pushed_state env meta i st =
     (case rm_open_files meta of
        Some files \<Rightarrow>
          (case set_state (pe_ms_state env) i (Some files) None st of
             Inr st' \<Rightarrow> if pe_state_fails env then st else st'
           | Inl _ \<Rightarrow> st)
      | None \<Rightarrow> st)"

definition recorded_tail :: "'s path_env \<Rightarrow> request_meta \<Rightarrow> string \<Rightarrow> json \<Rightarrow> session_store \<Rightarrow> session_store" where
  "recorded_tail env meta i body st =
     (if (case rm_mode meta of Some m \<Rightarrow> allows_write m | None \<Rightarrow> True) \<and> \<not> pe_record_fails env
      then snd (record_turns (pe_ms_record env) i body st) else st)"

definition live_context ::
  "'s path_env \<Rightarrow> request_meta \<Rightarrow> scope \<Rightarrow> json \<Rightarrow> nat \<Rightarrow> string option \<Rightarrow> session_store
     \<Rightarrow> (string \<times> nat) \<times> session_store" where
  "live_context env meta sc body budget who st =
     (let i = resolve_session meta sc who in
      if pe_touch_fails env then (([], 0), st)
      else
        (let st1 = touch_session (pe_ms_touch env) i sc st;
             st2 = pushed_state env meta i (recorded_tail env meta i body st1)
         in if pe_recent_fails env then (([], 0), st2)
            else (context_of (get_open_files i st2)
                    (without_duplicates (recent_turns i 12 st2) (incoming_hashes body)) budget, st2)))"

subsection \<open>Injection\<close>

definition path_budget :: "memory_core \<Rightarrow> request_meta \<Rightarrow> json \<Rightarrow> nat" where
  "path_budget c meta body =
     (let (window, tokens) = window_lookup (mc_windows c) (get_str body ''model'')
      in min (case rm_budget meta of Some b \<Rightarrow> b | None \<Rightarrow> plan_budget_for tokens body window) MAX_BUDGET_TOKENS)"

definition memory_share :: "nat \<Rightarrow> nat" where
  "memory_share budget = budget * 3 div 5"

text \<open>From the first check of the deadline on, with the body already stripped.\<close>

definition inject_blocks ::
  "('s::linorder) path_env \<Rightarrow> request_meta \<Rightarrow> scope \<Rightarrow> string option \<Rightarrow> json \<Rightarrow> memory_core
     \<Rightarrow> injection_outcome \<times> json \<times> memory_core" where
  "inject_blocks env meta sc who body c =
     (let hdr = as_header_value sc; skip = (\<lambda>r c. (skipped hdr r, body, c)) in
      if \<not> in_time env (pe_at_recall env) then skip MissedDeadline c
      else
        (let budget = path_budget c meta body in
         case memory_block env sc (freeze_key sc meta who) (memory_share budget) body c of
           (None, c1) \<Rightarrow> skip RecallFailed c1
         | (Some (memories, items, had), c1) \<Rightarrow>
             (if \<not> in_time env (pe_at_context env) then skip MissedDeadline c1
              else
                (let ((live, n), st) = live_context env meta sc body (budget - text_tokens memories) who (mc_sessions c1);
                     c2 = c1\<lparr>mc_sessions := st\<rparr>;
                     block = memories @ live
                 in if \<not> in_time env (pe_at_prepend env) then skip MissedDeadline c2
                    else if block = [] then skip (if had then BelowFloor else NoCandidates) c2
                    else case prepend_system_message body block of
                      None \<Rightarrow> skip NoCandidates c2
                    | Some body' \<Rightarrow>
                        (\<lparr>ij_injected = True, ij_reason = Injected, ij_items = items, ij_context = n,
                          ij_tokens = text_tokens block, ij_scope = hdr\<rparr>, body', c2)))))"

definition inject_context ::
  "('s::linorder) path_env \<Rightarrow> (string \<Rightarrow> string option) \<Rightarrow> string option \<Rightarrow> json option \<Rightarrow> json \<Rightarrow> memory_core
     \<Rightarrow> injection_outcome \<times> json \<times> memory_core" where
  "inject_context env headers who source body c =
     (let src = (case source of Some s \<Rightarrow> s | None \<Rightarrow> body);
          meta = meta_parse headers src;
          sc = meta_resolve meta src (mc_workspace_root c);
          body' = snd (strip_aip_metadata body);
          app_key = (if mc_enabled c then who else None);
          allowed = operator_allows c sc app_key
      in if \<not> allows_read (effective_mode meta allowed)
         then (skipped (as_header_value sc) (refusal_reason c meta allowed), body', c)
         else if \<not> mc_has_store c then (skipped (as_header_value sc) NoStore, body', c)
         else inject_blocks env meta sc app_key body' c)"

subsection \<open>Capture\<close>

definition request_id :: "string \<Rightarrow> nat \<Rightarrow> string" where
  "request_id boot n = ''gw-'' @ boot @ ''-'' @ show_nat n"

text \<open>What the capture of an exchange needs before the model answers; the text of the answer is added when
  it is known.\<close>

definition prepare_capture ::
  "(string \<Rightarrow> string option) \<Rightarrow> string option \<Rightarrow> string \<Rightarrow> json \<Rightarrow> nat \<Rightarrow> memory_core \<Rightarrow> (string \<Rightarrow> capture_request) option" where
  "prepare_capture headers who boot body n c =
     (if \<not> mc_has_store c then None
      else
        (let meta = meta_parse headers body;
             sc = meta_resolve meta body (mc_workspace_root c);
             app_key = (if mc_enabled c then who else None)
         in Some (\<lambda>asst. \<lparr>cr_request_id = request_id boot n,
              cr_session = Some (resolve_session meta sc app_key), cr_scope = sc,
              cr_user_text = recall_query body, cr_asst_text = Some asst,
              cr_model = Some (or_blank (get_str body ''model'')),
              cr_principal = classify_principal sc (rm_internal meta),
              cr_writes_allowed = (case rm_mode meta of Some m \<Rightarrow> allows_write m | None \<Rightarrow> True)
                \<and> operator_allows c sc app_key,
              cr_had_tools = involves_tools body\<rparr>)))"

definition finish_capture :: "int \<Rightarrow> (string \<Rightarrow> capture_request) \<Rightarrow> string \<Rightarrow> memory_core \<Rightarrow> enqueue_result \<times> memory_core" where
  "finish_capture now prep asst c =
     (let (res, q) = enqueue now (prep asst) (mc_queue c) in (res, c\<lparr>mc_queue := q\<rparr>))"

text \<open>What a handler does with an exchange before it dispatches: it injects into the body, which strips the
  contract, logs the outcome, and takes what the capture needs from the body that remains.\<close>

definition memory_exchange ::
  "('s::linorder) path_env \<Rightarrow> (string \<Rightarrow> string option) \<Rightarrow> string option \<Rightarrow> json option \<Rightarrow> string \<Rightarrow> int
     \<Rightarrow> nat \<Rightarrow> string \<Rightarrow> json \<Rightarrow> memory_core
     \<Rightarrow> injection_outcome \<times> json \<times> (string \<Rightarrow> capture_request) option \<times> memory_core" where
  "memory_exchange env headers who source boot now n model body c =
     (let (out, body', c1) = inject_context env headers who source body c;
          c2 = record_injection now n model out c1
      in (out, body', prepare_capture headers who boot body' n c2, c2))"

end
