(* ===== verification/Memory_Path_Laws.thy ===== *)
theory Memory_Path_Laws
  imports Memory_Path
begin

text \<open>
  What the memory path may do to a request, what its frozen blocks hold, and how large a block gets.
\<close>

subsection \<open>Injection only prepends\<close>

lemma inject_blocks_cases:
  assumes "inject_blocks env meta sc who body c = (out, body', c')"
  shows "(ij_injected out \<longleftrightarrow> ij_reason out = Injected)
    \<and> (\<not> ij_injected out \<longrightarrow> body' = body)
    \<and> (ij_injected out \<longrightarrow>
         in_time env (pe_at_recall env) \<and> in_time env (pe_at_context env) \<and> in_time env (pe_at_prepend env)
         \<and> (\<exists>block. block \<noteq> [] \<and> prepend_system_message body block = Some body'))"
proof -
  let ?hdr = "as_header_value sc" and ?budget = "path_budget c meta body"
  obtain mb c1 where mb: "memory_block env sc (freeze_key sc meta who) (memory_share ?budget) body c = (mb, c1)"
    by (cases "memory_block env sc (freeze_key sc meta who) (memory_share ?budget) body c")
  have skip: ?thesis if "(out, body', c') = (skipped ?hdr r, body, d)" "r \<noteq> Injected" for r d
    using that by (simp add: skipped_def)
  show ?thesis
  proof (cases "in_time env (pe_at_recall env)")
    case False
    then show ?thesis using assms by (intro skip [of MissedDeadline c]) (simp_all add: inject_blocks_def Let_def)
  next
    case recall: True
    show ?thesis
    proof (cases mb)
      case None
      then show ?thesis using assms recall mb
        by (intro skip [of RecallFailed c1]) (simp_all add: inject_blocks_def Let_def)
    next
      case (Some p)
      obtain memories items had where p: "p = (memories, items, had)" by (cases p)
      obtain live n st where live: "live_context env meta sc body (?budget - text_tokens memories) who (mc_sessions c1)
          = ((live, n), st)"
        by (metis prod.exhaust)
      let ?c2 = "c1\<lparr>mc_sessions := st\<rparr>"
      define block where "block = memories @ live"
      have "inject_blocks env meta sc who body c =
          (if \<not> in_time env (pe_at_context env) then (skipped ?hdr MissedDeadline, body, c1)
           else if \<not> in_time env (pe_at_prepend env) then (skipped ?hdr MissedDeadline, body, ?c2)
           else if block = [] then (skipped ?hdr (if had then BelowFloor else NoCandidates), body, ?c2)
           else case prepend_system_message body block of
             None \<Rightarrow> (skipped ?hdr NoCandidates, body, ?c2)
           | Some b \<Rightarrow> (\<lparr>ij_injected = True, ij_reason = Injected, ij_items = items, ij_context = n,
                ij_tokens = text_tokens block, ij_scope = ?hdr\<rparr>, b, ?c2))"
        unfolding block_def using recall mb Some p live by (simp add: inject_blocks_def Let_def cong: if_cong)
      note unfolded = this [unfolded assms]
      show ?thesis
      proof (cases "in_time env (pe_at_context env) \<and> in_time env (pe_at_prepend env) \<and> block \<noteq> []")
        case False
        then obtain r d where "(out, body', c') = (skipped ?hdr r, body, d)" "r \<noteq> Injected"
          using unfolded by (auto split: if_splits)
        then show ?thesis by (rule skip)
      next
        case True
        then show ?thesis
        proof (cases "prepend_system_message body block")
          case None
          with True unfolded show ?thesis by (intro skip [of NoCandidates ?c2]) simp_all
        next
          case (Some b)
          with True unfolded have "out = \<lparr>ij_injected = True, ij_reason = Injected, ij_items = items, ij_context = n,
                ij_tokens = text_tokens block, ij_scope = ?hdr\<rparr>" "body' = b" by simp_all
          with Some True recall show ?thesis by (simp, intro exI [of _ block]) simp
        qed
      qed
    qed
  qed
qed

lemma inject_context_cases:
  assumes "inject_context env headers who source body c = (out, body', c')"
    and meta: "meta = meta_parse headers (case source of Some s \<Rightarrow> s | None \<Rightarrow> body)"
    and sc: "sc = meta_resolve meta (case source of Some s \<Rightarrow> s | None \<Rightarrow> body) (mc_workspace_root c)"
  shows "(\<not> ij_injected out \<longrightarrow> body' = snd (strip_aip_metadata body))
    \<and> (ij_injected out \<longrightarrow>
         mc_enabled c
         \<and> (operator_allows c sc who \<and> (case rm_mode meta of Some m \<Rightarrow> allows_read m | None \<Rightarrow> True))
         \<and> in_time env (pe_at_recall env) \<and> in_time env (pe_at_context env) \<and> in_time env (pe_at_prepend env)
         \<and> (\<exists>block. block \<noteq> [] \<and> prepend_system_message (snd (strip_aip_metadata body)) block = Some body'))
    \<and> (mc_enabled c \<or> (ij_reason out = Disabled \<and> c' = c))"
proof -
  define app_key where "app_key = (if mc_enabled c then who else None)"
  define allowed where "allowed = operator_allows c sc app_key"
  have "inject_context env headers who source body c =
      (if \<not> allows_read (effective_mode meta allowed)
       then (skipped (as_header_value sc) (refusal_reason c meta allowed), snd (strip_aip_metadata body), c)
       else if \<not> mc_has_store c then (skipped (as_header_value sc) NoStore, snd (strip_aip_metadata body), c)
       else inject_blocks env meta sc app_key (snd (strip_aip_metadata body)) c)"
    unfolding inject_context_def Let_def sc meta app_key_def allowed_def by (rule refl)
  note unfolded = this [unfolded assms(1)]
  have enabled: "mc_enabled c" if "allowed"
    using that by (simp add: allowed_def operator_allows_def policy_allows_def)
  show ?thesis
  proof (cases "allows_read (effective_mode meta allowed) \<and> mc_has_store c")
    case True
    then have ok: "allowed" and mode: "case rm_mode meta of Some m \<Rightarrow> allows_read m | None \<Rightarrow> True"
      by (simp_all add: effective_mode_def split: if_splits option.splits)
    have on: "mc_enabled c" by (rule enabled [OF ok])
    then have "operator_allows c sc who" using ok unfolding allowed_def app_key_def by simp
    moreover note on
    moreover have "inject_blocks env meta sc app_key (snd (strip_aip_metadata body)) c = (out, body', c')"
      using unfolded True by (simp only: if_True if_False not_True_eq_False simp_thms)
    note inject_blocks_cases [OF this]
    ultimately show ?thesis using mode by blast
  next
    case False
    then have "(out, body', c') = (skipped (as_header_value sc) (if allows_read (effective_mode meta allowed) then NoStore
        else refusal_reason c meta allowed), snd (strip_aip_metadata body), c)"
      unfolding unfolded by (cases "allows_read (effective_mode meta allowed)") (simp_all only: if_True if_False simp_thms)
    then have out: "out = skipped (as_header_value sc) (if allows_read (effective_mode meta allowed) then NoStore
        else refusal_reason c meta allowed)" and "body' = snd (strip_aip_metadata body)" "c' = c"
      by blast+
    moreover have "\<not> ij_injected out" by (simp add: out skipped_def)
    moreover have "mc_enabled c \<or> ij_reason out = Disabled"
    proof (cases "allows_read (effective_mode meta allowed)")
      case True
      then show ?thesis using enabled by (simp add: effective_mode_def split: if_splits)
    next
      case False
      then show ?thesis by (simp add: out skipped_def refusal_reason_def)
    qed
    ultimately show ?thesis by blast
  qed
qed

text \<open>(C23) The memory path changes a request in two ways only: it strips the gateway's own metadata, and it
  may prepend one system message, and this only when memory is on, the operator allows the principal, the
  client did not decline and every stage was within the deadline; with memory off it touches nothing else.\<close>

theorem injection_only_prepends:
  assumes "inject_context env headers who source body c = (out, body', c')"
  shows "(\<not> ij_injected out \<longrightarrow> body' = snd (strip_aip_metadata body))
    \<and> (ij_injected out \<longrightarrow>
         mc_enabled c
         \<and> (let src = (case source of Some s \<Rightarrow> s | None \<Rightarrow> body); meta = meta_parse headers src
            in operator_allows c (meta_resolve meta src (mc_workspace_root c)) who
               \<and> (case rm_mode meta of Some m \<Rightarrow> allows_read m | None \<Rightarrow> True))
         \<and> in_time env (pe_at_recall env) \<and> in_time env (pe_at_context env) \<and> in_time env (pe_at_prepend env)
         \<and> (\<exists>block. block \<noteq> [] \<and> prepend_system_message (snd (strip_aip_metadata body)) block = Some body'))
    \<and> (mc_enabled c \<or> (ij_reason out = Disabled \<and> c' = c))"
  using inject_context_cases [OF assms refl refl] unfolding Let_def .

subsection \<open>Frozen blocks\<close>

datatype freeze_op = Freeze string frozen_memory | Lookup nat string nat | Toggle

fun freeze_step :: "freeze_op \<Rightarrow> frozen_map \<Rightarrow> frozen_map" where
  "freeze_step (Freeze k f) m = freeze_memory k f m"
| "freeze_step (Lookup now k budget) m = snd (frozen_memory_of now k budget m)"
| "freeze_step Toggle m = []"

definition freeze_run :: "freeze_op list \<Rightarrow> frozen_map" where
  "freeze_run ops = fold freeze_step ops []"

text \<open>What was last frozen under a key, newest operation first.\<close>

fun last_frozen :: "string \<Rightarrow> freeze_op list \<Rightarrow> frozen_memory option" where
  "last_frozen k [] = None"
| "last_frozen k (Freeze k' f # ops) = (if k' = k then Some f else last_frozen k ops)"
| "last_frozen k (Lookup _ _ _ # ops) = last_frozen k ops"
| "last_frozen k (Toggle # ops) = None"

definition frozen_ok :: "freeze_op list \<Rightarrow> frozen_map \<Rightarrow> bool" where
  "frozen_ok ops m \<longleftrightarrow>
     distinct (map fst m) \<and> length m \<le> MAX_FROZEN_BLOCKS
     \<and> list_all (\<lambda>(k, f). last_frozen k (rev ops) = Some f) m"

lemma oldest_key_in: "oldest_key m = Some k \<Longrightarrow> k \<in> fst ` set m"
  by (induction m rule: oldest_key.induct) (auto split: option.splits if_splits)

lemma oldest_key_None: "oldest_key m = None \<longleftrightarrow> m = []"
  by (induction m rule: oldest_key.induct) (auto split: option.splits if_splits)

lemma distinct_without_key: "distinct (map fst m) \<Longrightarrow> distinct (map fst (without_key k m))"
  by (simp add: without_key_def distinct_map inj_on_def)

lemma length_without_key:
  assumes "k \<in> fst ` set m"
  shows "Suc (length (without_key k m)) \<le> length m"
proof -
  have "length (without_key k m) < length m"
    unfolding without_key_def using assms by (auto intro!: length_filter_less)
  then show ?thesis by simp
qed

definition room_for :: "string \<Rightarrow> frozen_memory \<Rightarrow> frozen_map \<Rightarrow> frozen_map" where
  "room_for key f m =
     (let swept = filter (\<lambda>e. frozen_fresh (fz_at f) (snd e)) m
      in if MAX_FROZEN_BLOCKS \<le> length swept \<and> map_of swept key = None
         then (case oldest_key swept of Some k \<Rightarrow> without_key k swept | None \<Rightarrow> swept) else swept)"

lemma freeze_memory_room: "freeze_memory key f m = (key, f) # without_key key (room_for key f m)"
  by (simp add: freeze_memory_def room_for_def Let_def)

lemma room_for_subset: "set (room_for key f m) \<subseteq> set m"
  by (auto simp: room_for_def Let_def without_key_def split: option.splits if_splits)

lemma room_for_distinct: "distinct (map fst m) \<Longrightarrow> distinct (map fst (room_for key f m))"
proof -
  assume "distinct (map fst m)"
  then have "distinct (map fst (filter (\<lambda>e. frozen_fresh (fz_at f) (snd e)) m))"
    by (simp add: distinct_map inj_on_def)
  then show ?thesis by (simp add: room_for_def Let_def distinct_without_key split: option.split)
qed

lemma room_for_length:
  assumes "length m \<le> MAX_FROZEN_BLOCKS"
  shows "Suc (length (without_key key (room_for key f m))) \<le> MAX_FROZEN_BLOCKS"
proof -
  let ?swept = "filter (\<lambda>e. frozen_fresh (fz_at f) (snd e)) m"
  have le: "length ?swept \<le> MAX_FROZEN_BLOCKS" using assms length_filter_le le_trans by blast
  have shorter: "length (without_key k x) \<le> length x" for k and x :: frozen_map
    by (simp add: without_key_def)
  show ?thesis
  proof (cases "map_of ?swept key")
    case (Some f')
    then have "key \<in> fst ` set ?swept" using map_of_eq_None_iff [of ?swept key] by auto
    with Some le length_without_key [of key ?swept] show ?thesis by (simp add: room_for_def Let_def)
  next
    case None
    show ?thesis
    proof (cases "MAX_FROZEN_BLOCKS \<le> length ?swept")
      case True
      then have "?swept \<noteq> []" by (auto simp: MAX_FROZEN_BLOCKS_def)
      then obtain k where k: "oldest_key ?swept = Some k" using oldest_key_None by blast
      then have "Suc (length (without_key k ?swept)) \<le> length ?swept"
        by (intro length_without_key oldest_key_in)
      then show ?thesis
        using shorter [of key "without_key k ?swept"] None True le k by (simp add: room_for_def Let_def)
    next
      case False
      then show ?thesis using shorter [of key ?swept] None by (simp add: room_for_def Let_def)
    qed
  qed
qed

lemma frozen_ok_subset:
  "frozen_ok ops m \<Longrightarrow> (\<And>k. last_frozen k (rev (ops @ [x])) = last_frozen k (rev ops)) \<Longrightarrow>
     frozen_ok (ops @ [x]) (filter P m)"
  by (auto simp: frozen_ok_def list_all_iff distinct_map inj_on_def intro: le_trans [OF length_filter_le])

lemma frozen_ok_lookup:
  assumes "frozen_ok ops m"
  shows "frozen_ok (ops @ [Lookup now k budget]) (snd (frozen_memory_of now k budget m))"
proof -
  have same: "last_frozen k' (rev (ops @ [Lookup now k budget])) = last_frozen k' (rev ops)" for k'
    by simp
  have "frozen_ok (ops @ [Lookup now k budget]) (without_key k m)"
    unfolding without_key_def using frozen_ok_subset [OF assms same] .
  moreover have "frozen_ok (ops @ [Lookup now k budget]) m"
    using frozen_ok_subset [OF assms same, of "\<lambda>_. True"] by simp
  ultimately show ?thesis by (simp add: frozen_memory_of_def split: option.split)
qed

lemma frozen_ok_freeze:
  assumes "frozen_ok ops m"
  shows "frozen_ok (ops @ [Freeze key f]) (freeze_memory key f m)"
proof -
  have "distinct (map fst (without_key key (room_for key f m)))"
    using assms by (simp add: frozen_ok_def distinct_without_key room_for_distinct)
  moreover have "Suc (length (without_key key (room_for key f m))) \<le> MAX_FROZEN_BLOCKS"
    using assms by (simp add: frozen_ok_def room_for_length)
  moreover have "last_frozen k (rev (ops @ [Freeze key f])) = Some g"
    if "(k, g) \<in> set (without_key key (room_for key f m))" for k g
  proof -
    have "(k, g) \<in> set m" "k \<noteq> key" using that room_for_subset by (auto simp: without_key_def)
    then show ?thesis using assms by (auto simp: frozen_ok_def list_all_iff)
  qed
  ultimately show ?thesis
    by (auto simp: frozen_ok_def freeze_memory_room list_all_iff without_key_def)
qed

lemma frozen_ok_run: "frozen_ok ops (freeze_run ops)"
proof (induction ops rule: rev_induct)
  case Nil
  then show ?case by (simp add: frozen_ok_def freeze_run_def MAX_FROZEN_BLOCKS_def)
next
  case (snoc x ops)
  have "freeze_run (ops @ [x]) = freeze_step x (freeze_run ops)" by (simp add: freeze_run_def)
  then show ?case
    using snoc by (cases x) (simp_all add: frozen_ok_freeze frozen_ok_lookup del: rev_append,
        simp add: frozen_ok_def MAX_FROZEN_BLOCKS_def)
qed

text \<open>(C30) At most 256 blocks are held, and a block is handed out only if it is the last one frozen under its
  key since memory was switched, less than ten minutes ago, and fits the budget of the request.\<close>

theorem frozen_blocks_are_few_fresh_and_fit:
  "length (freeze_run ops) \<le> 256
   \<and> (case fst (frozen_memory_of now key budget (freeze_run ops)) of
        Some f \<Rightarrow> last_frozen key (rev ops) = Some f \<and> now - fz_at f < from_secs 600 \<and> fz_tokens f \<le> budget
      | None \<Rightarrow> True)"
proof -
  note ok = frozen_ok_run [of ops, unfolded frozen_ok_def]
  have "length (freeze_run ops) \<le> 256" using ok by (simp add: MAX_FROZEN_BLOCKS_def)
  moreover have "last_frozen key (rev ops) = Some f \<and> now - fz_at f < from_secs 600 \<and> fz_tokens f \<le> budget"
    if "fst (frozen_memory_of now key budget (freeze_run ops)) = Some f" for f
  proof -
    have "map_of (freeze_run ops) key = Some f" "frozen_fresh now f" "fz_tokens f \<le> budget"
      using that by (auto simp: frozen_memory_of_def split: option.splits if_splits)
    moreover then have "last_frozen key (rev ops) = Some f"
      using ok by (auto simp: list_all_iff dest!: map_of_SomeD)
    ultimately show ?thesis by (simp add: frozen_fresh_def MEMORY_FREEZE_TTL_def)
  qed
  ultimately show ?thesis by (simp split: option.split)
qed

subsection \<open>How large a block gets\<close>

lemma length_chars_le: "length (chars s) \<le> length s"
  by (induction s rule: chars.induct) (auto intro: le_trans [OF _ length_dropWhile_le])

lemma length_chars_drop: "length (chars (dropWhile is_cont s)) \<le> length (chars s)"
  by (cases s) auto

lemma length_chars_append: "length (chars (a @ b)) \<le> length (chars a) + length (chars b)"
proof (induction a rule: chars.induct)
  case (2 c cs)
  show ?case
  proof (cases "\<forall>x \<in> set cs. is_cont x")
    case True
    then have "dropWhile is_cont (cs @ b) = dropWhile is_cont b" and "dropWhile is_cont cs = []"
      by (simp_all add: dropWhile_append)
    then show ?thesis using length_chars_drop [of b] by simp
  next
    case False
    then have "dropWhile is_cont (cs @ b) = dropWhile is_cont cs @ b" by (auto simp: dropWhile_append)
    then show ?thesis using 2 by simp
  qed
qed simp

lemma length_chars_map:
  "(\<And>c. is_cont (g c) = is_cont c) \<Longrightarrow> length (chars (map g s)) = length (chars s)"
  by (induction s rule: chars.induct) (simp_all add: dropWhile_map comp_def)

lemma char_count_one_line [simp]: "char_count (one_line s) = char_count s"
  unfolding char_count_def one_line_def by (rule length_chars_map) (auto simp: is_cont_def)

lemma char_count_bullet: "char_count (memory_bullet c) \<le> 3 + char_count (mi_text c)"
proof -
  have "char_count (memory_bullet c)
      \<le> char_count ''- '' + (char_count (one_line (take_chars MAX_ITEM_CHARS (mi_text c))) + char_count [CHR 0x0A])"
    unfolding char_count_def memory_bullet_def by (meson length_chars_append add_left_mono le_trans)
  moreover have "char_count ''- '' \<le> 2" "char_count [CHR 0x0A] \<le> 1"
    using length_chars_le [of "''- ''"] length_chars_le [of "[CHR 0x0A]"] by (simp_all add: char_count_def)
  moreover have "char_count (one_line (take_chars MAX_ITEM_CHARS (mi_text c))) \<le> char_count (mi_text c)"
    by (simp, simp add: char_count_def)
  ultimately show ?thesis by linarith
qed

lemma default_tokens_step: "default_tokens (a + (3 + c)) \<le> default_tokens a + (default_tokens c + 1)"
proof -
  have sum: "(x + y) div 7 \<le> x div 7 + (y div 7 + 1)" for x y :: nat
  proof -
    have "x mod 7 + y mod 7 < 2 * 7" using mod_less_divisor [of 7 x] mod_less_divisor [of 7 y] by linarith
    then have "(x mod 7 + y mod 7) div 7 \<le> 1" using less_mult_imp_div_less [of "x mod 7 + y mod 7" 2 7] by simp
    then show ?thesis unfolding div_add1_eq [of x y 7] by simp
  qed
  have "2 * (a + (3 + c)) + 6 = (2 * a + 6) + (2 * c + 6)" by simp
  then show ?thesis unfolding default_tokens_def using sum [of "2 * a + 6" "2 * c + 6"] by simp
qed

lemma default_tokens_mono: "a \<le> b \<Longrightarrow> default_tokens a \<le> default_tokens b"
  by (simp add: default_tokens_def div_le_mono)

lemma bullets_tokens:
  "default_tokens (a + char_count (concat (map memory_bullet items))) + 7 * length items
     \<le> default_tokens a + sum_list (map item_cost items)"
proof (induction items arbitrary: a)
  case (Cons c items)
  let ?rest = "concat (map memory_bullet items)"
  have "char_count (concat (map memory_bullet (c # items))) \<le> char_count (memory_bullet c) + char_count ?rest"
    using length_chars_append by (simp add: char_count_def)
  also have "\<dots> \<le> (3 + char_count (mi_text c)) + char_count ?rest" using char_count_bullet by simp
  finally have "default_tokens (a + char_count (concat (map memory_bullet (c # items))))
      \<le> default_tokens ((a + (3 + char_count (mi_text c))) + char_count ?rest)"
    by (intro default_tokens_mono) simp
  with Cons.IH [of "a + (3 + char_count (mi_text c))"] default_tokens_step [of a "char_count (mi_text c)"]
  show ?case by (simp add: item_cost_def text_tokens_def BULLET_OVERHEAD_TOKENS_def)
qed (simp add: char_count_def)

lemma compose_block_tokens: "text_tokens (compose_block items) \<le> sum_list (map item_cost items)"
proof (cases "items = []")
  case True
  then show ?thesis by (simp add: compose_block_def text_tokens_def default_tokens_def char_count_def)
next
  case False
  let ?bullets = "concat (map memory_bullet items)"
  have "char_count (compose_block items) \<le> length ''<memory>'' + (1 + (char_count ?bullets + (length ''</memory>'' + 1)))"
    using False length_chars_append [of "''<memory>''" "[CHR 0x0A] @ ?bullets @ ''</memory>'' @ [CHR 0x0A]"]
      length_chars_append [of "[CHR 0x0A]" "?bullets @ ''</memory>'' @ [CHR 0x0A]"]
      length_chars_append [of ?bullets "''</memory>'' @ [CHR 0x0A]"]
      length_chars_le [of "''<memory>''"] length_chars_le [of "[CHR 0x0A]"] length_chars_le [of "''</memory>'' @ [CHR 0x0A]"]
    unfolding char_count_def compose_block_def by simp
  then have "char_count (compose_block items) \<le> 19 + char_count ?bullets" by simp
  then have "text_tokens (compose_block items) \<le> default_tokens (19 + char_count ?bullets)"
    unfolding text_tokens_def by (rule default_tokens_mono)
  moreover have "default_tokens 19 = 6" by (simp add: default_tokens_def)
  moreover have "1 \<le> length items" using False by (cases items) simp_all
  ultimately show ?thesis using bullets_tokens [of 19 items] by linarith
qed

lemma trim_cost:
  "sum_list (map item_cost (trim_items (rank_items cs) budget))
     \<le> max budget (sum_list (map item_cost (filter mi_pinned cs)))"
proof (cases "sum_list (map item_cost (filter mi_pinned cs)) \<le> budget")
  case True
  then show ?thesis
    using trim_from_cost [OF True, of "filter (\<lambda>c. \<not> mi_pinned c) cs"] by (simp add: trim_ranked)
next
  case False
  then show ?thesis by (simp add: trim_ranked trim_from_full)
qed

text \<open>(C31) The memory block never costs more tokens than its share of the budget, unless the pinned memories
  alone do, and these are all in it, first and in the order of their rank.\<close>

theorem memory_block_fits_its_share:
  "text_tokens (compose_block (chosen_items ms budget))
     \<le> max budget (sum_list (map item_cost (filter mi_pinned (map item_of ms))))
   \<and> take (length (filter me_pinned ms)) (chosen_items ms budget) = map item_of (filter me_pinned ms)
   \<and> set (chosen_items ms budget) \<subseteq> item_of ` set ms"
proof -
  have pinned: "filter mi_pinned (map item_of ms) = map item_of (filter me_pinned ms)"
    by (simp add: filter_map comp_def item_of_def)
  have "set (chosen_items ms budget) \<subseteq> item_of ` set ms"
    unfolding chosen_items_def trim_ranked using trim_from_subset by fastforce
  moreover have "text_tokens (compose_block (chosen_items ms budget))
     \<le> max budget (sum_list (map item_cost (filter mi_pinned (map item_of ms))))"
    unfolding chosen_items_def using compose_block_tokens trim_cost le_trans by blast
  moreover have "take (length (filter me_pinned ms)) (chosen_items ms budget) = map item_of (filter me_pinned ms)"
    unfolding chosen_items_def trim_ranked pinned by simp
  ultimately show ?thesis by blast
qed

subsection \<open>What the capture sees of the contract\<close>







definition secret_turn :: json where
  "secret_turn = jobj
     [(''metadata'', jobj [(''aip'', jobj [(''memory'', JString ''off'')])]),
      (''messages'', JArray [jobj [(''role'', JString ''user''),
         (''content'', JString ''Please keep this between the two of us, do not remember it.'')]])]"

definition demo_core :: memory_core where
  "demo_core = \<lparr>mc_enabled = True, mc_workspace_root = None, mc_has_store = True,
     mc_memories = mem_run demo_history empty_memories,
     mc_sessions = \<lparr>st_sessions = [], st_turns = [], st_states = (\<lambda>_. None)\<rparr>, mc_policy = (\<lambda>_. None),
     mc_windows = (\<lambda>_. None), mc_queue = \<lparr>cq_rows = [], cq_next = 1\<rparr>, mc_frozen = [],
     mc_log = \<lparr>il_recent = [], il_counts = (\<lambda>_. 0), il_total = 0\<rparr>\<rparr>"

definition path_demo_env :: "int path_env" where
  "path_demo_env = \<lparr>pe_fts = demo_fts, pe_start = 0, pe_deadline = from_millis 15, pe_at_recall = 1, pe_at_lookup = 2,
     pe_at_freeze = 3, pe_at_context = 4, pe_at_prepend = 5, pe_ms_recall = 9, pe_ms_touch = 9, pe_ms_record = 9,
     pe_ms_state = 9, pe_recall_fails = False, pe_touch_fails = False, pe_record_fails = False,
     pe_state_fails = False, pe_recent_fails = False\<rparr>"

text \<open>The injection heeds the opt-out in the body, the capture does not.\<close>

lemma body_opt_out_is_captured:
  "rm_mode (meta_parse (\<lambda>_. None) secret_turn) = Some MemOff"
  "map_option (\<lambda>r. cr_writes_allowed (r ''Sure.''))
     (prepare_capture (\<lambda>_. None) None ''b'' (snd (strip_aip_metadata secret_turn)) 1 demo_core) = Some True"
  by code_simp+

text \<open>Two projects whose names are not ASCII share a frozen block when the client names the session: the key
  is built from the header form of the scope, which drops what is not ASCII.\<close>

lemma freeze_key_mixes_projects:
  "freeze_key \<lparr>sc_user = ''local'', sc_project = Some [CHR 0xC3, CHR 0xBC], sc_agent = None, sc_session = Some ''s''\<rparr> meta who
   = freeze_key \<lparr>sc_user = ''local'', sc_project = Some [CHR 0xC3, CHR 0xB6], sc_agent = None, sc_session = Some ''s''\<rparr> meta who
   \<or> rm_session meta = None"
  by (cases "rm_session meta")
    (simp_all add: freeze_key_def resolve_session_def as_header_value_def sanitize_header_value_def or_dash_def
      is_header_char_def)

definition path_demo_headers :: "string \<Rightarrow> string option" where
  "path_demo_headers = [''aip-project'' \<mapsto> ''p1'', ''aip-session'' \<mapsto> ''s1'']"

lemma injection_only_prepends_witness:
  "let (out, body', c') = inject_context path_demo_env path_demo_headers None None secret_turn demo_core
   in (\<not> ij_injected out \<longrightarrow> body' = snd (strip_aip_metadata secret_turn))
      \<and> (ij_injected out \<longrightarrow> in_time path_demo_env (pe_at_recall path_demo_env))"
proof -
  obtain out body' c' where run: "inject_context path_demo_env path_demo_headers None None secret_turn demo_core = (out, body', c')"
    by (rule prod_cases3)
  show ?thesis unfolding run using injection_only_prepends [OF run] by simp
qed

end
