(* ===== verification/Spec2Isabelle.thy ===== *)
theory Spec2Isabelle
  imports Router_Laws Normalizer Interpreter Compress Bridge_Laws Gateway_Routes Master_Key
    Capture_Laws Session_Laws Memory_Path_Laws
begin

text \<open>The request core of the AI Provider IDE (\<open>src/apps/desktop/src-tauri/src/core\<close>), modelled
  and proved correct.

  The program stands between its clients (the desktop window, an OpenAI-, Anthropic- or Gemini-style
  HTTP gateway, its own system AI) and the upstream AI providers a user has configured. Every
  request names a model; the core resolves it to providers that carry it, orders their API keys,
  dials them one after another until one serves, accounts for what happened and remembers which
  keys to leave alone. That decision core is what this development models; what talks to the
  network, the database, the operating system or a third-party engine is a parameter.

  \<^bold>\<open>Theories and sources\<close> (all under \<open>core/\<close>)

  \<^item> \<open>Prelude\<close>: machine integers of the width the code uses, durations, stable partition.
  \<^item> \<open>Rust_Str\<close>: the operations on UTF-8 strings the code calls (a string is its list of bytes).
  \<^item> \<open>Json\<close>: \<open>serde_json::Value\<close> and its accessors; an object is its entries in the order of keys.
  \<^item> \<open>Rows\<close>: the rows the core decides on (\<open>persist.rs\<close>) and a planned attempt (\<open>planner.rs\<close>).
  \<^item> \<open>Client_Gate\<close>, \<open>Taxonomy\<close>: what a refusal means (\<open>client_gate.rs\<close>, \<open>engine/taxonomy.rs\<close>).
  \<^item> \<open>Health\<close>: the tracker of keys, breaker and cooldowns (\<open>engine/health.rs\<close>).
  \<^item> \<open>Attempt\<close>: errors, outcomes, dispositions, budgets, waits (\<open>engine/attempt.rs\<close>).
  \<^item> \<open>Limiter\<close>: permits per provider, and threads interleaving on them (\<open>limiter.rs\<close>).
  \<^item> \<open>Pricing\<close>: cost estimates and the order of prices (\<open>pricing.rs\<close>).
  \<^item> \<open>Planner\<close>: from a requested model to the attempts in order (\<open>planner.rs\<close>).
  \<^item> \<open>Engine\<close>: what both loops share (\<open>engine.rs\<close>, \<open>usage.rs\<close>).
  \<^item> \<open>Adapter\<close>: argument and reply types, the tally of a stream (\<open>adapter.rs\<close>).
  \<^item> \<open>Image_Loop\<close>, \<open>Text_Loop\<close>: the two failover loops (\<open>engine/image.rs\<close>, \<open>engine/text.rs\<close>).
  \<^item> \<open>Ledger\<close>: the window of usage rows (\<open>ledger.rs\<close>).
  \<^item> \<open>Router\<close>, \<open>Router_Laws\<close>: the router that puts all of it together (\<open>router.rs\<close>).
  \<^item> \<open>Json_Path\<close>, \<open>Template\<close>: selectors into a JSON document and request bodies filled from a
    template, the two languages of a manifest (\<open>jsonpath.rs\<close>, \<open>template.rs\<close>).
  \<^item> \<open>Tool_Schema\<close>, \<open>Normalizer\<close>: what the gateway does to a request before it is routed: tool
    schemas, system messages, tool results, parameters (\<open>gateway_normalizer.rs\<close>).
  \<^item> \<open>Manifest_View\<close>, \<open>Manifest\<close>, \<open>Tool_Calls\<close>, \<open>Dialect\<close>: what a manifest declares, headers and URLs,
    tool calls in every framing, and the spelling of messages in a dialect (\<open>manifest_view.rs\<close>,
    \<open>http_port.rs\<close>, \<open>manifest.rs\<close>, \<open>dialect_shaping.rs\<close>).
  \<^item> \<open>Answer_Text\<close>, \<open>Interp_Request\<close>, \<open>Dial\<close>, \<open>Text_Stream\<close>, \<open>Text_Stream_Laws\<close>, \<open>Interpreter\<close>:
    the declarative adapter: the text of an answer, the request, the event stream as the ticks the
    text loop consumes, and the calls against an HTTP port (\<open>interpreter.rs\<close>).
  \<^item> \<open>Bridge_Policy\<close>, \<open>Assistant_Stream\<close>, \<open>Tool_Registry\<close>, \<open>Router_Bridge\<close>, \<open>Bridge_Laws\<close>: the bridge
    that answers a gateway request with the router, in turns in which the model may call the
    gateway's tools (\<open>bridge_policy.rs\<close>, \<open>tool_wire.rs\<close>, \<open>assistant_stream.rs\<close>, \<open>tool_registry.rs\<close>,
    \<open>router_bridge.rs\<close>).
  \<^item> \<open>Gateway_Wire\<close>, \<open>Ingress_Openai\<close>, \<open>Openai_Laws\<close>, \<open>Ingress_Anthropic\<close>, \<open>Anthropic_Laws\<close>,
    \<open>Ingress_Gemini\<close>, \<open>Ingress_Responses\<close>, \<open>Gateway_Routes\<close>: the routes of the gateway in its four
    dialects, each a translation of the request into the chat form, a call of the bridge, and the
    messages of the bridge framed as the dialect's events or as one object (\<open>gateway_handlers.rs\<close>,
    \<open>gateway_anthropic.rs\<close>, \<open>gateway_gemini.rs\<close>, \<open>gateway_responses.rs\<close>, \<open>gateway.rs\<close>; the table of
    idempotency keys is \<open>persist.rs\<close>).
  \<^item> \<open>Compress\<close>: fitting a conversation into a context window (\<open>compress.rs\<close>).
  \<^item> \<open>App_Keys\<close>, \<open>Gateway_Auth\<close>, \<open>Master_Key\<close>: who may use the gateway: the keys of apps and of the user
    interface with their memo (\<open>persist.rs\<close>, \<open>ui_session.rs\<close>, \<open>gateway.rs\<close>), the gate with its backoff
    and spend limits, and the cache of the master key (\<open>gateway.rs\<close>); the threads at the memo, at the table of
    failures and at the cache interleave.
  \<^item> \<open>Context_Scope\<close>, \<open>Session_Context\<close>, \<open>Session_Laws\<close>, \<open>Memory\<close>, \<open>Memory_Laws\<close>: the contract of the memory layer with a
    client, budgets and blocks (\<open>context_scope.rs\<close>), what is kept of a session, the policy per principal,
    the windows of the models and the log of injections (\<open>session_context.rs\<close>, \<open>principal.rs\<close>,
    \<open>model_context.rs\<close>, \<open>injection_log.rs\<close>), and the table of memories with its operations and recall
    (\<open>memory.rs\<close>).
  \<^item> \<open>Capture\<close>, \<open>Capture_Laws\<close>: what is taken of a turn, how secrets are struck from it, and the queue in
    which it waits to be distilled (\<open>capture.rs\<close>).
  \<^item> \<open>Memory_Path\<close>, \<open>Memory_Path_Laws\<close>: the path of one request through the memory layer
    (\<open>context_scope.rs\<close>, \<open>gateway.rs\<close>).

  \<^bold>\<open>How state and operations correspond\<close>

  A struct is a record with its fields under a short prefix, an enum a datatype with its variants. A
  mutex-protected map is a value passed and returned: one critical section is one function. What the
  code cannot decide itself is an argument: the clock and the cancel flag are reads of an abstract
  world \<open>'w\<close> (\<open>te_now\<close>, \<open>te_instant\<close>, \<open>te_cancelled\<close>), the adapters are functions of that world that
  answer with the callbacks, chunks, breaks and deadline ticks of one dial, JSON parsing and printing
  are arguments where only their result matters, and the ledger's sink is a function on its own
  state. Nothing is assumed of them except where a property names it.

  \<^bold>\<open>What the lemmas show\<close>

  Health and waits: the breaker counts what its contract says, is half-open rather than a latch, and
  the wait a client is told is the wait a key is held for. Limiter: the count is the number of
  permits out and the cap holds under every interleaving. Planner: a plan holds exactly the usable
  attempts, in the order of the rotation strategy, with failing carriers behind. Text loop: the
  answer comes from one dial, the chain is bounded, slots come back, every further dial and every wait
  is admitted within the budget of the plan (how long a dial takes is up to the adapter). Router: one honest ledger row per request, completions respect exclusions, the wait for a
  cooldown ends. Ledger: memory is the newest rows. Paths and templates: both languages mean what
  their reference semantics says. Normalizer: every request that leaves it satisfies the pairing of
  tool calls and results, the schema dialect and the role rules its target needs. Adapter: a stream
  is a function of its lines, reports once and loses no text unless it breaks; tool calls survive
  both directions; the secret reaches the marked headers only. Bridge: a request is answered once, runs
  only the tools it was granted, and every result of a tool answers a call declared before it.
  Ingress: every stream is well formed in its dialect and spells the text of the answer, translated
  conversations lose nothing, and the retry of a request that took its idempotency slot is replayed or
  refused, unless the table cannot be read. Compression: the
  oldest whole turns go, and nothing else. Gate: exactly the known keys pass, wrong ones back off until
  their address shows a known one, a rotated master key is dead at once, and a revoked app key too unless
  its row appeared between the two reads of one request. Memory: a row reaches only the scope it was given, what is
  pinned stays unless its owner or the deletion of its session removes it, a request gets at most one system message more, blocks fit their budget and stay fresh,
  scrubbing strikes the marked words, and distillation keeps to its hourly budget.

  \<^bold>\<open>Interfaces\<close>

  A locale states what a client of a component relies on, and is interpreted on the model:
  \<open>assoc_map\<close> (JSON objects), \<open>key_gate\<close> (the tracker as the planner sees it), \<open>slot_pool\<close> (the
  limiter as the loops see it, interpreted for the limiter and for an optional one),
  \<open>newest_log\<close> (a log that keeps its newest entries, interpreted for the log of injections) and
  \<open>dialect_stream\<close> (what a streaming dialect owes to the answers of the bridge, interpreted for all
  four).

  \<^bold>\<open>Bounds and fuel\<close>

  No definition uses fuel. The text loop ends because every dial uses up one of the
  \<open>1 + SERVER_ERROR_REPROBES_MAX\<close> dials its queue entry allows (\<open>dials_left\<close>, at most four times the
  budget); the cooldown wait is a \<open>partial_function\<close>, whose termination under a clock that sleeping
  advances is a property. Integers that can wrap are written with their wrap-around (\<open>wrap_i64\<close>,
  \<open>u64_as_i64\<close>, \<open>inc_u32\<close>) and properties that exclude it say so.

  \<^bold>\<open>Not modelled\<close>

  Floating-point conversions (\<open>clamp_concurrency\<close>, \<open>parse_pricing\<close>): their result is an argument.
  Network, database, cryptography, browser, JavaScript engine and process control: third-party code
  the sources call. Of the database, the tables the core decides on are modelled as lists of rows with the
  meaning of the SQL the sources send; migrations and locking are not. The concurrency of several
  requests is modelled for the limiter, the cache of the master key, the memo of the app keys and the table
  of failed authentications; everything else runs one request at a time. Failures of the database are
  modelled where the code goes on without it (idempotency, the memory path, the memo of the app keys).
  The backfill of memories by a migration and the 503 a route makes itself when the bridge sends nothing
  in time are left out. The full-text engine and the
  floating-point ranking of recall, the Unicode table of alphanumeric characters and how an \<open>f64\<close> prints
  are arguments. The browser tools, agents, sandbox, admin routes, admission and the desktop shell are
  left out.\<close>

end
